(* ===== verification/Prelude.thy ===== *)
theory Prelude
  imports Main "HOL-Library.Word" "HOL-Library.Char_ord" "HOL-Library.Sublist"
begin

text \<open>
  Shared vocabulary of the development: the machine types of the C sources, NUL-terminated
  strings as character lists without the NUL, the few \<^verbatim>\<open>string.h\<close> and \<^verbatim>\<open>ctype.h\<close> functions
  the sources call, and the lemmas about them that every component uses.

  A \<^verbatim>\<open>char *\<close> that walks a string is modelled by the rest of the string from that position,
  so \<open>[]\<close> is the position of the NUL.  Character literals are those of the execution
  character set; the model fixes it to ASCII, the set the host tests of the repository run in.
  The sources never depend on the order of letters, only on the contiguity of the digits, of
  a-i, j-r, s-z (and of A-F), and on control characters sorting below the blank.
\<close>

unbundle bit_operations_syntax

type_synonym byte = "8 word"
type_synonym u32 = "32 word"
type_synonym u64 = "64 word"
type_synonym cstr = "char list"

named_theorems c_defs \<open>definitions of the C library functions of the prelude\<close>
named_theorems c_string \<open>facts about C strings\<close>

abbreviation nul :: char where "nul \<equiv> CHR 0x00"
abbreviation blank :: char where "blank \<equiv> CHR 0x20"
abbreviation tab :: char where "tab \<equiv> CHR 0x09"
abbreviation dquote :: char where "dquote \<equiv> CHR 0x22"
abbreviation newline :: char where "newline \<equiv> CHR 0x0A"
abbreviation bslash :: char where "bslash \<equiv> CHR 0x5C"

section \<open>Characters\<close>

definition is_digit :: "char \<Rightarrow> bool" where
  [c_defs]: "is_digit c \<longleftrightarrow> CHR ''0'' \<le> c \<and> c \<le> CHR ''9''"

definition digit_val :: "char \<Rightarrow> nat" where
  [c_defs]: "digit_val c = of_char c - 48"

definition toupper :: "char \<Rightarrow> char" where
  "toupper c = (if CHR ''a'' \<le> c \<and> c \<le> CHR ''z'' then char_of (of_char c - 32 :: nat) else c)"

definition isspace :: "char \<Rightarrow> bool" where
  [c_defs]: "isspace c \<longleftrightarrow> c = blank \<or> (CHR 0x09 \<le> c \<and> c \<le> CHR 0x0D)"

text \<open>The digit character of a value below ten, as \<^verbatim>\<open>'0' + d\<close>.\<close>

definition digit_char :: "nat \<Rightarrow> char" where
  [c_defs]: "digit_char d = char_of (48 + d)"

text \<open>One digit of \<^verbatim>\<open>%X\<close>.\<close>

definition hex_digit :: "nat \<Rightarrow> char" where
  "hex_digit n = ''0123456789ABCDEF'' ! n"

lemma hex_digit_inj: "m < 16 \<Longrightarrow> n < 16 \<Longrightarrow> hex_digit m = hex_digit n \<Longrightarrow> m = n"
proof -
  have "distinct ''0123456789ABCDEF''" by simp
  moreover assume "m < 16" "n < 16" "hex_digit m = hex_digit n"
  ultimately show "m = n"
    by (auto simp: hex_digit_def nth_eq_iff_index_eq)
qed

lemma char_eq_of_char: "c = d \<longleftrightarrow> (of_char c :: nat) = of_char d"
  by simp

lemma of_char_bound: "(of_char c :: nat) < 256"
  by simp

lemma toupper_idem [simp]: "toupper (toupper c) = toupper c"
proof (cases "CHR ''a'' \<le> c \<and> c \<le> CHR ''z''")
  case True
  then have "97 \<le> (of_char c :: nat) \<and> (of_char c :: nat) \<le> 122"
    by (simp add: less_eq_char_def)
  then have "(of_char c - 32 :: nat) mod 256 = of_char c - 32" and "(of_char c - 32 :: nat) < 97"
    by auto
  then have "(of_char (char_of (of_char c - 32 :: nat)) :: nat) < 97"
    by simp
  with True show ?thesis
    by (simp add: toupper_def less_eq_char_def)
next
  case False
  then show ?thesis by (auto simp: toupper_def)
qed

lemma toupper_lower: "CHR ''a'' \<le> c \<Longrightarrow> c \<le> CHR ''z'' \<Longrightarrow> of_char (toupper c) = (of_char c - 32 :: nat)"
  by (simp add: toupper_def less_eq_char_def)

lemma toupper_nul_iff [simp]: "toupper c = nul \<longleftrightarrow> c = nul"
proof
  assume "toupper c = nul"
  then show "c = nul"
  proof (cases "CHR ''a'' \<le> c \<and> c \<le> CHR ''z''")
    case True
    then have "(of_char (toupper c) :: nat) = of_char c - 32" "97 \<le> (of_char c :: nat)"
      by (auto simp: toupper_lower less_eq_char_def)
    with \<open>toupper c = nul\<close> show ?thesis by simp
  qed (auto simp: toupper_def)
qed (simp add: toupper_def less_eq_char_def)

section \<open>Strings\<close>

text \<open>\<^verbatim>\<open>strncmp(s, pre, strlen(pre)) == 0\<close>.\<close>

definition c_prefix :: "cstr \<Rightarrow> cstr \<Rightarrow> bool" where
  [c_defs]: "c_prefix pre s \<longleftrightarrow> take (length pre) s = pre"

text \<open>\<^verbatim>\<open>s[i]\<close> for a position up to the terminator; past the string it is the NUL.\<close>

definition c_at :: "cstr \<Rightarrow> nat \<Rightarrow> char" where
  [c_defs]: "c_at s i = (if i < length s then s ! i else nul)"

lemma c_at_simps: "c_at (c # p) 0 = c" "c_at [] 0 = nul" "c_at (c # p) (Suc k) = c_at p k"
  by (simp_all add: c_at_def)

text \<open>\<^verbatim>\<open>strchr\<close>/\<^verbatim>\<open>memchr\<close>: the string from the first occurrence on.\<close>

definition c_strchr :: "char \<Rightarrow> cstr \<Rightarrow> cstr option" where
  [c_defs]: "c_strchr c s = (case dropWhile (\<lambda>x. x \<noteq> c) s of [] \<Rightarrow> None | r \<Rightarrow> Some r)"

text \<open>\<^verbatim>\<open>strstr\<close>: the string from the first occurrence of the pattern on.\<close>

fun c_strstr :: "cstr \<Rightarrow> cstr \<Rightarrow> cstr option" where
  "c_strstr pat s =
     (if c_prefix pat s then Some s else case s of [] \<Rightarrow> None | _ # t \<Rightarrow> c_strstr pat t)"

declare c_strstr.simps [simp del]

text \<open>The string a buffer holds.\<close>

definition c_str :: "cstr \<Rightarrow> cstr" where
  "c_str s = takeWhile (\<lambda>c. c \<noteq> nul) s"

text \<open>\<^verbatim>\<open>atoi\<close> of a number that fits an \<^verbatim>\<open>int\<close>.\<close>

definition c_atoi :: "cstr \<Rightarrow> int" where
  "c_atoi s =
     (let p = dropWhile isspace s; neg = (c_at p 0 = CHR ''-'');
          p = (if neg \<or> c_at p 0 = CHR ''+'' then drop 1 p else p);
          n = foldl (\<lambda>h c. h * 10 + int (digit_val c)) 0 (takeWhile is_digit p)
      in if neg then - n else n)"

text \<open>\<^verbatim>\<open>snprintf(buf, n, ...)\<close> keeps at most \<open>n - 1\<close> characters.\<close>

definition c_snprintf :: "nat \<Rightarrow> cstr \<Rightarrow> cstr" where
  [c_defs]: "c_snprintf n s = take (n - 1) s"

text \<open>The loops \<^verbatim>\<open>while (n > 0 && s[n-1] == ' ') n--\<close>.\<close>

definition rstrip :: "cstr \<Rightarrow> cstr" where
  "rstrip s = rev (dropWhile (\<lambda>c. c = blank) (rev s))"

definition lstrip :: "cstr \<Rightarrow> cstr" where
  [c_defs]: "lstrip s = dropWhile (\<lambda>c. c = blank) s"

lemma dropWhile_length_le: "length (dropWhile P xs) \<le> length xs"
  by (induction xs) auto

lemma c_strstr_sound: "c_strstr pat s = Some r \<Longrightarrow> (\<exists>pre. s = pre @ r) \<and> c_prefix pat r"
proof (induction s)
  case Nil
  then show ?case by (auto simp: c_strstr.simps [of pat "[]"] split: if_splits)
next
  case (Cons a s)
  show ?case
  proof (cases "c_prefix pat (a # s)")
    case True
    with Cons.prems show ?thesis by (simp add: c_strstr.simps [of pat "a # s"])
  next
    case False
    with Cons.prems have "c_strstr pat s = Some r" by (simp add: c_strstr.simps [of pat "a # s"])
    with Cons.IH show ?thesis by (metis append_Cons)
  qed
qed

lemma c_prefix_append [c_string]: "c_prefix p (p @ s)"
  by (simp add: c_prefix_def)

lemma c_prefix_iff: "c_prefix p s \<longleftrightarrow> (\<exists>r. s = p @ r)"
  unfolding c_prefix_def by (metis append_eq_conv_conj append_take_drop_id)

lemma c_strstr_None_iff: "c_strstr pat s = None \<longleftrightarrow> \<not> sublist pat s"
proof (induction s)
  case Nil
  show ?case by (auto simp: c_strstr.simps [of pat "[]"] c_prefix_def)
next
  case (Cons a s)
  have "c_prefix pat (a # s) \<longleftrightarrow> prefix pat (a # s)"
    by (auto simp: c_prefix_iff prefix_def)
  with Cons.IH show ?case
    by (auto simp: c_strstr.simps [of pat "a # s"] sublist_Cons_right)
qed

lemma rstrip_split: "\<exists>n. s = rstrip s @ replicate n blank"
proof -
  let ?t = "takeWhile (\<lambda>c. c = blank) (rev s)"
  have "rev s = ?t @ dropWhile (\<lambda>c. c = blank) (rev s)" by simp
  then have "s = rstrip s @ rev ?t"
    unfolding rstrip_def by (metis rev_append rev_rev_ident)
  moreover have "rev ?t = replicate (length ?t) blank"
    by (rule replicate_eqI [symmetric, THEN sym]) (auto dest: set_takeWhileD)
  ultimately show ?thesis by metis
qed

lemma rstrip_length: "length (rstrip s) \<le> length s"
  using rstrip_split [of s] by (metis length_append le_add1)

lemma rstrip_last: "rstrip s \<noteq> [] \<Longrightarrow> last (rstrip s) \<noteq> blank"
  using hd_dropWhile [of "\<lambda>c. c = blank" "rev s"] by (auto simp: rstrip_def last_rev)

lemma rstrip_id [simp]: "s = [] \<or> last s \<noteq> blank \<Longrightarrow> rstrip s = s"
  unfolding rstrip_def
  by (cases s rule: rev_cases) auto

lemma rstrip_idem [simp]: "rstrip (rstrip s) = rstrip s"
  using rstrip_last by (intro rstrip_id) auto

lemma rstrip_Nil [simp]: "rstrip [] = []"
  by (simp add: rstrip_def)

lemma rstrip_snoc_blank [simp]: "rstrip (s @ [blank]) = rstrip s"
  by (simp add: rstrip_def)

lemma set_rstrip: "set (rstrip s) \<subseteq> set s"
  unfolding rstrip_def by (auto dest: set_dropWhileD)

lemma nul_free_rstrip: "nul \<notin> set s \<Longrightarrow> nul \<notin> set (rstrip s)"
  using set_rstrip [of s] by auto

text \<open>\<^verbatim>\<open>%u\<close> and \<^verbatim>\<open>%d\<close> for a value of any size.\<close>

fun show_nat :: "nat \<Rightarrow> cstr" where
  "show_nat n = (if n < 10 then [digit_char n] else show_nat (n div 10) @ [digit_char (n mod 10)])"

declare show_nat.simps [simp del]

definition show_int :: "int \<Rightarrow> cstr" where
  "show_int i = (if i < 0 then CHR ''-'' # show_nat (nat (- i)) else show_nat (nat i))"

lemma show_nat_length: "n < 10 ^ k \<Longrightarrow> 0 < k \<Longrightarrow> length (show_nat n) \<le> k"
proof (induction k arbitrary: n)
  case (Suc k)
  show ?case
  proof (cases "n < 10")
    case True
    then show ?thesis by (simp add: show_nat.simps [of n])
  next
    case False
    then have "n div 10 < 10 ^ k" and "0 < k"
      using Suc.prems(1) by (auto intro: gr0I)
    with Suc.IH [of "n div 10"] False show ?thesis by (simp add: show_nat.simps [of n])
  qed
qed simp

lemma show_sint_length: "length (show_int (sint (w :: 32 word))) \<le> 11"
proof -
  have "- (2 ^ 31) \<le> sint w" "sint w < 2 ^ 31"
    using sint_ge [of w] sint_lt [of w] by simp_all
  then have "nat (- sint w) < 10 ^ 10" "nat (sint w) < 10 ^ 10"
    by (simp_all add: nat_less_iff)
  then show ?thesis
    using show_nat_length [of "nat (- sint w)" 10] show_nat_length [of "nat (sint w)" 10]
    by (simp add: show_int_def)
qed

lemma digit_char_props:
  assumes "d < 10"
  shows "is_digit (digit_char d)" "digit_val (digit_char d) = d"
  using assms by (simp_all add: c_defs less_eq_char_def)

lemma show_nat_digits: "\<forall>c \<in> set (show_nat n). is_digit c" and show_nat_ne: "show_nat n \<noteq> []"
proof -
  have "(\<forall>c \<in> set (show_nat n). is_digit c) \<and> show_nat n \<noteq> []"
  proof (induction n rule: show_nat.induct)
    case (1 n)
    then show ?case
      by (cases "n < 10") (simp_all add: show_nat.simps [of n] digit_char_props)
  qed
  then show "\<forall>c \<in> set (show_nat n). is_digit c" "show_nat n \<noteq> []" by auto
qed

text \<open>The value of a string of decimal digits, from a value before it.\<close>

definition dec_fold :: "nat \<Rightarrow> cstr \<Rightarrow> nat" where
  "dec_fold v s = foldl (\<lambda>v c. v * 10 + digit_val c) v s"

lemma dec_fold_show: "dec_fold 0 (show_nat n) = n"
proof (induction n rule: show_nat.induct)
  case (1 n)
  then show ?case
    by (cases "n < 10") (simp_all add: show_nat.simps [of n] dec_fold_def digit_char_props)
qed

lemma dec_fold_ge: "v \<le> dec_fold v s"
  unfolding dec_fold_def
proof (induction s arbitrary: v)
  case (Cons c s)
  show ?case using Cons.IH [of "v * 10 + digit_val c"] by simp
qed simp

section \<open>Machine words\<close>

lemma ucast_byte_inj: "(ucast a :: u32) = ucast b \<Longrightarrow> a = (b :: byte)"
  using uint_lt2p [of a] uint_lt2p [of b]
  by (auto simp: word_uint_eq_iff unsigned_ucast_eq take_bit_int_eq_self)

lemma xor_cancel_right: "(x :: 'a::len word) XOR z = y XOR z \<Longrightarrow> x = y"
proof -
  assume "x XOR z = y XOR z"
  then have "(x XOR z) XOR z = (y XOR z) XOR z" by simp
  then show "x = y" by (simp add: xor.assoc)
qed

lemma xor_cancel_left: "(z :: 'a::len word) XOR x = z XOR y \<Longrightarrow> x = y"
  by (rule xor_cancel_right [of x z y]) (simp add: xor.commute)

end
