(* ===== verification/TextSum.thy ===== *)
theory TextSum
  imports Prelude
begin

text \<open>
  \<^verbatim>\<open>src/textsum.c\<close>: the 32-bit FNV-1a sum \<^verbatim>\<open>/zosmf/test?fn=textsum\<close> reports over the loaded
  code of the module.  The one thing the endpoint relies on is that a damaged byte changes
  the sum of its block; that is proved here for every single damaged byte.
\<close>

definition FNV_BASIS :: u32 where "FNV_BASIS = 0x811C9DC5"
definition FNV_PRIME :: u32 where "FNV_PRIME = 0x01000193"

fun text_sum_loop :: "u32 \<Rightarrow> byte list \<Rightarrow> u32" where
  "text_sum_loop h [] = h"
| "text_sum_loop h (b # bs) = text_sum_loop ((h XOR ucast b) * FNV_PRIME) bs"

definition text_sum :: "byte list \<Rightarrow> u32" where
  "text_sum p = text_sum_loop FNV_BASIS p AND 0xFFFFFFFF"

text \<open>The prime is odd, hence invertible modulo \<open>2\<^sup>3\<^sup>2\<close>.\<close>

lemma fnv_prime_inverse: "FNV_PRIME * 0x359C449B = 1"
  by (simp add: FNV_PRIME_def)

lemma fnv_mult_inj: "x * FNV_PRIME = y * FNV_PRIME \<Longrightarrow> x = y"
proof -
  assume "x * FNV_PRIME = y * FNV_PRIME"
  then have "x * FNV_PRIME * 0x359C449B = y * FNV_PRIME * 0x359C449B" by simp
  then show "x = y" by (simp only: mult.assoc fnv_prime_inverse mult_1_right)
qed

lemma text_sum_loop_inj: "text_sum_loop h bs = text_sum_loop h' bs \<Longrightarrow> h = h'"
proof (induction bs arbitrary: h h')
  case (Cons b bs)
  then have "(h XOR ucast b) * FNV_PRIME = (h' XOR ucast b) * FNV_PRIME" by simp
  then show ?case by (blast dest: fnv_mult_inj xor_cancel_right)
qed simp

lemma text_sum_loop_append: "text_sum_loop h (xs @ ys) = text_sum_loop (text_sum_loop h xs) ys"
  by (induction xs arbitrary: h) auto

lemma text_sum_loop_detects:
  assumes "a \<noteq> b"
  shows "text_sum_loop h (xs @ a # ys) \<noteq> text_sum_loop h (xs @ b # ys)"
proof
  assume "text_sum_loop h (xs @ a # ys) = text_sum_loop h (xs @ b # ys)"
  then have "(text_sum_loop h xs XOR ucast a) * FNV_PRIME
           = (text_sum_loop h xs XOR ucast b) * FNV_PRIME"
    by (auto simp: text_sum_loop_append dest: text_sum_loop_inj)
  then have "a = b"
    by (blast dest: fnv_mult_inj xor_cancel_left ucast_byte_inj)
  with assms show False by simp
qed

lemma text_sum_mask: "(x :: u32) AND 0xFFFFFFFF = x"
proof -
  have "(0xFFFFFFFF :: u32) = -1" by simp
  then show ?thesis by (simp only: and.right_neutral)
qed

lemma text_sum_empty: "text_sum [] = 0x811C9DC5"
  by (simp add: text_sum_def FNV_BASIS_def)

text \<open>Two dumps of a block that differ in exactly one byte have different sums.\<close>

theorem text_sum_detects_damage:
  assumes "a \<noteq> b"
  shows "text_sum (xs @ a # ys) \<noteq> text_sum (xs @ b # ys)"
  using text_sum_loop_detects [OF assms] by (simp add: text_sum_def text_sum_mask)

theorem text_sum_detects_damage_witness:
  "(0x47 :: byte) \<noteq> 0x46 \<and> text_sum ([0x90] @ 0x47 # [0xF0]) \<noteq> text_sum ([0x90] @ 0x46 # [0xF0])"
  using text_sum_detects_damage [of "0x47" "0x46" "[0x90]" "[0xF0]"] by simp

end
