(* ===== verification/ETag.thy ===== *)
theory ETag
  imports Prelude
begin

text \<open>
  \<^verbatim>\<open>src/etag.c\<close>: the version stamp of a data set, a PDS member or a USS file (a reflected CRC32
  of the stored bytes and the byte count, as 16 hex digits) and the evaluation of
  \<^verbatim>\<open>If-Match\<close> / \<^verbatim>\<open>If-None-Match\<close> headers against it.

  The CRC state is kept as 32-bit words, the length counter too, so wrap-around is the one of
  the source.  \<^verbatim>\<open>NULL\<close> header values are \<open>None\<close>; the context and output pointers are not NULL at
  any call site and are not modelled as optional.
\<close>

section \<open>The running CRC\<close>

definition ETAG_POLY :: u32 where "ETAG_POLY = 0xEDB88320"
definition ETAG_LEN :: nat where "ETAG_LEN = 16"
definition ETAG_SIZE :: nat where "ETAG_SIZE = ETAG_LEN + 1"

definition etag_round :: "u32 \<Rightarrow> u32" where
  "etag_round crc = (if crc AND 1 \<noteq> 0 then drop_bit 1 crc XOR ETAG_POLY else drop_bit 1 crc)"

definition etag_byte :: "u32 \<Rightarrow> byte \<Rightarrow> u32" where
  "etag_byte crc b = (etag_round ^^ 8) (crc XOR ucast b)"

record etagctx =
  ctx_crc :: u32
  ctx_len :: u32

definition etag_init :: etagctx where
  "etag_init = \<lparr>ctx_crc = 0xFFFFFFFF, ctx_len = 0\<rparr>"

definition etag_update :: "etagctx \<Rightarrow> byte list \<Rightarrow> etagctx" where
  "etag_update ctx buf =
     (let n = of_nat (length buf) :: u32;
          crc = etag_byte (ctx_crc ctx) (ucast (drop_bit 24 n AND 0xFF));
          crc = etag_byte crc (ucast (drop_bit 16 n AND 0xFF));
          crc = etag_byte crc (ucast (drop_bit 8 n AND 0xFF));
          crc = etag_byte crc (ucast (n AND 0xFF))
      in ctx\<lparr>ctx_crc := foldl etag_byte crc buf, ctx_len := ctx_len ctx + n\<rparr>)"

definition etag_update_raw :: "etagctx \<Rightarrow> byte list \<Rightarrow> etagctx" where
  "etag_update_raw ctx buf =
     ctx\<lparr>ctx_crc := foldl etag_byte (ctx_crc ctx) buf,
         ctx_len := ctx_len ctx + of_nat (length buf)\<rparr>"

text \<open>\<^verbatim>\<open>%08X\<close>: eight upper-case hex digits, the most significant first.\<close>

definition hex8 :: "u32 \<Rightarrow> cstr" where
  "hex8 w = map (\<lambda>i. hex_digit (unat (drop_bit (4 * i) w AND 0xF))) [7, 6, 5, 4, 3, 2, 1, 0]"

definition etag_final :: "etagctx \<Rightarrow> nat \<Rightarrow> cstr option" where
  "etag_final ctx outlen =
     (if outlen < ETAG_SIZE then None
      else Some (c_snprintf outlen (hex8 (ctx_crc ctx XOR 0xFFFFFFFF) @ hex8 (ctx_len ctx))))"

section \<open>Evaluating a precondition header\<close>

definition etag_fold :: "char \<Rightarrow> char" where
  "etag_fold c = (if CHR ''a'' \<le> c \<and> c \<le> CHR ''f''
                  then char_of (of_char c - of_char (CHR ''a'') + of_char (CHR ''A'') :: nat) else c)"

definition is_lws :: "char \<Rightarrow> bool" where
  "is_lws c \<longleftrightarrow> c = blank \<or> c = tab"

text \<open>One entry of the header, from its value start up to the quote or comma that ends it.\<close>

definition etag_entry_eq :: "cstr \<Rightarrow> cstr \<Rightarrow> bool" where
  "etag_entry_eq val etag \<longleftrightarrow>
     ETAG_LEN \<le> length val \<and>
     map etag_fold (take ETAG_LEN val) = map etag_fold (take ETAG_LEN etag) \<and>
     dropWhile is_lws (drop ETAG_LEN val) = []"

text \<open>
  From the first character of an entry: its value, and the position behind it, which is the
  next comma or the end of the header.
\<close>

definition etag_entry :: "cstr \<Rightarrow> cstr \<times> cstr" where
  "etag_entry p =
     (let p = (if c_prefix ''W/'' p then drop 2 p else p);
          quoted = (p \<noteq> [] \<and> hd p = CHR 0x22);
          p = (if quoted then tl p else p);
          val = takeWhile (\<lambda>x. x \<noteq> CHR '','' \<and> x \<noteq> CHR 0x22) p;
          q = dropWhile (\<lambda>x. x \<noteq> CHR '','' \<and> x \<noteq> CHR 0x22) p;
          q = (if quoted \<and> q \<noteq> [] \<and> hd q = CHR 0x22 then tl q else q)
      in (val, dropWhile (\<lambda>x. x \<noteq> CHR '','') q))"

definition etag_sep :: "char \<Rightarrow> bool" where
  "etag_sep c \<longleftrightarrow> is_lws c \<or> c = CHR '',''"

lemma tl_length: "length (if b then tl xs else xs) \<le> length xs"
  by simp

lemma etag_entry_shrinks:
  assumes "d \<noteq> CHR '',''"
  shows "length (snd (etag_entry (d # ds))) < length (d # ds)"
proof -
  let ?val = "\<lambda>x. x \<noteq> CHR '','' \<and> x \<noteq> CHR 0x22"
  define p where "p = (if c_prefix ''W/'' (d # ds) then drop 2 (d # ds) else d # ds)"
  define quoted where "quoted = (p \<noteq> [] \<and> hd p = CHR 0x22)"
  define p' where "p' = (if quoted then tl p else p)"
  define q where "q = dropWhile ?val p'"
  define q' where "q' = (if quoted \<and> q \<noteq> [] \<and> hd q = CHR 0x22 then tl q else q)"
  have snd: "snd (etag_entry (d # ds)) = dropWhile (\<lambda>x. x \<noteq> CHR '','') q'"
    by (simp only: etag_entry_def Let_def p_def quoted_def p'_def q_def q'_def snd_conv)
  have "length (dropWhile (\<lambda>x. x \<noteq> CHR '','') q') \<le> length q"
    using dropWhile_length_le [of "\<lambda>x. x \<noteq> CHR '',''" q']
      tl_length [of "quoted \<and> q \<noteq> [] \<and> hd q = CHR 0x22" q]
    unfolding q'_def by linarith
  moreover have "length q < length (d # ds)"
  proof (cases "c_prefix ''W/'' (d # ds) \<or> quoted")
    case True
    then have "length p' < length (d # ds)"
      by (cases "c_prefix ''W/'' (d # ds)") (auto simp: p_def p'_def)
    then show ?thesis
      using dropWhile_length_le [of ?val p'] by (simp add: q_def)
  next
    case False
    then have "p' = d # ds" and "d \<noteq> CHR 0x22"
      by (auto simp: p_def p'_def quoted_def)
    with assms show ?thesis
      using dropWhile_length_le [of ?val ds] by (simp add: q_def)
  qed
  ultimately show ?thesis by (simp add: snd)
qed

function etag_scan :: "cstr \<Rightarrow> cstr \<Rightarrow> bool" where
  "etag_scan p etag =
     (case dropWhile etag_sep p of
        [] \<Rightarrow> False
      | d # ds \<Rightarrow>
          if d = CHR ''*'' then True
          else if etag_entry_eq (fst (etag_entry (d # ds))) etag then True
          else etag_scan (snd (etag_entry (d # ds))) etag)"
  by pat_completeness auto
termination
proof (relation "measure (\<lambda>(p, e). length p)", simp, goal_cases)
  case (1 p e d ds)
  then have "\<not> etag_sep d"
    using hd_dropWhile [of etag_sep p] by simp
  then have "length (snd (etag_entry (d # ds))) < length (d # ds)"
    by (intro etag_entry_shrinks) (auto simp: etag_sep_def)
  also have "length (d # ds) \<le> length p"
    using dropWhile_length_le [of etag_sep p] 1(1) by simp
  finally show ?case by simp
qed

declare etag_scan.simps [simp del]

definition etag_matches :: "cstr option \<Rightarrow> cstr \<Rightarrow> bool" where
  "etag_matches header etag = (case header of None \<Rightarrow> False | Some h \<Rightarrow> etag_scan h etag)"

definition etag_requested :: "cstr option \<Rightarrow> bool" where
  "etag_requested value =
     (case value of None \<Rightarrow> False
      | Some v \<Rightarrow>
          let v = dropWhile is_lws v;
              lower = (\<lambda>c. if CHR ''A'' \<le> c \<and> c \<le> CHR ''Z''
                           then char_of (of_char c - of_char (CHR ''A'') + of_char (CHR ''a'') :: nat) else c)
          in map lower (take 4 v) = ''true'' \<and> dropWhile is_lws (drop 4 v) = [])"

section \<open>The stamp of a byte stream\<close>

text \<open>
  The stamp of a USS file, and of a data set given as its records: the contexts the readers in
  \<^verbatim>\<open>ussapi.c\<close> and \<^verbatim>\<open>dsapi.c\<close> build, rendered.
\<close>

definition etag_of_chunks :: "byte list list \<Rightarrow> cstr option" where
  "etag_of_chunks chunks = etag_final (foldl etag_update_raw etag_init chunks) ETAG_SIZE"

definition etag_of_records :: "byte list list \<Rightarrow> cstr option" where
  "etag_of_records recs = etag_final (foldl etag_update etag_init recs) ETAG_SIZE"

lemma etag_update_raw_append:
  "etag_update_raw (etag_update_raw ctx a) b = etag_update_raw ctx (a @ b)"
  by (simp add: etag_update_raw_def add.assoc)

lemma etag_update_raw_Nil [simp]: "etag_update_raw ctx [] = ctx"
  by (simp add: etag_update_raw_def)

lemma etag_update_raw_chunks:
  "foldl etag_update_raw ctx chunks = etag_update_raw ctx (concat chunks)"
  by (induction chunks arbitrary: ctx) (simp_all add: etag_update_raw_append)

section \<open>Every single-byte edit changes the stamp\<close>

lemma etag_round_inj:
  assumes "etag_round x = etag_round y"
  shows "x = y"
proof -
  have b0: "x AND 1 \<noteq> 0 \<longleftrightarrow> bit x 0" for x :: u32
    by (simp add: and_one_eq mod_2_eq_odd bit_0)
  have top: "bit (drop_bit 1 w) 31 = False" "bit ETAG_POLY 31" for w :: u32
    by (auto simp: bit_drop_bit_eq ETAG_POLY_def dest: bit_imp_le_length)
  have "bit (etag_round w) 31 = bit w 0" for w
    using top by (simp add: etag_round_def b0 bit_xor_iff)
  with assms have low: "bit x 0 = bit y 0" by metis
  with assms have "drop_bit 1 x = drop_bit 1 y"
    by (auto simp: etag_round_def b0 dest: xor_cancel_right split: if_splits)
  then have "bit x (Suc n) = bit y (Suc n)" for n
    by (metis bit_drop_bit_eq comp_apply plus_1_eq_Suc)
  with low have "bit x n = bit y n" for n
    by (cases n) auto
  then show ?thesis by (simp add: bit_eq_iff)
qed

lemma etag_rounds_inj: "(etag_round ^^ n) x = (etag_round ^^ n) y \<Longrightarrow> x = y"
  by (induction n arbitrary: x y) (auto dest: etag_round_inj)

lemma etag_byte_inj_crc: "etag_byte x b = etag_byte y b \<Longrightarrow> x = y"
  unfolding etag_byte_def by (drule etag_rounds_inj) (rule xor_cancel_right)

lemma etag_byte_inj_byte: "etag_byte x a = etag_byte x b \<Longrightarrow> a = b"
  unfolding etag_byte_def by (drule etag_rounds_inj) (metis ucast_byte_inj xor_cancel_left)

lemma etag_bytes_inj: "foldl etag_byte x bs = foldl etag_byte y bs \<Longrightarrow> x = y"
  by (induction bs arbitrary: x y) (auto dest: etag_byte_inj_crc)

lemma etag_bytes_detect:
  "a \<noteq> b \<Longrightarrow> foldl etag_byte x (xs @ a # ys) \<noteq> foldl etag_byte x (xs @ b # ys)"
  by (auto dest: etag_bytes_inj etag_byte_inj_byte)

text \<open>The rendering loses nothing.\<close>

lemma nibble_bound: "unat ((w :: u32) AND 0xF) < 16"
proof -
  have "unat (w AND 0xF) \<le> unat (0xF :: u32)"
    using word_and_le1 [of w "0xF"] by (simp add: word_le_nat_alt)
  then show ?thesis by simp
qed

lemma hex8_inj:
  assumes "hex8 v = hex8 w"
  shows "v = w"
proof (rule bit_word_eqI)
  fix n
  assume "n < LENGTH(32)"
  have nib: "drop_bit (4 * i) v AND 0xF = drop_bit (4 * i) w AND 0xF" if "i \<le> 7" for i
  proof -
    have "i \<in> {7, 6, 5, 4, 3, 2, 1, 0}" using that by auto
    then have "hex_digit (unat (drop_bit (4 * i) v AND 0xF)) = hex_digit (unat (drop_bit (4 * i) w AND 0xF))"
      using assms by (auto simp: hex8_def)
    then show ?thesis
      using hex_digit_inj nibble_bound by (metis word_unat_eq_iff)
  qed
  let ?i = "n div 4" and ?j = "n mod 4"
  have "?i \<le> 7" using \<open>n < LENGTH(32)\<close> by simp
  moreover have mask: "bit (0xF :: u32) ?j"
  proof -
    have "?j \<in> {0, 1, 2, 3}" by auto
    then show ?thesis by auto
  qed
  ultimately have "bit (drop_bit (4 * ?i) v) ?j = bit (drop_bit (4 * ?i) w) ?j"
    using nib [of ?i] by (metis bit_and_iff)
  then show "bit v n = bit w n"
    by (simp add: bit_drop_bit_eq)
qed

lemma hex8_length [simp]: "length (hex8 w) = 8"
  by (simp add: hex8_def)

lemma etag_final_render:
  "etag_final ctx ETAG_SIZE = Some (hex8 (ctx_crc ctx XOR 0xFFFFFFFF) @ hex8 (ctx_len ctx))"
  by (simp add: etag_final_def ETAG_SIZE_def ETAG_LEN_def c_snprintf_def)

lemma etag_final_inj:
  "etag_final c ETAG_SIZE = etag_final d ETAG_SIZE \<longleftrightarrow> c = d"
proof
  assume "etag_final c ETAG_SIZE = etag_final d ETAG_SIZE"
  then have "hex8 (ctx_crc c XOR 0xFFFFFFFF) = hex8 (ctx_crc d XOR 0xFFFFFFFF)"
    and "hex8 (ctx_len c) = hex8 (ctx_len d)"
    by (simp_all add: etag_final_render)
  then show "c = d"
    by (intro etagctx.equality) (simp_all add: hex8_inj xor_cancel_right [OF hex8_inj])
qed simp

lemma etag_final_length: "etag_final ctx n = Some t \<Longrightarrow> length t = ETAG_LEN"
  by (auto simp: etag_final_def ETAG_SIZE_def ETAG_LEN_def c_snprintf_def split: if_splits)

section \<open>Headers made of entity tags\<close>

text \<open>
  The specification of a precondition header: a comma-separated list of entity tags, each bare
  or quoted, weak or strong, with any number of blanks after a comma.
\<close>

record entity_tag =
  tag_weak :: bool
  tag_quoted :: bool
  tag_value :: cstr

definition tag_char :: "char \<Rightarrow> bool" where
  "tag_char c \<longleftrightarrow> c \<notin> {blank, tab, CHR '','', CHR 0x22, CHR ''*'', CHR ''W''}"

definition tag_ok :: "entity_tag \<Rightarrow> bool" where
  "tag_ok e \<longleftrightarrow> tag_value e \<noteq> [] \<and> (\<forall>c \<in> set (tag_value e). tag_char c)"

definition render_tag :: "entity_tag \<Rightarrow> cstr" where
  "render_tag e = (if tag_weak e then ''W/'' else []) @
     (if tag_quoted e then [CHR 0x22] @ tag_value e @ [CHR 0x22] else tag_value e)"

fun render_tags :: "(entity_tag \<times> nat) list \<Rightarrow> cstr" where
  "render_tags [] = []"
| "render_tags ((e, n) # es) =
     render_tag e @ (if es = [] then [] else CHR '','' # replicate n blank @ render_tags es)"

definition same_tag :: "cstr \<Rightarrow> cstr \<Rightarrow> bool" where
  "same_tag v t \<longleftrightarrow> map etag_fold v = map etag_fold t"

definition entry_end :: "cstr \<Rightarrow> bool" where
  "entry_end r \<longleftrightarrow> r = [] \<or> hd r = CHR '',''"

lemma etag_entry_eq_same:
  assumes "\<forall>c \<in> set v. tag_char c" and "length t = ETAG_LEN"
  shows "etag_entry_eq v t \<longleftrightarrow> same_tag v t"
proof -
  have "\<forall>c \<in> set (drop ETAG_LEN v). \<not> is_lws c"
    using assms(1) by (auto simp: tag_char_def is_lws_def dest!: in_set_dropD)
  then have "dropWhile is_lws (drop ETAG_LEN v) = drop ETAG_LEN v"
    by (cases "drop ETAG_LEN v") auto
  moreover have "map etag_fold v = map etag_fold t \<Longrightarrow> length v = length t"
    by (metis length_map)
  ultimately show ?thesis
    using assms(2) by (auto simp: etag_entry_eq_def same_tag_def)
qed

lemma value_split:
  assumes "\<forall>c \<in> set v. tag_char c" and "r = [] \<or> hd r \<in> {CHR '','', CHR 0x22}"
  shows "takeWhile (\<lambda>x. x \<noteq> CHR '','' \<and> x \<noteq> CHR 0x22) (v @ r) = v"
    and "dropWhile (\<lambda>x. x \<noteq> CHR '','' \<and> x \<noteq> CHR 0x22) (v @ r) = r"
  using assms by (induction v) (cases r; auto simp: tag_char_def)+

lemma skip_to_comma: "entry_end r \<Longrightarrow> dropWhile (\<lambda>x. x \<noteq> CHR '','') r = r"
  by (cases r) (auto simp: entry_end_def)

lemma etag_entry_weak: "etag_entry (''W/'' @ p) = etag_entry p" if "\<not> c_prefix ''W/'' p"
proof -
  have "c_prefix ''W/'' (''W/'' @ p)" "drop 2 (''W/'' @ p) = p"
    by (rule c_prefix_append) simp
  with that show ?thesis by (simp only: etag_entry_def if_True if_False)
qed

lemma etag_entry_bare:
  assumes "\<forall>c \<in> set v. tag_char c" and "v \<noteq> []" and "entry_end r"
  shows "etag_entry (v @ r) = (v, r)" and "\<not> c_prefix ''W/'' (v @ r)"
proof -
  from assms(1,2) show w: "\<not> c_prefix ''W/'' (v @ r)"
    by (cases v) (auto simp: c_prefix_def tag_char_def)
  have "\<not> (v @ r \<noteq> [] \<and> hd (v @ r) = CHR 0x22)"
    using assms(1,2) by (cases v) (auto simp: tag_char_def)
  moreover have "r = [] \<or> hd r \<in> {CHR '','', CHR 0x22}"
    using assms(3) by (auto simp: entry_end_def)
  ultimately show "etag_entry (v @ r) = (v, r)"
    using w value_split [OF assms(1), of r] skip_to_comma [OF assms(3)]
    by (simp only: etag_entry_def Let_def if_False simp_thms)
qed

lemma etag_entry_quoted:
  assumes "\<forall>c \<in> set v. tag_char c" and "entry_end r"
  shows "etag_entry (CHR 0x22 # v @ CHR 0x22 # r) = (v, r)"
    and "\<not> c_prefix ''W/'' (CHR 0x22 # v @ CHR 0x22 # r)"
proof -
  show w: "\<not> c_prefix ''W/'' (CHR 0x22 # v @ CHR 0x22 # r)"
    by (simp add: c_prefix_def)
  show "etag_entry (CHR 0x22 # v @ CHR 0x22 # r) = (v, r)"
    using w value_split [OF assms(1), of "CHR 0x22 # r"] skip_to_comma [OF assms(2)]
    by (simp add: etag_entry_def Let_def)
qed

lemma etag_entry_render:
  assumes "tag_ok e" and "entry_end r"
  shows "etag_entry (render_tag e @ r) = (tag_value e, r)"
proof -
  from assms(1) have ok: "\<forall>c \<in> set (tag_value e). tag_char c" and ne: "tag_value e \<noteq> []"
    by (auto simp: tag_ok_def)
  let ?b = "if tag_quoted e then [CHR 0x22] @ tag_value e @ [CHR 0x22] else tag_value e"
  have "etag_entry (?b @ r) = (tag_value e, r)" and "\<not> c_prefix ''W/'' (?b @ r)"
    using etag_entry_bare [OF ok ne assms(2)] etag_entry_quoted [OF ok assms(2)]
    by (cases "tag_quoted e"; simp)+
  then show ?thesis
    using etag_entry_weak [of "?b @ r"] by (simp add: render_tag_def del: append_Cons)
qed

lemma render_tag_hd:
  assumes "tag_ok e"
  shows "\<exists>d ds. render_tag e = d # ds \<and> d \<noteq> CHR ''*'' \<and> \<not> etag_sep d"
  using assms
  by (cases "tag_value e"; cases "tag_weak e"; cases "tag_quoted e")
    (auto simp: render_tag_def tag_ok_def tag_char_def etag_sep_def is_lws_def)

lemma dropWhile_sep_blanks: "dropWhile etag_sep (replicate n blank @ s) = dropWhile etag_sep s"
  by (induction n) (simp_all add: etag_sep_def is_lws_def)

lemma etag_scan_sep:
  "dropWhile etag_sep p = dropWhile etag_sep q \<Longrightarrow> etag_scan p t = etag_scan q t"
  by (simp add: etag_scan.simps [of p] etag_scan.simps [of q])

lemma etag_scan_render:
  assumes "tag_ok e" and "entry_end r" and "length t = ETAG_LEN"
  shows "etag_scan (render_tag e @ r) t \<longleftrightarrow> same_tag (tag_value e) t \<or> etag_scan r t"
proof -
  obtain d ds where d: "render_tag e = d # ds" "d \<noteq> CHR ''*''" "\<not> etag_sep d"
    using render_tag_hd [OF assms(1)] by blast
  have "etag_entry_eq (tag_value e) t = same_tag (tag_value e) t"
    using assms(1,3) by (intro etag_entry_eq_same) (auto simp: tag_ok_def)
  moreover have "etag_entry (d # ds @ r) = (tag_value e, r)"
    using etag_entry_render [OF assms(1,2)] d by simp
  ultimately show ?thesis
    using d by (simp add: etag_scan.simps [of "d # ds @ r"])
qed

lemma etag_scan_render_tags:
  assumes "\<forall>(e, n) \<in> set es. tag_ok e" and "length t = ETAG_LEN"
  shows "etag_scan (render_tags es) t \<longleftrightarrow> (\<exists>(e, n) \<in> set es. same_tag (tag_value e) t)"
  using assms(1)
proof (induction es rule: render_tags.induct)
  case 1
  show ?case by (simp add: etag_scan.simps [of "[]"])
next
  case (2 e n es)
  let ?r = "if es = [] then [] else CHR '','' # replicate n blank @ render_tags es"
  have "entry_end ?r" by (simp add: entry_end_def)
  moreover have "tag_ok e" using 2 by auto
  ultimately have "etag_scan (render_tags ((e, n) # es)) t
      \<longleftrightarrow> same_tag (tag_value e) t \<or> etag_scan ?r t"
    using assms(2) by (simp only: render_tags.simps etag_scan_render)
  moreover have "etag_scan ?r t = etag_scan (render_tags es) t"
    by (cases es) (auto intro!: etag_scan_sep simp: dropWhile_sep_blanks etag_sep_def)
  moreover have "etag_scan (render_tags es) t \<longleftrightarrow> (\<exists>(e, n) \<in> set es. same_tag (tag_value e) t)"
    using 2 by (cases "es = []") (auto simp: etag_scan.simps [of "[]"])
  ultimately show ?case by simp
qed

section \<open>No match without the stamp\<close>

lemma etag_entry_parts: "\<exists>a b. p = a @ fst (etag_entry p) @ b" "\<exists>a. p = a @ snd (etag_entry p)"
proof -
  let ?val = "\<lambda>x. x \<noteq> CHR '','' \<and> x \<noteq> CHR 0x22"
  define p1 where "p1 = (if c_prefix ''W/'' p then drop 2 p else p)"
  define quoted where "quoted = (p1 \<noteq> [] \<and> hd p1 = CHR 0x22)"
  define p2 where "p2 = (if quoted then tl p1 else p1)"
  define q where "q = dropWhile ?val p2"
  define q' where "q' = (if quoted \<and> q \<noteq> [] \<and> hd q = CHR 0x22 then tl q else q)"
  have e: "etag_entry p = (takeWhile ?val p2, dropWhile (\<lambda>x. x \<noteq> CHR '','') q')"
    by (simp only: etag_entry_def Let_def p1_def quoted_def p2_def q_def q'_def)
  have suf: "suffix p1 p" "suffix p2 p1" "suffix q p2" "suffix q' q"
    "suffix (dropWhile (\<lambda>x. x \<noteq> CHR '','') q') q'"
    by (auto simp: p1_def p2_def q_def q'_def suffix_drop suffix_tl suffix_dropWhile)
  then have "suffix (snd (etag_entry p)) p" and p2: "suffix p2 p"
    by (auto simp: e intro: suffix_order.trans)
  then show "\<exists>a. p = a @ snd (etag_entry p)" by (simp add: suffix_def)
  from p2 obtain a where "p = a @ p2" by (auto simp: suffix_def)
  then have "p = a @ takeWhile ?val p2 @ q" by (simp add: q_def)
  then show "\<exists>a b. p = a @ fst (etag_entry p) @ b" unfolding e fst_conv by blast
qed

lemma etag_entry_eq_take:
  assumes "etag_entry_eq v t" and "length t = ETAG_LEN"
  shows "sublist (map etag_fold t) (map etag_fold v)"
proof -
  have "map etag_fold (take ETAG_LEN v) = map etag_fold t"
    using assms by (simp add: etag_entry_eq_def)
  moreover have "map etag_fold v = map etag_fold (take ETAG_LEN v) @ map etag_fold (drop ETAG_LEN v)"
    by (metis append_take_drop_id map_append)
  ultimately show ?thesis by (metis sublist_appendI append_Nil)
qed

lemma sublist_middle: "sublist x v \<Longrightarrow> sublist x (a @ v @ b)"
  by (meson sublist_appendI sublist_order.order_trans)

lemma etag_scan_sound:
  assumes "etag_scan p t" and "length t = ETAG_LEN"
  shows "CHR ''*'' \<in> set p \<or> sublist (map etag_fold t) (map etag_fold p)"
  using assms
proof (induction p t rule: etag_scan.induct)
  case (1 p t)
  show ?case
  proof (cases "dropWhile etag_sep p")
    case Nil
    with "1.prems"(1) show ?thesis by (simp add: etag_scan.simps [of p])
  next
    case (Cons d ds)
    then obtain a where p: "p = a @ d # ds"
      by (metis takeWhile_dropWhile_id)
    obtain x y where xy: "d # ds = x @ fst (etag_entry (d # ds)) @ y"
      using etag_entry_parts(1) by blast
    obtain z where z: "d # ds = z @ snd (etag_entry (d # ds))"
      using etag_entry_parts(2) by blast
    consider "d = CHR ''*''" | "d \<noteq> CHR ''*''" "etag_entry_eq (fst (etag_entry (d # ds))) t"
      | "d \<noteq> CHR ''*''" "\<not> etag_entry_eq (fst (etag_entry (d # ds))) t"
      by blast
    then show ?thesis
    proof cases
      case 1
      then show ?thesis using p by simp
    next
      case 2
      have "sublist (map etag_fold t) (map etag_fold (fst (etag_entry (d # ds))))"
        by (rule etag_entry_eq_take [OF 2(2) "1.prems"(2)])
      then have "sublist (map etag_fold t) (map etag_fold (x @ fst (etag_entry (d # ds)) @ y))"
        by (simp add: sublist_middle)
      then show ?thesis
        using p xy sublist_middle [of "map etag_fold t" "map etag_fold (d # ds)" "map etag_fold a" "[]"]
        by (metis append_Nil2 map_append)
    next
      case 3
      with "1.prems"(1) Cons have "etag_scan (snd (etag_entry (d # ds))) t"
        by (simp add: etag_scan.simps [of p])
      with "1.IH" "1.prems"(2) Cons 3 have "CHR ''*'' \<in> set (snd (etag_entry (d # ds))) \<or>
          sublist (map etag_fold t) (map etag_fold (snd (etag_entry (d # ds))))" by simp
      moreover have "p = (a @ z) @ snd (etag_entry (d # ds)) @ []" using p z by simp
      ultimately show ?thesis
        by (metis Un_iff map_append set_append sublist_middle)
    qed
  qed
qed

section \<open>Properties\<close>

text \<open>C1: the stamp of a USS file does not depend on how the reader split the file.\<close>

theorem etag_chunking_irrelevant:
  "etag_of_chunks chunks = etag_of_chunks [concat chunks]"
  by (simp add: etag_of_chunks_def etag_update_raw_chunks)

text \<open>Two files of which one is the other with a single byte changed have different stamps,
  whatever the chunks they were read in.\<close>

theorem etag_detects_edit:
  assumes "a \<noteq> b" and "concat c = xs @ a # ys" and "concat d = xs @ b # ys"
  shows "etag_of_chunks c \<noteq> etag_of_chunks d"
proof
  assume "etag_of_chunks c = etag_of_chunks d"
  then have "etag_update_raw etag_init (xs @ a # ys) = etag_update_raw etag_init (xs @ b # ys)"
    using assms(2,3) by (simp add: etag_of_chunks_def etag_update_raw_chunks etag_final_inj)
  then have "foldl etag_byte 0xFFFFFFFF (xs @ a # ys) = foldl etag_byte 0xFFFFFFFF (xs @ b # ys)"
    by (simp add: etag_update_raw_def etag_init_def)
  with etag_bytes_detect [OF assms(1)] show False by blast
qed

theorem etag_detects_edit_witness:
  "(0x41 :: byte) \<noteq> 0x42 \<and> etag_of_chunks [[0x31, 0x41], [0x0A]] \<noteq> etag_of_chunks [[0x31], [0x42, 0x0A]]"
  using etag_detects_edit [of "0x41" "0x42" "[[0x31, 0x41], [0x0A]]" "[0x31]" "[0x0A]" "[[0x31], [0x42, 0x0A]]"]
  by simp

text \<open>A precondition header that is a list of entity tags holds for a stamp exactly when one
  of the listed tags is that stamp, up to the case of its hex digits.\<close>

theorem etag_matches_tag_list:
  assumes "length t = ETAG_LEN" and "\<forall>(e, n) \<in> set es. tag_ok e"
  shows "etag_matches (Some (render_tags es)) t \<longleftrightarrow> (\<exists>(e, n) \<in> set es. same_tag (tag_value e) t)"
  using etag_scan_render_tags [OF assms(2,1)] by (simp add: etag_matches_def)

theorem etag_matches_tag_list_witness:
  "etag_matches (Some (render_tags
      [(\<lparr>tag_weak = True, tag_quoted = True, tag_value = ''deadbeef0000002a''\<rparr>, 1),
       (\<lparr>tag_weak = False, tag_quoted = False, tag_value = ''0011223344556677''\<rparr>, 0)])) ''DEADBEEF0000002A''"
  by (subst etag_matches_tag_list)
    (simp_all add: ETAG_LEN_def tag_ok_def tag_char_def same_tag_def etag_fold_def less_eq_char_def char_of_def bit_0)

text \<open>No header holds for a stamp unless it has a wildcard or contains the stamp.\<close>

theorem etag_matches_sound:
  assumes "length t = ETAG_LEN" and "etag_matches (Some h) t"
  shows "CHR ''*'' \<in> set h \<or> sublist (map etag_fold t) (map etag_fold h)"
  using etag_scan_sound [of h t] assms by (simp add: etag_matches_def)

theorem etag_matches_sound_witness:
  "length ''0011223344556677'' = ETAG_LEN \<and> etag_matches (Some ''*'') ''0011223344556677'' \<and>
   (CHR ''*'' \<in> set ''*'' \<or> sublist (map etag_fold ''0011223344556677'') (map etag_fold ''*''))"
proof -
  have "length ''0011223344556677'' = ETAG_LEN" by (simp add: ETAG_LEN_def)
  moreover have "etag_matches (Some ''*'') ''0011223344556677''"
    by (simp add: etag_matches_def etag_scan.simps [of "''*''"] etag_sep_def is_lws_def)
  ultimately show ?thesis using etag_matches_sound by blast
qed

end
