(* ===== verification/JsonBuilder.thy ===== *)
theory JsonBuilder
  imports Prelude
begin

text \<open>
  \<^verbatim>\<open>src/json.c\<close>: the builder every JSON answer of the server is written with, and the
  escaping of raw bytes.

  The builder keeps its text in one growing buffer.  The model keeps the written text
  (\<open>jb_buffer\<close>, without the terminating NUL) and the allocated \<open>jb_capacity\<close>; the C field
  \<^verbatim>\<open>size\<close> is the length of the text.  \<open>alloc n\<close> says whether the run time grants a block of
  \<open>n\<close> bytes.  An operation returns the C return code and the builder as it is left, so a
  failing operation leaves what it had already appended.  Sizes are natural numbers: a buffer
  cannot come near the 31 bits of \<^verbatim>\<open>size_t\<close> in a 24-bit address space.

  \<open>etoa\<close> is the table the finished text is translated with; the decision whether to escape is
  made on the translated character.  Host characters are named by the ASCII code of the C
  literal they are, so a table translates the literals the builder writes to themselves; that
  is the hypothesis \<open>etoa_literals\<close>.
\<close>

definition JSON_INITIAL_BUFFER_SIZE :: nat where "JSON_INITIAL_BUFFER_SIZE = 1024"
definition JSON_TEMP_BUFFER_SIZE :: nat where "JSON_TEMP_BUFFER_SIZE = 256"
definition JSON_GROWTH_FACTOR :: nat where "JSON_GROWTH_FACTOR = 2"
definition JSON_ESC_MAX :: nat where "JSON_ESC_MAX = 6"

record JsonBuilder =
  jb_is_first :: bool
  jb_buffer :: cstr
  jb_capacity :: nat
  jb_has_etoa :: bool
  jb_etoa :: "char \<Rightarrow> char"

type_synonym json_op = "JsonBuilder \<Rightarrow> int \<times> JsonBuilder"

definition createJsonBuilder :: "(nat \<Rightarrow> bool) \<Rightarrow> nat \<Rightarrow> (char \<Rightarrow> char) option \<Rightarrow> JsonBuilder option" where
  "createJsonBuilder alloc struct_size etoa =
     (if \<not> alloc struct_size then None
      else if \<not> alloc JSON_INITIAL_BUFFER_SIZE then None
      else Some \<lparr>jb_is_first = True, jb_buffer = [], jb_capacity = JSON_INITIAL_BUFFER_SIZE,
                 jb_has_etoa = (etoa \<noteq> None),
                 jb_etoa = (case etoa of None \<Rightarrow> (\<lambda>_. nul) | Some t \<Rightarrow> t)\<rparr>)"

text \<open>The guard \<^verbatim>\<open>if (!builder) return -1\<close> every operation starts with.\<close>

definition on_builder :: "json_op \<Rightarrow> JsonBuilder option \<Rightarrow> int \<times> JsonBuilder option" where
  "on_builder f p = (case p of None \<Rightarrow> (-1, None) | Some b \<Rightarrow> (let (rc, b') = f b in (rc, Some b')))"

section \<open>Appending\<close>

definition ensure_capacity :: "(nat \<Rightarrow> bool) \<Rightarrow> nat \<Rightarrow> json_op" where
  "ensure_capacity alloc needed b =
     (let size = length (jb_buffer b) in
      if size + needed \<ge> jb_capacity b then
        let new_capacity = jb_capacity b * JSON_GROWTH_FACTOR;
            new_capacity = (if new_capacity < size + needed
                            then size + needed + JSON_INITIAL_BUFFER_SIZE else new_capacity)
        in if alloc new_capacity then (0, b\<lparr>jb_capacity := new_capacity\<rparr>) else (-1, b)
      else (0, b))"

definition append_string :: "(nat \<Rightarrow> bool) \<Rightarrow> cstr \<Rightarrow> json_op" where
  "append_string alloc str b =
     (let (rc, b) = ensure_capacity alloc (length str + 1) b in
      if rc < 0 then (-1, b) else (0, b\<lparr>jb_buffer := jb_buffer b @ str\<rparr>))"

text \<open>\<^verbatim>\<open>if (op1 < 0) return -1; ...\<close>\<close>

definition then_op :: "json_op \<Rightarrow> json_op \<Rightarrow> json_op" where
  "then_op f g b = (let (rc, b) = f b in if rc < 0 then (-1, b) else g b)"

definition set_first :: "bool \<Rightarrow> json_op" where
  "set_first v b = (0, b\<lparr>jb_is_first := v\<rparr>)"

fun append_all :: "(nat \<Rightarrow> bool) \<Rightarrow> cstr list \<Rightarrow> json_op" where
  "append_all alloc [] b = (0, b)"
| "append_all alloc (s # ss) b = then_op (append_string alloc s) (append_all alloc ss) b"

definition comma :: "(nat \<Rightarrow> bool) \<Rightarrow> json_op" where
  "comma alloc b = (if \<not> jb_is_first b then append_string alloc '','' b else (0, b))"

section \<open>Escaping\<close>

definition u_escape :: "nat \<Rightarrow> cstr" where
  "u_escape a = [bslash, CHR ''u''] @
     map hex_digit [a div 4096 mod 16, a div 256 mod 16, a div 16 mod 16, a mod 16]"

definition translate :: "(char \<Rightarrow> char) option \<Rightarrow> char \<Rightarrow> char" where
  "translate etoa c = (case etoa of None \<Rightarrow> c | Some t \<Rightarrow> t c)"

definition escape_char :: "(char \<Rightarrow> char) option \<Rightarrow> bool \<Rightarrow> char \<Rightarrow> cstr" where
  "escape_char etoa nonascii host =
     (let a = of_char (translate etoa host) :: nat in
      if a = 0x22 then [bslash, dquote]
      else if a = 0x5C then [bslash, bslash]
      else if a = 0x08 then [bslash, CHR ''b'']
      else if a = 0x0C then [bslash, CHR ''f'']
      else if a = 0x0D then [bslash, CHR ''r'']
      else if a = 0x0A then [bslash, CHR ''n'']
      else if a = 0x09 then [bslash, CHR ''t'']
      else if a < 0x20 \<or> (a \<ge> 0x7F \<and> (a \<le> 0x9F \<or> nonascii)) then u_escape a
      else [host])"

text \<open>The loop of \<^verbatim>\<open>jsonEscapeBytes\<close>, \<open>out\<close> holding what is written so far.\<close>

fun escape_loop :: "nat \<Rightarrow> (char \<Rightarrow> char) option \<Rightarrow> bool \<Rightarrow> cstr \<Rightarrow> cstr \<Rightarrow> cstr" where
  "escape_loop outlen etoa flags out [] = out"
| "escape_loop outlen etoa flags out (c # raw) =
     (if length out + JSON_ESC_MAX \<ge> outlen then out
      else escape_loop outlen etoa flags (out @ escape_char etoa flags c) raw)"

definition jsonEscapeBytes :: "nat \<Rightarrow> cstr \<Rightarrow> (char \<Rightarrow> char) option \<Rightarrow> bool \<Rightarrow> cstr option" where
  "jsonEscapeBytes outlen raw etoa flags =
     (if outlen = 0 then None else Some (escape_loop outlen etoa flags [] raw))"

definition builder_etoa :: "JsonBuilder \<Rightarrow> (char \<Rightarrow> char) option" where
  "builder_etoa b = (if jb_has_etoa b then Some (jb_etoa b) else None)"

definition append_quoted :: "(nat \<Rightarrow> bool) \<Rightarrow> cstr \<Rightarrow> json_op" where
  "append_quoted alloc v b =
     then_op (append_string alloc [dquote])
       (then_op (append_all alloc (map (escape_char (builder_etoa b) False) v))
          (append_string alloc [dquote])) b"

section \<open>The operations\<close>

definition startJsonObject :: "(nat \<Rightarrow> bool) \<Rightarrow> json_op" where
  "startJsonObject alloc =
     then_op (comma alloc) (then_op (append_string alloc ''{'') (set_first True))"

definition endJsonObject :: "(nat \<Rightarrow> bool) \<Rightarrow> json_op" where
  "endJsonObject alloc = then_op (append_string alloc ''}'') (set_first False)"

definition startArray :: "(nat \<Rightarrow> bool) \<Rightarrow> json_op" where
  "startArray alloc = append_string alloc ''[''"

definition endArray :: "(nat \<Rightarrow> bool) \<Rightarrow> json_op" where
  "endArray alloc = then_op (append_string alloc '']'') (set_first False)"

text \<open>A key is \<open>None\<close> for a NULL pointer; the tail of an operation runs behind \<^verbatim>\<open>"key":\<close>.\<close>

definition keyed :: "(nat \<Rightarrow> bool) \<Rightarrow> cstr option \<Rightarrow> cstr \<Rightarrow> json_op \<Rightarrow> json_op" where
  "keyed alloc key colon rest =
     (case key of None \<Rightarrow> Pair (-1)
      | Some k \<Rightarrow> then_op (comma alloc) (then_op (append_all alloc [[dquote], k, colon]) rest))"

definition addJsonRaw :: "(nat \<Rightarrow> bool) \<Rightarrow> cstr option \<Rightarrow> cstr option \<Rightarrow> json_op" where
  "addJsonRaw alloc key raw =
     (case raw of None \<Rightarrow> Pair (-1)
      | Some r \<Rightarrow> keyed alloc key [dquote, CHR '':''] (then_op (append_string alloc r) (set_first False)))"

definition startJsonArrayKey :: "(nat \<Rightarrow> bool) \<Rightarrow> cstr option \<Rightarrow> json_op" where
  "startJsonArrayKey alloc key = keyed alloc key [dquote, CHR '':'', CHR ''[''] (set_first True)"

definition addJsonStringEsc :: "(nat \<Rightarrow> bool) \<Rightarrow> cstr option \<Rightarrow> cstr option \<Rightarrow> json_op" where
  "addJsonStringEsc alloc key v =
     keyed alloc key [dquote, CHR '':'']
       (then_op (case v of None \<Rightarrow> append_string alloc ''null'' | Some s \<Rightarrow> append_quoted alloc s)
          (set_first False))"

definition addJsonString :: "(nat \<Rightarrow> bool) \<Rightarrow> cstr option \<Rightarrow> cstr option \<Rightarrow> json_op" where
  "addJsonString = addJsonStringEsc"

definition addJsonArrayString :: "(nat \<Rightarrow> bool) \<Rightarrow> cstr option \<Rightarrow> json_op" where
  "addJsonArrayString alloc v =
     then_op (comma alloc)
       (then_op (case v of None \<Rightarrow> append_string alloc ''null'' | Some s \<Rightarrow> append_quoted alloc s)
          (set_first False))"

definition addJsonBool :: "(nat \<Rightarrow> bool) \<Rightarrow> cstr option \<Rightarrow> bool \<Rightarrow> json_op" where
  "addJsonBool alloc key v =
     keyed alloc key [dquote, CHR '':'']
       (then_op (append_string alloc (if v then ''true'' else ''false'')) (set_first False))"

definition addJsonNumber :: "(nat \<Rightarrow> bool) \<Rightarrow> cstr option \<Rightarrow> u32 \<Rightarrow> json_op" where
  "addJsonNumber alloc key v =
     (case key of None \<Rightarrow> Pair (-1)
      | Some k \<Rightarrow>
          then_op (comma alloc)
            (then_op (append_string alloc
                (c_snprintf JSON_TEMP_BUFFER_SIZE ([dquote] @ k @ [dquote, CHR '':''])))
               (then_op (append_string alloc (c_snprintf JSON_TEMP_BUFFER_SIZE (show_int (sint v))))
                  (set_first False))))"

definition getJsonString :: "(nat \<Rightarrow> bool) \<Rightarrow> JsonBuilder option \<Rightarrow> cstr option" where
  "getJsonString alloc p =
     (case p of None \<Rightarrow> None
      | Some b \<Rightarrow> if alloc (length (jb_buffer b) + 1) then Some (jb_buffer b) else None)"

section \<open>What an operation appends\<close>

definition jb_wf :: "JsonBuilder \<Rightarrow> bool" where
  "jb_wf b \<longleftrightarrow> length (jb_buffer b) + 1 \<le> jb_capacity b"

text \<open>
  The contract of a builder operation: called with first-element flag \<open>u\<close> and table \<open>e\<close>, it
  returns 0 having appended all of \<open>s\<close> and set the flag to \<open>v\<close>, or -1 having appended a part of
  \<open>s\<close>; it never writes past the buffer, and it fails only when an allocation is refused.
\<close>

definition emitted :: "(nat \<Rightarrow> bool) \<Rightarrow> JsonBuilder \<Rightarrow> cstr \<Rightarrow> bool \<Rightarrow> int \<times> JsonBuilder \<Rightarrow> bool" where
  "emitted alloc b s v r \<longleftrightarrow>
     builder_etoa (snd r) = builder_etoa b \<and> (jb_wf b \<longrightarrow> jb_wf (snd r)) \<and>
     ((\<forall>n. alloc n) \<longrightarrow> fst r = 0) \<and>
     (fst r = 0 \<and> jb_buffer (snd r) = jb_buffer b @ s \<and> jb_is_first (snd r) = v \<or>
      fst r = -1 \<and> (\<exists>p. prefix p s \<and> jb_buffer (snd r) = jb_buffer b @ p))"

definition emits ::
  "(nat \<Rightarrow> bool) \<Rightarrow> (char \<Rightarrow> char) option \<Rightarrow> bool \<Rightarrow> json_op \<Rightarrow> cstr \<Rightarrow> bool \<Rightarrow> bool" where
  "emits alloc e u f s v \<longleftrightarrow>
     (\<forall>b. jb_is_first b = u \<longrightarrow> builder_etoa b = e \<longrightarrow> emitted alloc b s v (f b))"

lemma emitsI:
  "(\<And>b. jb_is_first b = u \<Longrightarrow> builder_etoa b = e \<Longrightarrow> emitted alloc b s v (f b)) \<Longrightarrow>
   emits alloc e u f s v"
  by (simp add: emits_def)

lemma emitsD:
  "emits alloc e u f s v \<Longrightarrow> jb_is_first b = u \<Longrightarrow> builder_etoa b = e \<Longrightarrow> emitted alloc b s v (f b)"
  by (simp add: emits_def)

lemma ensure_capacity_cases:
  obtains "ensure_capacity alloc n b = (-1, b)" "\<not> (\<forall>n. alloc n)"
  | c where "ensure_capacity alloc n b = (0, b\<lparr>jb_capacity := c\<rparr>)" "length (jb_buffer b) + n \<le> c"
proof (cases "length (jb_buffer b) + n \<ge> jb_capacity b")
  case True
  define c where "c = (if jb_capacity b * JSON_GROWTH_FACTOR < length (jb_buffer b) + n
    then length (jb_buffer b) + n + JSON_INITIAL_BUFFER_SIZE else jb_capacity b * JSON_GROWTH_FACTOR)"
  then have "length (jb_buffer b) + n \<le> c" by auto
  moreover have "ensure_capacity alloc n b = (if alloc c then (0, b\<lparr>jb_capacity := c\<rparr>) else (-1, b))"
    using True by (simp only: ensure_capacity_def Let_def c_def if_True)
  ultimately show ?thesis using that by (cases "alloc c") auto
next
  case False
  then have "ensure_capacity alloc n b = (0, b\<lparr>jb_capacity := jb_capacity b\<rparr>)"
    by (cases b) (simp add: ensure_capacity_def Let_def)
  with False show ?thesis using that(2) [of "jb_capacity b"] by simp
qed

lemma emits_append: "emits alloc e u (append_string alloc s) s u"
proof (rule emitsI)
  fix b :: JsonBuilder
  assume u: "jb_is_first b = u"
  show "emitted alloc b s u (append_string alloc s b)"
    by (rule ensure_capacity_cases [of alloc "length s + 1" b])
      (simp_all add: append_string_def emitted_def builder_etoa_def jb_wf_def u)
qed

lemma then_op_ok: "fst (f b) = 0 \<Longrightarrow> then_op f g b = g (snd (f b))"
  by (cases "f b") (simp add: then_op_def)

lemma then_op_fail: "fst (f b) = -1 \<Longrightarrow> then_op f g b = f b"
  by (cases "f b") (simp add: then_op_def)

lemma emits_then:
  assumes "emits alloc e u f s v" and "emits alloc e v g t w"
  shows "emits alloc e u (then_op f g) (s @ t) w"
proof (rule emitsI)
  fix b :: JsonBuilder
  assume b: "jb_is_first b = u" "builder_etoa b = e"
  note F = emitsD [OF assms(1) b, unfolded emitted_def]
  show "emitted alloc b (s @ t) w (then_op f g b)"
  proof (cases "fst (f b) = 0")
    case True
    let ?c = "snd (f b)"
    from F True b have c: "jb_is_first ?c = v" "builder_etoa ?c = e" "jb_buffer ?c = jb_buffer b @ s"
      by simp_all
    note G = emitsD [OF assms(2) c(1,2), unfolded emitted_def]
    from G have "fst (g ?c) = 0 \<or> fst (g ?c) = -1" by blast
    then show ?thesis
    proof
      assume "fst (g ?c) = 0"
      then show ?thesis using F G c b True by (simp add: emitted_def then_op_ok)
    next
      assume bad: "fst (g ?c) = -1"
      with G obtain p where "prefix p t" "jb_buffer (snd (g ?c)) = jb_buffer ?c @ p" by auto
      then show ?thesis using F G c b True bad by (simp add: emitted_def then_op_ok)
    qed
  next
    case False
    with F have bad: "fst (f b) = -1" by blast
    with F obtain p where "prefix p s" "jb_buffer (snd (f b)) = jb_buffer b @ p" by auto
    then have "\<exists>p. prefix p (s @ t) \<and> jb_buffer (snd (f b)) = jb_buffer b @ p"
      using prefix_prefix by blast
    then show ?thesis using F bad by (simp add: emitted_def then_op_fail)
  qed
qed

lemma emits_set_first: "emits alloc e u (set_first v) [] v"
  by (rule emitsI) (auto simp: emitted_def set_first_def builder_etoa_def jb_wf_def)

lemma emits_skip: "emits alloc e u (Pair 0) [] u"
  by (rule emitsI) (simp add: emitted_def)

text \<open>An operation may be replaced by another that agrees with it on the builders at hand.\<close>

lemma emits_cong:
  assumes "emits alloc e u g s v" and "\<And>b. jb_is_first b = u \<Longrightarrow> builder_etoa b = e \<Longrightarrow> f b = g b"
  shows "emits alloc e u f s v"
  using assms by (simp add: emits_def)

lemma emits_text: "emits alloc e u f s v \<Longrightarrow> s = t \<Longrightarrow> emits alloc e u f t v"
  by simp

lemma emits_append_all: "emits alloc e u (append_all alloc ss) (concat ss) u"
proof (induction ss)
  case Nil
  have "append_all alloc [] = Pair 0" by (rule ext) simp
  then show ?case using emits_skip by simp
next
  case (Cons s ss)
  have "append_all alloc (s # ss) = then_op (append_string alloc s) (append_all alloc ss)"
    by (rule ext) simp
  then show ?case
    using emits_then [OF emits_append Cons.IH] by simp
qed

lemma emits_comma: "emits alloc e u (comma alloc) (if u then [] else '','') u"
  using emits_skip [of alloc e u] emits_append [of alloc e u "'',''"]
  by (cases u) (auto simp: comma_def intro: emits_cong)

definition quoted :: "(char \<Rightarrow> char) option \<Rightarrow> cstr \<Rightarrow> cstr" where
  "quoted e v = [dquote] @ concat (map (escape_char e False) v) @ [dquote]"

lemma emits_quoted: "emits alloc e u (append_quoted alloc v) (quoted e v) u"
proof (rule emits_cong)
  let ?f = "then_op (append_string alloc [dquote])
       (then_op (append_all alloc (map (escape_char e False) v)) (append_string alloc [dquote]))"
  show "emits alloc e u ?f (quoted e v) u"
    unfolding quoted_def
    by (rule emits_then [OF emits_append emits_then [OF emits_append_all emits_append]])
  show "append_quoted alloc v b = ?f b" if "builder_etoa b = e" for b
    using that by (simp add: append_quoted_def)
qed

definition sep :: "bool \<Rightarrow> cstr" where
  "sep u = (if u then [] else '','')"

definition json_key :: "cstr \<Rightarrow> cstr" where
  "json_key k = dquote # k @ [dquote, CHR '':'']"

definition json_value :: "(char \<Rightarrow> char) option \<Rightarrow> cstr option \<Rightarrow> cstr" where
  "json_value e v = (case v of None \<Rightarrow> ''null'' | Some s \<Rightarrow> quoted e s)"

lemma emits_sep: "emits alloc e u f s v \<Longrightarrow> emits alloc e u (then_op (comma alloc) f) (sep u @ s) v"
  unfolding sep_def by (rule emits_then [OF emits_comma])

lemma emits_first: "emits alloc e u f s v \<Longrightarrow> emits alloc e u (then_op f (set_first w)) s w"
  using emits_then [OF _ emits_set_first] by fastforce

lemma emits_keyed:
  assumes "emits alloc e u rest s v"
  shows "emits alloc e u (keyed alloc (Some k) (dquote # CHR '':'' # br) rest)
           (sep u @ json_key k @ br @ s) v"
proof -
  have "concat [[dquote], k, dquote # CHR '':'' # br] = json_key k @ br"
    by (simp add: json_key_def)
  from emits_append_all [of alloc e u "[[dquote], k, dquote # CHR '':'' # br]", unfolded this] assms
  have "emits alloc e u (then_op (append_all alloc [[dquote], k, dquote # CHR '':'' # br]) rest)
      ((json_key k @ br) @ s) v" by (rule emits_then)
  from emits_sep [OF this] show ?thesis by (simp only: keyed_def option.case append.assoc)
qed

lemmas emits_rules = emits_sep emits_first emits_append emits_quoted
  emits_keyed [where br = "[]", simplified append_Nil] emits_keyed [where br = "[c]" for c]

lemma emits_value:
  "emits alloc e u (case v of None \<Rightarrow> append_string alloc ''null'' | Some s \<Rightarrow> append_quoted alloc s)
     (json_value e v) u"
  by (cases v) (simp_all add: json_value_def emits_rules)

lemma emits_startJsonObject: "emits alloc e u (startJsonObject alloc) (sep u @ ''{'') True"
  unfolding startJsonObject_def by (rule emits_rules)+

lemma emits_endJsonObject: "emits alloc e u (endJsonObject alloc) ''}'' False"
  unfolding endJsonObject_def by (rule emits_rules)+

lemma emits_startArray: "emits alloc e u (startArray alloc) ''['' u"
  unfolding startArray_def by (rule emits_rules)+

lemma emits_endArray: "emits alloc e u (endArray alloc) '']'' False"
  unfolding endArray_def by (rule emits_rules)+

lemma emits_startJsonArrayKey:
  "emits alloc e u (startJsonArrayKey alloc (Some k)) (sep u @ json_key k @ ''['') True"
  using emits_keyed [OF emits_set_first, of alloc e u k "''[''" True]
  by (simp add: startJsonArrayKey_def)

lemma emits_addJsonRaw:
  "emits alloc e u (addJsonRaw alloc (Some k) (Some r)) (sep u @ json_key k @ r) False"
  unfolding addJsonRaw_def option.case by (rule emits_rules)+

lemma emits_addJsonString:
  "emits alloc e u (addJsonString alloc (Some k) v) (sep u @ json_key k @ json_value e v) False"
  unfolding addJsonString_def addJsonStringEsc_def by (rule emits_rules emits_value)+

lemma emits_addJsonBool:
  "emits alloc e u (addJsonBool alloc (Some k) v)
     (sep u @ json_key k @ (if v then ''true'' else ''false'')) False"
  unfolding addJsonBool_def by (rule emits_rules)+

lemma emits_addJsonArrayString:
  "emits alloc e u (addJsonArrayString alloc v) (sep u @ json_value e v) False"
  unfolding addJsonArrayString_def by (rule emits_rules emits_value)+

lemma emits_addJsonNumber:
  assumes "length k + 3 < JSON_TEMP_BUFFER_SIZE"
  shows "emits alloc e u (addJsonNumber alloc (Some k) n) (sep u @ json_key k @ show_int (sint n)) False"
proof -
  have key: "c_snprintf JSON_TEMP_BUFFER_SIZE ([dquote] @ k @ [dquote, CHR '':'']) = json_key k"
    using assms by (simp add: c_snprintf_def json_key_def JSON_TEMP_BUFFER_SIZE_def)
  have num: "c_snprintf JSON_TEMP_BUFFER_SIZE (show_int (sint n)) = show_int (sint n)"
    using show_sint_length [of n] by (simp add: c_snprintf_def JSON_TEMP_BUFFER_SIZE_def)
  show ?thesis
    unfolding addJsonNumber_def option.case key num by (rule emits_rules emits_then)+
qed

section \<open>Documents\<close>

text \<open>
  The documents the handlers build: objects whose members are strings, numbers, booleans, raw
  text and keyed arrays, and arrays of strings and objects.  \<open>emit_item\<close> is the protocol of
  calls a handler makes for one, \<open>render_item\<close> the text JSON has for it.
\<close>

datatype json_member =
    MStr cstr "cstr option"
  | MNum cstr u32
  | MBool cstr bool
  | MRaw cstr cstr
  | MArr cstr "json_item list"
and json_item =
    IStr "cstr option"
  | IObj "json_member list"

fun emit_member :: "(nat \<Rightarrow> bool) \<Rightarrow> json_member \<Rightarrow> json_op"
  and emit_members :: "(nat \<Rightarrow> bool) \<Rightarrow> json_member list \<Rightarrow> json_op"
  and emit_item :: "(nat \<Rightarrow> bool) \<Rightarrow> json_item \<Rightarrow> json_op"
  and emit_items :: "(nat \<Rightarrow> bool) \<Rightarrow> json_item list \<Rightarrow> json_op" where
  "emit_member al (MStr k v) = addJsonString al (Some k) v"
| "emit_member al (MNum k n) = addJsonNumber al (Some k) n"
| "emit_member al (MBool k v) = addJsonBool al (Some k) v"
| "emit_member al (MRaw k r) = addJsonRaw al (Some k) (Some r)"
| "emit_member al (MArr k is) =
     then_op (startJsonArrayKey al (Some k)) (then_op (emit_items al is) (endArray al))"
| "emit_members al [] = Pair 0"
| "emit_members al (m # ms) = then_op (emit_member al m) (emit_members al ms)"
| "emit_item al (IStr v) = addJsonArrayString al v"
| "emit_item al (IObj ms) = then_op (startJsonObject al) (then_op (emit_members al ms) (endJsonObject al))"
| "emit_items al [] = Pair 0"
| "emit_items al (i # is) = then_op (emit_item al i) (emit_items al is)"

fun render_member :: "(char \<Rightarrow> char) option \<Rightarrow> json_member \<Rightarrow> cstr"
  and render_members :: "(char \<Rightarrow> char) option \<Rightarrow> json_member list \<Rightarrow> cstr"
  and render_item :: "(char \<Rightarrow> char) option \<Rightarrow> json_item \<Rightarrow> cstr"
  and render_items :: "(char \<Rightarrow> char) option \<Rightarrow> json_item list \<Rightarrow> cstr" where
  "render_member e (MStr k v) = json_key k @ json_value e v"
| "render_member e (MNum k n) = json_key k @ show_int (sint n)"
| "render_member e (MBool k v) = json_key k @ (if v then ''true'' else ''false'')"
| "render_member e (MRaw k r) = json_key k @ r"
| "render_member e (MArr k is) = json_key k @ ''['' @ render_items e is @ '']''"
| "render_members e [] = []"
| "render_members e (m # ms) =
     render_member e m @ (if ms = [] then [] else '','' @ render_members e ms)"
| "render_item e (IStr v) = json_value e v"
| "render_item e (IObj ms) = ''{'' @ render_members e ms @ ''}''"
| "render_items e [] = []"
| "render_items e (i # is) =
     render_item e i @ (if is = [] then [] else '','' @ render_items e is)"

fun member_keys :: "json_member \<Rightarrow> cstr set" and item_keys :: "json_item \<Rightarrow> cstr set" where
  "member_keys (MNum k n) = {k}"
| "member_keys (MArr k is) = (\<Union>i \<in> set is. item_keys i)"
| "member_keys m = {}"
| "item_keys (IStr v) = {}"
| "item_keys (IObj ms) = (\<Union>m \<in> set ms. member_keys m)"

text \<open>The keys of numbers go through a buffer of 256 characters.\<close>

abbreviation short_key :: "cstr \<Rightarrow> bool" where
  "short_key k \<equiv> length k + 3 < JSON_TEMP_BUFFER_SIZE"

lemma emits_document:
  "(\<forall>k \<in> member_keys m. short_key k) \<Longrightarrow> emits al e u (emit_member al m) (sep u @ render_member e m) False"
  "(\<forall>m \<in> set ms. \<forall>k \<in> member_keys m. short_key k) \<Longrightarrow>
     emits al e v (emit_members al ms) (if ms = [] then [] else sep v @ render_members e ms) (v \<and> ms = [])"
  "(\<forall>k \<in> item_keys i. short_key k) \<Longrightarrow> emits al e w (emit_item al i) (sep w @ render_item e i) False"
  "(\<forall>i \<in> set is. \<forall>k \<in> item_keys i. short_key k) \<Longrightarrow>
     emits al e x (emit_items al is) (if is = [] then [] else sep x @ render_items e is) (x \<and> is = [])"
proof (induction al m and al ms and al i and al "is" arbitrary: u and v and w and x
    rule: emit_member_emit_members_emit_item_emit_items.induct)
  case (5 al k "is")
  then have "emits al e True (emit_items al is) (render_items e is) (is = [])"
    using "5.IH" [of True] by (cases "is = []") (simp_all add: sep_def)
  from emits_then [OF emits_startJsonArrayKey emits_then [OF this emits_endArray]]
  show ?case by simp
next
  case (7 al m ms)
  then have "emits al e False (emit_members al ms) (if ms = [] then [] else sep False @ render_members e ms) False"
    by fastforce
  moreover have "emits al e v (emit_member al m) (sep v @ render_member e m) False"
    using 7 by simp
  ultimately have "emits al e v (then_op (emit_member al m) (emit_members al ms))
      ((sep v @ render_member e m) @ (if ms = [] then [] else sep False @ render_members e ms)) False"
    by (rule emits_then [rotated])
  then show ?case by (cases "ms = []") (simp_all add: sep_def)
next
  case (9 al ms)
  then have "emits al e True (emit_members al ms) (render_members e ms) (ms = [])"
    using "9.IH" [of True] by (cases "ms = []") (simp_all add: sep_def)
  from emits_then [OF emits_startJsonObject emits_then [OF this emits_endJsonObject]]
  show ?case by simp
next
  case (11 al i "is")
  then have "emits al e False (emit_items al is) (if is = [] then [] else sep False @ render_items e is) False"
    by fastforce
  moreover have "emits al e x (emit_item al i) (sep x @ render_item e i) False"
    using 11 by simp
  ultimately have "emits al e x (then_op (emit_item al i) (emit_items al is))
      ((sep x @ render_item e i) @ (if is = [] then [] else sep False @ render_items e is)) False"
    by (rule emits_then [rotated])
  then show ?case by (cases "is = []") (simp_all add: sep_def)
qed (simp_all add: emits_addJsonString emits_addJsonNumber emits_addJsonBool emits_addJsonRaw
    emits_addJsonArrayString emits_skip)

section \<open>What the client reads\<close>

text \<open>A reader of JSON string bodies (RFC 8259), for escapes up to \<^verbatim>\<open>U+00FF\<close>.\<close>

definition hex_val :: "char \<Rightarrow> nat option" where
  "hex_val c = (let n = length (takeWhile (\<lambda>x. x \<noteq> c) ''0123456789ABCDEF'') in
     if n < 16 then Some n else None)"

definition short_escape :: "char \<Rightarrow> char option" where
  "short_escape e = map_of
     [(dquote, dquote), (bslash, bslash), (CHR ''b'', CHR 0x08), (CHR ''f'', CHR 0x0C),
      (CHR ''n'', CHR 0x0A), (CHR ''r'', CHR 0x0D), (CHR ''t'', CHR 0x09)] e"

fun json_unescape :: "cstr \<Rightarrow> cstr option" where
  "json_unescape [] = Some []"
| "json_unescape (c # s) =
     (if c = dquote \<or> (of_char c :: nat) < 32 then None
      else if c \<noteq> bslash then map_option (Cons c) (json_unescape s)
      else case s of
             [] \<Rightarrow> None
           | e # t \<Rightarrow>
               if e = CHR ''u'' then
                 (case map hex_val (take 4 t) of
                    [Some a, Some b, Some x, Some y] \<Rightarrow>
                      if a = 0 \<and> b = 0
                      then map_option (Cons (char_of (16 * x + y))) (json_unescape (drop 4 t))
                      else None
                  | _ \<Rightarrow> None)
               else case short_escape e of
                      None \<Rightarrow> None
                    | Some x \<Rightarrow> map_option (Cons x) (json_unescape t))"

definition etoa_literals :: "(char \<Rightarrow> char) option \<Rightarrow> bool" where
  "etoa_literals e \<longleftrightarrow>
     (\<forall>c \<in> set (''bfnrtu0123456789ABCDEF'' @ [bslash, dquote]). translate e c = c)"

lemma hex_val_digit: "n < 16 \<Longrightarrow> hex_val (hex_digit n) = Some n"
proof -
  assume "n < 16"
  then have "n \<in> {0, 1, 2, 3, 4, 5, 6, 7, 8, 9, 10, 11, 12, 13, 14, 15}"
    unfolding insert_iff empty_iff by presburger
  then show ?thesis by (elim insertE emptyE) (simp_all add: hex_val_def hex_digit_def)
qed

lemma hex_digit_literal: "n < 16 \<Longrightarrow> hex_digit n \<in> set ''0123456789ABCDEF''"
  unfolding hex_digit_def by (intro nth_mem) simp

lemma translate_hex: "etoa_literals e \<Longrightarrow> n < 16 \<Longrightarrow> translate e (hex_digit n) = hex_digit n"
  using hex_digit_literal [of n] unfolding etoa_literals_def set_append by (simp only: ball_Un Un_iff) auto

lemma unescape_u:
  assumes "etoa_literals e" and "a < 256"
  shows "json_unescape (map (translate e) (u_escape a) @ r)
           = map_option (Cons (char_of a)) (json_unescape r)"
proof -
  have lit: "translate e bslash = bslash" "translate e (CHR ''u'') = CHR ''u''"
    using assms(1) by (simp_all add: etoa_literals_def)
  have "a div 16 < 16" using assms(2) by simp
  moreover have "16 * (a div 16) + a mod 16 = a" by simp
  ultimately show ?thesis
    using assms lit by (simp add: u_escape_def translate_hex hex_val_digit)
qed

lemma unescape_escape_char:
  assumes "etoa_literals e"
  shows "json_unescape (map (translate e) (escape_char e f h) @ r)
           = map_option (Cons (translate e h)) (json_unescape r)"
proof -
  define a :: nat where "a = of_char (translate e h)"
  then have tr: "translate e h = char_of a" "a < 256" by simp_all
  have lit: "translate e c = c" if "c \<in> set (''bfnrtu'' @ [bslash, dquote])" for c
    using assms that by (auto simp: etoa_literals_def)
  note esc = escape_char_def [of e f h, unfolded Let_def, folded a_def]
  show ?thesis
  proof (cases "a \<in> {0x22, 0x5C, 8, 0xC, 0xD, 0xA, 9}")
    case True
    then show ?thesis
      unfolding tr(1) esc
      by (elim insertE emptyE) (simp_all add: lit short_escape_def char_of_def bit_0)
  next
    case special: False
    show ?thesis
    proof (cases "a < 0x20 \<or> (a \<ge> 0x7F \<and> (a \<le> 0x9F \<or> f))")
      case True
      with special have "escape_char e f h = u_escape a" unfolding esc by simp
      then show ?thesis using unescape_u [OF assms tr(2)] tr by simp
    next
      case False
      with special have "escape_char e f h = [h]" unfolding esc by auto
      moreover have "translate e h \<noteq> dquote" "translate e h \<noteq> bslash"
        "\<not> (of_char (translate e h) :: nat) < 32"
        using special False by (auto simp: a_def)
      ultimately show ?thesis by simp
    qed
  qed
qed

lemma unescape_body:
  assumes "etoa_literals e"
  shows "json_unescape (map (translate e) (concat (map (escape_char e f) v))) = Some (map (translate e) v)"
  by (induction v) (simp_all add: unescape_escape_char [OF assms])

section \<open>The bounded escaper\<close>

lemma escape_char_length: "0 < length (escape_char e f c)" "length (escape_char e f c) \<le> JSON_ESC_MAX"
  by (simp_all add: escape_char_def u_escape_def JSON_ESC_MAX_def Let_def)

lemma escape_loop_spec:
  assumes "length out < outlen"
  shows "\<exists>n. escape_loop outlen e f out raw = out @ concat (map (escape_char e f) (take n raw)) \<and>
           length (escape_loop outlen e f out raw) < outlen \<and> n \<le> length raw \<and>
           (n < length raw \<longrightarrow> outlen \<le> length (escape_loop outlen e f out raw) + JSON_ESC_MAX)"
  using assms
proof (induction raw arbitrary: out)
  case Nil
  then show ?case by simp
next
  case (Cons c raw)
  show ?case
  proof (cases "length out + JSON_ESC_MAX \<ge> outlen")
    case True
    with Cons.prems show ?thesis by (intro exI [of _ 0]) simp
  next
    case False
    then have "length (out @ escape_char e f c) < outlen"
      using escape_char_length(2) [of e f c] by simp
    from Cons.IH [OF this] obtain n where "escape_loop outlen e f (out @ escape_char e f c) raw
        = (out @ escape_char e f c) @ concat (map (escape_char e f) (take n raw))"
      "length (escape_loop outlen e f (out @ escape_char e f c) raw) < outlen" "n \<le> length raw"
      "n < length raw \<longrightarrow>
          outlen \<le> length (escape_loop outlen e f (out @ escape_char e f c) raw) + JSON_ESC_MAX"
      by blast
    with False show ?thesis by (intro exI [of _ "Suc n"]) simp
  qed
qed

definition printable_ascii :: "char \<Rightarrow> bool" where
  "printable_ascii c \<longleftrightarrow> 0x20 \<le> (of_char c :: nat) \<and> (of_char c :: nat) \<le> 0x7E"

lemma literals_printable:
  "c \<in> set (''bfnrtu0123456789ABCDEF'' @ [bslash, dquote]) \<Longrightarrow> printable_ascii c"
  by (auto simp: printable_ascii_def)

lemma escape_char_printable:
  assumes "etoa_literals e" and "c \<in> set (escape_char e True h)"
  shows "printable_ascii (translate e c)"
proof (cases "c \<in> set (''bfnrtu0123456789ABCDEF'' @ [bslash, dquote])")
  case True
  then show ?thesis using assms(1) literals_printable by (simp only: etoa_literals_def)
next
  case False
  define L where "L = set ''0123456789ABCDEF''"
  have "hex_digit n \<in> L" if "n < 16" for n
    unfolding L_def by (rule hex_digit_literal [OF that])
  then have "set (u_escape (of_char (translate e h))) \<subseteq> {bslash, CHR ''u''} \<union> L"
    by (simp add: u_escape_def)
  moreover have "c \<notin> {bslash, CHR ''u''} \<union> L" "c \<notin> set (''bfnrt'' @ [dquote])"
    using False by (auto simp: L_def)
  ultimately have "c \<notin> set (u_escape (of_char (translate e h)))" by blast
  with \<open>c \<notin> set (''bfnrt'' @ [dquote])\<close> \<open>c \<notin> {bslash, CHR ''u''} \<union> L\<close> assms(2)
  have "c = h" "\<not> (of_char (translate e h) :: nat) < 0x20" "\<not> 0x7F \<le> (of_char (translate e h) :: nat)"
    by (auto simp: escape_char_def Let_def split: if_splits)
  then show ?thesis by (simp add: printable_ascii_def)
qed

section \<open>Properties\<close>

text \<open>C2: whatever the allocator refuses, a handler that builds a document on a new builder
  never writes past the buffer; when every call returned 0 the buffer holds exactly the JSON text
  of the document, commas included, otherwise a prefix of it; and with no refusal every call
  returns 0.\<close>

theorem json_document_text:
  assumes "createJsonBuilder alloc n etoa = Some b"
    and "\<forall>k \<in> item_keys (IObj ms). short_key k"
    and "emit_item alloc (IObj ms) b = (rc, b')"
  shows "jb_wf b' \<and> (rc = 0 \<and> jb_buffer b' = render_item etoa (IObj ms) \<or>
           rc = -1 \<and> prefix (jb_buffer b') (render_item etoa (IObj ms))) \<and>
         ((\<forall>n. alloc n) \<longrightarrow> rc = 0)"
proof -
  from assms(1) have b: "jb_is_first b" "builder_etoa b = etoa" "jb_buffer b = []" "jb_wf b"
    by (auto simp: createJsonBuilder_def builder_etoa_def jb_wf_def JSON_INITIAL_BUFFER_SIZE_def
        split: if_splits option.splits)
  have "emits alloc etoa True (emit_item alloc (IObj ms)) (sep True @ render_item etoa (IObj ms)) False"
    using emits_document(3) [OF assms(2)] .
  from emitsD [OF this, of b] b have "emitted alloc b (render_item etoa (IObj ms)) False (rc, b')"
    by (simp only: assms(3) sep_def if_True append_Nil)
  with b show ?thesis
    by (auto simp: emitted_def simp del: render_item.simps)
qed

theorem json_document_text_witness:
  "\<exists>b b'. createJsonBuilder (\<lambda>_. True) 320 None = Some b \<and>
     emit_item (\<lambda>_. True) (IObj [MStr ''name'' (Some ''A''), MNum ''rc'' 8]) b = (0, b') \<and> jb_wf b'"
proof -
  obtain b where b: "createJsonBuilder (\<lambda>_. True) 320 None = Some b"
    by (simp add: createJsonBuilder_def)
  obtain rc b' where r: "emit_item (\<lambda>_. True) (IObj [MStr ''name'' (Some ''A''), MNum ''rc'' 8]) b = (rc, b')"
    by force
  have "\<forall>k \<in> item_keys (IObj [MStr ''name'' (Some ''A''), MNum ''rc'' 8]). short_key k"
    by (simp add: JSON_TEMP_BUFFER_SIZE_def)
  from json_document_text [OF b this r] have "rc = 0 \<and> jb_wf b'" by blast
  with b r show ?thesis by blast
qed

text \<open>C3: a client that decodes a string value of an answer reads the value in its own character
  set, whatever characters it has and however long it is.\<close>

theorem json_string_roundtrip:
  assumes "etoa_literals etoa"
  shows "json_unescape (map (translate etoa) (concat (map (escape_char etoa flags) v)))
           = Some (map (translate etoa) v)"
  by (rule unescape_body [OF assms])

theorem json_string_roundtrip_witness:
  "json_unescape (map (translate None) (concat (map (escape_char None False) [dquote, CHR 0x0A, CHR ''A''])))
     = Some [dquote, CHR 0x0A, CHR ''A'']"
  using json_string_roundtrip [of None False "[dquote, CHR 0x0A, CHR ''A'']"]
  by (simp add: etoa_literals_def translate_def)

text \<open>The bounded escaper never fills its buffer past the terminator, stops only when the
  longest escape no longer fits, and leaves only printable 7-bit characters when asked to.\<close>

theorem jsonEscapeBytes_bounded:
  assumes "etoa_literals etoa" and "jsonEscapeBytes outlen raw etoa flags = Some out"
  shows "length out < outlen \<and>
    (\<exists>n \<le> length raw. out = concat (map (escape_char etoa flags) (take n raw)) \<and>
       (n < length raw \<longrightarrow> outlen \<le> length out + JSON_ESC_MAX)) \<and>
    (flags \<longrightarrow> (\<forall>c \<in> set out. printable_ascii (translate etoa c)))"
proof -
  from assms(2) have o: "out = escape_loop outlen etoa flags [] raw" "0 < outlen"
    by (auto simp: jsonEscapeBytes_def split: if_splits)
  with escape_loop_spec [of "[]" outlen etoa flags raw]
  have "\<exists>n. out = concat (map (escape_char etoa flags) (take n raw)) \<and> length out < outlen \<and>
      n \<le> length raw \<and> (n < length raw \<longrightarrow> outlen \<le> length out + JSON_ESC_MAX)"
    by simp
  then obtain n where
    n: "out = concat (map (escape_char etoa flags) (take n raw))" "length out < outlen" "n \<le> length raw"
    "n < length raw \<longrightarrow> outlen \<le> length out + JSON_ESC_MAX"
    by blast
  have "flags \<longrightarrow> (\<forall>c \<in> set out. printable_ascii (translate etoa c))"
    using escape_char_printable [OF assms(1)] by (auto simp: n(1))
  with n show ?thesis by blast
qed

theorem jsonEscapeBytes_bounded_witness:
  "\<exists>out. jsonEscapeBytes 9 [CHR 0x01, CHR 0xC1] None True = Some out \<and> length out < 9 \<and>
     (\<forall>c \<in> set out. printable_ascii (translate None c))"
proof -
  obtain out where out: "jsonEscapeBytes 9 [CHR 0x01, CHR 0xC1] None True = Some out"
    by (simp add: jsonEscapeBytes_def)
  have "etoa_literals None" by (simp add: etoa_literals_def translate_def)
  from jsonEscapeBytes_bounded [OF this out] out show ?thesis by simp
qed

end
