(* ===== verification/RecLines.thy ===== *)
theory RecLines
  imports Prelude
begin

text \<open>
  \<^verbatim>\<open>src/reclines.c\<close>, the framing of a text upload into records, and \<^verbatim>\<open>src/reclimit.c\<close>, how many
  bytes one record holds.

  The C buffer is modelled by the bytes it holds (\<open>rl_buf\<close>, \<^verbatim>\<open>len\<close> is its length); a finished
  record is returned as its bytes.  The bytes are those of the upload, before the translation
  into the host character set, so they are numbers here as in the source.
\<close>

section \<open>The framing state machine\<close>

definition ASCII_LF :: byte where "ASCII_LF = 0x0A"
definition ASCII_CR :: byte where "ASCII_CR = 0x0D"
definition ASCII_BLANK :: byte where "ASCII_BLANK = 0x20"

record RECLINE =
  rl_buf :: "byte list"
  rl_content_max :: nat
  rl_pending_lf :: bool
  rl_truncated :: bool

definition recline_init :: "nat \<Rightarrow> RECLINE" where
  "recline_init content_max =
     \<lparr>rl_buf = [], rl_content_max = content_max, rl_pending_lf = False, rl_truncated = False\<rparr>"

text \<open>\<open>None\<close> is \<^verbatim>\<open>RECLINE_MORE\<close>, \<open>Some rec\<close> is \<^verbatim>\<open>RECLINE_RECORD\<close>.\<close>

definition recline_put :: "RECLINE \<Rightarrow> byte \<Rightarrow> byte list option \<times> RECLINE" where
  "recline_put rl c =
     (let swallow = rl_pending_lf rl;
          rl = rl\<lparr>rl_pending_lf := False\<rparr>
      in if swallow \<and> c = ASCII_LF then (None, rl)
         else if c = ASCII_LF \<or> c = ASCII_CR then
           (let rec = (if rl_buf rl = [] then [ASCII_BLANK] else rl_buf rl)
            in (Some rec, rl\<lparr>rl_buf := [], rl_pending_lf := (c = ASCII_CR)\<rparr>))
         else if length (rl_buf rl) \<ge> rl_content_max rl then (None, rl\<lparr>rl_truncated := True\<rparr>)
         else (None, rl\<lparr>rl_buf := rl_buf rl @ [c]\<rparr>))"

definition recline_flush :: "RECLINE \<Rightarrow> byte list option \<times> RECLINE" where
  "recline_flush rl =
     (if rl_buf rl = [] then (None, rl) else (Some (rl_buf rl), rl\<lparr>rl_buf := []\<rparr>))"

text \<open>The byte loop of the write handlers in \<^verbatim>\<open>dsapi.c\<close>: the records finished by these bytes.\<close>

fun recline_feed :: "RECLINE \<Rightarrow> byte list \<Rightarrow> byte list list \<times> RECLINE" where
  "recline_feed rl [] = ([], rl)"
| "recline_feed rl (c # cs) =
     (let (r, rl) = recline_put rl c;
          (rs, rl) = recline_feed rl cs
      in (case r of None \<Rightarrow> rs | Some rec \<Rightarrow> rec # rs, rl))"

text \<open>A whole body, arriving in chunks: the records written and the truncation flag.\<close>

fun recline_chunks :: "RECLINE \<Rightarrow> byte list list \<Rightarrow> byte list list \<times> RECLINE" where
  "recline_chunks rl [] = ([], rl)"
| "recline_chunks rl (b # bs) =
     (let (rs, rl) = recline_feed rl b; (rs', rl) = recline_chunks rl bs in (rs @ rs', rl))"

definition recline_body :: "nat \<Rightarrow> byte list list \<Rightarrow> byte list list \<times> bool" where
  "recline_body content_max chunks =
     (let (rs, rl) = recline_chunks (recline_init content_max) chunks;
          (r, rl) = recline_flush rl
      in (rs @ (case r of None \<Rightarrow> [] | Some rec \<Rightarrow> [rec]), rl_truncated rl))"

section \<open>The limit of a record\<close>

definition RECLIM_RECFM_TYPE :: byte where "RECLIM_RECFM_TYPE = 0xC0"
definition RECLIM_RECFM_V :: byte where "RECLIM_RECFM_V = 0x40"
definition RECLIM_RECFM_S :: byte where "RECLIM_RECFM_S = 0x08"

definition reclim_spanned :: "byte \<Rightarrow> bool" where
  "reclim_spanned recfm \<longleftrightarrow>
     recfm AND RECLIM_RECFM_TYPE = RECLIM_RECFM_V \<and> recfm AND RECLIM_RECFM_S \<noteq> 0"

definition reclim_content_max :: "byte \<Rightarrow> nat \<Rightarrow> bool \<Rightarrow> nat" where
  "reclim_content_max recfm eff_lrecl is_undefined =
     (if is_undefined then eff_lrecl
      else if recfm AND RECLIM_RECFM_TYPE = RECLIM_RECFM_V then
        (let overhead = (if reclim_spanned recfm then 8 else 4)
         in if eff_lrecl > overhead then eff_lrecl - overhead else 0)
      else eff_lrecl)"

definition reclim_binary_piece :: "byte \<Rightarrow> nat \<Rightarrow> bool \<Rightarrow> nat" where
  "reclim_binary_piece recfm eff_lrecl is_undefined =
     (if \<not> is_undefined \<and> reclim_spanned recfm
      then reclim_content_max recfm eff_lrecl is_undefined else eff_lrecl)"

section \<open>Lines of a body\<close>

text \<open>
  The specification: a body is cut at LF, CR and CRLF; what follows the last terminator is a
  line of its own unless it is empty.
\<close>

definition line_end :: "byte \<Rightarrow> bool" where
  "line_end c \<longleftrightarrow> c = ASCII_LF \<or> c = ASCII_CR"

fun unify_eol :: "byte list \<Rightarrow> byte list" where
  "unify_eol [] = []"
| "unify_eol [c] = [if c = ASCII_CR then ASCII_LF else c]"
| "unify_eol (c # d # cs) =
     (if c = ASCII_CR \<and> d = ASCII_LF then ASCII_LF # unify_eol cs
      else (if c = ASCII_CR then ASCII_LF else c) # unify_eol (d # cs))"

fun split_lf :: "byte list \<Rightarrow> byte list \<Rightarrow> byte list list" where
  "split_lf cur [] = (if cur = [] then [] else [cur])"
| "split_lf cur (c # cs) = (if c = ASCII_LF then cur # split_lf [] cs else split_lf (cur @ [c]) cs)"

definition body_lines :: "byte list \<Rightarrow> byte list list" where
  "body_lines bs = split_lf [] (unify_eol bs)"

definition stored_line :: "nat \<Rightarrow> byte list \<Rightarrow> byte list" where
  "stored_line m l = (if l = [] then [ASCII_BLANK] else take m l)"

lemma recline_put_content_max [simp]:
  "rl_content_max (snd (recline_put rl c)) = rl_content_max rl"
  by (simp add: recline_put_def Let_def)

lemma recline_feed_append:
  "recline_feed rl (xs @ ys) =
     (let (rs, rl) = recline_feed rl xs; (rs', rl) = recline_feed rl ys in (rs @ rs', rl))"
  by (induction xs arbitrary: rl) (auto simp: Let_def split: prod.splits option.splits)

lemma recline_chunks_concat: "recline_chunks rl chunks = recline_feed rl (concat chunks)"
  by (induction chunks arbitrary: rl) (auto simp: recline_feed_append Let_def split: prod.splits)

text \<open>A line behind the terminator whose LF may still be pending.\<close>

definition skip_lf :: "bool \<Rightarrow> byte list \<Rightarrow> byte list" where
  "skip_lf p bs = (if p then case bs of d # ds \<Rightarrow> if d = ASCII_LF then ds else bs | [] \<Rightarrow> [] else bs)"

lemma skip_lf_False [simp]: "skip_lf False bs = bs"
  by (simp add: skip_lf_def)

definition finish :: "byte list list \<times> RECLINE \<Rightarrow> byte list list \<times> bool" where
  "finish x = (fst x @ (case fst (recline_flush (snd x)) of None \<Rightarrow> [] | Some r \<Rightarrow> [r]),
               rl_truncated (snd x))"

lemma recline_body_finish: "recline_body m chunks = finish (recline_feed (recline_init m) (concat chunks))"
  by (simp add: recline_body_def finish_def recline_chunks_concat recline_flush_def split: prod.splits)

text \<open>The state after a prefix of a line, and what the framing of the rest yields.\<close>

definition rl_state :: "nat \<Rightarrow> byte list \<Rightarrow> bool \<Rightarrow> bool \<Rightarrow> RECLINE" where
  "rl_state m cur p t = \<lparr>rl_buf = take m cur, rl_content_max = m, rl_pending_lf = p,
     rl_truncated = (t \<or> m < length cur)\<rparr>"

lemma put_eol: "0 < m \<Longrightarrow> line_end c \<Longrightarrow> \<not> (p \<and> c = ASCII_LF) \<Longrightarrow>
   recline_put (rl_state m cur p t) c =
     (Some (stored_line m cur), rl_state m [] (c = ASCII_CR) (t \<or> m < length cur))"
  by (auto simp: recline_put_def rl_state_def Let_def line_end_def stored_line_def)

lemma put_swallow: "recline_put (rl_state m cur True t) ASCII_LF = (None, rl_state m cur False t)"
  by (simp add: recline_put_def rl_state_def)

lemma put_content: "\<not> line_end c \<Longrightarrow>
   recline_put (rl_state m cur p t) c = (None, rl_state m (cur @ [c]) False t)"
  by (auto simp: recline_put_def rl_state_def Let_def line_end_def ASCII_LF_def)

lemma finish_cons:
  "finish (case r of None \<Rightarrow> rs | Some x \<Rightarrow> x # rs, rl) =
     ((case r of None \<Rightarrow> [] | Some x \<Rightarrow> [x]) @ fst (finish (rs, rl)), snd (finish (rs, rl)))"
  by (simp add: finish_def split: option.splits)

lemma unify_eol_Cons:
  "unify_eol (c # cs) =
     (if c = ASCII_CR then ASCII_LF # unify_eol (skip_lf True cs) else c # unify_eol cs)"
  by (cases cs) (auto simp: skip_lf_def)

lemma split_lf_longer: "cur \<noteq> [] \<Longrightarrow> \<exists>l \<in> set (split_lf cur bs). length cur \<le> length l"
proof (induction bs arbitrary: cur)
  case (Cons c cs)
  show ?case
  proof (cases "c = ASCII_LF")
    case False
    from Cons.IH [of "cur @ [c]"] obtain l where "l \<in> set (split_lf (cur @ [c]) cs)"
      "length (cur @ [c]) \<le> length l" by auto
    with False show ?thesis by (intro bexI [of _ l]) simp_all
  qed simp
qed simp

lemma recline_feed_lines:
  assumes "0 < m"
  shows "(p \<Longrightarrow> cur = []) \<Longrightarrow> finish (recline_feed (rl_state m cur p t) bs) =
     (map (stored_line m) (split_lf cur (unify_eol (skip_lf p bs))),
      t \<or> (\<exists>l \<in> set (cur # split_lf cur (unify_eol (skip_lf p bs))). m < length l))"
proof (induction bs arbitrary: cur p t)
  case Nil
  then show ?case
    using assms
    by (cases p) (auto simp: finish_def recline_flush_def rl_state_def skip_lf_def stored_line_def)
next
  case (Cons c cs)
  have step: "finish (recline_feed rl (c # cs)) =
      ((case fst (recline_put rl c) of None \<Rightarrow> [] | Some x \<Rightarrow> [x]) @
         fst (finish (recline_feed (snd (recline_put rl c)) cs)),
       snd (finish (recline_feed (snd (recline_put rl c)) cs)))" for rl
    using finish_cons by (simp split: prod.split)
  have lf: "ASCII_LF \<noteq> ASCII_CR" by (simp add: ASCII_LF_def ASCII_CR_def)
  consider "p" "c = ASCII_LF" | "line_end c" "\<not> (p \<and> c = ASCII_LF)" | "\<not> line_end c"
    by (auto simp: line_end_def)
  then show ?case
  proof cases
    case 1
    then show ?thesis
      using Cons.IH [of False "[]" t] Cons.prems by (simp add: step [unfolded 1(2)] put_swallow skip_lf_def del: recline_feed.simps)
  next
    case 2
    have skip: "skip_lf p (c # cs) = c # cs" using 2 by (auto simp: skip_lf_def)
    have "split_lf cur (unify_eol (c # cs))
        = cur # split_lf [] (unify_eol (skip_lf (c = ASCII_CR) cs))"
      using 2 lf by (auto simp: line_end_def unify_eol_Cons skip_lf_def)
    then show ?thesis
      using Cons.IH [of "c = ASCII_CR" "[]" "t \<or> m < length cur"] assms
      by (simp add: step put_eol [OF assms 2] skip del: recline_feed.simps)
  next
    case 3
    have skip: "skip_lf p (c # cs) = c # cs" using 3 by (auto simp: skip_lf_def line_end_def)
    have "split_lf cur (unify_eol (c # cs)) = split_lf (cur @ [c]) (unify_eol cs)"
      using 3 by (auto simp: line_end_def unify_eol_Cons)
    moreover obtain l where "l \<in> set (split_lf (cur @ [c]) (unify_eol cs))"
      "length (cur @ [c]) \<le> length l"
      using split_lf_longer [of "cur @ [c]"] by auto
    moreover from this have "(m < length cur \<or> (\<exists>l \<in> set (split_lf (cur @ [c]) (unify_eol cs)). m < length l))
        = (m < length (cur @ [c]) \<or> (\<exists>l \<in> set (split_lf (cur @ [c]) (unify_eol cs)). m < length l))"
      by force
    ultimately show ?thesis
      using Cons.IH [of False "cur @ [c]" t]
      by (simp add: step put_content [OF 3] skip del: recline_feed.simps)
  qed
qed

section \<open>Records fit the data set\<close>

lemma split_lf_Nil: "[] \<in> set (split_lf [] bs) \<Longrightarrow> bs \<noteq> []"
  by auto

lemma stored_line_length: "0 < m \<Longrightarrow> 0 < length (stored_line m l) \<and> length (stored_line m l) \<le> m"
  by (simp add: stored_line_def)

lemma unify_lf_joined:
  "ASCII_CR \<notin> set l \<Longrightarrow> unify_eol (l @ ASCII_LF # bs) = l @ ASCII_LF # unify_eol bs"
  by (induction l) (auto simp: unify_eol_Cons ASCII_LF_def ASCII_CR_def)

lemma split_lf_joined: "ASCII_LF \<notin> set l \<Longrightarrow> split_lf cur (l @ ASCII_LF # bs) = (cur @ l) # split_lf [] bs"
  by (induction l arbitrary: cur) auto

lemma body_lines_joined:
  "\<forall>l \<in> set ls. ASCII_LF \<notin> set l \<and> ASCII_CR \<notin> set l \<Longrightarrow>
   body_lines (concat (map (\<lambda>l. l @ [ASCII_LF]) ls)) = ls"
proof (induction ls)
  case (Cons l ls)
  then show ?case
    using unify_lf_joined [of l "concat (map (\<lambda>l. l @ [ASCII_LF]) ls)"]
    by (simp add: body_lines_def split_lf_joined)
qed (simp add: body_lines_def)

section \<open>Properties\<close>

text \<open>C4: a text upload is stored as its lines, whatever chunks it arrives in and wherever they
  split it (between a CR and its LF included): every line is one record, cut at the content
  limit, a blank line is a record of one blank, and the truncation flag is set exactly when a
  line was cut.\<close>

theorem recline_body_lines:
  assumes "0 < m"
  shows "recline_body m chunks =
    (map (stored_line m) (body_lines (concat chunks)),
     \<exists>l \<in> set (body_lines (concat chunks)). m < length l)"
proof -
  have "recline_init m = rl_state m [] False False"
    by (simp add: recline_init_def rl_state_def)
  then show ?thesis
    using recline_feed_lines [OF assms, of False "[]" False "concat chunks"]
    by (simp add: recline_body_finish body_lines_def skip_lf_def)
qed

theorem recline_body_lines_witness:
  "recline_body 3 [[0x41, 0x0D], [0x0A, 0x0A, 0x42, 0x42, 0x42, 0x42]] =
     ([[0x41], [0x20], [0x42, 0x42, 0x42]], True)"
  using recline_body_lines [of 3 "[[0x41, 0x0D], [0x0A, 0x0A, 0x42, 0x42, 0x42, 0x42]]"]
  by (simp add: body_lines_def ASCII_LF_def ASCII_CR_def ASCII_BLANK_def stored_line_def)

text \<open>C5: an upload never holds a record the access method abends on: with a limit of at least
  one byte every record has between one and LRECL bytes of content, at most LRECL - 4 in a
  variable format, and in a spanned one LRECL - 8, the bound of the write routine.\<close>

theorem recline_records_fit:
  assumes "0 < reclim_content_max recfm lrecl undef"
    and "rec \<in> set (fst (recline_body (reclim_content_max recfm lrecl undef) chunks))"
  shows "0 < length rec \<and> length rec \<le> lrecl \<and>
    (\<not> undef \<and> recfm AND RECLIM_RECFM_TYPE = RECLIM_RECFM_V \<longrightarrow> length rec + 4 \<le> lrecl) \<and>
    (\<not> undef \<and> reclim_spanned recfm \<longrightarrow> length rec + 4 + 4 \<le> lrecl)"
proof -
  let ?m = "reclim_content_max recfm lrecl undef"
  from assms(2) obtain l where "rec = stored_line ?m l"
    by (auto simp: recline_body_lines [OF assms(1)])
  then have "0 < length rec \<and> length rec \<le> ?m"
    using stored_line_length [OF assms(1)] by simp
  moreover have "?m \<le> lrecl"
    "\<not> undef \<Longrightarrow> recfm AND RECLIM_RECFM_TYPE = RECLIM_RECFM_V \<Longrightarrow> ?m + 4 \<le> lrecl"
    "\<not> undef \<Longrightarrow> reclim_spanned recfm \<Longrightarrow> ?m + 8 \<le> lrecl"
    using assms(1) by (auto simp: reclim_content_max_def reclim_spanned_def split: if_splits)
  ultimately show ?thesis by auto
qed

theorem recline_records_fit_witness:
  "fst (recline_body (reclim_content_max 0x48 9 False) [[0x41, 0x42, 0x0A]]) = [[0x41]] \<and>
   length [0x41 :: byte] + 4 + 4 \<le> 9"
proof -
  have m: "reclim_content_max 0x48 9 False = 1" and s: "reclim_spanned 0x48"
    by (simp_all add: reclim_content_max_def reclim_spanned_def RECLIM_RECFM_TYPE_def
        RECLIM_RECFM_V_def RECLIM_RECFM_S_def)
  have r: "fst (recline_body (reclim_content_max 0x48 9 False) [[0x41, 0x42, 0x0A]]) = [[0x41]]"
    by (simp add: m recline_body_def recline_init_def recline_put_def recline_flush_def
        ASCII_LF_def ASCII_CR_def)
  show ?thesis
    using recline_records_fit [of "0x48" 9 False "[0x41]" "[[0x41, 0x42, 0x0A]]"] m s r by simp
qed

end
