(* ===== verification/Connection.thy ===== *)
theory Connection
  imports Prelude
begin

text \<open>
  The connection of a request as the sources see it (httpd's \<^verbatim>\<open>HTTPC\<close>), and the services of
  \<^verbatim>\<open>src/common.c\<close> that read and write it: \<^verbatim>\<open>receive_raw_data\<close>, \<^verbatim>\<open>receive_raw_some\<close>,
  \<^verbatim>\<open>abort_response\<close> and the operations behind \<^verbatim>\<open>SEND_OPS\<close>.

  The server and the socket are the environment.  What they will do is a script in the state:
  the answers \<^verbatim>\<open>http_send\<close> will give, what each poll of the server's flags will see, and the
  events \<^verbatim>\<open>recv\<close> will report.  The scripts are arbitrary, so a statement about every connection
  is a statement about every behaviour of a peer.  The documented contract of \<^verbatim>\<open>http_send\<close> is
  built in: a positive answer is the number of bytes of this call that went out, zero and
  negative answers put nothing on the wire.  A script that has run out is a peer that is gone.
\<close>

datatype rx_event = RxData "byte list" | RxEof | RxIntr | RxWouldBlock | RxError

datatype wto = SendTimeout nat | RecvTimeout nat | StorageFailed

record httpc =
  hc_state :: int
  hc_chunked :: bool
  hc_keepalive :: bool
  hc_wire :: "byte list"
  hc_sends :: "int list"
  hc_stops :: "bool list"
  hc_rx :: "rx_event list"
  hc_waits :: nat
  hc_wtos :: "wto list"

section \<open>Giving up on a response\<close>

text \<open>\<open>cstate_done\<close> is httpd's \<^verbatim>\<open>CSTATE_DONE\<close>.\<close>

definition abort_response :: "int \<Rightarrow> httpc \<Rightarrow> httpc" where
  "abort_response cstate_done c =
     (let c = (if hc_state c < cstate_done then c\<lparr>hc_state := cstate_done\<rparr> else c)
      in c\<lparr>hc_chunked := False, hc_keepalive := False\<rparr>)"

text \<open>A response nobody can take for a complete one: the server closes the connection after it
  and adds no final chunk.\<close>

definition torn_down :: "int \<Rightarrow> httpc \<Rightarrow> bool" where
  "torn_down cstate_done c \<longleftrightarrow> cstate_done \<le> hc_state c \<and> \<not> hc_chunked c \<and> \<not> hc_keepalive c"

lemma abort_response_torn_down [simp]: "torn_down d (abort_response d c)"
  by (simp add: abort_response_def torn_down_def Let_def)

lemma abort_response_wire [simp]: "hc_wire (abort_response d c) = hc_wire c"
  by (simp add: abort_response_def Let_def)

section \<open>Sending\<close>

text \<open>The environment's \<^verbatim>\<open>http_send\<close>.\<close>

definition http_send :: "httpc \<Rightarrow> byte list \<Rightarrow> int \<times> httpc" where
  "http_send c b =
     (case hc_sends c of
        [] \<Rightarrow> (-1, c)
      | r # rs \<Rightarrow>
          let n = min (nat r) (length b)
          in (if r \<le> 0 then r else int n,
              c\<lparr>hc_sends := rs, hc_wire := hc_wire c @ take n b\<rparr>))"

definition SEND_STALL_PAUSE :: nat where "SEND_STALL_PAUSE = 10"

definition send_op_send :: "httpc \<Rightarrow> byte list \<Rightarrow> int \<times> httpc" where
  "send_op_send c buf = http_send c buf"

definition send_op_pause :: "httpc \<Rightarrow> httpc" where
  "send_op_pause c = c\<lparr>hc_waits := hc_waits c + SEND_STALL_PAUSE\<rparr>"

definition send_op_dead :: "int \<Rightarrow> httpc \<Rightarrow> bool" where
  "send_op_dead cstate_done c \<longleftrightarrow> hc_state c \<ge> cstate_done"

definition send_op_stopping :: "httpc \<Rightarrow> bool \<times> httpc" where
  "send_op_stopping c =
     (case hc_stops c of [] \<Rightarrow> (False, c) | f # fs \<Rightarrow> (f, c\<lparr>hc_stops := fs\<rparr>))"

definition send_op_giveup :: "httpc \<Rightarrow> nat \<Rightarrow> httpc" where
  "send_op_giveup c stall = c\<lparr>hc_wtos := hc_wtos c @ [SendTimeout stall]\<rparr>"

section \<open>Receiving\<close>

datatype recv_result = RvBytes "byte list" | RvIntr | RvWouldBlock | RvError

text \<open>\<^verbatim>\<open>recv(sockfd, buf, len, 0)\<close>; no bytes is the end of the connection, which lasts.\<close>

fun sock_recv :: "rx_event list \<Rightarrow> nat \<Rightarrow> recv_result \<times> rx_event list" where
  "sock_recv [] n = (RvBytes [], [])"
| "sock_recv (RxData bs # ev) n =
     (if bs = [] then sock_recv ev n
      else (RvBytes (take n bs), if length bs \<le> n then ev else RxData (drop n bs) # ev))"
| "sock_recv (RxEof # ev) n = (RvBytes [], RxEof # ev)"
| "sock_recv (RxIntr # ev) n = (RvIntr, ev)"
| "sock_recv (RxWouldBlock # ev) n = (RvWouldBlock, ev)"
| "sock_recv (RxError # ev) n = (RvError, RxError # ev)"

definition RAW_RECV_MAX_RETRIES :: nat where "RAW_RECV_MAX_RETRIES = 200"

text \<open>How much of a script is left to read.\<close>

fun rx_size :: "rx_event list \<Rightarrow> nat" where
  "rx_size [] = 0"
| "rx_size (RxData bs # ev) = length bs + 1 + rx_size ev"
| "rx_size (_ # ev) = 1 + rx_size ev"

lemma sock_recv_size:
  "sock_recv ev n = (r, ev') \<Longrightarrow> r \<noteq> RvBytes [] \<Longrightarrow> r \<noteq> RvError \<Longrightarrow> rx_size ev' < rx_size ev"
  by (induction ev n rule: sock_recv.induct) (auto split: if_splits)

lemma sock_recv_bytes:
  "sock_recv ev n = (RvBytes bs, ev') \<Longrightarrow> length bs \<le> n"
  by (induction ev n rule: sock_recv.induct) (auto split: if_splits)

text \<open>
  \<^verbatim>\<open>receive_raw_data\<close>: one byte per \<^verbatim>\<open>recv\<close>, until \<open>len\<close> bytes are in or nothing more comes.
  \<open>None\<close> is the return value -1.
\<close>

function receive_loop :: "nat \<Rightarrow> byte list \<Rightarrow> nat \<Rightarrow> httpc \<Rightarrow> byte list option \<times> httpc" where
  "receive_loop len buf retries c =
     (if length buf < len then
        let r = sock_recv (hc_rx c) 1; c = c\<lparr>hc_rx := snd r\<rparr> in
        (case fst r of
           RvIntr \<Rightarrow> receive_loop len buf retries c
         | RvWouldBlock \<Rightarrow>
             if retries + 1 > RAW_RECV_MAX_RETRIES
             then (None, c\<lparr>hc_wtos := hc_wtos c @ [RecvTimeout (retries + 1)]\<rparr>)
             else receive_loop len buf (retries + 1) (c\<lparr>hc_waits := hc_waits c + 5\<rparr>)
         | RvError \<Rightarrow> (None, c)
         | RvBytes bs \<Rightarrow> if bs = [] then (Some buf, c) else receive_loop len (buf @ bs) 0 c)
      else (Some buf, c))"
  by pat_completeness auto
termination
proof (relation "measure (\<lambda>(_, _, _, c). rx_size (hc_rx c))", goal_cases)
  case 1
  show ?case by simp
qed (auto intro: sock_recv_size [OF surjective_pairing])

declare receive_loop.simps [simp del]

definition receive_raw_data :: "httpc \<Rightarrow> nat \<Rightarrow> byte list option \<times> httpc" where
  "receive_raw_data c len = receive_loop len [] 0 c"

text \<open>\<^verbatim>\<open>receive_raw_some\<close>: one \<^verbatim>\<open>recv\<close> of up to \<open>len\<close> bytes, retried.\<close>

function receive_some_loop :: "nat \<Rightarrow> nat \<Rightarrow> httpc \<Rightarrow> byte list option \<times> httpc" where
  "receive_some_loop len retries c =
     (let r = sock_recv (hc_rx c) len; c = c\<lparr>hc_rx := snd r\<rparr> in
      case fst r of
        RvBytes bs \<Rightarrow> (Some bs, c)
      | RvIntr \<Rightarrow> receive_some_loop len retries c
      | RvError \<Rightarrow> (None, c)
      | RvWouldBlock \<Rightarrow>
          if retries + 1 > RAW_RECV_MAX_RETRIES
          then (None, c\<lparr>hc_wtos := hc_wtos c @ [RecvTimeout (retries + 1)]\<rparr>)
          else receive_some_loop len (retries + 1) (c\<lparr>hc_waits := hc_waits c + 5\<rparr>))"
  by pat_completeness auto
termination
proof (relation "measure (\<lambda>(_, _, c). rx_size (hc_rx c))", goal_cases)
  case 1
  show ?case by simp
qed (auto intro: sock_recv_size [OF surjective_pairing])

declare receive_some_loop.simps [simp del]

definition receive_raw_some :: "httpc \<Rightarrow> nat \<Rightarrow> byte list option \<times> httpc" where
  "receive_raw_some c len = receive_some_loop len 0 c"

text \<open>
  What a client gets through: its bytes up to its end, a socket error, or a silence longer than
  the retry budget.  \<open>k\<close> counts the polls in vain since the last byte.
\<close>

fun rx_stream :: "nat \<Rightarrow> rx_event list \<Rightarrow> byte list" where
  "rx_stream k [] = []"
| "rx_stream k (RxData bs # ev) = (if bs = [] then rx_stream k ev else bs @ rx_stream 0 ev)"
| "rx_stream k (RxIntr # ev) = rx_stream k ev"
| "rx_stream k (RxWouldBlock # ev) =
     (if k + 1 > RAW_RECV_MAX_RETRIES then [] else rx_stream (k + 1) ev)"
| "rx_stream k (_ # ev) = []"

lemma rx_stream_step:
  "sock_recv ev 1 = (r, ev') \<Longrightarrow>
   rx_stream k ev = (case r of
       RvIntr \<Rightarrow> rx_stream k ev'
     | RvWouldBlock \<Rightarrow> if k + 1 > RAW_RECV_MAX_RETRIES then [] else rx_stream (k + 1) ev'
     | RvError \<Rightarrow> []
     | RvBytes bs \<Rightarrow> if bs = [] then [] else bs @ rx_stream 0 ev')"
proof (induction ev arbitrary: k)
  case Nil
  then show ?case by auto
next
  case (Cons e ev)
  show ?case
  proof (cases e)
    case (RxData bs)
    then show ?thesis
      using Cons by (cases bs) (auto split: if_splits simp: take_Cons' drop_Cons')
  qed (use Cons.prems in auto)
qed

lemma sock_recv_one: "sock_recv ev 1 = (RvBytes bs, ev') \<Longrightarrow> bs = [] \<or> (\<exists>b. bs = [b])"
  using sock_recv_bytes [of ev 1 bs ev'] by (cases bs) auto

lemma sock_recv_eof: "sock_recv ev n = (RvBytes [], ev') \<Longrightarrow> 0 < n \<Longrightarrow> rx_stream k ev' = []"
  by (induction ev n rule: sock_recv.induct) (auto split: if_splits)

text \<open>The contract of \<^verbatim>\<open>receive_raw_data\<close>: all of a request that fits the stream, or less.\<close>

lemma receive_loop_stream:
  assumes "receive_loop len buf k c = (r, c')" and "length buf \<le> len"
    and "k = 0 \<or> length buf < len"
  shows "length (buf @ rx_stream k (hc_rx c)) \<ge> len \<and>
           r = Some (take len (buf @ rx_stream k (hc_rx c))) \<and>
           rx_stream 0 (hc_rx c') = drop (len - length buf) (rx_stream k (hc_rx c)) \<or>
         length (buf @ rx_stream k (hc_rx c)) < len \<and>
           (r = None \<or> r = Some (buf @ rx_stream k (hc_rx c)) \<and> rx_stream 0 (hc_rx c') = [])"
  using assms
proof (induction len buf k c arbitrary: r c' rule: receive_loop.induct)
  case (1 len buf k c)
  note simps = receive_loop.simps [of len buf k c]
  show ?case
  proof (cases "length buf < len")
    case False
    then show ?thesis using 1 by (auto simp: simps)
  next
    case True
    obtain r1 ev1 where r1: "sock_recv (hc_rx c) 1 = (r1, ev1)" by force
    note st = rx_stream_step [OF r1, of k]
    show ?thesis
    proof (cases r1)
      case (RvBytes bs)
      show ?thesis
      proof (cases bs)
        case Nil
        then show ?thesis
          using "1.prems" True st r1 RvBytes sock_recv_eof [of "hc_rx c" 1 ev1] by (auto simp: simps)
      next
        case (Cons b bs')
        with sock_recv_one [of "hc_rx c" bs ev1] r1 RvBytes have bs: "bs = [b]" by simp
        then have run: "receive_loop len (buf @ [b]) 0 (c\<lparr>hc_rx := ev1\<rparr>) = (r, c')"
          using "1.prems"(1) True r1 RvBytes by (simp add: simps)
        have suc: "len - length buf = Suc (len - Suc (length buf))"
          using True by simp
        have "length (buf @ b # rx_stream 0 ev1) \<ge> len \<and>
             r = Some (take len (buf @ b # rx_stream 0 ev1)) \<and>
             rx_stream 0 (hc_rx c') = drop (len - Suc (length buf)) (rx_stream 0 ev1) \<or>
           length (buf @ b # rx_stream 0 ev1) < len \<and> (r = None \<or> r = Some (buf @ b # rx_stream 0 ev1) \<and> rx_stream 0 (hc_rx c') = [])"
          using "1.IH"(1) [OF True refl refl, of "[b]" r c'] run True r1 RvBytes bs
          by (simp add: suc)
        moreover have "rx_stream k (hc_rx c) = b # rx_stream 0 ev1"
          using st RvBytes bs by simp
        ultimately show ?thesis by (simp add: suc)
      qed
    next
      case RvIntr
      then show ?thesis
        using "1.IH"(2) [OF True refl refl] "1.prems" True st r1 by (auto simp: simps)
    next
      case RvWouldBlock
      then show ?thesis
        using "1.IH"(3) [OF True refl refl] "1.prems" True st r1
        by (auto simp: simps split: if_splits)
    next
      case RvError
      then show ?thesis using "1.prems" True st r1 by (auto simp: simps)
    qed
  qed
qed

lemma sock_recv_size_le: "rx_size (snd (sock_recv ev n)) \<le> rx_size ev"
  by (induction ev n rule: sock_recv.induct) auto

lemma receive_loop_size:
  "rx_size (hc_rx (snd (receive_loop len buf k c))) \<le> rx_size (hc_rx c) \<and>
   (\<forall>b. fst (receive_loop len buf k c) = Some b \<longrightarrow> length buf < length b \<longrightarrow>
      rx_size (hc_rx (snd (receive_loop len buf k c))) < rx_size (hc_rx c))"
proof (induction len buf k c rule: receive_loop.induct)
  case (1 len buf k c)
  note simps = receive_loop.simps [of len buf k c]
  show ?case
  proof (cases "length buf < len")
    case True
    obtain r1 ev1 where r1: "sock_recv (hc_rx c) 1 = (r1, ev1)" by force
    have le: "rx_size ev1 \<le> rx_size (hc_rx c)" using sock_recv_size_le [of "hc_rx c" 1] r1 by simp
    note lt = sock_recv_size [OF r1]
    show ?thesis
    proof (cases r1)
      case (RvBytes bs)
      then show ?thesis
        using "1.IH"(1) [OF True refl refl, of bs] True r1 le lt by (cases "bs = []") (auto simp: simps Let_def)
    next
      case RvIntr
      then show ?thesis using "1.IH"(2) [OF True refl refl] True r1 lt by (auto simp: simps Let_def)
    next
      case RvWouldBlock
      then show ?thesis using "1.IH"(3) [OF True refl refl] True r1 lt le
        by (cases "RAW_RECV_MAX_RETRIES < Suc k") (auto simp: simps Let_def)
    next
      case RvError
      then show ?thesis using True r1 le by (auto simp: simps Let_def)
    qed
  qed (simp add: simps)
qed

end
