(* ===== verification/SendAll.thy ===== *)
theory SendAll
  imports Connection
begin

text \<open>
  \<^verbatim>\<open>src/sendall.c\<close>: the send loop with its no-progress policy, over a table of services, and
  \<^verbatim>\<open>send_all\<close> of \<^verbatim>\<open>src/common.c\<close>, which binds the table to a connection.

  The locale \<open>send_service\<close> states what the loop relies on: \<^verbatim>\<open>send\<close> reports how much of its
  argument it has put on the wire, and the other services put nothing there.  The operations of
  \<^verbatim>\<open>common.c\<close> interpret it.
\<close>

section \<open>The loop\<close>

definition SEND_STALL_MAX :: nat where "SEND_STALL_MAX = 100"

record 's SEND_OPS =
  so_send :: "'s \<Rightarrow> byte list \<Rightarrow> int \<times> 's"
  so_pause :: "'s \<Rightarrow> 's"
  so_dead :: "'s \<Rightarrow> bool"
  so_stopping :: "'s \<Rightarrow> bool \<times> 's"
  so_giveup :: "'s \<Rightarrow> nat \<Rightarrow> 's"

text \<open>\<open>rest\<close> is \<^verbatim>\<open>buf[pos..len)\<close>.\<close>

function send_loop :: "'s SEND_OPS \<Rightarrow> byte list \<Rightarrow> nat \<Rightarrow> 's \<Rightarrow> int \<times> 's" where
  "send_loop ops rest stall ctx =
     (if rest = [] then (0, ctx)
      else
        let r = so_send ops ctx rest; rc = fst r; ctx = snd r in
        if rc < 0 then (-1, ctx)
        else if rc > 0 then send_loop ops (drop (nat rc) rest) 0 ctx
        else if so_dead ops ctx then (-1, ctx)
        else
          let st = so_stopping ops ctx; ctx = snd st in
          if fst st then (-1, ctx)
          else if stall + 1 > SEND_STALL_MAX then (-1, so_giveup ops ctx (stall + 1))
          else send_loop ops rest (stall + 1) (so_pause ops ctx))"
  by pat_completeness auto
termination
  by (relation "measures [\<lambda>(_, rest, _, _). length rest, \<lambda>(_, _, stall, _). SEND_STALL_MAX - stall]")
    auto

declare send_loop.simps [simp del]

definition send_bytes :: "'s SEND_OPS \<Rightarrow> byte list \<Rightarrow> 's \<Rightarrow> int \<times> 's" where
  "send_bytes ops buf ctx =
     (if buf = [] then (0, ctx)
      else if so_dead ops ctx then (-1, ctx)
      else send_loop ops buf 0 ctx)"

section \<open>The contract of the services\<close>

lemma strict_prefix_Nil: "xs \<noteq> [] \<Longrightarrow> strict_prefix [] xs"
  by (cases xs) auto

locale send_service =
  fixes ops :: "'s SEND_OPS" and wire :: "'s \<Rightarrow> byte list"
  assumes send_progress: "so_send ops s b = (rc, s') \<Longrightarrow> 0 < rc \<Longrightarrow>
      nat rc \<le> length b \<and> wire s' = wire s @ take (nat rc) b"
    and send_nothing: "so_send ops s b = (rc, s') \<Longrightarrow> rc \<le> 0 \<Longrightarrow> wire s' = wire s"
    and pause_wire: "wire (so_pause ops s) = wire s"
    and stopping_wire: "wire (snd (so_stopping ops s)) = wire s"
    and giveup_wire: "wire (so_giveup ops s n) = wire s"
begin

lemma send_loop_wire_aux:
  "o' = ops \<Longrightarrow> send_loop o' rest stall s = (rc, s') \<Longrightarrow>
     rc = 0 \<and> wire s' = wire s @ rest \<or>
     rc = -1 \<and> (\<exists>p. strict_prefix p rest \<and> wire s' = wire s @ p)"
proof (induction o' rest stall s arbitrary: rc s' rule: send_loop.induct)
  case (1 o' rest stall s)
  note simps = send_loop.simps [of ops rest stall s]
  show ?case
  proof (cases "rest = []")
    case True
    then show ?thesis using "1.prems" by (simp add: send_loop.simps [of ops "[]" stall s])
  next
    case ne: False
    obtain n s1 where snd: "so_send ops s rest = (n, s1)" by force
    obtain f s2 where stop: "so_stopping ops s1 = (f, s2)" by force
    have nil: "strict_prefix [] rest" using ne by (rule strict_prefix_Nil)
    consider "n < 0" | "0 < n" | "n = 0" by linarith
    then show ?thesis
    proof cases
      case 1
      then show ?thesis
        using "1.prems" ne snd send_nothing [OF snd] nil by (auto simp: simps)
    next
      case 2
      then have "send_loop ops (drop (nat n) rest) 0 s1 = (rc, s')"
        using "1.prems" ne snd by (simp add: simps)
      with "1.IH"(1) [OF ne refl refl refl] snd 2 "1.prems"(1)
      have "rc = 0 \<and> wire s' = wire s1 @ drop (nat n) rest \<or>
          rc = -1 \<and> (\<exists>p. strict_prefix p (drop (nat n) rest) \<and> wire s' = wire s1 @ p)"
        by simp
      moreover have "wire s1 = wire s @ take (nat n) rest"
        using send_progress [OF snd 2] by simp
      moreover have "strict_prefix (take (nat n) rest @ p) rest" if "strict_prefix p (drop (nat n) rest)" for p
      proof -
        from that obtain q where "drop (nat n) rest = p @ q" "q \<noteq> []"
          by (auto simp: strict_prefix_def prefix_def)
        then have "rest = (take (nat n) rest @ p) @ q"
          using append_take_drop_id [of "nat n" rest] by simp
        with \<open>q \<noteq> []\<close> show ?thesis
          by (metis append_self_conv prefixI strict_prefixI)
      qed
      ultimately show ?thesis by auto
    next
      case 3
      have s1: "wire s1 = wire s" using send_nothing [OF snd] 3 by simp
      have s2: "wire s2 = wire s" using stopping_wire [of s1] stop s1 by simp
      show ?thesis
      proof (cases "so_dead ops s1 \<or> f \<or> stall + 1 > SEND_STALL_MAX")
        case True
        then show ?thesis
          using "1.prems" ne snd stop s1 s2 3 nil giveup_wire [of s2 "stall + 1"]
          by (auto simp: simps Let_def split: if_splits)
      next
        case False
        then have "send_loop ops rest (stall + 1) (so_pause ops s2) = (rc, s')"
          using "1.prems" ne snd stop 3 by (simp add: simps)
        with "1.IH"(2) [OF ne refl refl refl] False snd stop 3 "1.prems"(1) s2 pause_wire [of s2]
        show ?thesis by simp
      qed
    qed
  qed
qed

lemma send_bytes_wire:
  assumes "send_bytes ops buf s = (rc, s')"
  shows "rc = 0 \<and> wire s' = wire s @ buf \<or>
         rc = -1 \<and> (\<exists>p. strict_prefix p buf \<and> wire s' = wire s @ p)"
  using assms send_loop_wire_aux [OF refl, of buf 0 s rc s'] strict_prefix_Nil [of buf]
  by (auto simp: send_bytes_def split: if_splits)

end

section \<open>The services of a session\<close>

definition send_ops :: "int \<Rightarrow> httpc SEND_OPS" where
  "send_ops cstate_done =
     \<lparr>so_send = send_op_send, so_pause = send_op_pause, so_dead = send_op_dead cstate_done,
      so_stopping = send_op_stopping, so_giveup = send_op_giveup\<rparr>"

text \<open>\<open>None\<close> is a NULL session, or one without a connection.\<close>

definition send_all :: "int \<Rightarrow> httpc option \<Rightarrow> byte list \<Rightarrow> int \<times> httpc option" where
  "send_all cstate_done session buf =
     (case session of
        None \<Rightarrow> (-1, None)
      | Some c \<Rightarrow>
          let (rc, c) = send_bytes (send_ops cstate_done) buf c in
          (rc, Some (if rc < 0 then abort_response cstate_done c else c)))"

interpretation session_send: send_service "send_ops d" hc_wire
  by unfold_locales
    (auto simp: send_ops_def send_op_send_def send_op_pause_def send_op_stopping_def
      send_op_giveup_def http_send_def Let_def min_def split: list.splits if_splits)

section \<open>A socket that makes no progress\<close>

lemma send_loop_stalled:
  "k + stall = SEND_STALL_MAX + 1 \<Longrightarrow> rest \<noteq> [] \<Longrightarrow> hc_sends c = replicate k 0 @ ss \<Longrightarrow>
   hc_stops c = [] \<Longrightarrow> hc_state c < d \<Longrightarrow> 0 < k \<Longrightarrow>
   send_loop (send_ops d) rest stall c =
     (-1, c\<lparr>hc_sends := ss, hc_waits := hc_waits c + (k - 1) * SEND_STALL_PAUSE,
           hc_wtos := hc_wtos c @ [SendTimeout (SEND_STALL_MAX + 1)]\<rparr>)"
proof (induction k arbitrary: stall c)
  case (Suc k)
  let ?c = "c\<lparr>hc_sends := replicate k 0 @ ss\<rparr>"
  have ops: "so_send (send_ops d) c rest = (0, ?c)" "\<not> so_dead (send_ops d) ?c"
    "so_stopping (send_ops d) ?c = (False, ?c)"
    using Suc.prems by (simp_all add: send_ops_def send_op_send_def http_send_def send_op_dead_def
        send_op_stopping_def)
  show ?case
  proof (cases k)
    case 0
    have "send_loop (send_ops d) rest stall c = (-1, so_giveup (send_ops d) ?c (stall + 1))"
      using Suc.prems ops 0 by (subst send_loop.simps) simp
    then show ?thesis
      using Suc.prems 0 by (simp add: send_ops_def send_op_giveup_def)
  next
    case (Suc j)
    let ?p = "send_op_pause ?c"
    have "so_pause (send_ops d) ?c = ?p" by (simp add: send_ops_def)
    then have "send_loop (send_ops d) rest stall c = send_loop (send_ops d) rest (stall + 1) ?p"
      using Suc.prems ops Suc by (simp add: send_loop.simps [of "send_ops d" rest stall c])
    also have "\<dots> = (-1, ?p\<lparr>hc_sends := ss, hc_waits := hc_waits ?p + (k - 1) * SEND_STALL_PAUSE,
        hc_wtos := hc_wtos ?p @ [SendTimeout (SEND_STALL_MAX + 1)]\<rparr>)"
      using Suc.prems Suc by (intro Suc.IH) (simp_all add: send_op_pause_def)
    finally show ?thesis
      using Suc by (simp add: send_op_pause_def algebra_simps)
  qed
qed simp

section \<open>Properties\<close>

text \<open>C6: send_all always returns, whatever the socket answers; 0 means every byte of the
  buffer went out, in order and once; -1 means a proper part of it did, and then the connection
  is torn down so that the client cannot take the part for the whole.\<close>

theorem send_all_all_or_torn_down:
  assumes "send_all d (Some c) buf = (rc, session)"
  shows "\<exists>c'. session = Some c' \<and>
    (rc = 0 \<and> hc_wire c' = hc_wire c @ buf \<or>
     rc = -1 \<and> (\<exists>p. strict_prefix p buf \<and> hc_wire c' = hc_wire c @ p) \<and> torn_down d c')"
proof -
  obtain r c1 where r: "send_bytes (send_ops d) buf c = (r, c1)" by force
  with session_send.send_bytes_wire [OF r] assms show ?thesis
    by (auto simp: send_all_def)
qed

theorem send_all_all_or_torn_down_witness:
  "\<exists>c'. send_all 9 (Some \<lparr>hc_state = 5, hc_chunked = True, hc_keepalive = True, hc_wire = [],
      hc_sends = [1, 0, 5], hc_stops = [], hc_rx = [], hc_waits = 0, hc_wtos = []\<rparr>) [7, 8] = (0, Some c')
     \<and> hc_wire c' = [7, 8]"
proof -
  let ?c = "\<lparr>hc_state = 5, hc_chunked = True, hc_keepalive = True, hc_wire = [],
      hc_sends = [1, 0, 5], hc_stops = [], hc_rx = [], hc_waits = 0, hc_wtos = []\<rparr>"
  have "fst (send_all 9 (Some ?c) [7, 8]) = 0"
    by (simp add: send_all_def send_bytes_def send_ops_def send_loop.simps send_op_send_def
        http_send_def send_op_dead_def send_op_stopping_def send_op_pause_def SEND_STALL_MAX_def)
  then obtain session where "send_all 9 (Some ?c) [7, 8] = (0, session)" by (metis prod.collapse)
  with send_all_all_or_torn_down [OF this] show ?thesis by auto
qed

text \<open>On a socket that takes nothing the loop gives up after exactly 100 pauses of 100 ms, tells
  the operator once and tears the response down; it never spins.\<close>

theorem send_all_stall_budget:
  assumes "buf \<noteq> []" and "hc_state c < d" and "hc_stops c = []"
    and "hc_sends c = replicate (SEND_STALL_MAX + 1) 0 @ ss"
  shows "\<exists>c'. send_all d (Some c) buf = (-1, Some c') \<and> torn_down d c' \<and> hc_wire c' = hc_wire c \<and>
    hc_waits c' = hc_waits c + SEND_STALL_MAX * SEND_STALL_PAUSE \<and>
    hc_wtos c' = hc_wtos c @ [SendTimeout (SEND_STALL_MAX + 1)] \<and> hc_sends c' = ss"
proof -
  have "\<not> so_dead (send_ops d) c" using assms(2) by (simp add: send_ops_def send_op_dead_def)
  then show ?thesis
    using send_loop_stalled [of "SEND_STALL_MAX + 1" 0 buf c ss d] assms
    by (auto simp: send_all_def send_bytes_def abort_response_def torn_down_def Let_def)
qed

theorem send_all_stall_budget_witness:
  "\<exists>c'. send_all 9 (Some \<lparr>hc_state = 5, hc_chunked = True, hc_keepalive = True, hc_wire = [],
      hc_sends = replicate (SEND_STALL_MAX + 1) 0, hc_stops = [], hc_rx = [], hc_waits = 0, hc_wtos = []\<rparr>) [7]
     = (-1, Some c') \<and> hc_waits c' = 1000"
  using send_all_stall_budget [of "[7]" "\<lparr>hc_state = 5, hc_chunked = True, hc_keepalive = True, hc_wire = [],
      hc_sends = replicate (SEND_STALL_MAX + 1) 0, hc_stops = [], hc_rx = [], hc_waits = 0, hc_wtos = []\<rparr>" 9 "[]"]
  by (auto simp: SEND_STALL_MAX_def SEND_STALL_PAUSE_def)

end
