(* ===== verification/ReqBody.thy ===== *)
theory ReqBody
  imports Connection
begin

text \<open>
  \<^verbatim>\<open>src/reqbody.c\<close>: reading a request body, with a Content-Length or chunked, over a table of
  services; and \<^verbatim>\<open>read_request_content\<close> of \<^verbatim>\<open>src/common.c\<close>, which binds the table to a
  connection and an allocator.

  A buffer is modelled by the bytes it holds, a NULL buffer is \<open>None\<close>.  The locale
  \<open>byte_source\<close> states what the reader relies on; the operations of \<^verbatim>\<open>common.c\<close> interpret it.
  The chunked loop takes fuel, because a client may keep it going for ever; \<open>bs_left\<close> bounds it.
\<close>

section \<open>The reader\<close>

definition REQBODY_OK :: int where "REQBODY_OK = 0"
definition REQBODY_BAD :: int where "REQBODY_BAD = -1"
definition REQBODY_NOMEM :: int where "REQBODY_NOMEM = -2"
definition REQBODY_TOO_LARGE :: int where "REQBODY_TOO_LARGE = -3"
definition REQBODY_MAX :: nat where "REQBODY_MAX = 0x01000000"
definition CHUNK_LINE_MAX :: nat where "CHUNK_LINE_MAX = 10"
definition DRAIN_BUF :: nat where "DRAIN_BUF = 256"
definition CR :: byte where "CR = 0x0D"

lemmas reqbody_codes = REQBODY_OK_def REQBODY_BAD_def REQBODY_NOMEM_def REQBODY_TOO_LARGE_def

record 's BODY_OPS =
  bo_recv :: "'s \<Rightarrow> nat \<Rightarrow> byte list option \<times> 's"
  bo_alloc :: "'s \<Rightarrow> nat \<Rightarrow> bool \<times> 's"
  bo_resize :: "'s \<Rightarrow> nat \<Rightarrow> bool \<times> 's"
  bo_release :: "'s \<Rightarrow> bool \<Rightarrow> 's"
  bo_nomem :: "'s \<Rightarrow> 's"
  bo_atoe :: "byte list \<Rightarrow> cstr"

text \<open>The digit loop of \<^verbatim>\<open>parse_length\<close>: the value, the digits seen and the rest.\<close>

fun length_digits :: "nat \<Rightarrow> nat \<Rightarrow> cstr \<Rightarrow> nat \<times> nat \<times> cstr" where
  "length_digits v digits [] = (v, digits, [])"
| "length_digits v digits (c # s) =
     (if is_digit c
      then length_digits (if v < REQBODY_MAX then v * 10 + digit_val c else v) (digits + 1) s
      else (v, digits, c # s))"

definition parse_length :: "cstr \<Rightarrow> int + nat" where
  "parse_length s =
     (let (v, digits, s) = length_digits 0 0 (lstrip s); s = lstrip s in
      if digits = 0 \<or> s \<noteq> [] then Inl REQBODY_BAD
      else if v \<ge> REQBODY_MAX then Inl REQBODY_TOO_LARGE
      else Inr v)"

text \<open>\<^verbatim>\<open>got <= 0\<close> is no answer or no bytes.\<close>

function drain :: "'s BODY_OPS \<Rightarrow> nat \<Rightarrow> 's \<Rightarrow> int \<times> 's" where
  "drain ops n s =
     (if n > 0 then
        let want = (if n < DRAIN_BUF then n else DRAIN_BUF); r = bo_recv ops s want in
        (case fst r of
           None \<Rightarrow> (-1, snd r)
         | Some b \<Rightarrow> if b = [] then (-1, snd r) else drain ops (n - length b) (snd r))
      else (0, s))"
  by pat_completeness auto
termination by (relation "measure (\<lambda>(_, n, _). n)") auto

declare drain.simps [simp del]

function read_exact :: "'s BODY_OPS \<Rightarrow> byte list \<Rightarrow> nat \<Rightarrow> 's \<Rightarrow> byte list option \<times> 's" where
  "read_exact ops buf n s =
     (if n > 0 then
        let r = bo_recv ops s n in
        (case fst r of
           None \<Rightarrow> (None, snd r)
         | Some b \<Rightarrow> if b = [] then (None, snd r) else read_exact ops (buf @ b) (n - length b) (snd r))
      else (Some buf, s))"
  by pat_completeness auto
termination by (relation "measure (\<lambda>(_, _, n, _). n)") auto

declare read_exact.simps [simp del]

definition read_length :: "'s BODY_OPS \<Rightarrow> cstr \<Rightarrow> 's \<Rightarrow> int \<times> byte list option \<times> 's" where
  "read_length ops content_length s =
     (case parse_length content_length of
        Inl rc \<Rightarrow> (rc, None, s)
      | Inr len \<Rightarrow>
          let a = bo_alloc ops s (len + 1); s = snd a in
          if \<not> fst a then (REQBODY_NOMEM, None, snd (drain ops len (bo_nomem ops s)))
          else
            let r = read_exact ops [] len s; s = snd r in
            (case fst r of
               None \<Rightarrow> (REQBODY_BAD, None, bo_release ops s True)
             | Some buf \<Rightarrow> (REQBODY_OK, Some buf, s)))"

section \<open>Chunks\<close>

definition xdigit_val :: "char \<Rightarrow> nat option" where
  "xdigit_val c =
     (if is_digit c then Some (digit_val c)
      else if CHR ''a'' \<le> c \<and> c \<le> CHR ''f'' then Some (of_char c - 87)
      else if CHR ''A'' \<le> c \<and> c \<le> CHR ''F'' then Some (of_char c - 55)
      else None)"

text \<open>\<^verbatim>\<open>strtoul(s, &end, 16)\<close> with a 32-bit \<^verbatim>\<open>unsigned long\<close>; \<open>None\<close> is \<^verbatim>\<open>end == s\<close>.\<close>

definition strtoul16 :: "cstr \<Rightarrow> nat option" where
  "strtoul16 s =
     (let s = dropWhile isspace s;
          neg = (s \<noteq> [] \<and> hd s = CHR ''-'');
          s = (if s \<noteq> [] \<and> hd s \<in> {CHR ''-'', CHR ''+''} then tl s else s);
          s = (case s of z # x # d # _ \<Rightarrow>
                 if z = CHR ''0'' \<and> (x = CHR ''x'' \<or> x = CHR ''X'') \<and> xdigit_val d \<noteq> None
                 then drop 2 s else s
               | _ \<Rightarrow> s);
          ds = takeWhile (\<lambda>c. xdigit_val c \<noteq> None) s;
          v = foldl (\<lambda>v c. v * 16 + the (xdigit_val c)) 0 ds
      in if ds = [] then None
         else if v \<ge> 2 ^ 32 then Some (2 ^ 32 - 1)
         else if neg then Some ((2 ^ 32 - v) mod 2 ^ 32)
         else Some v)"

text \<open>The chunk-size line up to its CR; \<open>line\<close> is \<^verbatim>\<open>line[0..i)\<close>.\<close>

function chunk_line :: "'s BODY_OPS \<Rightarrow> byte list \<Rightarrow> 's \<Rightarrow> byte list option \<times> 's" where
  "chunk_line ops line s =
     (if length line \<ge> CHUNK_LINE_MAX - 1 then (None, s)
      else
        let r = bo_recv ops s 1 in
        (case fst r of
           Some [c] \<Rightarrow> if c = CR then (Some line, snd r) else chunk_line ops (line @ [c]) (snd r)
         | _ \<Rightarrow> (None, snd r)))"
  by pat_completeness auto
termination by (relation "measure (\<lambda>(_, line, _). CHUNK_LINE_MAX - length line)") auto

declare chunk_line.simps [simp del]

text \<open>The label \<^verbatim>\<open>fail\<close>.\<close>

definition chunk_fail :: "'s BODY_OPS \<Rightarrow> byte list option \<Rightarrow> bool \<Rightarrow> int \<Rightarrow> 's \<Rightarrow> int \<times> byte list option \<times> 's" where
  "chunk_fail ops buf nomem rc s =
     (if nomem then REQBODY_NOMEM else rc, None,
      if buf \<noteq> None then bo_release ops s True else s)"

text \<open>Behind the loop.\<close>

definition chunk_done :: "'s BODY_OPS \<Rightarrow> byte list option \<Rightarrow> bool \<Rightarrow> 's \<Rightarrow> int \<times> byte list option \<times> 's" where
  "chunk_done ops buf nomem s =
     (if nomem then (REQBODY_NOMEM, None, s)
      else case buf of
        Some b \<Rightarrow> (REQBODY_OK, Some b, s)
      | None \<Rightarrow>
          let a = bo_alloc ops s 1 in
          if fst a then (REQBODY_OK, Some [], snd a)
          else (REQBODY_NOMEM, None, bo_nomem ops (snd a)))"

text \<open>Making room for a chunk: the buffer, the flag and the state behind \<^verbatim>\<open>if (!nomem) { ... }\<close>.\<close>

definition chunk_grow ::
  "'s BODY_OPS \<Rightarrow> byte list option \<Rightarrow> nat \<Rightarrow> nat \<Rightarrow> bool \<Rightarrow> 's \<Rightarrow> byte list option \<times> bool \<times> 's" where
  "chunk_grow ops buf sz chunk nomem s =
     (if nomem then (buf, nomem, s)
      else
        let g = (if buf \<noteq> None then bo_resize ops s (sz + chunk + 1)
                 else bo_alloc ops s (sz + chunk + 1)) in
        if fst g then (Some (case buf of None \<Rightarrow> [] | Some b \<Rightarrow> b), False, snd g)
        else (None, True, bo_release ops (bo_nomem ops (snd g)) (buf \<noteq> None)))"

text \<open>
  One turn of \<^verbatim>\<open>for (;;)\<close>: \<open>Inl\<close> the result of the function when the turn leaves the loop,
  \<open>Inr\<close> the variables when it goes round.
\<close>

definition chunk_step ::
  "'s BODY_OPS \<Rightarrow> byte list option \<Rightarrow> nat \<Rightarrow> bool \<Rightarrow> 's \<Rightarrow>
     (int \<times> byte list option \<times> 's) + (byte list option \<times> nat \<times> bool \<times> 's)" where
  "chunk_step ops buf sz nomem s =
     (case chunk_line ops [] s of
        (None, s) \<Rightarrow> Inl (chunk_fail ops buf nomem REQBODY_BAD s)
      | (Some line, s) \<Rightarrow>
          let s = snd (bo_recv ops s 1) in
          (case strtoul16 (bo_atoe ops line) of
             None \<Rightarrow> Inl (chunk_fail ops buf nomem REQBODY_BAD s)
           | Some chunk \<Rightarrow>
               if chunk \<ge> REQBODY_MAX - sz then Inl (chunk_fail ops buf nomem REQBODY_TOO_LARGE s)
               else if chunk = 0 then Inl (chunk_done ops buf nomem (snd (bo_recv ops s 2)))
               else
                 (case chunk_grow ops buf sz chunk nomem s of
                    (None, nomem, s) \<Rightarrow>
                      let d = drain ops chunk s in
                      if fst d < 0 then Inl (REQBODY_NOMEM, None, snd d)
                      else
                        let r = bo_recv ops (snd d) 2 in
                        if map_option length (fst r) \<noteq> Some 2 then Inl (REQBODY_NOMEM, None, snd r)
                        else Inr (None, sz, True, snd r)
                  | (Some b, nomem, s) \<Rightarrow>
                      let d = read_exact ops b chunk s in
                      (case fst d of
                         None \<Rightarrow> Inl (chunk_fail ops (Some b) nomem REQBODY_BAD (snd d))
                       | Some b \<Rightarrow>
                           let r = bo_recv ops (snd d) 2 in
                           if map_option length (fst r) \<noteq> Some 2
                           then Inl (chunk_fail ops (Some b) nomem REQBODY_BAD (snd r))
                           else Inr (Some b, sz + chunk, nomem, snd r)))))"

fun read_chunked ::
  "nat \<Rightarrow> 's BODY_OPS \<Rightarrow> byte list option \<Rightarrow> nat \<Rightarrow> bool \<Rightarrow> 's \<Rightarrow> (int \<times> byte list option \<times> 's) option"
where
  "read_chunked 0 ops buf sz nomem s = None"
| "read_chunked (Suc fuel) ops buf sz nomem s =
     (case chunk_step ops buf sz nomem s of
        Inl x \<Rightarrow> Some x
      | Inr (buf, sz, nomem, s) \<Rightarrow> read_chunked fuel ops buf sz nomem s)"

definition read_body ::
  "nat \<Rightarrow> 's BODY_OPS \<Rightarrow> cstr option \<Rightarrow> bool \<Rightarrow> 's \<Rightarrow> (int \<times> byte list option \<times> 's) option" where
  "read_body fuel ops content_length chunked s =
     (if chunked then read_chunked fuel ops None 0 False s
      else case content_length of
        Some cl \<Rightarrow> Some (read_length ops cl s)
      | None \<Rightarrow> Some (REQBODY_BAD, None, s))"

section \<open>Bodies on the wire\<close>

text \<open>
  A chunked body (RFC 7230 4.1): each chunk its size line, CRLF, the data, CRLF; then a size
  line of zero and the final CRLF.  \<open>atoe\<close> is the code page translation of the size line.
\<close>

definition chunk_header :: "(byte list \<Rightarrow> cstr) \<Rightarrow> byte list \<Rightarrow> nat \<Rightarrow> bool" where
  "chunk_header atoe h n \<longleftrightarrow> CR \<notin> set h \<and> length h < CHUNK_LINE_MAX - 1 \<and> strtoul16 (atoe h) = Some n"

definition CRLF :: "byte list" where "CRLF = [CR, 0x0A]"

fun wire_chunks :: "(byte list \<times> byte list) list \<Rightarrow> byte list \<Rightarrow> byte list" where
  "wire_chunks [] h0 = h0 @ CRLF @ CRLF"
| "wire_chunks ((h, d) # cs) h0 = h @ CRLF @ d @ CRLF @ wire_chunks cs h0"

definition chunks_ok :: "(byte list \<Rightarrow> cstr) \<Rightarrow> (byte list \<times> byte list) list \<Rightarrow> byte list \<Rightarrow> bool" where
  "chunks_ok atoe cs h0 \<longleftrightarrow>
     (\<forall>(h, d) \<in> set cs. d \<noteq> [] \<and> chunk_header atoe h (length d)) \<and> chunk_header atoe h0 0"

section \<open>The contract of the services\<close>

text \<open>
  \<open>stream s\<close> is what the client still gets through, \<open>live s\<close> the storage blocks held, and
  \<open>left s\<close> a bound on the bytes that can ever arrive.
\<close>

locale byte_source =
  fixes ops :: "'s BODY_OPS" and stream :: "'s \<Rightarrow> byte list"
    and live :: "'s \<Rightarrow> nat" and left :: "'s \<Rightarrow> nat"
  assumes recv_full: "n \<le> length (stream s) \<Longrightarrow> bo_recv ops s n = (r, s') \<Longrightarrow>
      r = Some (take n (stream s)) \<and> stream s' = drop n (stream s)"
    and recv_short: "length (stream s) < n \<Longrightarrow> bo_recv ops s n = (r, s') \<Longrightarrow>
      r = None \<or> r = Some (stream s) \<and> stream s' = []"
    and recv_left: "left (snd (bo_recv ops s n)) \<le> left s"
    and recv_less: "fst (bo_recv ops s n) = Some b \<Longrightarrow> b \<noteq> [] \<Longrightarrow> left (snd (bo_recv ops s n)) < left s"
    and recv_live: "live (snd (bo_recv ops s n)) = live s"
    and alloc_law: "bo_alloc ops s n = (ok, s') \<Longrightarrow>
      stream s' = stream s \<and> left s' = left s \<and> live s' = live s + (if ok then 1 else 0)"
    and resize_law: "bo_resize ops s n = (ok, s') \<Longrightarrow>
      stream s' = stream s \<and> left s' = left s \<and> live s' = live s"
    and release_law: "stream (bo_release ops s p) = stream s \<and> left (bo_release ops s p) = left s \<and>
      live (bo_release ops s p) = live s - (if p then 1 else 0)"
    and nomem_law: "stream (bo_nomem ops s) = stream s \<and> left (bo_nomem ops s) = left s \<and>
      live (bo_nomem ops s) = live s"
begin

text \<open>Reading keeps the storage and never adds to what is left.\<close>

definition reads :: "'s \<Rightarrow> 's \<Rightarrow> bool" where
  "reads s s' \<longleftrightarrow> live s' = live s \<and> left s' \<le> left s"

lemma reads_refl: "reads s s"
  by (simp add: reads_def)

lemma reads_trans: "reads s t \<Longrightarrow> reads t u \<Longrightarrow> reads s u"
  by (simp add: reads_def)

lemma reads_recv: "reads s (snd (bo_recv ops s n))"
  by (simp add: reads_def recv_left recv_live)

lemma reads_drain: "o' = ops \<Longrightarrow> reads s (snd (drain o' n s))"
proof (induction o' n s rule: drain.induct)
  case (1 o' n s)
  let ?w = "if n < DRAIN_BUF then n else DRAIN_BUF"
  from 1(1) [of ?w "bo_recv o' s ?w"] 1(2) reads_recv [of s ?w] show ?case
    by (cases "0 < n"; cases "fst (bo_recv o' s ?w)")
      (auto simp: drain.simps [of ops n s] drain.simps [of ops 0 s] Let_def reads_refl intro: reads_trans)
qed

lemma reads_read_exact: "o' = ops \<Longrightarrow> reads s (snd (read_exact o' buf n s))"
proof (induction o' buf n s rule: read_exact.induct)
  case (1 o' buf n s)
  from 1(1) [of "bo_recv o' s n"] 1(2) reads_recv [of s n] show ?case
    by (cases "0 < n"; cases "fst (bo_recv o' s n)")
      (auto simp: read_exact.simps [of ops buf n s] read_exact.simps [of ops buf 0 s] Let_def reads_refl intro: reads_trans)
qed

lemma reads_chunk_line:
  "o' = ops \<Longrightarrow> reads s (snd (chunk_line o' line s)) \<and>
     (fst (chunk_line o' line s) \<noteq> None \<longrightarrow> left (snd (chunk_line o' line s)) < left s)"
proof (induction o' line s rule: chunk_line.induct)
  case (1 o' line s)
  let ?r = "bo_recv ops s 1"
  note simps = chunk_line.simps [of ops line s]
  show ?case
  proof (cases "length line \<ge> CHUNK_LINE_MAX - 1")
    case True
    then show ?thesis using 1(2) by (simp add: simps reads_refl)
  next
    case False
    consider c where "fst ?r = Some [c]" | "\<forall>c. fst ?r \<noteq> Some [c]" by blast
    then show ?thesis
    proof cases
      case (1 c)
      then have "left (snd ?r) < left s" by (intro recv_less) auto
      then show ?thesis
        using "1.IH" [OF False refl, of "[c]" c "[]"] "1.prems" 1 False reads_recv [of s 1]
        by (cases "c = CR") (auto simp: simps Let_def reads_def)
    next
      case 2
      then have "chunk_line ops line s = (None, snd ?r)"
        using False by (auto simp: simps Let_def split: option.splits list.splits)
      then show ?thesis using 1(2) reads_recv [of s 1] by simp
    qed
  qed
qed

text \<open>A client that sends enough is read to the byte, one that does not is noticed.\<close>

lemma drain_full:
  "o' = ops \<Longrightarrow> n \<le> length (stream s) \<Longrightarrow>
   fst (drain o' n s) = 0 \<and> stream (snd (drain o' n s)) = drop n (stream s)"
proof (induction o' n s rule: drain.induct)
  case (1 o' n s)
  let ?w = "if n < DRAIN_BUF then n else DRAIN_BUF"
  show ?case
  proof (cases "0 < n")
    case True
    obtain r s1 where r: "bo_recv ops s ?w = (r, s1)" by force
    have w: "0 < ?w" "?w \<le> n" using True by (auto simp: DRAIN_BUF_def)
    with "1.prems" recv_full [OF _ r] have full: "r = Some (take ?w (stream s))" "stream s1 = drop ?w (stream s)"
      by auto
    with w "1.prems" have ne: "take ?w (stream s) \<noteq> []" "length (take ?w (stream s)) = ?w" by auto
    have "drain ops n s = drain ops (n - ?w) s1"
      using True r full ne by (simp add: drain.simps [of ops n s] Let_def)
    moreover have "fst (drain ops (n - ?w) s1) = 0 \<and> stream (snd (drain ops (n - ?w) s1)) = drop (n - ?w) (stream s1)"
      using "1.IH" [OF True refl refl, of "take ?w (stream s)"] "1.prems" r full ne w by simp
    ultimately show ?thesis using full w "1.prems"(1) by simp
  next
    case False
    then show ?thesis using "1.prems" by (simp add: drain.simps [of ops 0 s])
  qed
qed

lemma read_exact_full:
  assumes "n \<le> length (stream s)"
  shows "fst (read_exact ops buf n s) = Some (buf @ take n (stream s)) \<and>
         stream (snd (read_exact ops buf n s)) = drop n (stream s)"
proof (cases "0 < n")
  case True
  obtain r s1 where r: "bo_recv ops s n = (r, s1)" by force
  from recv_full [OF assms r] have full: "r = Some (take n (stream s))" "stream s1 = drop n (stream s)"
    by auto
  with True assms have "take n (stream s) \<noteq> []" by auto
  then have "read_exact ops buf n s = read_exact ops (buf @ take n (stream s)) 0 s1"
    using True r full assms by (simp add: read_exact.simps [of ops buf n s] Let_def)
  then show ?thesis
    using full by (simp add: read_exact.simps [of ops _ 0])
next
  case False
  then show ?thesis by (simp add: read_exact.simps [of ops _ 0])
qed

lemma read_exact_short:
  "o' = ops \<Longrightarrow> length (stream s) < n \<Longrightarrow> fst (read_exact o' buf n s) = None"
proof (induction o' buf n s rule: read_exact.induct)
  case (1 o' buf n s)
  then have n: "0 < n" by simp
  obtain r s1 where r: "bo_recv ops s n = (r, s1)" by force
  from recv_short [OF "1.prems"(2) r] show ?case
  proof
    assume "r = None"
    then show ?thesis using r n "1.prems"(1) by (simp add: read_exact.simps [of ops buf n s] Let_def)
  next
    assume s: "r = Some (stream s) \<and> stream s1 = []"
    show ?thesis
    proof (cases "stream s = []")
      case True
      then show ?thesis using s r n "1.prems"(1) by (simp add: read_exact.simps [of ops buf n s] Let_def)
    next
      case False
      with "1.IH" [OF n refl, of "stream s"] s r n "1.prems"
      have "fst (read_exact ops (buf @ stream s) (n - length (stream s)) s1) = None" by simp
      then show ?thesis
        using s r n False "1.prems"(1) by (simp add: read_exact.simps [of ops buf n s] Let_def)
    qed
  qed
qed

lemma chunk_line_full:
  "CR \<notin> set line \<Longrightarrow> length (acc @ line) < CHUNK_LINE_MAX - 1 \<Longrightarrow> stream s = line @ CR # rest \<Longrightarrow>
   fst (chunk_line ops acc s) = Some (acc @ line) \<and> stream (snd (chunk_line ops acc s)) = rest"
proof (induction line arbitrary: acc s)
  case Nil
  obtain r s1 where r: "bo_recv ops s 1 = (r, s1)" by force
  from recv_full [OF _ r] Nil have "r = Some [CR]" "stream s1 = rest" by auto
  then show ?case
    using r Nil by (simp add: chunk_line.simps [of ops acc s] Let_def)
next
  case (Cons c line)
  obtain r s1 where r: "bo_recv ops s 1 = (r, s1)" by force
  from recv_full [OF _ r] Cons.prems have full: "r = Some [c]" "stream s1 = line @ CR # rest" by auto
  have "chunk_line ops acc s = chunk_line ops (acc @ [c]) s1"
    using r full Cons.prems by (auto simp: chunk_line.simps [of ops acc s] Let_def)
  then show ?case
    using Cons.IH [of "acc @ [c]" s1] Cons.prems full by simp
qed

section \<open>Storage\<close>

abbreviation held :: "byte list option \<Rightarrow> nat" where
  "held buf \<equiv> if buf = None then 0 else 1"

text \<open>The result of a reader called with \<open>live + held buf\<close> blocks: one block more exactly when it
  succeeded and hands the block to its caller.\<close>

definition accounted :: "nat \<Rightarrow> int \<times> byte list option \<times> 's \<Rightarrow> bool" where
  "accounted n x \<longleftrightarrow> live (snd (snd x)) = n + held (fst (snd x)) \<and> (fst (snd x) \<noteq> None \<longleftrightarrow> fst x = REQBODY_OK)"

lemma accounted_fail:
  "rc \<noteq> REQBODY_OK \<Longrightarrow> live s = n + held buf \<Longrightarrow> accounted n (chunk_fail ops buf nomem rc s)"
  by (auto simp: accounted_def chunk_fail_def release_law REQBODY_NOMEM_def REQBODY_OK_def)

lemma accounted_done:
  assumes "live s = n + held buf" and "nomem \<Longrightarrow> buf = None"
  shows "accounted n (chunk_done ops buf nomem s)"
  using assms alloc_law [of s 1] nomem_law
  by (cases "bo_alloc ops s 1"; cases buf)
    (auto simp: accounted_def chunk_done_def REQBODY_NOMEM_def REQBODY_OK_def Let_def)

lemma chunk_grow_live:
  assumes "chunk_grow ops buf sz chunk nomem s = (buf', nomem', s')" and "live s = n + held buf"
    and "nomem \<Longrightarrow> buf = None"
  shows "live s' = n + held buf' \<and> left s' = left s \<and> stream s' = stream s \<and>
    (nomem' \<longleftrightarrow> buf' = None) \<and> (buf' \<noteq> None \<longrightarrow> buf' = Some (case buf of None \<Rightarrow> [] | Some b \<Rightarrow> b))"
proof (cases "nomem")
  case True
  then show ?thesis using assms by (simp add: chunk_grow_def)
next
  case False
  show ?thesis
  proof (cases buf)
    case None
    then show ?thesis
      using assms False alloc_law [of s "sz + chunk + 1"]
      by (cases "bo_alloc ops s (sz + chunk + 1)")
        (auto simp: chunk_grow_def Let_def release_law nomem_law split: if_splits)
  next
    case (Some b)
    then show ?thesis
      using assms False resize_law [of s "sz + chunk + 1"]
      by (cases "bo_resize ops s (sz + chunk + 1)")
        (auto simp: chunk_grow_def Let_def release_law nomem_law split: if_splits)
  qed
qed

lemma live_reads [simp]:
  "live (snd (bo_recv ops s n)) = live s"
  "live (snd (drain ops n s)) = live s"
  "live (snd (read_exact ops buf n s)) = live s"
  "live (snd (chunk_line ops line s)) = live s"
  using reads_recv [of s n] reads_drain [OF refl, of s n] reads_read_exact [OF refl, of s buf n]
    reads_chunk_line [OF refl, of s line]
  by (simp_all add: reads_def)

lemma left_reads:
  "left (snd (bo_recv ops s n)) \<le> left s"
  "left (snd (drain ops n s)) \<le> left s"
  "left (snd (read_exact ops buf n s)) \<le> left s"
  "fst (chunk_line ops line s) \<noteq> None \<Longrightarrow> left (snd (chunk_line ops line s)) < left s"
  using reads_recv [of s n] reads_drain [OF refl, of s n] reads_read_exact [OF refl, of s buf n]
    reads_chunk_line [OF refl, of s line]
  by (simp_all add: reads_def)

definition loop_ok :: "nat \<Rightarrow> nat \<Rightarrow> byte list option \<times> nat \<times> bool \<times> 's \<Rightarrow> bool" where
  "loop_ok n m v \<longleftrightarrow> (case v of (buf, sz, nomem, s) \<Rightarrow>
     live s = n + held buf \<and> (nomem \<longrightarrow> buf = None) \<and> left s < m)"

lemma chunk_step_accounted:
  assumes "live s = n + held buf" and "nomem \<longrightarrow> buf = None"
  shows "case chunk_step ops buf sz nomem s of
           Inl x \<Rightarrow> accounted n x
         | Inr v \<Rightarrow> loop_ok n (left s) v"
proof -
  have codes: "REQBODY_BAD \<noteq> REQBODY_OK" "REQBODY_TOO_LARGE \<noteq> REQBODY_OK" "REQBODY_NOMEM \<noteq> REQBODY_OK"
    by (simp_all add: reqbody_codes)
  obtain l s1 where l: "chunk_line ops [] s = (l, s1)" by force
  have s1: "live s1 = n + held buf" using live_reads(4) [of "[]" s] l assms by simp
  note step = chunk_step_def [of ops buf sz nomem s, unfolded l prod.case]
  show ?thesis
  proof (cases l)
    case None
    then show ?thesis using s1 codes by (simp add: step accounted_fail)
  next
    case (Some line)
    have left1: "left s1 < left s" using left_reads(4) [of "[]" s] l Some by simp
    let ?s2 = "snd (bo_recv ops s1 1)"
    have s2: "live ?s2 = n + held buf" using s1 by simp
    have left2: "left ?s2 < left s" using left1 left_reads(1) [of s1 1] by simp
    note step = step [unfolded Some option.case Let_def]
    show ?thesis
    proof (cases "strtoul16 (bo_atoe ops line)")
      case None
      then show ?thesis using s2 codes by (simp add: step accounted_fail)
    next
      case chunk: (Some chunk)
      note step = step [unfolded chunk option.case]
      consider "chunk \<ge> REQBODY_MAX - sz" | "\<not> chunk \<ge> REQBODY_MAX - sz" "chunk = 0"
        | "\<not> chunk \<ge> REQBODY_MAX - sz" "chunk \<noteq> 0" by blast
      then show ?thesis
      proof cases
        case 1
        then show ?thesis using s2 codes by (simp add: step accounted_fail)
      next
        case 2
        have "accounted n (chunk_done ops buf nomem (snd (bo_recv ops ?s2 2)))"
          using s2 assms(2) by (intro accounted_done) auto
        with 2 show ?thesis by (simp add: step)
      next
        case 3
        obtain buf' nomem' s3 where g: "chunk_grow ops buf sz chunk nomem ?s2 = (buf', nomem', s3)"
          by (metis prod_cases3)
        have grown: "live s3 = n + held buf'" "left s3 < left s" "nomem' \<longleftrightarrow> buf' = None"
          using chunk_grow_live [OF g s2] assms(2) left2 by auto
        note step = step [unfolded g prod.case]
        show ?thesis
        proof (cases buf')
          case None
          let ?d = "drain ops chunk s3"
          have "left (snd (bo_recv ops (snd ?d) 2)) < left s"
            using grown(2) left_reads(1) [of "snd ?d" 2] left_reads(2) [of chunk s3] by linarith
          then show ?thesis
            using 3 grown None codes by (simp add: step accounted_def loop_ok_def)
        next
          case (Some b)
          let ?d = "read_exact ops b chunk s3"
          have "left (snd (bo_recv ops (snd ?d) 2)) < left s"
            using grown(2) left_reads(1) [of "snd ?d" 2] left_reads(3) [of b chunk s3] by linarith
          then show ?thesis
            using 3 grown Some codes
            by (cases "fst ?d") (simp_all add: step accounted_fail loop_ok_def)
        qed
      qed
    qed
  qed
qed

lemma read_chunked_accounted:
  "read_chunked fuel ops buf sz nomem s = Some x \<Longrightarrow> live s = n + held buf \<Longrightarrow> nomem \<longrightarrow> buf = None \<Longrightarrow>
   accounted n x"
proof (induction fuel arbitrary: buf sz nomem s)
  case (Suc fuel)
  show ?case
  proof (cases "chunk_step ops buf sz nomem s")
    case (Inl y)
    then show ?thesis using chunk_step_accounted [OF Suc.prems(2,3), of sz] Suc.prems(1) by simp
  next
    case (Inr v)
    obtain buf' sz' nomem' s' where v: "v = (buf', sz', nomem', s')" by (cases v) auto
    with Inr have "loop_ok n (left s) (buf', sz', nomem', s')"
      using chunk_step_accounted [OF Suc.prems(2,3), of sz] by simp
    then show ?thesis
      using Suc.IH [of buf' sz' nomem' s'] Suc.prems(1) Inr v by (simp add: loop_ok_def)
  qed
qed simp

text \<open>Fuel above \<open>left\<close> is enough.\<close>

lemma read_chunked_returns:
  "left s < fuel \<Longrightarrow> live s = n + held buf \<Longrightarrow> nomem \<longrightarrow> buf = None \<Longrightarrow>
   read_chunked fuel ops buf sz nomem s \<noteq> None"
proof (induction fuel arbitrary: buf sz nomem s)
  case (Suc fuel)
  show ?case
  proof (cases "chunk_step ops buf sz nomem s")
    case (Inr v)
    obtain buf' sz' nomem' s' where v: "v = (buf', sz', nomem', s')" by (cases v) auto
    with Inr have "loop_ok n (left s) (buf', sz', nomem', s')"
      using chunk_step_accounted [OF Suc.prems(2,3), of sz] by simp
    then show ?thesis
      using Suc.IH [of s' buf' nomem' sz'] Suc.prems(1) Inr v by (simp add: loop_ok_def)
  qed simp
qed simp

section \<open>Well-formed bodies\<close>

lemma recv_two:
  assumes "stream s = CRLF @ rest"
  shows "map_option length (fst (bo_recv ops s 2)) = Some 2" and "stream (snd (bo_recv ops s 2)) = rest"
  using recv_full [of 2 s "fst (bo_recv ops s 2)" "snd (bo_recv ops s 2)"] assms
  by (simp_all add: CRLF_def)

lemma chunk_line_crlf:
  assumes "chunk_header (bo_atoe ops) h n" and "stream s = h @ CRLF @ rest"
  obtains s1 where "chunk_line ops [] s = (Some h, s1)" and "stream (snd (bo_recv ops s1 1)) = rest"
proof -
  obtain l s1 where l: "chunk_line ops [] s = (l, s1)" by force
  from chunk_line_full [of h "[]" s "0x0A # rest"] assms l have "l = Some h" "stream s1 = 0x0A # rest"
    by (auto simp: chunk_header_def CRLF_def)
  then show ?thesis
    using that [of s1] l recv_full [of 1 s1 "fst (bo_recv ops s1 1)" "snd (bo_recv ops s1 1)"] by simp
qed

lemma chunk_step_data:
  assumes "chunk_header (bo_atoe ops) h (length d)" and "d \<noteq> []" and "sz + length d < REQBODY_MAX"
    and "stream s = h @ CRLF @ d @ CRLF @ rest"
    and "live s = n + held buf" and "nomem \<longrightarrow> buf = None" and "buf = None \<longrightarrow> \<not> nomem \<longrightarrow> sz = 0"
  obtains s' where "stream s' = rest" "chunk_step ops buf sz nomem s = Inr (None, sz, True, s')"
  | s' where "\<not> nomem" "stream s' = rest"
      "chunk_step ops buf sz nomem s =
         Inr (Some ((case buf of None \<Rightarrow> [] | Some b \<Rightarrow> b) @ d), sz + length d, False, s')"
proof -
  obtain s1 where l: "chunk_line ops [] s = (Some h, s1)"
    and s2: "stream (snd (bo_recv ops s1 1)) = d @ CRLF @ rest"
    using chunk_line_crlf [OF assms(1), of s "d @ CRLF @ rest"] assms(4) by auto
  let ?s2 = "snd (bo_recv ops s1 1)"
  have live2: "live ?s2 = n + held buf" using live_reads(4) [of "[]" s] l assms(5) by simp
  have h: "strtoul16 (bo_atoe ops h) = Some (length d)" using assms(1) by (simp add: chunk_header_def)
  obtain buf' nomem' s3 where g: "chunk_grow ops buf sz (length d) nomem ?s2 = (buf', nomem', s3)"
    by (metis prod_cases3)
  note grown = chunk_grow_live [OF g live2]
  have s3: "stream s3 = d @ CRLF @ rest" and nm: "nomem' \<longleftrightarrow> buf' = None"
    using grown assms(6) s2 by auto
  have cont: "\<not> REQBODY_MAX - sz \<le> length d" "length d \<noteq> 0"
    using assms(2,3) by auto
  note step = chunk_step_def [of ops buf sz nomem s, unfolded l prod.case option.case Let_def h g]
  show ?thesis
  proof (cases buf')
    case None
    let ?d = "drain ops (length d) s3"
    have d: "fst ?d = 0" "stream (snd ?d) = CRLF @ rest"
      using drain_full [OF refl, of "length d" s3] s3 by simp_all
    from recv_two [OF d(2)] show ?thesis
      using that(1) [of "snd (bo_recv ops (snd ?d) 2)"] None cont d(1) by (simp add: step)
  next
    case (Some b)
    let ?d = "read_exact ops b (length d) s3"
    have d: "fst ?d = Some (b @ d)" "stream (snd ?d) = CRLF @ rest"
      using read_exact_full [of "length d" s3 b] s3 by simp_all
    have "b = (case buf of None \<Rightarrow> [] | Some b \<Rightarrow> b)" "\<not> nomem'" "\<not> nomem"
      using grown assms(6) Some nm g by (auto simp: chunk_grow_def split: if_splits)
    moreover have "chunk_step ops buf sz nomem s =
        Inr (Some (b @ d), sz + length d, False, snd (bo_recv ops (snd ?d) 2))"
      using Some cont d(1) recv_two(1) [OF d(2)] \<open>\<not> nomem'\<close> by (simp add: step)
    ultimately show ?thesis
      using that(2) [of "snd (bo_recv ops (snd ?d) 2)"] recv_two(2) [OF d(2)] by blast
  qed
qed

lemma chunk_step_last:
  assumes "chunk_header (bo_atoe ops) h0 0" and "sz < REQBODY_MAX" and "stream s = h0 @ CRLF @ CRLF @ rest"
  obtains s' where "stream s' = rest" "live s' = live s"
    "chunk_step ops buf sz nomem s = Inl (chunk_done ops buf nomem s')"
proof -
  obtain s1 where l: "chunk_line ops [] s = (Some h0, s1)"
    and s2: "stream (snd (bo_recv ops s1 1)) = CRLF @ rest"
    using chunk_line_crlf [OF assms(1), of s "CRLF @ rest"] assms(3) by auto
  have "strtoul16 (bo_atoe ops h0) = Some 0" using assms(1) by (simp add: chunk_header_def)
  with l assms(2) have "chunk_step ops buf sz nomem s =
      Inl (chunk_done ops buf nomem (snd (bo_recv ops (snd (bo_recv ops s1 1)) 2)))"
    by (simp add: chunk_step_def Let_def)
  moreover have "live (snd (bo_recv ops (snd (bo_recv ops s1 1)) 2)) = live s"
    using live_reads(4) [of "[]" s] l by simp
  ultimately show ?thesis using recv_two(2) [OF s2] that by blast
qed

text \<open>Storage that is always granted, which \<open>read_chunked\<close> then never misses.\<close>

definition grants :: bool where
  "grants \<longleftrightarrow> (\<forall>s n. fst (bo_alloc ops s n)) \<and> (\<forall>s n. fst (bo_resize ops s n))"

lemma chunk_grow_grants: "grants \<Longrightarrow> \<not> nomem \<Longrightarrow> chunk_grow ops buf sz c nomem s \<noteq> (None, x)"
  by (auto simp: grants_def chunk_grow_def Let_def)

lemma chunk_step_grants:
  assumes "grants" and "\<not> nomem"
  shows "chunk_step ops buf sz nomem s \<noteq> Inr (None, sz', True, s')"
  using chunk_grow_grants [OF assms]
  by (auto simp: chunk_step_def Let_def split: option.splits prod.splits if_splits)

lemma chunk_done_cases:
  assumes "live s = n + held buf" and "nomem \<longrightarrow> buf = None"
  shows "\<exists>s'. stream s' = stream s \<and>
    (\<not> nomem \<and> chunk_done ops buf nomem s = (REQBODY_OK, Some (case buf of None \<Rightarrow> [] | Some b \<Rightarrow> b), s') \<or>
     \<not> (grants \<and> \<not> nomem) \<and> chunk_done ops buf nomem s = (REQBODY_NOMEM, None, s'))"
proof -
  obtain ok s1 where a: "bo_alloc ops s 1 = (ok, s1)" by force
  have "grants \<Longrightarrow> ok" unfolding grants_def using a by (metis fst_conv)
  with alloc_law [OF a] a assms(2) nomem_law [of s1] show ?thesis
    by (cases nomem; cases buf; cases ok) (auto simp: chunk_done_def Let_def)
qed

lemma read_chunked_wire:
  assumes "chunks_ok (bo_atoe ops) cs h0"
  shows "stream s = wire_chunks cs h0 @ rest \<Longrightarrow> length cs < fuel \<Longrightarrow>
    sz + length (concat (map snd cs)) < REQBODY_MAX \<Longrightarrow>
    live s = n + held buf \<Longrightarrow> nomem \<longrightarrow> buf = None \<Longrightarrow> buf = None \<longrightarrow> \<not> nomem \<longrightarrow> sz = 0 \<Longrightarrow>
    \<exists>s'. stream s' = rest \<and>
      (\<not> nomem \<and> read_chunked fuel ops buf sz nomem s =
         Some (REQBODY_OK, Some ((case buf of None \<Rightarrow> [] | Some b \<Rightarrow> b) @ concat (map snd cs)), s') \<or>
       \<not> (grants \<and> \<not> nomem) \<and> read_chunked fuel ops buf sz nomem s = Some (REQBODY_NOMEM, None, s'))"
  using assms
proof (induction cs arbitrary: s fuel sz buf nomem)
  case Nil
  then obtain f where f: "fuel = Suc f" by (cases fuel) auto
  from Nil have "chunk_header (bo_atoe ops) h0 0" "sz < REQBODY_MAX" "stream s = h0 @ CRLF @ CRLF @ rest"
    by (auto simp: chunks_ok_def)
  then obtain s' where s': "stream s' = rest" "live s' = live s"
    "chunk_step ops buf sz nomem s = Inl (chunk_done ops buf nomem s')"
    using chunk_step_last by blast
  then show ?case
    using chunk_done_cases [of s' n buf nomem] f Nil.prems(4,5) by auto
next
  case (Cons c cs)
  obtain h d where c: "c = (h, d)" by force
  from Cons.prems(2) obtain f where f: "fuel = Suc f" "length cs < f" by (cases fuel) auto
  have hd: "chunk_header (bo_atoe ops) h (length d)" "d \<noteq> []" and ok: "chunks_ok (bo_atoe ops) cs h0"
    using Cons.prems(7) c by (auto simp: chunks_ok_def)
  have st: "stream s = h @ CRLF @ d @ CRLF @ wire_chunks cs h0 @ rest" using Cons.prems(1) c by simp
  have sz: "sz + length d < REQBODY_MAX" "sz + length d + length (concat (map snd cs)) < REQBODY_MAX"
    using Cons.prems(3) c by simp_all
  note acc = chunk_step_accounted [OF Cons.prems(4,5), of sz]
  from hd sz(1) st Cons.prems(4,5,6) show ?case
  proof (rule chunk_step_data)
    fix s'
    assume s': "stream s' = wire_chunks cs h0 @ rest" "chunk_step ops buf sz nomem s = Inr (None, sz, True, s')"
    then have "live s' = n + held None" using acc by (simp add: loop_ok_def)
    then obtain s'' where "stream s'' = rest"
      "read_chunked f ops None sz True s' = Some (REQBODY_NOMEM, None, s'')"
      using Cons.IH [OF s'(1) f(2), of sz None True] sz ok by auto
    moreover have "\<not> (grants \<and> \<not> nomem)" using chunk_step_grants s'(2) by blast
    ultimately show ?thesis using s'(2) f(1) by auto
  next
    fix s'
    assume s': "\<not> nomem" "stream s' = wire_chunks cs h0 @ rest"
      "chunk_step ops buf sz nomem s =
         Inr (Some ((case buf of None \<Rightarrow> [] | Some b \<Rightarrow> b) @ d), sz + length d, False, s')"
    let ?b = "Some ((case buf of None \<Rightarrow> [] | Some b \<Rightarrow> b) @ d)"
    have "live s' = n + held ?b" using acc s'(3) by (simp add: loop_ok_def)
    then show ?thesis
      using Cons.IH [OF s'(2) f(2), of "sz + length d" ?b False] sz ok s' f(1) c by auto
  qed
qed

text \<open>A body with a Content-Length.\<close>

lemma read_length_wire:
  assumes "parse_length cl = Inr len" and "stream s = body @ rest" and "length body = len"
  shows "\<exists>s'. stream s' = rest \<and>
    (read_length ops cl s = (REQBODY_OK, Some body, s') \<or>
     \<not> grants \<and> read_length ops cl s = (REQBODY_NOMEM, None, s'))"
proof -
  obtain ok s1 where a: "bo_alloc ops s (len + 1) = (ok, s1)" by force
  have g: "grants \<Longrightarrow> ok" unfolding grants_def using a by (metis fst_conv)
  have s1: "stream s1 = body @ rest" using alloc_law [OF a] assms(2) by simp
  show ?thesis
  proof (cases ok)
    case True
    then show ?thesis
      using a s1 assms(1,3) read_exact_full [of len s1 "[]"]
      by (auto simp: read_length_def Let_def)
  next
    case False
    then show ?thesis
      using a s1 g assms(1,3) nomem_law [of s1] drain_full [OF refl, of len "bo_nomem ops s1"]
      by (auto simp: read_length_def Let_def)
  qed
qed

lemma read_length_accounted:
  assumes "live s = n"
  shows "accounted n (read_length ops cl s)"
proof -
  have codes: "REQBODY_BAD \<noteq> REQBODY_OK" "REQBODY_TOO_LARGE \<noteq> REQBODY_OK" "REQBODY_NOMEM \<noteq> REQBODY_OK"
    by (simp_all add: reqbody_codes)
  show ?thesis
  proof (cases "parse_length cl")
    case (Inl rc)
    then have "rc \<noteq> REQBODY_OK"
      using codes by (auto simp: parse_length_def Let_def split: if_splits prod.splits)
    with Inl assms show ?thesis by (simp add: read_length_def accounted_def)
  next
    case (Inr len)
    obtain ok s1 where a: "bo_alloc ops s (len + 1) = (ok, s1)" by force
    show ?thesis
      using Inr a alloc_law [OF a] assms codes nomem_law [of s1] release_law
      by (cases ok; cases "fst (read_exact ops [] len s1)")
        (simp_all add: read_length_def accounted_def Let_def)
  qed
qed

end

section \<open>The services of a session\<close>

text \<open>\<open>malloc\<close> says whether the run time grants a block, which may depend on everything; \<open>atoe\<close> is
  httpd's translation to the native code page.\<close>

record bodyst =
  bs_conn :: httpc
  bs_live :: nat

definition body_op_recv :: "bodyst \<Rightarrow> nat \<Rightarrow> byte list option \<times> bodyst" where
  "body_op_recv st len =
     (let (r, c) = receive_raw_data (bs_conn st) len in (r, st\<lparr>bs_conn := c\<rparr>))"

definition body_op_alloc :: "(bodyst \<Rightarrow> nat \<Rightarrow> bool) \<Rightarrow> bodyst \<Rightarrow> nat \<Rightarrow> bool \<times> bodyst" where
  "body_op_alloc malloc st n =
     (if malloc st n then (True, st\<lparr>bs_live := bs_live st + 1\<rparr>) else (False, st))"

definition body_op_resize :: "(bodyst \<Rightarrow> nat \<Rightarrow> bool) \<Rightarrow> bodyst \<Rightarrow> nat \<Rightarrow> bool \<times> bodyst" where
  "body_op_resize malloc st n = (malloc st n, st)"

definition body_op_release :: "bodyst \<Rightarrow> bool \<Rightarrow> bodyst" where
  "body_op_release st nonnull = (if nonnull then st\<lparr>bs_live := bs_live st - 1\<rparr> else st)"

definition body_op_nomem :: "bodyst \<Rightarrow> bodyst" where
  "body_op_nomem st =
     st\<lparr>bs_conn := (bs_conn st)\<lparr>hc_wtos := hc_wtos (bs_conn st) @ [StorageFailed]\<rparr>\<rparr>"

definition body_ops :: "(bodyst \<Rightarrow> nat \<Rightarrow> bool) \<Rightarrow> (byte list \<Rightarrow> cstr) \<Rightarrow> bodyst BODY_OPS" where
  "body_ops malloc atoe =
     \<lparr>bo_recv = body_op_recv, bo_alloc = body_op_alloc malloc, bo_resize = body_op_resize malloc,
      bo_release = body_op_release, bo_nomem = body_op_nomem, bo_atoe = atoe\<rparr>"

text \<open>
  \<^verbatim>\<open>read_request_content\<close>, given the values of the headers \<^verbatim>\<open>Transfer-Encoding\<close> and
  \<^verbatim>\<open>Content-Length\<close>.
\<close>

definition read_request_content ::
  "nat \<Rightarrow> (bodyst \<Rightarrow> nat \<Rightarrow> bool) \<Rightarrow> (byte list \<Rightarrow> cstr) \<Rightarrow> cstr option \<Rightarrow> cstr option \<Rightarrow> bodyst \<Rightarrow>
     (int \<times> byte list option \<times> bodyst) option" where
  "read_request_content fuel malloc atoe te cl st =
     (let chunked = (case te of None \<Rightarrow> False | Some v \<Rightarrow> c_strstr ''chunked'' v \<noteq> None) in
      case read_body fuel (body_ops malloc atoe) cl chunked st of
        None \<Rightarrow> None
      | Some (rc, content, st) \<Rightarrow>
          Some (rc, content,
                if rc \<noteq> REQBODY_OK then st\<lparr>bs_conn := (bs_conn st)\<lparr>hc_keepalive := False\<rparr>\<rparr> else st))"

definition bs_stream :: "bodyst \<Rightarrow> byte list" where
  "bs_stream st = rx_stream 0 (hc_rx (bs_conn st))"

definition bs_left :: "bodyst \<Rightarrow> nat" where
  "bs_left st = rx_size (hc_rx (bs_conn st))"

lemmas body_op_defs = body_ops_def body_op_recv_def body_op_alloc_def body_op_resize_def
  body_op_release_def body_op_nomem_def bs_stream_def bs_left_def

lemma receive_raw_data_law:
  assumes "receive_raw_data c n = (r, c')"
  shows "n \<le> length (rx_stream 0 (hc_rx c)) \<and> r = Some (take n (rx_stream 0 (hc_rx c))) \<and>
           rx_stream 0 (hc_rx c') = drop n (rx_stream 0 (hc_rx c)) \<or>
         length (rx_stream 0 (hc_rx c)) < n \<and>
           (r = None \<or> r = Some (rx_stream 0 (hc_rx c)) \<and> rx_stream 0 (hc_rx c') = [])"
  using receive_loop_stream [of n "[]" 0 c r c'] assms by (simp add: receive_raw_data_def)

lemma receive_raw_data_left:
  "rx_size (hc_rx (snd (receive_raw_data c n))) \<le> rx_size (hc_rx c)"
  "fst (receive_raw_data c n) = Some b \<Longrightarrow> b \<noteq> [] \<Longrightarrow>
     rx_size (hc_rx (snd (receive_raw_data c n))) < rx_size (hc_rx c)"
  using receive_loop_size [of n "[]" 0 c] by (auto simp: receive_raw_data_def)

interpretation session_body: byte_source "body_ops malloc atoe" bs_stream bs_live bs_left
proof (unfold_locales, goal_cases)
  case (1 n s r s')
  then show ?case
    using receive_raw_data_law [of "bs_conn s" n] by (auto simp: body_op_defs split: prod.splits)
next
  case (2 s n r s')
  then show ?case
    using receive_raw_data_law [of "bs_conn s" n] by (auto simp: body_op_defs split: prod.splits)
next
  case (3 s n)
  then show ?case
    using receive_raw_data_left(1) [of "bs_conn s" n] by (auto simp: body_op_defs split: prod.splits)
next
  case (4 s n b)
  then show ?case
    using receive_raw_data_left(2) [of "bs_conn s" n b] by (auto simp: body_op_defs split: prod.splits)
qed (auto simp: body_op_defs split: prod.splits if_splits)

lemma body_grants: "(\<And>st n. malloc st n) \<Longrightarrow> session_body.grants malloc atoe"
  unfolding session_body.grants_def by (simp add: body_op_defs)

section \<open>Decimal lengths\<close>

lemma length_digits_all:
  assumes "dec_fold v s < REQBODY_MAX" and "\<forall>c \<in> set s. is_digit c"
  shows "length_digits v k s = (dec_fold v s, k + length s, [])"
  using assms
proof (induction s arbitrary: v k)
  case (Cons c s)
  have "v * 10 + digit_val c \<le> dec_fold v (c # s)"
    using dec_fold_ge [of "v * 10 + digit_val c" s] by (simp add: dec_fold_def)
  with Cons.prems(1) have "v < REQBODY_MAX" by linarith
  with Cons show ?case by (simp add: dec_fold_def)
qed (simp add: dec_fold_def)

lemma parse_length_show:
  assumes "n < REQBODY_MAX"
  shows "parse_length (show_nat n) = Inr n"
proof -
  have "is_digit (hd (show_nat n))" using show_nat_digits [of n] show_nat_ne [of n] by auto
  then have "hd (show_nat n) \<noteq> blank" by (auto simp: is_digit_def less_eq_char_def)
  then have "lstrip (show_nat n) = show_nat n"
    using show_nat_ne [of n] by (cases "show_nat n") (auto simp: lstrip_def)
  moreover have "length_digits 0 0 (show_nat n) = (n, length (show_nat n), [])"
    using length_digits_all [of 0 "show_nat n" 0] assms show_nat_digits [of n]
    by (simp add: dec_fold_show)
  ultimately show ?thesis
    using assms show_nat_ne [of n] by (simp add: parse_length_def lstrip_def)
qed

section \<open>Properties\<close>

text \<open>C7: a chunked body is read to its last byte, whatever chunks the client cuts it into and
  whatever segments and pauses it arrives in: the buffer is the data of the chunks in order, and
  what follows the body on the socket is left there.  When storage is refused on the way the
  answer is "no memory", and the body has been read all the same.\<close>

theorem read_body_chunked:
  assumes "chunks_ok atoe cs h0" and "length (concat (map snd cs)) < REQBODY_MAX"
    and "bs_stream st = wire_chunks cs h0 @ rest" and "length cs < fuel"
  shows "\<exists>st'. bs_stream st' = rest \<and>
    (read_body fuel (body_ops malloc atoe) cl True st = Some (REQBODY_OK, Some (concat (map snd cs)), st') \<or>
     \<not> (\<forall>s n. malloc s n) \<and> read_body fuel (body_ops malloc atoe) cl True st = Some (REQBODY_NOMEM, None, st'))"
proof -
  have "chunks_ok (bo_atoe (body_ops malloc atoe)) cs h0" using assms(1) by (simp add: body_ops_def)
  from session_body.read_chunked_wire [OF this assms(3,4), of 0 "bs_live st" None False] assms(2)
  show ?thesis
    using body_grants [of malloc atoe] by (auto simp: read_body_def)
qed

theorem read_body_chunked_witness:
  "\<exists>st'. bs_stream st' = [] \<and>
    read_body 5 (body_ops (\<lambda>_ _. True) (map (\<lambda>b. char_of (unat b)))) None True
      \<lparr>bs_conn = \<lparr>hc_state = 3, hc_chunked = False, hc_keepalive = True, hc_wire = [], hc_sends = [],
          hc_stops = [], hc_rx = [RxData [0x32, 0x0D, 0x0A, 0x41], RxWouldBlock,
            RxData [0x42, 0x0D, 0x0A, 0x30, 0x0D, 0x0A, 0x0D, 0x0A], RxEof], hc_waits = 0, hc_wtos = []\<rparr>,
        bs_live = 0\<rparr> = Some (REQBODY_OK, Some [0x41, 0x42], st')"
  (is "\<exists>st'. _ \<and> read_body _ _ _ _ ?st = _")
proof -
  have d: "strtoul16 ''2'' = Some 2" "strtoul16 ''0'' = Some 0"
    by (simp_all add: strtoul16_def xdigit_val_def is_digit_def digit_val_def isspace_def less_eq_char_def)
  have c: "char_of (50 :: nat) = CHR ''2''" "char_of (48 :: nat) = CHR ''0''"
    by (simp_all add: char_of_def bit_0)
  have "chunks_ok (map (\<lambda>b. char_of (unat b))) [([0x32], [0x41, 0x42])] [0x30]"
    by (simp add: chunks_ok_def chunk_header_def CR_def CHUNK_LINE_MAX_def c d)
  from read_body_chunked [OF this, of ?st "[]" 5 "\<lambda>_ _. True" None]
  show ?thesis
    by (simp add: bs_stream_def CRLF_def CR_def REQBODY_MAX_def RAW_RECV_MAX_RETRIES_def)
qed

text \<open>A body announced with its decimal Content-Length is read exactly, up to 16 MB, and what
  follows it is left on the socket; when its storage is refused it is drained.\<close>

theorem read_body_content_length:
  assumes "length body < REQBODY_MAX" and "bs_stream st = body @ rest"
  shows "\<exists>st'. bs_stream st' = rest \<and>
    (read_body fuel (body_ops malloc atoe) (Some (show_nat (length body))) False st
       = Some (REQBODY_OK, Some body, st') \<or>
     \<not> (\<forall>s n. malloc s n) \<and>
     read_body fuel (body_ops malloc atoe) (Some (show_nat (length body))) False st
       = Some (REQBODY_NOMEM, None, st'))"
  using session_body.read_length_wire [OF parse_length_show [OF assms(1)] assms(2) refl, of malloc atoe]
    body_grants [of malloc atoe]
  by (auto simp: read_body_def)

theorem read_body_content_length_witness:
  "\<exists>st'. bs_stream st' = [0x47] \<and>
    read_body 1 (body_ops (\<lambda>_ _. True) (\<lambda>_. [])) (Some (show_nat (length [0x41 :: byte, 0x42]))) False
      \<lparr>bs_conn = \<lparr>hc_state = 3, hc_chunked = False, hc_keepalive = True, hc_wire = [], hc_sends = [],
          hc_stops = [], hc_rx = [RxIntr, RxData [0x41, 0x42, 0x47]], hc_waits = 0, hc_wtos = []\<rparr>,
        bs_live = 0\<rparr> = Some (REQBODY_OK, Some [0x41, 0x42], st')"
  (is "\<exists>st'. _ \<and> read_body _ _ _ _ ?st = _")
  using read_body_content_length [of "[0x41, 0x42]" ?st "[0x47]" 1 "\<lambda>_ _. True" "\<lambda>_. []"]
  by (simp add: bs_stream_def REQBODY_MAX_def)

text \<open>C8: reading a body always returns, whatever the client sends; it hands out a buffer exactly
  when it succeeds and holds no other storage afterwards; and a failure gives up the keep-alive
  connection, on which unread bytes may be left.\<close>

theorem read_request_content_total:
  assumes "bs_left st < fuel"
  shows "\<exists>rc content st'. read_request_content fuel malloc atoe te cl st = Some (rc, content, st') \<and>
    (content \<noteq> None \<longleftrightarrow> rc = REQBODY_OK) \<and>
    bs_live st' = bs_live st + (if rc = REQBODY_OK then 1 else 0) \<and>
    (rc \<noteq> REQBODY_OK \<longrightarrow> \<not> hc_keepalive (bs_conn st'))"
proof -
  let ?ops = "body_ops malloc atoe"
  let ?ch = "case te of None \<Rightarrow> False | Some v \<Rightarrow> c_strstr ''chunked'' v \<noteq> None"
  have "\<exists>x. read_body fuel ?ops cl ?ch st = Some x \<and> session_body.accounted (bs_live st) x"
  proof (cases ?ch)
    case True
    then obtain x where "read_chunked fuel ?ops None 0 False st = Some x"
      using session_body.read_chunked_returns [OF assms, of "bs_live st" None False malloc atoe 0] by auto
    with True session_body.read_chunked_accounted [OF this, of "bs_live st"] show ?thesis
      by (simp add: read_body_def)
  next
    case False
    then show ?thesis
      using session_body.read_length_accounted [of st "bs_live st" malloc atoe]
      by (cases cl) (auto simp: read_body_def session_body.accounted_def reqbody_codes)
  qed
  then obtain rc content st' where "read_body fuel ?ops cl ?ch st = Some (rc, content, st')"
    "session_body.accounted (bs_live st) (rc, content, st')" by auto
  then show ?thesis
    by (auto simp: read_request_content_def session_body.accounted_def)
qed

theorem read_request_content_total_witness:
  "\<exists>rc content st'. read_request_content 1 (\<lambda>_ _. True) (\<lambda>_. []) (Some ''chunked'') None
      \<lparr>bs_conn = \<lparr>hc_state = 3, hc_chunked = False, hc_keepalive = True, hc_wire = [], hc_sends = [],
          hc_stops = [], hc_rx = [], hc_waits = 0, hc_wtos = []\<rparr>, bs_live = 0\<rparr> = Some (rc, content, st') \<and>
    bs_live st' = (if rc = REQBODY_OK then 1 else 0)"
  (is "\<exists>rc content st'. read_request_content _ _ _ _ _ ?st = _ \<and> _")
  using read_request_content_total [of ?st 1 "\<lambda>_ _. True" "\<lambda>_. []" "Some ''chunked''" None]
  by (auto simp: bs_left_def)

end
