(* ===== verification/Response.thy ===== *)
theory Response
  imports JsonBuilder SendAll ReqBody
begin

text \<open>
  The answering half of \<^verbatim>\<open>src/common.c\<close>: parameters of a request, response headers, the session
  cookie and the challenge of a 401, JSON responses and the z/OSMF error report.

  The server is the environment: \<open>httpd\<close> collects what it gives a request (its realm, the token
  it minted, its translation table, the allocator).  \<^verbatim>\<open>http_printf\<close> and \<^verbatim>\<open>http_resp\<close> refuse a client
  at \<^verbatim>\<open>CSTATE_DONE\<close>; otherwise each call's result is the next of the script \<open>ss_prints\<close>, and
  success once the script has run out.
\<close>

section \<open>The session\<close>

record httpd =
  hd_cstate_done :: int
  hd_realm :: cstr
  hd_token :: "byte list"
  hd_base64 :: "byte list \<Rightarrow> cstr option"
  hd_etoa :: "char \<Rightarrow> char"
  hd_alloc :: "nat \<Rightarrow> bool"
  hd_builder_size :: nat
  hd_cmpn :: "cstr \<Rightarrow> cstr \<Rightarrow> nat \<Rightarrow> bool"

datatype out_item = OutStatus int | OutHeader cstr | OutText cstr

record session =
  ss_conn :: httpc
  ss_env :: "cstr \<Rightarrow> cstr option"
  ss_prints :: "int list"
  ss_out :: "out_item list"
  ss_headers_sent :: bool

definition http_print :: "httpd \<Rightarrow> out_item \<Rightarrow> 'a session_scheme \<Rightarrow> int \<times> 'a session_scheme" where
  "http_print srv item s =
     (if hc_state (ss_conn s) \<ge> hd_cstate_done srv then (-1, s)
      else case ss_prints s of
        [] \<Rightarrow> (0, s\<lparr>ss_out := ss_out s @ [item]\<rparr>)
      | r # rs \<Rightarrow>
          if r < 0 then (r, s\<lparr>ss_prints := rs\<rparr>)
          else (r, s\<lparr>ss_prints := rs, ss_out := ss_out s @ [item]\<rparr>))"

definition http_resp :: "httpd \<Rightarrow> int \<Rightarrow> 'a session_scheme \<Rightarrow> int \<times> 'a session_scheme" where
  "http_resp srv status = http_print srv (OutStatus status)"

definition http_printf :: "httpd \<Rightarrow> cstr \<Rightarrow> 'a session_scheme \<Rightarrow> int \<times> 'a session_scheme" where
  "http_printf srv line = http_print srv (OutHeader line)"

text \<open>\<^verbatim>\<open>if ((rc = f) < 0) return rc; ...\<close>\<close>

definition and_then ::
  "('s \<Rightarrow> int \<times> 's) \<Rightarrow> ('s \<Rightarrow> int \<times> 's) \<Rightarrow> 's \<Rightarrow> int \<times> 's" where
  "and_then f g s = (let (rc, s) = f s in if rc < 0 then (rc, s) else g s)"

section \<open>Parameters\<close>

definition ENV_NAME_SIZE :: nat where "ENV_NAME_SIZE = 256"

definition get_env_param :: "'a session_scheme \<Rightarrow> cstr \<Rightarrow> cstr \<Rightarrow> cstr option" where
  "get_env_param s pre name = ss_env s (c_snprintf ENV_NAME_SIZE (pre @ name))"

definition getQueryParam :: "'a session_scheme \<Rightarrow> cstr \<Rightarrow> cstr option" where
  "getQueryParam s name = get_env_param s ''QUERY_'' name"

definition getPathParam :: "'a session_scheme \<Rightarrow> cstr \<Rightarrow> cstr option" where
  "getPathParam s name = get_env_param s ''HTTP_'' name"

definition getHeaderParam :: "'a session_scheme \<Rightarrow> cstr \<Rightarrow> cstr option" where
  "getHeaderParam s name = get_env_param s ''HTTP_'' name"

definition getRequestScheme :: "httpd \<Rightarrow> 'a session_scheme \<Rightarrow> cstr" where
  "getRequestScheme srv s =
     (case getHeaderParam s ''X-Forwarded-Proto'' of
        None \<Rightarrow> ''http''
      | Some proto \<Rightarrow>
          if hd_cmpn srv proto ''https'' 5 \<and> c_at proto 5 \<in> {nul, CHR '','', blank}
          then ''https'' else ''http'')"

section \<open>Headers\<close>

definition HTTP_CONTENT_TYPE_NONE :: cstr where "HTTP_CONTENT_TYPE_NONE = ''n/a''"
definition HTTP_CONTENT_TYPE_JSON :: cstr where "HTTP_CONTENT_TYPE_JSON = ''application/json''"
definition HTTP_STATUS_UNAUTHORIZED :: int where "HTTP_STATUS_UNAUTHORIZED = 401"
definition SESSION_TOKEN_BUFSIZE :: nat where "SESSION_TOKEN_BUFSIZE = 64"

definition is_browser_fetch :: "'a session_scheme \<Rightarrow> bool" where
  "is_browser_fetch s \<longleftrightarrow>
     getHeaderParam s ''X-MVSMF-Client'' \<noteq> None \<or>
     (case getHeaderParam s ''Sec-Fetch-Mode'' of None \<Rightarrow> False | Some m \<Rightarrow> m \<noteq> ''navigate'')"

definition send_auth_challenge :: "httpd \<Rightarrow> int \<Rightarrow> 'a session_scheme \<Rightarrow> int \<times> 'a session_scheme" where
  "send_auth_challenge srv status s =
     (if status \<noteq> HTTP_STATUS_UNAUTHORIZED \<or> is_browser_fetch s then (0, s)
      else http_printf srv (''WWW-Authenticate: Basic realm='' @ [dquote] @ hd_realm srv @ [dquote]) s)"

definition send_session_cookie :: "httpd \<Rightarrow> 'a session_scheme \<Rightarrow> int \<times> 'a session_scheme" where
  "send_session_cookie srv s =
     (if getHeaderParam s ''Authorization'' = None then (0, s)
      else
        let token = take SESSION_TOKEN_BUFSIZE (hd_token srv) in
        if token = [] then (0, s)
        else case hd_base64 srv token of
          None \<Rightarrow> (0, s)
        | Some b64 \<Rightarrow>
            http_printf srv (''Set-Cookie: LtpaToken2='' @ b64 @ ''; Path=/; HttpOnly; SameSite=Strict'') s)"

definition send_plain_headers :: "httpd \<Rightarrow> 'a session_scheme \<Rightarrow> int \<times> 'a session_scheme" where
  "send_plain_headers srv =
     and_then (http_printf srv ''Cache-Control: no-store'')
       (and_then (http_printf srv ''Pragma: no-cache'')
          (and_then (http_printf srv ''X-Content-Type-Options: nosniff'')
             (http_printf srv ''Content-Language: en'')))"

definition send_common_headers :: "httpd \<Rightarrow> 'a session_scheme \<Rightarrow> int \<times> 'a session_scheme" where
  "send_common_headers srv = and_then (send_plain_headers srv) (send_session_cookie srv)"

text \<open>The framing header; a zero length of a typed body leaves it to the server (streaming).\<close>

definition content_length_header ::
  "httpd \<Rightarrow> cstr option \<Rightarrow> nat \<Rightarrow> 'a session_scheme \<Rightarrow> int \<times> 'a session_scheme" where
  "content_length_header srv content_type content_length s =
     (if content_length > 0 then http_printf srv (''Content-Length: '' @ show_nat content_length) s
      else if content_type = None \<or> content_type = Some HTTP_CONTENT_TYPE_NONE
      then http_printf srv ''Content-Length: 0'' s
      else (0, s))"

definition sendDefaultHeaders ::
  "httpd \<Rightarrow> int \<Rightarrow> cstr option \<Rightarrow> nat \<Rightarrow> 'a session_scheme \<Rightarrow> int \<times> 'a session_scheme" where
  "sendDefaultHeaders srv status content_type content_length s =
     and_then (http_resp srv status)
       (and_then (\<lambda>s. case content_type of
            None \<Rightarrow> (0, s)
          | Some t \<Rightarrow> if t \<noteq> HTTP_CONTENT_TYPE_NONE
                      then http_printf srv (''Content-Type: '' @ t) s else (0, s))
          (and_then (content_length_header srv content_type content_length)
             (and_then (send_auth_challenge srv status)
                (and_then (send_common_headers srv)
                   (http_printf srv [])))))
       (s\<lparr>ss_headers_sent := True\<rparr>)"

definition HTTP_STATUS_NOT_MODIFIED :: int where "HTTP_STATUS_NOT_MODIFIED = 304"

definition send_not_modified :: "httpd \<Rightarrow> cstr \<Rightarrow> 'a session_scheme \<Rightarrow> int \<times> 'a session_scheme" where
  "send_not_modified srv etag s =
     and_then (http_resp srv HTTP_STATUS_NOT_MODIFIED)
       (and_then (send_common_headers srv)
          (and_then (http_printf srv (''ETag: '' @ etag))
             (http_printf srv [])))
       (s\<lparr>ss_headers_sent := True\<rparr>)"

section \<open>Bodies\<close>

definition session_send_all :: "httpd \<Rightarrow> byte list \<Rightarrow> 'a session_scheme \<Rightarrow> int \<times> 'a session_scheme" where
  "session_send_all srv buf s =
     (case send_all (hd_cstate_done srv) (Some (ss_conn s)) buf of
        (rc, None) \<Rightarrow> (rc, s)
      | (rc, Some c) \<Rightarrow> (rc, s\<lparr>ss_conn := c\<rparr>))"

definition wire_bytes :: "(char \<Rightarrow> char) \<Rightarrow> cstr \<Rightarrow> byte list" where
  "wire_bytes etoa s = map (\<lambda>c. of_nat (of_char (etoa c))) s"

definition send_data :: "httpd \<Rightarrow> cstr \<Rightarrow> 'a session_scheme \<Rightarrow> int \<times> 'a session_scheme" where
  "send_data srv buf = session_send_all srv (wire_bytes (hd_etoa srv) buf)"

definition createResponseBuilder :: "httpd \<Rightarrow> JsonBuilder option" where
  "createResponseBuilder srv = createJsonBuilder (hd_alloc srv) (hd_builder_size srv) (Some (hd_etoa srv))"

definition sendJSONResponse ::
  "httpd \<Rightarrow> int \<Rightarrow> JsonBuilder option \<Rightarrow> 'a session_scheme \<Rightarrow> int \<times> 'a session_scheme" where
  "sendJSONResponse srv status builder s =
     (case getJsonString (hd_alloc srv) builder of
        None \<Rightarrow> (-1, s)
      | Some json_str \<Rightarrow>
          and_then (sendDefaultHeaders srv status (Some HTTP_CONTENT_TYPE_JSON) (length json_str))
            (send_data srv json_str) s)"

definition RC_SUCCESS :: int where "RC_SUCCESS = 0"

fun report_details :: "(nat \<Rightarrow> bool) \<Rightarrow> cstr option list \<Rightarrow> json_op" where
  "report_details alloc [] b = (0, b)"
| "report_details alloc (d # ds) b =
     then_op (addJsonArrayString alloc d) (report_details alloc ds) b"

text \<open>The calls of \<^verbatim>\<open>sendErrorResponse\<close> on its builder.\<close>

definition build_report ::
  "(nat \<Rightarrow> bool) \<Rightarrow> u32 \<Rightarrow> u32 \<Rightarrow> u32 \<Rightarrow> cstr option \<Rightarrow> cstr option list \<Rightarrow> json_op" where
  "build_report alloc category rc reason message details =
     then_op (startJsonObject alloc)
       (then_op (addJsonNumber alloc (Some ''rc'') rc)
          (then_op (addJsonNumber alloc (Some ''category'') category)
             (then_op (addJsonNumber alloc (Some ''reason'') reason)
                (then_op (case message of None \<Rightarrow> Pair 0
                          | Some m \<Rightarrow> addJsonString alloc (Some ''message'') (Some m))
                   (then_op (if details = [] then Pair 0
                             else then_op (startJsonArrayKey alloc (Some ''details''))
                                    (then_op (report_details alloc details) (endArray alloc)))
                      (endJsonObject alloc))))))"

definition sendErrorResponse ::
  "httpd \<Rightarrow> int \<Rightarrow> u32 \<Rightarrow> u32 \<Rightarrow> u32 \<Rightarrow> cstr option \<Rightarrow> cstr option list \<Rightarrow> 'a session_scheme \<Rightarrow>
     int \<times> 'a session_scheme" where
  "sendErrorResponse srv status category rc reason message details s =
     (case createResponseBuilder srv of
        None \<Rightarrow> (RC_SUCCESS, s)
      | Some b \<Rightarrow>
          let (irc, b) = build_report (hd_alloc srv) category rc reason message details b in
          if irc < 0 then (irc, s)
          else sendJSONResponse srv status (Some b) s)"

section \<open>The reports the handlers share\<close>

definition HTTP_STATUS_OK :: int where "HTTP_STATUS_OK = 200"
definition HTTP_STATUS_BAD_REQUEST :: int where "HTTP_STATUS_BAD_REQUEST = 400"
definition RC_WARNING :: u32 where "RC_WARNING = 4"
definition HTTP_STATUS_INTERNAL_SERVER_ERROR :: int where "HTTP_STATUS_INTERNAL_SERVER_ERROR = 500"
definition HTTP_STATUS_PAYLOAD_TOO_LARGE :: int where "HTTP_STATUS_PAYLOAD_TOO_LARGE = 413"
definition CATEGORY_AUTHORIZATION :: u32 where "CATEGORY_AUTHORIZATION = 4"
definition CATEGORY_SERVICE :: u32 where "CATEGORY_SERVICE = 6"
definition CATEGORY_UNEXPECTED :: u32 where "CATEGORY_UNEXPECTED = 7"
definition RC_ERROR :: u32 where "RC_ERROR = 8"
definition RC_SEVERE :: u32 where "RC_SEVERE = 16"
definition REASON_NOT_AUTHORIZED :: u32 where "REASON_NOT_AUTHORIZED = 0"
definition REASON_SERVER_ERROR :: u32 where "REASON_SERVER_ERROR = 0"
definition ERR_MSG_NOT_AUTHORIZED :: cstr where "ERR_MSG_NOT_AUTHORIZED = ''LMOPEN error''"
definition ERR_MSG_DENIED_DETAIL :: cstr where
  "ERR_MSG_DENIED_DETAIL = ''Authorization failed - You may not use this protected data set.''"

definition send_not_authorized :: "httpd \<Rightarrow> cstr option \<Rightarrow> 'a session_scheme \<Rightarrow> int \<times> 'a session_scheme" where
  "send_not_authorized srv detail =
     sendErrorResponse srv HTTP_STATUS_INTERNAL_SERVER_ERROR CATEGORY_AUTHORIZATION RC_ERROR
       REASON_NOT_AUTHORIZED (Some ERR_MSG_NOT_AUTHORIZED)
       [Some (case detail of None \<Rightarrow> ERR_MSG_DENIED_DETAIL | Some d \<Rightarrow> d)]"

definition CATEGORY_ENCODING :: u32 where "CATEGORY_ENCODING = 16"
definition RC_ENCODING :: u32 where "RC_ENCODING = 121"
definition REASON_ENCODING :: u32 where "REASON_ENCODING = - 1037303780"
definition ERR_MSG_ENCODING :: cstr where "ERR_MSG_ENCODING = ''iconv_open() failed.''"

definition send_bad_encoding :: "httpd \<Rightarrow> cstr option \<Rightarrow> 'a session_scheme \<Rightarrow> int \<times> 'a session_scheme" where
  "send_bad_encoding srv v =
     sendErrorResponse srv HTTP_STATUS_INTERNAL_SERVER_ERROR CATEGORY_ENCODING RC_ENCODING
       REASON_ENCODING (Some ERR_MSG_ENCODING)
       [Some (c_snprintf 160 (''Unsupported encoding in X-IBM-Data-Type '' @ [CHR 0x27]
          @ take 64 (case v of None \<Rightarrow> [] | Some t \<Rightarrow> t)
          @ [CHR 0x27] @ '': IBM-037 and IBM-1047 are supported.''))]"

definition send_body_error :: "httpd \<Rightarrow> int \<Rightarrow> 'a session_scheme \<Rightarrow> int \<times> 'a session_scheme" where
  "send_body_error srv rc =
     (if rc = REQBODY_TOO_LARGE
      then sendErrorResponse srv HTTP_STATUS_PAYLOAD_TOO_LARGE CATEGORY_SERVICE RC_ERROR
             REASON_SERVER_ERROR (Some ''The request body is too large'') []
      else sendErrorResponse srv HTTP_STATUS_INTERNAL_SERVER_ERROR CATEGORY_UNEXPECTED RC_SEVERE
             REASON_SERVER_ERROR (Some ''Storage for the request body could not be obtained'') [])"

section \<open>What a response consists of\<close>

text \<open>A client that is still there, on a server that takes what it is given.\<close>

definition open_client :: "httpd \<Rightarrow> 'a session_scheme \<Rightarrow> bool" where
  "open_client srv s \<longleftrightarrow> ss_prints s = [] \<and> hc_state (ss_conn s) < hd_cstate_done srv"

definition challenge_headers :: "httpd \<Rightarrow> int \<Rightarrow> 'a session_scheme \<Rightarrow> cstr list" where
  "challenge_headers srv status s =
     (if status = HTTP_STATUS_UNAUTHORIZED \<and> \<not> is_browser_fetch s
      then [''WWW-Authenticate: Basic realm='' @ [dquote] @ hd_realm srv @ [dquote]] else [])"

definition cookie_headers :: "httpd \<Rightarrow> 'a session_scheme \<Rightarrow> cstr list" where
  "cookie_headers srv s =
     (case hd_base64 srv (take SESSION_TOKEN_BUFSIZE (hd_token srv)) of
        Some b64 \<Rightarrow>
          if getHeaderParam s ''Authorization'' \<noteq> None \<and> hd_token srv \<noteq> []
          then [''Set-Cookie: LtpaToken2='' @ b64 @ ''; Path=/; HttpOnly; SameSite=Strict''] else []
      | None \<Rightarrow> [])"

definition type_headers :: "cstr option \<Rightarrow> cstr list" where
  "type_headers ct = (case ct of
     None \<Rightarrow> [] | Some t \<Rightarrow> if t = HTTP_CONTENT_TYPE_NONE then [] else [''Content-Type: '' @ t])"

definition length_headers :: "cstr option \<Rightarrow> nat \<Rightarrow> cstr list" where
  "length_headers ct n =
     (if n > 0 then [''Content-Length: '' @ show_nat n]
      else if type_headers ct = [] then [''Content-Length: 0''] else [])"

definition fixed_headers :: "cstr list" where
  "fixed_headers = [''Cache-Control: no-store'', ''Pragma: no-cache'',
     ''X-Content-Type-Options: nosniff'', ''Content-Language: en'']"

text \<open>An operation that only writes header lines.\<close>

definition prints :: "httpd \<Rightarrow> ('a session_scheme \<Rightarrow> int \<times> 'a session_scheme) \<Rightarrow>
    ('a session_scheme \<Rightarrow> out_item list) \<Rightarrow> bool" where
  "prints srv f items \<longleftrightarrow>
     (\<forall>s. open_client srv s \<longrightarrow> f s = (0, s\<lparr>ss_out := ss_out s @ items s\<rparr>))"

lemma prints_line: "prints srv (http_printf srv l) (\<lambda>_. [OutHeader l])"
  "prints srv (http_resp srv n) (\<lambda>_. [OutStatus n])"
  by (simp_all add: prints_def open_client_def http_printf_def http_resp_def http_print_def)

lemma prints_then:
  assumes "prints srv f a" and "prints srv g b"
    and "\<And>s out. b (s\<lparr>ss_out := out\<rparr>) = b s"
  shows "prints srv (and_then f g) (\<lambda>s. a s @ b s)"
  unfolding prints_def
proof (intro allI impI)
  fix s :: "'a session_scheme"
  assume o: "open_client srv s"
  let ?t = "s\<lparr>ss_out := ss_out s @ a s\<rparr>"
  have "open_client srv ?t" using o by (simp add: open_client_def)
  with assms o show "and_then f g s = (0, s\<lparr>ss_out := ss_out s @ a s @ b s\<rparr>)"
    by (simp add: prints_def and_then_def)
qed

lemma env_out [simp]:
  "getHeaderParam (s\<lparr>ss_out := out\<rparr>) n = getHeaderParam s n"
  "is_browser_fetch (s\<lparr>ss_out := out\<rparr>) = is_browser_fetch s"
  "getHeaderParam (s\<lparr>ss_headers_sent := b\<rparr>) n = getHeaderParam s n"
  "is_browser_fetch (s\<lparr>ss_headers_sent := b\<rparr>) = is_browser_fetch s"
  by (simp_all add: getHeaderParam_def get_env_param_def is_browser_fetch_def)

lemma prints_plain: "prints srv (send_plain_headers srv) (\<lambda>_. map OutHeader fixed_headers)"
proof -
  have "prints srv (send_plain_headers srv) (\<lambda>s. [OutHeader ''Cache-Control: no-store''] @
      [OutHeader ''Pragma: no-cache''] @ [OutHeader ''X-Content-Type-Options: nosniff''] @
      [OutHeader ''Content-Language: en''])"
    unfolding send_plain_headers_def by (intro prints_then prints_line) auto
  then show ?thesis by (simp add: fixed_headers_def)
qed

lemma prints_cookie: "prints srv (send_session_cookie srv) (\<lambda>s. map OutHeader (cookie_headers srv s))"
  using prints_line(1) [of srv]
  by (auto simp: prints_def send_session_cookie_def cookie_headers_def Let_def SESSION_TOKEN_BUFSIZE_def
      split: option.splits)

lemma prints_challenge:
  "prints srv (send_auth_challenge srv status) (\<lambda>s. map OutHeader (challenge_headers srv status s))"
  using prints_line(1) [of srv]
  by (auto simp: prints_def send_auth_challenge_def challenge_headers_def)

lemma prints_length:
  "prints srv (content_length_header srv ct n) (\<lambda>s. map OutHeader (length_headers ct n))"
  using prints_line(1) [of srv]
  by (auto simp: prints_def content_length_header_def length_headers_def type_headers_def split: option.splits)

lemma prints_type:
  "prints srv (\<lambda>s. case ct of None \<Rightarrow> (0, s)
          | Some t \<Rightarrow> if t \<noteq> HTTP_CONTENT_TYPE_NONE
                      then http_printf srv (''Content-Type: '' @ t) s else (0, s))
     (\<lambda>s. map OutHeader (type_headers ct))"
  using prints_line(1) [of srv]
  by (auto simp: prints_def type_headers_def split: option.splits)

lemma headers_out [simp]:
  "cookie_headers srv (s\<lparr>ss_out := out\<rparr>) = cookie_headers srv s"
  "challenge_headers srv status (s\<lparr>ss_out := out\<rparr>) = challenge_headers srv status s"
  "cookie_headers srv (s\<lparr>ss_headers_sent := b\<rparr>) = cookie_headers srv s"
  "challenge_headers srv status (s\<lparr>ss_headers_sent := b\<rparr>) = challenge_headers srv status s"
  by (simp_all add: cookie_headers_def challenge_headers_def split: option.splits)

lemma prints_common:
  "prints srv (send_common_headers srv) (\<lambda>s. map OutHeader (fixed_headers @ cookie_headers srv s))"
  using prints_then [OF prints_plain prints_cookie, of srv] by (simp add: send_common_headers_def)

definition default_items :: "httpd \<Rightarrow> int \<Rightarrow> cstr option \<Rightarrow> nat \<Rightarrow> 'a session_scheme \<Rightarrow> out_item list" where
  "default_items srv status ct n s =
     OutStatus status # map OutHeader (type_headers ct @ length_headers ct n @
       challenge_headers srv status s @ fixed_headers @ cookie_headers srv s @ [[]])"

lemma sendDefaultHeaders_items:
  assumes "open_client srv s"
  shows "sendDefaultHeaders srv status ct n s =
    (0, s\<lparr>ss_headers_sent := True, ss_out := ss_out s @ default_items srv status ct n s\<rparr>)"
proof -
  let ?f = "and_then (http_resp srv status)
       (and_then (\<lambda>s. case ct of
            None \<Rightarrow> (0, s)
          | Some t \<Rightarrow> if t \<noteq> HTTP_CONTENT_TYPE_NONE
                      then http_printf srv (''Content-Type: '' @ t) s else (0, s))
          (and_then (content_length_header srv ct n)
             (and_then (send_auth_challenge srv status)
                (and_then (send_common_headers srv)
                   (http_printf srv [])))))"
  have p: "prints srv ?f (\<lambda>s. [OutStatus status] @ map OutHeader (type_headers ct) @
      map OutHeader (length_headers ct n) @ map OutHeader (challenge_headers srv status s) @
      map OutHeader (fixed_headers @ cookie_headers srv s) @ [OutHeader []])"
    by (intro prints_then prints_line prints_type prints_length prints_challenge prints_common) auto
  have "open_client srv (s\<lparr>ss_headers_sent := True\<rparr>)"
    using assms by (simp add: open_client_def)
  from p [unfolded prints_def, rule_format, OF this] show ?thesis
    by (simp add: sendDefaultHeaders_def default_items_def)
qed

section \<open>The error report\<close>

definition report_members :: "u32 \<Rightarrow> u32 \<Rightarrow> u32 \<Rightarrow> cstr option \<Rightarrow> cstr option list \<Rightarrow> json_member list" where
  "report_members category rc reason message details =
     [MNum ''rc'' rc, MNum ''category'' category, MNum ''reason'' reason] @
     (case message of None \<Rightarrow> [] | Some m \<Rightarrow> [MStr ''message'' (Some m)]) @
     (if details = [] then [] else [MArr ''details'' (map IStr details)])"

lemma report_details_items: "report_details al ds = emit_items al (map IStr ds)"
proof (induction ds)
  case (Cons d ds)
  then show ?case by (intro ext) simp
qed (intro ext, simp)

lemma emits_details:
  "emits al e True (report_details al ds) (render_items e (map IStr ds)) (ds = [])"
  using emits_document(4) [of "map IStr ds" al e True]
  by (cases "ds = []") (simp_all add: report_details_items sep_def)

lemma emits_build_report:
  "emits al e True (build_report al category rc reason message details)
     (render_item e (IObj (report_members category rc reason message details))) False"
proof -
  have num: "emits al e u (addJsonNumber al (Some k) n) (sep u @ json_key k @ show_int (sint n)) False"
    if "length k < 10" for u k n
    using that by (intro emits_addJsonNumber) (simp add: JSON_TEMP_BUFFER_SIZE_def)
  have msg: "emits al e False
      (case message of None \<Rightarrow> Pair 0 | Some m \<Rightarrow> addJsonString al (Some ''message'') (Some m))
      (case message of None \<Rightarrow> [] | Some m \<Rightarrow> sep False @ json_key ''message'' @ json_value e (Some m)) False"
    by (cases message) (simp_all add: emits_skip emits_addJsonString)
  have det: "emits al e False (if details = [] then Pair 0 else then_op (startJsonArrayKey al (Some ''details''))
        (then_op (report_details al details) (endArray al)))
      (if details = [] then [] else (sep False @ json_key ''details'' @ ''['') @
        (render_items e (map IStr details) @ '']'')) False"
    using emits_skip emits_then [OF emits_startJsonArrayKey emits_then [OF emits_details emits_endArray]]
    by (cases "details = []") simp_all
  note seq = emits_then [OF emits_startJsonObject emits_then [OF num emits_then [OF num emits_then [OF num
      emits_then [OF msg emits_then [OF det emits_endJsonObject]]]]]]
  show ?thesis
    unfolding build_report_def
    by (rule emits_text [OF seq])
      (auto simp: report_members_def sep_def split: option.splits)
qed

definition report_text :: "httpd \<Rightarrow> u32 \<Rightarrow> u32 \<Rightarrow> u32 \<Rightarrow> cstr option \<Rightarrow> cstr option list \<Rightarrow> cstr" where
  "report_text srv category rc reason message details =
     render_item (Some (hd_etoa srv)) (IObj (report_members category rc reason message details))"

lemma report_text_ne: "0 < length (report_text srv category rc reason message details)"
  by (simp add: report_text_def)

lemma build_report_text:
  assumes "createResponseBuilder srv = Some b"
  shows "build_report (hd_alloc srv) category rc reason message details b = (r, b') \<Longrightarrow>
    (r = 0 \<and> jb_buffer b' = report_text srv category rc reason message details \<or> r = -1) \<and>
    ((\<forall>n. hd_alloc srv n) \<longrightarrow> r = 0)"
proof -
  have b: "jb_is_first b" "builder_etoa b = Some (hd_etoa srv)" "jb_buffer b = []"
    using assms by (auto simp: createResponseBuilder_def createJsonBuilder_def builder_etoa_def split: if_splits)
  assume "build_report (hd_alloc srv) category rc reason message details b = (r, b')"
  with emitsD [OF emits_build_report [of "hd_alloc srv" "Some (hd_etoa srv)" category rc reason message details], of b] b
  show ?thesis by (auto simp: emitted_def report_text_def simp del: render_item.simps)
qed

lemma session_send_all_cases:
  assumes "session_send_all srv buf s = (r, s')"
  shows "\<exists>c. s' = s\<lparr>ss_conn := c\<rparr> \<and>
    (r = 0 \<and> hc_wire c = hc_wire (ss_conn s) @ buf \<or>
     r = -1 \<and> (\<exists>p. strict_prefix p buf \<and> hc_wire c = hc_wire (ss_conn s) @ p) \<and>
       torn_down (hd_cstate_done srv) c)"
proof -
  obtain rc o1 where o: "send_all (hd_cstate_done srv) (Some (ss_conn s)) buf = (rc, o1)" by force
  obtain r1 c1 where sb: "send_bytes (send_ops (hd_cstate_done srv)) buf (ss_conn s) = (r1, c1)" by force
  from session_send.send_bytes_wire [OF sb] show ?thesis
    using assms sb by (auto simp: session_send_all_def send_all_def)
qed

text \<open>
  The outcome of an answer to a client that is still there: the whole document with its headers, or
  a connection that is torn down behind a part of the body.
\<close>

definition document_sent ::
  "httpd \<Rightarrow> int \<Rightarrow> cstr \<Rightarrow> 'a session_scheme \<Rightarrow> int \<Rightarrow> 'a session_scheme \<Rightarrow> bool" where
  "document_sent srv status t s r s' \<longleftrightarrow>
     ss_headers_sent s' \<and>
     ss_out s' = ss_out s @ default_items srv status (Some HTTP_CONTENT_TYPE_JSON) (length t) s \<and>
     (r = 0 \<and> hc_wire (ss_conn s') = hc_wire (ss_conn s) @ wire_bytes (hd_etoa srv) t \<or>
      r = -1 \<and> torn_down (hd_cstate_done srv) (ss_conn s'))"

lemma sendJSONResponse_sent:
  assumes "open_client srv s" and "\<forall>n. hd_alloc srv n" and "sendJSONResponse srv status (Some b) s = (r, s')"
  shows "document_sent srv status (jb_buffer b) s r s'"
proof -
  let ?t = "jb_buffer b"
  let ?s = "s\<lparr>ss_headers_sent := True,
        ss_out := ss_out s @ default_items srv status (Some HTTP_CONTENT_TYPE_JSON) (length ?t) s\<rparr>"
  have "sendJSONResponse srv status (Some b) s = send_data srv ?t ?s"
    using assms(2) sendDefaultHeaders_items [OF assms(1)]
    by (simp add: sendJSONResponse_def getJsonString_def and_then_def)
  then show ?thesis
    using assms(3) session_send_all_cases [of srv "wire_bytes (hd_etoa srv) ?t" ?s r s']
    by (fastforce simp: send_data_def document_sent_def)
qed

lemma sendErrorResponse_sent:
  assumes "open_client srv s" and "\<forall>n. hd_alloc srv n"
    and "sendErrorResponse srv status category rc reason message details s = (r, s')"
  shows "document_sent srv status (report_text srv category rc reason message details) s r s'"
proof -
  obtain b where b: "createResponseBuilder srv = Some b"
    using assms(2) by (simp add: createResponseBuilder_def createJsonBuilder_def)
  obtain q b' where q: "build_report (hd_alloc srv) category rc reason message details b = (q, b')" by force
  with build_report_text [OF b q] assms(2)
  have "q = 0" "jb_buffer b' = report_text srv category rc reason message details" by auto
  with sendJSONResponse_sent [OF assms(1,2), of status b' r s'] assms(3) b q show ?thesis
    by (simp add: sendErrorResponse_def)
qed

section \<open>What answering touches\<close>

text \<open>Answering changes the connection and the output, and nothing a handler keeps in its session.\<close>

definition answers :: "'a session_scheme \<Rightarrow> 'a session_scheme \<Rightarrow> bool" where
  "answers s t \<longleftrightarrow> (\<exists>c p out h. t = s\<lparr>ss_conn := c, ss_prints := p, ss_out := out, ss_headers_sent := h\<rparr>)"

lemma answersI:
  "t = s\<lparr>ss_conn := c, ss_prints := p, ss_out := out, ss_headers_sent := h\<rparr> \<Longrightarrow> answers s t"
  unfolding answers_def by blast

lemma answers_refl: "answers s s"
  by (rule answersI [where c = "ss_conn s" and p = "ss_prints s" and out = "ss_out s" and h = "ss_headers_sent s"]) simp

lemma answers_trans: "answers s t \<Longrightarrow> answers t u \<Longrightarrow> answers s u"
  unfolding answers_def by fastforce

lemma answers_print: "answers s (snd (http_print srv item s))"
proof -
  have upd: "answers s (s\<lparr>ss_prints := p, ss_out := out\<rparr>)" for p out
    by (rule answersI [where c = "ss_conn s" and p = p and out = out and h = "ss_headers_sent s"]) simp
  have "answers s (s\<lparr>ss_prints := p\<rparr>)" "answers s (s\<lparr>ss_out := out\<rparr>)" for p out
    using upd [where p = p and out = "ss_out s"] upd [where p = "ss_prints s" and out = out] by simp_all
  with upd show ?thesis
    by (auto simp: http_print_def answers_refl split: list.splits)
qed

lemma answers_then:
  assumes "\<And>s. answers s (snd (f s))" and "\<And>s. answers s (snd (g s))"
  shows "answers s (snd (and_then f g s))"
proof -
  obtain r t where t: "f s = (r, t)" by force
  with assms(1) [of s] assms(2) [of t] show ?thesis
    by (auto simp: and_then_def intro: answers_trans)
qed

lemma answers_lines:
  "answers s (snd (http_printf srv l s))" "answers s (snd (http_resp srv n s))"
  by (simp_all add: http_printf_def http_resp_def answers_print)

lemma answers_parts:
  "answers s (snd (send_plain_headers srv s))"
  "answers s (snd (send_session_cookie srv s))"
  "answers s (snd (send_auth_challenge srv status s))"
  "answers s (snd (content_length_header srv ct n s))"
  unfolding send_plain_headers_def
  by (intro answers_then answers_lines)
    (auto simp: send_session_cookie_def send_auth_challenge_def content_length_header_def Let_def
      answers_lines answers_refl split: option.splits)

lemma answers_headers: "answers s (snd (sendDefaultHeaders srv status ct n s))"
proof -
  have "answers (s\<lparr>ss_headers_sent := True\<rparr>) (snd (sendDefaultHeaders srv status ct n s))"
    unfolding sendDefaultHeaders_def send_common_headers_def
    by (intro answers_then answers_lines answers_parts)
      (auto simp: answers_lines answers_refl split: option.splits)
  moreover have "answers s (s\<lparr>ss_headers_sent := True\<rparr>)"
    by (rule answersI [where c = "ss_conn s" and p = "ss_prints s" and out = "ss_out s" and h = True]) simp
  ultimately show ?thesis by (blast intro: answers_trans)
qed

lemma answers_data: "answers s (snd (send_data srv buf s))"
proof -
  obtain r t where t: "session_send_all srv (wire_bytes (hd_etoa srv) buf) s = (r, t)" by force
  from session_send_all_cases [OF t] obtain c where "t = s\<lparr>ss_conn := c\<rparr>" by blast
  then have "answers s t"
    by (intro answersI [where c = c and p = "ss_prints s" and out = "ss_out s" and h = "ss_headers_sent s"]) simp
  with t show ?thesis by (simp add: send_data_def)
qed

lemma answers_report:
  "answers s (snd (sendErrorResponse srv status category rc reason message details s))"
proof -
  have "answers s (snd (sendJSONResponse srv status b s))" for b
    by (auto simp: sendJSONResponse_def answers_refl intro: answers_then answers_headers answers_data
        split: option.splits)
  then show ?thesis
    by (auto simp: sendErrorResponse_def answers_refl split: option.splits prod.splits)
qed

section \<open>Properties\<close>


text \<open>A server and a request for the witnesses.\<close>

definition sample_httpd :: httpd where
  "sample_httpd = \<lparr>hd_cstate_done = 9, hd_realm = ''MVSD'', hd_token = [], hd_base64 = (\<lambda>_. None),
     hd_etoa = (\<lambda>c. c), hd_alloc = (\<lambda>_. True), hd_builder_size = 320, hd_cmpn = (\<lambda>_ _ _. False)\<rparr>"

definition sample_conn :: httpc where
  "sample_conn = \<lparr>hc_state = 5, hc_chunked = True, hc_keepalive = True, hc_wire = [],
     hc_sends = [10000], hc_stops = [], hc_rx = [], hc_waits = 0, hc_wtos = []\<rparr>"

definition sample_session :: session where
  "sample_session = \<lparr>ss_conn = sample_conn, ss_env = (\<lambda>_. None), ss_prints = [], ss_out = [],
     ss_headers_sent = False\<rparr>"

lemma sample_open: "open_client sample_httpd sample_session" "\<forall>n. hd_alloc sample_httpd n"
  by (simp_all add: open_client_def sample_httpd_def sample_session_def sample_conn_def)


text \<open>The header block of every answer, framing included: the challenge is sent with a 401 and
  only to a client that is not a script of a browser page, the cookie only to a caller with an
  Authorization header and a token, and a body of unknown length is left to the server.\<close>

theorem default_headers_exact:
  assumes "open_client srv s"
  shows "sendDefaultHeaders srv status ct n s =
    (0, s\<lparr>ss_headers_sent := True, ss_out := ss_out s @ OutStatus status #
       map OutHeader (type_headers ct @ length_headers ct n @ challenge_headers srv status s @
         fixed_headers @ cookie_headers srv s @ [[]])\<rparr>)"
  using sendDefaultHeaders_items [OF assms] by (simp add: default_items_def)

theorem default_headers_exact_witness:
  "ss_out (snd (sendDefaultHeaders sample_httpd 401 (Some HTTP_CONTENT_TYPE_NONE) 0 sample_session)) =
    [OutStatus 401, OutHeader ''Content-Length: 0'',
     OutHeader (''WWW-Authenticate: Basic realm='' @ [dquote] @ ''MVSD'' @ [dquote])] @
    map OutHeader fixed_headers @ [OutHeader []]"
  using default_headers_exact [OF sample_open(1), of 401 "Some HTTP_CONTENT_TYPE_NONE" 0]
  by (simp add: type_headers_def length_headers_def challenge_headers_def HTTP_STATUS_UNAUTHORIZED_def
      cookie_headers_def is_browser_fetch_def getHeaderParam_def get_env_param_def sample_httpd_def
      sample_session_def)

text \<open>Without storage for the builder nothing at all is sent, and the caller is told 0.\<close>

lemma error_report_silent:
  "\<not> hd_alloc srv (hd_builder_size srv) \<Longrightarrow>
   sendErrorResponse srv status category rc reason message details s = (RC_SUCCESS, s)"
  by (simp add: sendErrorResponse_def createResponseBuilder_def createJsonBuilder_def)

end
