(* ===== verification/Router.thy ===== *)
theory Router
  imports Prelude
begin

text \<open>
  The routing half of \<^verbatim>\<open>src/router.c\<close> and \<^verbatim>\<open>src/reqpath.c\<close>: the methods, the patterns, the search
  for a route and the capture of path variables.

  \<^verbatim>\<open>is_pattern_match\<close> and \<^verbatim>\<open>extract_path_vars\<close> walk pattern and path with two pointers; the model
  walks the two remaining strings.  The specification reads a pattern as a list of segments.
\<close>

section \<open>Methods and paths\<close>

datatype HttpMethod = GET | POST | PUT | DELETE | HEAD | OPTIONS | PATCH

definition parseMethod :: "cstr \<Rightarrow> HttpMethod option" where
  "parseMethod m =
     (if m = ''GET'' then Some GET else if m = ''POST'' then Some POST
      else if m = ''PUT'' then Some PUT else if m = ''DELETE'' then Some DELETE else None)"

definition request_path_copy :: "cstr option \<Rightarrow> nat \<Rightarrow> cstr option" where
  "request_path_copy raw outSize =
     (if raw = None \<or> outSize = 0 then None else Some (take (outSize - 1) (the raw)))"

section \<open>Patterns\<close>

definition is_delim :: "char \<Rightarrow> bool" where
  "is_delim c \<longleftrightarrow> c = CHR ''/'' \<or> c = CHR ''('' \<or> c = CHR '')''"

text \<open>Past the closing brace, as \<^verbatim>\<open>while (*p && *p != '}') p++; if (*p == '}') p++\<close>.\<close>

definition skip_brace :: "cstr \<Rightarrow> cstr" where
  "skip_brace p = tl (dropWhile (\<lambda>c. c \<noteq> CHR ''}'') p)"

lemma skip_brace_length: "length (skip_brace p) \<le> length p"
  using dropWhile_length_le [of "\<lambda>c. c \<noteq> CHR ''}''" p] by (simp add: skip_brace_def)

text \<open>The loop for trailing wildcards.\<close>

function skip_wildcards :: "cstr \<Rightarrow> cstr" where
  "skip_wildcards p = (if c_prefix (CHR ''{'' # ''*'') p then skip_wildcards (skip_brace p) else p)"
  by pat_completeness auto
termination
proof (relation "measure length", simp, goal_cases)
  case (1 p)
  then obtain r where "p = CHR ''{'' # CHR ''*'' # r" by (auto simp: c_prefix_iff)
  then show ?case using skip_brace_length [of r] by (simp add: skip_brace_def)
qed

declare skip_wildcards.simps [simp del]

function is_pattern_match :: "cstr \<Rightarrow> cstr \<Rightarrow> bool" where
  "is_pattern_match pattern path =
     (if pattern \<noteq> [] \<and> path \<noteq> [] then
        if hd pattern = CHR ''{'' then
          is_pattern_match (skip_brace pattern)
            (if c_prefix ''*'' (tl pattern) then [] else dropWhile (\<lambda>c. \<not> is_delim c) path)
        else if hd pattern = hd path then is_pattern_match (tl pattern) (tl path)
        else False
      else skip_wildcards pattern = [] \<and> path = [])"
  by pat_completeness auto
termination
proof (relation "measure (\<lambda>(p, _). length p)", simp, goal_cases)
  case (1 pattern path)
  then obtain p where "pattern = CHR ''{'' # p" by (cases pattern) auto
  then show ?case using skip_brace_length [of p] by (simp add: skip_brace_def)
qed auto

declare is_pattern_match.simps [simp del]

text \<open>
  \<^verbatim>\<open>extract_path_vars\<close>: the variables set with \<^verbatim>\<open>http_set_env\<close>, in order.  A value ends at the
  first occurrence of the delimiter that comes next in the pattern, or at the end of the path.
\<close>

definition next_delim :: "cstr \<Rightarrow> char option" where
  "next_delim p = (case dropWhile (\<lambda>c. \<not> is_delim c) p of [] \<Rightarrow> None | c # _ \<Rightarrow> Some c)"

function extract_path_vars :: "cstr \<Rightarrow> cstr \<Rightarrow> (cstr \<times> cstr) list" where
  "extract_path_vars pattern path =
     (case pattern of
        [] \<Rightarrow> []
      | c # p \<Rightarrow>
          if c = CHR ''{'' then
            let wild = c_prefix ''*'' p;
                p = (if wild then tl p else p);
                var_name = takeWhile (\<lambda>c. c \<noteq> CHR ''}'') p;
                p = skip_brace p;
                val = (if wild then path else takeWhile (\<lambda>c. Some c \<noteq> next_delim p) path);
                rest = (if wild then [] else dropWhile (\<lambda>c. Some c \<noteq> next_delim p) path)
            in (''HTTP_'' @ var_name, rstrip val) # extract_path_vars p rest
          else case path of
                 [] \<Rightarrow> []
               | d # path' \<Rightarrow> if c = d then extract_path_vars p path' else [])"
  by pat_completeness auto
termination
proof (relation "measure (\<lambda>(p, _). length p)", goal_cases)
  case 1
  show ?case by simp
next
  case (2 pattern path c p)
  have "length (skip_brace (tl p)) \<le> length p"
    using skip_brace_length [of "tl p"] by simp
  with 2 skip_brace_length [of p] show ?case by (auto simp: less_Suc_eq_le split: if_splits)
qed auto

declare extract_path_vars.simps [simp del]

section \<open>Routes\<close>

record 'h Route =
  rt_method :: HttpMethod
  rt_pattern :: cstr
  rt_handler :: 'h

definition MAX_ROUTES :: nat where "MAX_ROUTES = 100"

text \<open>The route table; a refused route is reported and dropped.\<close>

datatype route_wto = RoutesFull | RouteInvalid

definition add_route ::
  "HttpMethod \<Rightarrow> cstr option \<Rightarrow> 'h option \<Rightarrow> 'h Route list \<Rightarrow> 'h Route list \<times> route_wto list" where
  "add_route method pattern handler routes =
     (if length routes \<ge> MAX_ROUTES then (routes, [RoutesFull])
      else case (pattern, handler) of
        (Some p, Some h) \<Rightarrow> (routes @ [\<lparr>rt_method = method, rt_pattern = p, rt_handler = h\<rparr>], [])
      | _ \<Rightarrow> (routes, [RouteInvalid]))"

fun find_route :: "'h Route list \<Rightarrow> HttpMethod \<Rightarrow> cstr \<Rightarrow> 'h Route option" where
  "find_route [] method path = None"
| "find_route (r # rs) method path =
     (if rt_method r = method then
        if is_pattern_match (rt_pattern r) path then Some r else find_route rs method path
      else find_route rs method path)"

fun path_is_known :: "'h Route list \<Rightarrow> cstr \<Rightarrow> bool" where
  "path_is_known [] path = False"
| "path_is_known (r # rs) path = (if is_pattern_match (rt_pattern r) path then True else path_is_known rs path)"

section \<open>Patterns as segments\<close>

datatype segment = Lit cstr | Var cstr | Wild cstr

fun seg_pattern :: "segment list \<Rightarrow> cstr" where
  "seg_pattern [] = []"
| "seg_pattern (Lit l # gs) = l @ seg_pattern gs"
| "seg_pattern (Var v # gs) = CHR ''{'' # v @ CHR ''}'' # seg_pattern gs"
| "seg_pattern (Wild v # gs) = CHR ''{'' # CHR ''*'' # v @ CHR ''}'' # seg_pattern gs"

text \<open>The paths a pattern stands for, with a value for each variable.\<close>

fun seg_path :: "segment list \<Rightarrow> cstr list \<Rightarrow> cstr" where
  "seg_path [] vs = []"
| "seg_path (Lit l # gs) vs = l @ seg_path gs vs"
| "seg_path (_ # gs) [] = []"
| "seg_path (_ # gs) (v # vs) = v @ seg_path gs vs"

text \<open>
  Well-formed: literals are not empty and hold no brace, names hold no brace and do not begin
  with a star, a variable is followed by nothing or by a literal that begins with a delimiter,
  and a wildcard comes last.
\<close>

definition name_ok :: "cstr \<Rightarrow> bool" where
  "name_ok v \<longleftrightarrow> CHR ''}'' \<notin> set v \<and> \<not> c_prefix ''*'' v"

fun after_var :: "segment list \<Rightarrow> bool" where
  "after_var [] = True"
| "after_var (Lit (c # l) # gs) = is_delim c"
| "after_var _ = False"

fun segs_ok :: "segment list \<Rightarrow> bool" where
  "segs_ok [] = True"
| "segs_ok (Lit l # gs) = (l \<noteq> [] \<and> CHR ''{'' \<notin> set l \<and> segs_ok gs)"
| "segs_ok (Var v # gs) = (name_ok v \<and> after_var gs \<and> segs_ok gs)"
| "segs_ok (Wild v # gs) = (name_ok v \<and> gs = [])"

text \<open>The values a request may have: no delimiter in a variable, and one at the end of the path
  is not empty.\<close>

fun vals_ok :: "segment list \<Rightarrow> cstr list \<Rightarrow> bool" where
  "vals_ok [] vs = (vs = [])"
| "vals_ok (Lit l # gs) vs = vals_ok gs vs"
| "vals_ok (Var v # gs) vs =
     (case vs of [] \<Rightarrow> False
      | x # xs \<Rightarrow> (\<forall>c \<in> set x. \<not> is_delim c) \<and> (gs = [] \<longrightarrow> x \<noteq> []) \<and> vals_ok gs xs)"
| "vals_ok (Wild v # gs) vs = (\<exists>x. vs = [x] \<and> vals_ok gs [])"

fun seg_names :: "segment list \<Rightarrow> cstr list" where
  "seg_names [] = []"
| "seg_names (Lit l # gs) = seg_names gs"
| "seg_names (Var v # gs) = v # seg_names gs"
| "seg_names (Wild v # gs) = v # seg_names gs"

section \<open>Matching is the existence of values\<close>

lemma skip_brace_name: "CHR ''}'' \<notin> set v \<Longrightarrow> skip_brace (v @ CHR ''}'' # p) = p"
  by (induction v) (auto simp: skip_brace_def)

lemma skip_wildcards_lit: "c \<noteq> CHR ''{'' \<Longrightarrow> skip_wildcards (c # p) = c # p"
  by (simp add: skip_wildcards.simps [of "c # p"] c_prefix_def)

lemma match_lit:
  "CHR ''{'' \<notin> set l \<Longrightarrow>
   is_pattern_match (l @ p) path \<longleftrightarrow> (\<exists>r. path = l @ r \<and> is_pattern_match p r)"
proof (induction l arbitrary: path)
  case (Cons c l)
  show ?case
  proof (cases path)
    case Nil
    then show ?thesis
      using Cons.prems skip_wildcards_lit [of c "l @ p"]
      by (auto simp: is_pattern_match.simps [of "c # l @ p"])
  next
    case (Cons d ds)
    then show ?thesis
      using Cons.IH [of ds] Cons.prems by (auto simp: is_pattern_match.simps [of "c # l @ p"])
  qed
qed simp

lemma match_var:
  assumes "name_ok v"
  shows "is_pattern_match (CHR ''{'' # v @ CHR ''}'' # p) path \<longleftrightarrow>
    path \<noteq> [] \<and> is_pattern_match p (dropWhile (\<lambda>c. \<not> is_delim c) path)"
proof -
  have star: "\<not> c_prefix ''*'' (v @ CHR ''}'' # p)"
    using assms by (cases v) (auto simp: name_ok_def c_prefix_def)
  have "skip_brace (CHR ''{'' # v @ CHR ''}'' # p) = p"
    using skip_brace_name [of "CHR ''{'' # v" p] assms by (simp add: name_ok_def)
  moreover have "skip_wildcards (CHR ''{'' # v @ CHR ''}'' # p) \<noteq> []"
    using star by (subst skip_wildcards.simps) (simp add: c_prefix_def)
  ultimately show ?thesis
    using star by (subst is_pattern_match.simps) simp
qed

lemma match_wild:
  assumes "CHR ''}'' \<notin> set v"
  shows "is_pattern_match (CHR ''{'' # CHR ''*'' # v @ [CHR ''}'']) path"
proof -
  have skip: "skip_brace (CHR ''{'' # CHR ''*'' # v @ [CHR ''}'']) = []"
    using skip_brace_name [of "CHR ''{'' # CHR ''*'' # v" "[]"] assms by simp
  have nil: "skip_wildcards [] = []" "is_pattern_match [] []"
    by (simp_all add: skip_wildcards.simps [of "[]"] is_pattern_match.simps [of "[]" "[]"] c_prefix_def)
  have "skip_wildcards (CHR ''{'' # CHR ''*'' # v @ [CHR ''}'']) = []"
    using skip nil by (subst skip_wildcards.simps) (simp add: c_prefix_def)
  with skip nil show ?thesis
    by (subst is_pattern_match.simps) (simp add: c_prefix_def)
qed

lemma match_end: "is_pattern_match [] path \<longleftrightarrow> path = []"
  by (simp add: is_pattern_match.simps [of "[]" path] skip_wildcards.simps [of "[]"] c_prefix_def)

lemma after_var_path:
  assumes "after_var gs" and "vals_ok gs vs"
  shows "seg_path gs vs = [] \<and> gs = [] \<or> (\<exists>c r. seg_path gs vs = c # r \<and> is_delim c)"
  using assms by (cases gs rule: after_var.cases) auto

lemma dropWhile_value:
  assumes "\<forall>c \<in> set x. \<not> is_delim c" and "y = [] \<or> (\<exists>c r. y = c # r \<and> is_delim c)"
  shows "dropWhile (\<lambda>c. \<not> is_delim c) (x @ y) = y"
  using assms by (induction x) auto

lemma match_segments:
  "segs_ok gs \<Longrightarrow> is_pattern_match (seg_pattern gs) path \<longleftrightarrow> (\<exists>vs. vals_ok gs vs \<and> path = seg_path gs vs)"
proof (induction gs arbitrary: path)
  case Nil
  then show ?case by (simp add: match_end)
next
  case (Cons g gs)
  show ?case
  proof (cases g)
    case (Lit l)
    then show ?thesis using Cons by (auto simp: match_lit)
  next
    case (Var v)
    let ?rest = "dropWhile (\<lambda>c. \<not> is_delim c) path" and ?x = "takeWhile (\<lambda>c. \<not> is_delim c) path"
    from Cons.prems Var have ok: "name_ok v" "after_var gs" "segs_ok gs" by simp_all
    have "(path \<noteq> [] \<and> is_pattern_match (seg_pattern gs) ?rest) \<longleftrightarrow>
      (\<exists>x xs. (\<forall>c \<in> set x. \<not> is_delim c) \<and> (gs = [] \<longrightarrow> x \<noteq> []) \<and> vals_ok gs xs \<and> path = x @ seg_path gs xs)"
      (is "?L \<longleftrightarrow> ?R")
    proof
      assume ?L
      then obtain xs where xs: "vals_ok gs xs" "?rest = seg_path gs xs" using Cons.IH [OF ok(3)] by blast
      have "path = ?x @ seg_path gs xs" using xs(2) by (metis takeWhile_dropWhile_id)
      moreover have "gs = [] \<longrightarrow> ?x \<noteq> []" using \<open>?L\<close> xs calculation by auto
      moreover have "\<forall>c \<in> set ?x. \<not> is_delim c" by (auto dest: set_takeWhileD)
      ultimately show ?R using xs(1) by blast
    next
      assume ?R
      then obtain x xs where x: "\<forall>c \<in> set x. \<not> is_delim c" "gs = [] \<longrightarrow> x \<noteq> []" "vals_ok gs xs"
        "path = x @ seg_path gs xs" by blast
      note tail = after_var_path [OF ok(2) x(3)]
      have "?rest = seg_path gs xs" using x tail by (auto intro!: dropWhile_value)
      moreover have "path \<noteq> []" using x tail by auto
      ultimately show ?L using Cons.IH [OF ok(3)] x(3) by auto
    qed
    moreover have "?R \<longleftrightarrow> (\<exists>vs. vals_ok (Var v # gs) vs \<and> path = seg_path (Var v # gs) vs)"
      by (auto split: list.splits) (metis list.exhaust)+
    ultimately show ?thesis using ok Var by (simp add: match_var)
  next
    case (Wild v)
    with Cons.prems have "gs = []" "CHR ''}'' \<notin> set v" by (simp_all add: name_ok_def)
    then show ?thesis using Wild match_wild [of v path] by (auto intro: exI [of _ "[path]"])
  qed
qed

section \<open>The captured values are the values\<close>

lemma extract_lit:
  "CHR ''{'' \<notin> set l \<Longrightarrow> extract_path_vars (l @ p) (l @ r) = extract_path_vars p r"
proof (induction l)
  case (Cons c l)
  then show ?case by (simp add: extract_path_vars.simps [of "c # l @ p"]) blast
qed simp

lemma next_delim_pattern:
  assumes "after_var gs"
  shows "next_delim (seg_pattern gs) = (case seg_pattern gs of [] \<Rightarrow> None | c # _ \<Rightarrow> Some c)"
  using assms by (cases gs rule: after_var.cases) (auto simp: next_delim_def)

lemma value_parts:
  assumes "\<forall>c \<in> set x. \<not> is_delim c" and "after_var gs" and "vals_ok gs xs"
  shows "takeWhile (\<lambda>c. Some c \<noteq> next_delim (seg_pattern gs)) (x @ seg_path gs xs) = x"
    and "dropWhile (\<lambda>c. Some c \<noteq> next_delim (seg_pattern gs)) (x @ seg_path gs xs) = seg_path gs xs"
proof -
  have pre: "\<forall>c \<in> set x. Some c \<noteq> next_delim (seg_pattern gs)"
    using assms(1) next_delim_pattern [OF assms(2)] assms(2)
    by (cases gs rule: after_var.cases) auto
  have tail: "seg_path gs xs = [] \<or> (\<exists>c r. seg_path gs xs = c # r \<and> Some c = next_delim (seg_pattern gs))"
    using assms(2,3) next_delim_pattern [OF assms(2)] by (cases gs rule: after_var.cases) auto
  show "takeWhile (\<lambda>c. Some c \<noteq> next_delim (seg_pattern gs)) (x @ seg_path gs xs) = x"
    using pre tail by (induction x) auto
  show "dropWhile (\<lambda>c. Some c \<noteq> next_delim (seg_pattern gs)) (x @ seg_path gs xs) = seg_path gs xs"
    using pre tail by (induction x) auto
qed

lemma takeWhile_name: "CHR ''}'' \<notin> set v \<Longrightarrow> takeWhile (\<lambda>c. c \<noteq> CHR ''}'') (v @ CHR ''}'' # p) = v"
  by (induction v) auto

lemma extract_var:
  assumes "name_ok v"
  shows "extract_path_vars (CHR ''{'' # v @ CHR ''}'' # p) path =
    (''HTTP_'' @ v, rstrip (takeWhile (\<lambda>c. Some c \<noteq> next_delim p) path)) #
      extract_path_vars p (dropWhile (\<lambda>c. Some c \<noteq> next_delim p) path)"
proof -
  have "\<not> c_prefix ''*'' (v @ CHR ''}'' # p)"
    using assms by (cases v) (auto simp: name_ok_def c_prefix_def)
  then show ?thesis
    using assms skip_brace_name [of v p] takeWhile_name [of v p]
    by (subst extract_path_vars.simps) (simp add: name_ok_def Let_def)
qed

lemma extract_wild:
  assumes "name_ok v"
  shows "extract_path_vars (CHR ''{'' # CHR ''*'' # v @ [CHR ''}'']) path = [(''HTTP_'' @ v, rstrip path)]"
  using assms skip_brace_name [of v "[]"] takeWhile_name [of v "[]"]
  by (subst extract_path_vars.simps)
    (simp add: name_ok_def Let_def c_prefix_def extract_path_vars.simps [of "[]"])

lemma extract_segments:
  "segs_ok gs \<Longrightarrow> vals_ok gs vs \<Longrightarrow>
   extract_path_vars (seg_pattern gs) (seg_path gs vs)
     = zip (map ((@) ''HTTP_'') (seg_names gs)) (map rstrip vs)"
proof (induction gs arbitrary: vs)
  case Nil
  then show ?case by (simp add: extract_path_vars.simps [of "[]"])
next
  case (Cons g gs)
  show ?case
  proof (cases g)
    case (Lit l)
    then show ?thesis using Cons by (simp add: extract_lit)
  next
    case (Var v)
    with Cons.prems obtain x xs where vs: "vs = x # xs" "\<forall>c \<in> set x. \<not> is_delim c" "vals_ok gs xs"
      by (auto split: list.splits)
    from Cons.prems Var have ok: "name_ok v" "after_var gs" "segs_ok gs" by simp_all
    show ?thesis
      using Cons.IH [OF ok(3) vs(3)] Var vs(1) ok value_parts [OF vs(2) ok(2) vs(3)]
      by (simp add: extract_var)
  next
    case (Wild v)
    with Cons.prems show ?thesis by (auto simp: extract_wild)
  qed
qed

section \<open>The search\<close>

lemma find_route_Some:
  "find_route rs m path = Some r \<Longrightarrow> r \<in> set rs \<and> rt_method r = m \<and> is_pattern_match (rt_pattern r) path"
  by (induction rs) (auto split: if_splits)

lemma find_route_None:
  "find_route rs m path = None \<longleftrightarrow>
     (\<forall>r \<in> set rs. rt_method r = m \<longrightarrow> \<not> is_pattern_match (rt_pattern r) path)"
  by (induction rs) auto

lemma path_is_known_iff: "path_is_known rs path \<longleftrightarrow> (\<exists>r \<in> set rs. is_pattern_match (rt_pattern r) path)"
  by (induction rs) auto

section \<open>Properties\<close>

text \<open>C10: a route answers exactly the paths of its pattern, and the handler finds under each name of
  the pattern the part of the path that stands for it, without trailing blanks: for every
  well-formed pattern, a path matches if and only if it is the pattern with values put in, and
  then extraction returns those values.\<close>

theorem route_captures_values:
  assumes "segs_ok gs"
  shows "(is_pattern_match (seg_pattern gs) path \<longleftrightarrow> (\<exists>vs. vals_ok gs vs \<and> path = seg_path gs vs)) \<and>
    (\<forall>vs. vals_ok gs vs \<longrightarrow>
       extract_path_vars (seg_pattern gs) (seg_path gs vs)
         = zip (map ((@) ''HTTP_'') (seg_names gs)) (map rstrip vs))"
  using match_segments [OF assms] extract_segments [OF assms] by blast

theorem route_captures_values_witness:
  "extract_path_vars ''/ds/{dsn}({mbr})'' ''/ds/SYS1.MACLIB(ABEND   )''
     = [(''HTTP_dsn'', ''SYS1.MACLIB''), (''HTTP_mbr'', ''ABEND'')]"
proof -
  let ?gs = "[Lit ''/ds/'', Var ''dsn'', Lit ''('', Var ''mbr'', Lit '')'']"
  have "segs_ok ?gs" by (simp add: name_ok_def c_prefix_def is_delim_def)
  moreover have "vals_ok ?gs [''SYS1.MACLIB'', ''ABEND   '']" by (simp add: is_delim_def)
  ultimately have "extract_path_vars (seg_pattern ?gs) (seg_path ?gs [''SYS1.MACLIB'', ''ABEND   ''])
      = zip (map ((@) ''HTTP_'') (seg_names ?gs)) (map rstrip [''SYS1.MACLIB'', ''ABEND   ''])"
    using route_captures_values [of ?gs "[]"] by blast
  then show ?thesis by (simp add: rstrip_def)
qed

end
