(* ===== verification/Dispatch.thy ===== *)
theory Dispatch
  imports Router Response
begin

text \<open>
  The dispatching half of \<^verbatim>\<open>src/router.c\<close>, \<^verbatim>\<open>src/abendmsg.c\<close>, \<^verbatim>\<open>src/buildkind.c\<close> and the route
  table and identity check of \<^verbatim>\<open>src/mvsmf.c\<close>.

  A handler is a function of the session that returns or abends; either way it leaves a session
  behind.  Storage addresses (\<^verbatim>\<open>FILE *\<close>, \<^verbatim>\<open>JES *\<close>, an ENQ anchor, an ACEE) are numbers.  What reaches
  the operating system is recorded in \<open>rs_calls\<close>; \<open>abends\<close> says which of the protected calls
  of the recovery take a second abend.
\<close>

section \<open>Abend texts and addresses\<close>

definition ABEND_B37 :: nat where "ABEND_B37 = 0xB37"
definition ABEND_D37 :: nat where "ABEND_D37 = 0xD37"
definition ABEND_E37 :: nat where "ABEND_E37 = 0xE37"
definition ABEND_913 :: nat where "ABEND_913 = 0x913"
definition ABEND_MSG_SIZE :: nat where "ABEND_MSG_SIZE = 96"

text \<open>\<^verbatim>\<open>%04d\<close> and \<^verbatim>\<open>%03X\<close> of a completion code.\<close>

definition dec4 :: "nat \<Rightarrow> cstr" where
  "dec4 n = replicate (4 - length (show_nat n)) (CHR ''0'') @ show_nat n"

definition hex3 :: "nat \<Rightarrow> cstr" where
  "hex3 n = map hex_digit [n div 256 mod 16, n div 16 mod 16, n mod 16]"

definition abend_detail :: "nat \<Rightarrow> cstr option" where
  "abend_detail sys =
     (if sys = ABEND_B37 then Some ''out of space on the volume''
      else if sys = ABEND_D37 then Some ''primary extent full, no secondary allocation''
      else if sys = ABEND_E37 then Some ''extent limit reached''
      else None)"

definition abend_message :: "nat \<Rightarrow> nat \<Rightarrow> nat \<Rightarrow> cstr" where
  "abend_message sz sys usr =
     (if sys = 0 then c_snprintf sz (''Internal server error (abend U'' @ dec4 usr @ '')'')
      else case abend_detail sys of
        Some detail \<Rightarrow> c_snprintf sz (''Internal server error (abend S'' @ hex3 sys @ '': '' @ detail @ '')'')
      | None \<Rightarrow> c_snprintf sz (''Internal server error (abend S'' @ hex3 sys @ '')''))"

definition abend_denial_detail :: "nat \<Rightarrow> cstr option" where
  "abend_denial_detail sys =
     (if sys \<noteq> ABEND_913 then None
      else Some ''Authorization failed - You may not use this protected data set. Open 913 abend.'')"

definition abend_instr_addr :: "u32 \<Rightarrow> u32 \<Rightarrow> u32" where
  "abend_instr_addr psw0 psw1 =
     (let addr = psw1 AND 0x00FFFFFF; ilc = drop_bit 30 psw1 AND 3; intc = psw0 AND 0xFFFF in
      if intc = 0x0010 \<or> intc = 0x0011 then addr else (addr - ilc * 2) AND 0x00FFFFFF)"

definition abend_ep_offset :: "u32 \<Rightarrow> u32 \<Rightarrow> int" where
  "abend_ep_offset addr ep = uint (addr AND 0x00FFFFFF) - uint (ep AND 0x00FFFFFF)"

definition abend_in_range :: "u32 \<Rightarrow> u32 \<Rightarrow> u32 \<Rightarrow> bool" where
  "abend_in_range addr start len =
     (let a = addr AND 0x00FFFFFF; s = start AND 0x00FFFFFF in
      len \<noteq> 0 \<and> a \<ge> s \<and> a - s < len)"

section \<open>Tracked resources\<close>

text \<open>The console messages of the router, and those of the handlers that run under it.\<close>

datatype router_msg =
    FilesFull | JesTracked | RouterNull
  | RecoveryClose nat | RecoveryAbend nat
  | RecoveryJes | RecoveryJesAbend | RecoveryConslk | RecoveryConslkAbend
  | RecoveryDslstlk | RecoveryDslstlkAbend
  | HandlerAbend nat nat cstr cstr | HeadersSent
  | JesUnavailable | JescanjRc int | SpoolWalk cstr cstr nat cstr
  | JclStorageFailed | DsReadError | IntrdrOpen | IntrdrWrite | IntrdrClose | JobSubmitted cstr cstr
  | UssReadError cstr
  | DsOpenWrite cstr | DsNoSpace cstr | DsRenameFailed cstr cstr | MbrRenameFailed cstr cstr cstr | DsDeleteFailed cstr
  | ListStorage

datatype os_call =
    Fclose nat | FcloseDiscard nat | Jesclose nat | UnlockConsole nat | UnlockDslist
  | Jescanj cstr cstr bool | LockConsole nat | Mgcr cstr
  | Fopen cstr | Jesiropn | Jesirput cstr | Jesircl2 | Jesircls
  | DsOpen cstr cstr | DsWrite nat "byte list" | DsRemove cstr | DsRename cstr cstr | DsRenmem cstr cstr cstr
  | DsAlloc cstr | DsFree | LockDslist
  | UfsOpen cstr cstr | UfsWrite nat "byte list" | UfsMkdir cstr | UfsRmdir cstr | UfsRemove cstr | UfsPerm nat
  | Wto router_msg

record rsession = session +
  rs_files :: "nat list"
  rs_jes :: "nat option"
  rs_console_lock :: "nat option"
  rs_dslist_lock :: bool
  rs_acee :: "nat option"
  rs_old_acee :: "nat option"
  rs_task_acee :: "nat option"
  rs_calls :: "os_call list"

definition MAX_SESSION_FILES :: nat where "MAX_SESSION_FILES = 4"

definition do_call :: "os_call \<Rightarrow> 'a rsession_scheme \<Rightarrow> 'a rsession_scheme" where
  "do_call c s = s\<lparr>rs_calls := rs_calls s @ [c]\<rparr>"

definition session_register_file :: "'a rsession_scheme \<Rightarrow> nat option \<Rightarrow> int \<times> 'a rsession_scheme" where
  "session_register_file s fp =
     (case fp of None \<Rightarrow> (-1, s)
      | Some f \<Rightarrow>
          if length (rs_files s) \<ge> MAX_SESSION_FILES then (-1, do_call (Wto FilesFull) s)
          else (0, s\<lparr>rs_files := rs_files s @ [f]\<rparr>))"

definition session_unregister_file :: "'a rsession_scheme \<Rightarrow> nat option \<Rightarrow> 'a rsession_scheme" where
  "session_unregister_file s fp =
     (case fp of None \<Rightarrow> s | Some f \<Rightarrow> s\<lparr>rs_files := remove1 f (rs_files s)\<rparr>)"

definition session_fclose :: "'a rsession_scheme \<Rightarrow> nat option \<Rightarrow> 'a rsession_scheme" where
  "session_fclose s fp =
     (case fp of None \<Rightarrow> s | Some f \<Rightarrow> do_call (Fclose f) (session_unregister_file s (Some f)))"

definition session_register_jes :: "rsession \<Rightarrow> nat option \<Rightarrow> int \<times> rsession" where
  "session_register_jes s jes =
     (case jes of None \<Rightarrow> (-1, s)
      | Some j \<Rightarrow> if rs_jes s \<noteq> None then (-1, do_call (Wto JesTracked) s)
                  else (0, s\<lparr>rs_jes := Some j\<rparr>))"

definition session_jesclose :: "rsession \<Rightarrow> nat option \<Rightarrow> rsession" where
  "session_jesclose s jes =
     (case jes of None \<Rightarrow> s
      | Some j \<Rightarrow> do_call (Jesclose j) (if rs_jes s = Some j then s\<lparr>rs_jes := None\<rparr> else s))"

text \<open>\<^verbatim>\<open>if (try(thunk, arg) != 0) wtof(msg)\<close>\<close>

definition try_call :: "(os_call \<Rightarrow> bool) \<Rightarrow> os_call \<Rightarrow> router_msg \<Rightarrow> rsession \<Rightarrow> rsession" where
  "try_call abends c msg s =
     (let s = do_call c s in if abends c then do_call (Wto msg) s else s)"

fun cleanup_files :: "(os_call \<Rightarrow> bool) \<Rightarrow> nat \<Rightarrow> nat list \<Rightarrow> rsession \<Rightarrow> rsession" where
  "cleanup_files abends i [] s = s"
| "cleanup_files abends i (fp # fps) s =
     cleanup_files abends (i + 1) fps
       (try_call abends (FcloseDiscard fp) (RecoveryAbend i) (do_call (Wto (RecoveryClose fp)) s))"

definition session_cleanup :: "(os_call \<Rightarrow> bool) \<Rightarrow> rsession \<Rightarrow> rsession" where
  "session_cleanup abends s =
     (let s = (cleanup_files abends 0 (rs_files s) s)\<lparr>rs_files := []\<rparr>;
          s = (case rs_jes s of None \<Rightarrow> s
               | Some j \<Rightarrow> try_call abends (Jesclose j) RecoveryJesAbend
                            (do_call (Wto RecoveryJes) (s\<lparr>rs_jes := None\<rparr>)));
          s = (case rs_console_lock s of None \<Rightarrow> s
               | Some a \<Rightarrow> try_call abends (UnlockConsole a) RecoveryConslkAbend
                            (do_call (Wto RecoveryConslk) (s\<lparr>rs_console_lock := None\<rparr>)))
      in if rs_dslist_lock s
         then try_call abends UnlockDslist RecoveryDslstlkAbend
                (do_call (Wto RecoveryDslstlk) (s\<lparr>rs_dslist_lock := False\<rparr>))
         else s)"

section \<open>A request\<close>

datatype handler_result = Returned int rsession | Abended nat nat rsession

type_synonym handler = "rsession \<Rightarrow> handler_result"
type_synonym middleware = "rsession \<Rightarrow> int \<times> rsession"

record 'h router =
  rtr_routes :: "'h Route list"
  rtr_middlewares :: "middleware list"

definition MAX_MIDDLEWARES :: nat where "MAX_MIDDLEWARES = 10"

definition add_middleware :: "middleware \<Rightarrow> 'h router \<Rightarrow> 'h router" where
  "add_middleware m r =
     (if length (rtr_middlewares r) \<ge> MAX_MIDDLEWARES then r
      else r\<lparr>rtr_middlewares := rtr_middlewares r @ [m]\<rparr>)"

definition route_matching_middleware :: middleware where
  "route_matching_middleware s = (0, s)"

definition path_vars_extracting_middleware :: middleware where
  "path_vars_extracting_middleware s = (0, s)"

definition init_router :: "'h router" where
  "init_router = add_middleware path_vars_extracting_middleware
     (add_middleware route_matching_middleware \<lparr>rtr_routes = [], rtr_middlewares = []\<rparr>)"

fun run_middlewares :: "middleware list \<Rightarrow> rsession \<Rightarrow> int \<times> rsession" where
  "run_middlewares [] s = (0, s)"
| "run_middlewares (m # ms) s = (let (rc, s) = m s in if rc \<noteq> 0 then (rc, s) else run_middlewares ms s)"

definition HTTP_STATUS_METHOD_NOT_ALLOWED :: int where "HTTP_STATUS_METHOD_NOT_ALLOWED = 405"
definition HTTP_STATUS_NOT_FOUND :: int where "HTTP_STATUS_NOT_FOUND = 404"

definition set_path_vars :: "(cstr \<times> cstr) list \<Rightarrow> rsession \<Rightarrow> rsession" where
  "set_path_vars vars s = s\<lparr>ss_env := foldl (\<lambda>e (n, v). e(n \<mapsto> v)) (ss_env s) vars\<rparr>"

text \<open>The recovery behind \<^verbatim>\<open>try(handler_thunk, &ctx)\<close>; \<^verbatim>\<open>report_abend_where\<close> only writes to the
  console and is left out.\<close>

definition recover ::
  "httpd \<Rightarrow> (os_call \<Rightarrow> bool) \<Rightarrow> cstr \<Rightarrow> cstr \<Rightarrow> nat \<Rightarrow> nat \<Rightarrow> rsession \<Rightarrow> rsession" where
  "recover srv abends method path sys usr s =
     (let s = session_cleanup abends (do_call (Wto (HandlerAbend sys usr method path)) s) in
      if \<not> ss_headers_sent s then
        (case abend_denial_detail sys of
           Some denial \<Rightarrow>
             snd (sendErrorResponse srv HTTP_STATUS_INTERNAL_SERVER_ERROR CATEGORY_AUTHORIZATION
               RC_ERROR REASON_NOT_AUTHORIZED (Some ERR_MSG_NOT_AUTHORIZED) [Some denial] s)
         | None \<Rightarrow>
             snd (sendErrorResponse srv 500 6 8 99 (Some (abend_message ABEND_MSG_SIZE sys usr)) [] s))
      else do_call (Wto HeadersSent)
             (s\<lparr>ss_conn := abort_response (hd_cstate_done srv) (ss_conn s)\<rparr>))"

text \<open>\<^verbatim>\<open>REQUEST_METHOD\<close> is set by httpd for every request.\<close>

definition handle_request ::
  "httpd \<Rightarrow> (os_call \<Rightarrow> bool) \<Rightarrow> ('h \<Rightarrow> handler) \<Rightarrow> 'h router \<Rightarrow> rsession \<Rightarrow> int \<times> rsession" where
  "handle_request srv abends run router s =
     (let method = (case ss_env s ''REQUEST_METHOD'' of None \<Rightarrow> [] | Some m \<Rightarrow> m) in
      case request_path_copy (ss_env s ''REQUEST_PATH'') 1024 of
        None \<Rightarrow> (-1, snd (http_resp srv 400 s))
      | Some path \<Rightarrow>
          case parseMethod method of
            None \<Rightarrow> (-1, snd (http_resp srv 405 s))
          | Some reqMethod \<Rightarrow>
              let (rc, s) = run_middlewares (rtr_middlewares router) s in
              if rc \<noteq> 0 then (rc, s)
              else case find_route (rtr_routes router) reqMethod path of
                None \<Rightarrow>
                  if path_is_known (rtr_routes router) path then
                    (-1, snd (sendErrorResponse srv HTTP_STATUS_METHOD_NOT_ALLOWED 6 4 7
                           (Some (c_snprintf 64 (''Http method '' @ method @ '' is not supported by this URL''))) [] s))
                  else (-1, snd (sendErrorResponse srv HTTP_STATUS_NOT_FOUND 6 4 7 (Some ''Not Found'') [] s))
              | Some route \<Rightarrow>
                  (case run (rt_handler route) (set_path_vars (extract_path_vars (rt_pattern route) path) s) of
                     Returned rc s \<Rightarrow> (rc, s)
                   | Abended sys usr s \<Rightarrow> (-1, recover srv abends method path sys usr s)))"

section \<open>The server's routes\<close>

definition build_is_dev :: "cstr option \<Rightarrow> bool" where
  "build_is_dev version =
     (case version of None \<Rightarrow> False
      | Some v \<Rightarrow> length v \<ge> 4 \<and> drop (length v - 4) v = ''-dev'')"

datatype handler_id =
    infoHandler | testHandler | testWildcardHandler | authLoginHandler | authLogoutHandler
  | jobListHandler | jobFilesHandler | jobRecordsHandler | jobSubmitHandler | jobStatusHandler
  | jobCancelHandler | jobPurgeHandler
  | datasetListHandler | datasetGetHandler | datasetPutHandler | datasetCreateHandler
  | datasetDeleteHandler | memberListHandler | memberGetHandler | memberPutHandler
  | memberDeleteHandler
  | ussListHandler | consoleIssueHandler | consoleCollectHandler | consoleDetectHandler
  | consoleLogHandler | ussGetHandler | ussPutHandler | ussCreateHandler | ussDeleteHandler

definition test_routes :: "bool \<Rightarrow> cstr option \<Rightarrow> (HttpMethod \<times> cstr \<times> handler_id) list" where
  "test_routes no_test_endpoint version =
     (if \<not> no_test_endpoint \<and> build_is_dev version then
        [(GET, ''/zosmf/test'', testHandler),
         (GET, ''/zosmf/test/wildcard/{*filepath}'', testWildcardHandler)]
      else [])"

definition job_routes :: "(HttpMethod \<times> cstr \<times> handler_id) list" where
  "job_routes =
     [(GET, ''/zosmf/restjobs/jobs'', jobListHandler),
      (GET, ''/zosmf/restjobs/jobs/{job-name}/{jobid}/files'', jobFilesHandler),
      (GET, ''/zosmf/restjobs/jobs/{job-name}/{jobid}/files/{ddid}/records'', jobRecordsHandler),
      (PUT, ''/zosmf/restjobs/jobs'', jobSubmitHandler),
      (GET, ''/zosmf/restjobs/jobs/{job-name}/{jobid}'', jobStatusHandler),
      (PUT, ''/zosmf/restjobs/jobs/{job-name}/{jobid}'', jobCancelHandler),
      (DELETE, ''/zosmf/restjobs/jobs/{job-name}/{jobid}'', jobPurgeHandler)]"

definition dataset_routes :: "(HttpMethod \<times> cstr \<times> handler_id) list" where
  "dataset_routes =
     [(GET, ''/zosmf/restfiles/ds'', datasetListHandler),
      (GET, ''/zosmf/restfiles/ds/{dataset-name}'', datasetGetHandler),
      (GET, ''/zosmf/restfiles/ds/-({volume-serial})/{dataset-name}'', datasetGetHandler),
      (PUT, ''/zosmf/restfiles/ds/{dataset-name}'', datasetPutHandler),
      (PUT, ''/zosmf/restfiles/ds/-({volume-serial})/{dataset-name}'', datasetPutHandler),
      (POST, ''/zosmf/restfiles/ds/{dataset-name}'', datasetCreateHandler),
      (DELETE, ''/zosmf/restfiles/ds/{dataset-name}'', datasetDeleteHandler),
      (DELETE, ''/zosmf/restfiles/ds/-({volume-serial})/{dataset-name}'', datasetDeleteHandler),
      (GET, ''/zosmf/restfiles/ds/{dataset-name}/member'', memberListHandler),
      (GET, ''/zosmf/restfiles/ds/-({volume-serial})/{dataset-name}/member'', memberListHandler),
      (GET, ''/zosmf/restfiles/ds/{dataset-name}({member-name})'', memberGetHandler),
      (GET, ''/zosmf/restfiles/ds/-({volume-serial})/{dataset-name}({member-name})'', memberGetHandler),
      (PUT, ''/zosmf/restfiles/ds/{dataset-name}({member-name})'', memberPutHandler),
      (PUT, ''/zosmf/restfiles/ds/-({volume-serial})/{dataset-name}({member-name})'', memberPutHandler),
      (DELETE, ''/zosmf/restfiles/ds/{dataset-name}({member-name})'', memberDeleteHandler),
      (DELETE, ''/zosmf/restfiles/ds/-({volume-serial})/{dataset-name}({member-name})'', memberDeleteHandler)]"

definition console_routes :: "(HttpMethod \<times> cstr \<times> handler_id) list" where
  "console_routes =
     [(GET, ''/zosmf/restfiles/fs'', ussListHandler),
      (PUT, ''/zosmf/restconsoles/consoles/{console-name}'', consoleIssueHandler),
      (GET, ''/zosmf/restconsoles/consoles/{console-name}/solmsgs/{cmd-response-key}'', consoleCollectHandler),
      (GET, ''/zosmf/restconsoles/consoles/{console-name}/detections/{detection-key}'', consoleDetectHandler),
      (GET, ''/zosmf/restconsoles/v1/log'', consoleLogHandler),
      (GET, ''/zosmf/restfiles/fs/{*filepath}'', ussGetHandler),
      (PUT, ''/zosmf/restfiles/fs/{*filepath}'', ussPutHandler),
      (POST, ''/zosmf/restfiles/fs/{*filepath}'', ussCreateHandler),
      (DELETE, ''/zosmf/restfiles/fs/{*filepath}'', ussDeleteHandler)]"

definition mvsmf_routes :: "bool \<Rightarrow> cstr option \<Rightarrow> handler_id Route list" where
  "mvsmf_routes no_test_endpoint version =
     foldl (\<lambda>rs (m, p, h). fst (add_route m (Some p) (Some h) rs)) []
       ([(GET, ''/zosmf/info'', infoHandler)] @ test_routes no_test_endpoint version @
        [(POST, ''/zosmf/services/authenticate'', authLoginHandler),
         (DELETE, ''/zosmf/services/authenticate'', authLogoutHandler)] @
        job_routes @ dataset_routes @ console_routes)"

text \<open>\<open>acee\<close> is the identity httpd resolved, \<open>None\<close> when it resolved none.\<close>

definition racf_set_acee :: "nat option \<Rightarrow> rsession \<Rightarrow> nat option \<times> rsession" where
  "racf_set_acee acee s = (rs_task_acee s, s\<lparr>rs_task_acee := acee\<rparr>)"

definition identity_middleware :: "httpd \<Rightarrow> nat option \<Rightarrow> middleware" where
  "identity_middleware srv acee s =
     (if ss_env s ''REQUEST_PATH'' = Some ''/zosmf/services/authenticate'' then (0, s)
      else case acee of
        None \<Rightarrow> (-1, snd (sendDefaultHeaders srv HTTP_STATUS_UNAUTHORIZED (Some HTTP_CONTENT_TYPE_NONE) 0 s))
      | Some a \<Rightarrow>
          let (old, s) = racf_set_acee (Some a) s
          in (0, s\<lparr>rs_old_acee := old, rs_acee := Some a\<rparr>))"

definition mvsmf_router :: "httpd \<Rightarrow> nat option \<Rightarrow> bool \<Rightarrow> cstr option \<Rightarrow> handler_id router" where
  "mvsmf_router srv acee no_test_endpoint version =
     (add_middleware (identity_middleware srv acee) init_router)
       \<lparr>rtr_routes := mvsmf_routes no_test_endpoint version\<rparr>"

text \<open>\<^verbatim>\<open>main\<close>, from the router on.\<close>

definition mvsmf_main ::
  "httpd \<Rightarrow> (os_call \<Rightarrow> bool) \<Rightarrow> (handler_id \<Rightarrow> handler) \<Rightarrow> nat option \<Rightarrow> bool \<Rightarrow> cstr option \<Rightarrow> rsession \<Rightarrow> rsession" where
  "mvsmf_main srv abends run acee no_test_endpoint version s =
     (let (irc, s) = handle_request srv abends run (mvsmf_router srv acee no_test_endpoint version) s in
      if rs_acee s \<noteq> None
      then (snd (racf_set_acee (rs_old_acee s) s))\<lparr>rs_acee := None, rs_old_acee := None\<rparr>
      else s)"

section \<open>The table\<close>

text \<open>Reading a pattern back into its segments.\<close>

function segs_of :: "cstr \<Rightarrow> segment list" where
  "segs_of p =
     (case p of
        [] \<Rightarrow> []
      | c # r \<Rightarrow>
          if c = CHR ''{'' then
            let wild = c_prefix ''*'' r; n = takeWhile (\<lambda>c. c \<noteq> CHR ''}'') (if wild then tl r else r)
            in (if wild then Wild n else Var n) # segs_of (skip_brace r)
          else Lit (c # takeWhile (\<lambda>c. c \<noteq> CHR ''{'') r) # segs_of (dropWhile (\<lambda>c. c \<noteq> CHR ''{'') r))"
  by pat_completeness auto
termination
proof (relation "measure length", simp, goal_cases)
  case (1 p c r)
  then show ?case using skip_brace_length [of r] by simp
next
  case (2 p c r)
  then show ?case using dropWhile_length_le [of "\<lambda>c. c \<noteq> CHR ''{''" r] by simp
qed

declare segs_of.simps [simp del]

definition pattern_ok :: "cstr \<Rightarrow> bool" where
  "pattern_ok p \<longleftrightarrow> segs_ok (segs_of p) \<and> seg_pattern (segs_of p) = p"

definition route_list :: "bool \<Rightarrow> (HttpMethod \<times> cstr \<times> handler_id) list" where
  "route_list test = [(GET, ''/zosmf/info'', infoHandler)] @
     (if test then [(GET, ''/zosmf/test'', testHandler),
         (GET, ''/zosmf/test/wildcard/{*filepath}'', testWildcardHandler)] else []) @
        [(POST, ''/zosmf/services/authenticate'', authLoginHandler),
         (DELETE, ''/zosmf/services/authenticate'', authLogoutHandler)] @
        job_routes @ dataset_routes @ console_routes"

lemma add_routes:
  "length rs + length xs \<le> MAX_ROUTES \<Longrightarrow>
   foldl (\<lambda>rs (m, p, h). fst (add_route m (Some p) (Some h) rs)) rs xs =
     rs @ map (\<lambda>(m, p, h). \<lparr>rt_method = m, rt_pattern = p, rt_handler = h\<rparr>) xs"
  by (induction xs arbitrary: rs) (auto simp: add_route_def)

lemma route_list_length: "length (route_list test) \<le> MAX_ROUTES"
  by (simp add: route_list_def job_routes_def dataset_routes_def console_routes_def MAX_ROUTES_def)

lemma mvsmf_routes_list:
  "mvsmf_routes nt v = map (\<lambda>(m, p, h). \<lparr>rt_method = m, rt_pattern = p, rt_handler = h\<rparr>)
     (route_list (\<not> nt \<and> build_is_dev v))"
  using add_routes [of "[]" "route_list (\<not> nt \<and> build_is_dev v)"] route_list_length
  by (simp add: mvsmf_routes_def route_list_def test_routes_def)

lemma patterns_ok: "list_all (\<lambda>(m, p, h). pattern_ok p) (route_list True)"
  by code_simp

lemma route_list_mono: "set (route_list b) \<subseteq> set (route_list True)"
  by (auto simp: route_list_def)

definition route_of :: "HttpMethod \<times> cstr \<times> 'h \<Rightarrow> 'h Route" where
  "route_of x = (case x of (m, p, h) \<Rightarrow> \<lparr>rt_method = m, rt_pattern = p, rt_handler = h\<rparr>)"

lemma find_route_filter:
  "find_route (map route_of xs) m path =
     (case filter (\<lambda>(m', p, h). m' = m) (filter (\<lambda>(m', p, h). is_pattern_match p path) xs) of
        [] \<Rightarrow> None | x # _ \<Rightarrow> Some (route_of x))"
  by (induction xs) (auto simp: route_of_def split: list.splits)

abbreviation auth_path :: cstr where "auth_path \<equiv> ''/zosmf/services/authenticate''"

lemma auth_matches:
  "filter (\<lambda>(m, p, h). is_pattern_match p auth_path) (route_list b) =
     [(POST, auth_path, authLoginHandler), (DELETE, auth_path, authLogoutHandler)]"
proof -
  have "filter (\<lambda>(m, p, h). is_pattern_match p auth_path) (route_list True) =
      [(POST, auth_path, authLoginHandler), (DELETE, auth_path, authLogoutHandler)]"
    "filter (\<lambda>(m, p, h). is_pattern_match p auth_path) (route_list False) =
      [(POST, auth_path, authLoginHandler), (DELETE, auth_path, authLogoutHandler)]"
    by code_simp+
  then show ?thesis by (cases b) simp_all
qed

lemma mvsmf_routes_of: "mvsmf_routes nt v = map route_of (route_list (\<not> nt \<and> build_is_dev v))"
  unfolding mvsmf_routes_list by (simp add: route_of_def [abs_def])

lemma auth_route_handlers:
  "find_route (mvsmf_routes nt v) m auth_path = Some r \<Longrightarrow> rt_handler r \<in> {authLoginHandler, authLogoutHandler}"
  unfolding mvsmf_routes_of find_route_filter auth_matches
  by (cases m) (auto simp: route_of_def)

section \<open>Recovery\<close>

text \<open>The calls of a trace that are not messages.\<close>

fun is_wto :: "os_call \<Rightarrow> bool" where
  "is_wto (Wto m) = True"
| "is_wto _ = False"

definition os_calls :: "rsession \<Rightarrow> os_call list" where
  "os_calls s = filter (\<lambda>c. \<not> is_wto c) (rs_calls s)"

lemma do_call_calls [simp]:
  "os_calls (do_call c s) = os_calls s @ (if is_wto c then [] else [c])"
  by (simp add: os_calls_def do_call_def)

lemma do_call_fields [simp]:
  "rs_files (do_call c s) = rs_files s" "rs_jes (do_call c s) = rs_jes s"
  "rs_console_lock (do_call c s) = rs_console_lock s" "rs_dslist_lock (do_call c s) = rs_dslist_lock s"
  "ss_headers_sent (do_call c s) = ss_headers_sent s" "ss_conn (do_call c s) = ss_conn s"
  "ss_prints (do_call c s) = ss_prints s" "ss_out (do_call c s) = ss_out s"
  "ss_env (do_call c s) = ss_env s"
  by (simp_all add: do_call_def)

lemma try_call_fields [simp]:
  "rs_files (try_call a c m s) = rs_files s" "rs_jes (try_call a c m s) = rs_jes s"
  "rs_console_lock (try_call a c m s) = rs_console_lock s"
  "rs_dslist_lock (try_call a c m s) = rs_dslist_lock s"
  "ss_headers_sent (try_call a c m s) = ss_headers_sent s" "ss_conn (try_call a c m s) = ss_conn s"
  "ss_prints (try_call a c m s) = ss_prints s" "ss_out (try_call a c m s) = ss_out s"
  "ss_env (try_call a c m s) = ss_env s"
  "os_calls (try_call a c m s) = os_calls s @ (if is_wto c then [] else [c])"
  by (simp_all add: try_call_def Let_def)

lemma cleanup_files_fields [simp]:
  "rs_files (cleanup_files a i fs s) = rs_files s" "rs_jes (cleanup_files a i fs s) = rs_jes s"
  "rs_console_lock (cleanup_files a i fs s) = rs_console_lock s"
  "rs_dslist_lock (cleanup_files a i fs s) = rs_dslist_lock s"
  "ss_headers_sent (cleanup_files a i fs s) = ss_headers_sent s" "ss_conn (cleanup_files a i fs s) = ss_conn s"
  "ss_prints (cleanup_files a i fs s) = ss_prints s" "ss_out (cleanup_files a i fs s) = ss_out s"
  "ss_env (cleanup_files a i fs s) = ss_env s"
  "os_calls (cleanup_files a i fs s) = os_calls s @ map FcloseDiscard fs"
  by (induction a i fs s rule: cleanup_files.induct) simp_all

lemma os_calls_update [simp]:
  "os_calls (s\<lparr>rs_files := x\<rparr>) = os_calls s" "os_calls (s\<lparr>rs_jes := y\<rparr>) = os_calls s"
  "os_calls (s\<lparr>rs_console_lock := z\<rparr>) = os_calls s" "os_calls (s\<lparr>rs_dslist_lock := w\<rparr>) = os_calls s"
  "os_calls (s\<lparr>ss_conn := c\<rparr>) = os_calls s"
  by (simp_all add: os_calls_def)

text \<open>What a session holds, in the order the recovery gives it back.\<close>

definition releases :: "rsession \<Rightarrow> os_call list" where
  "releases s = map FcloseDiscard (rs_files s) @
     (case rs_jes s of None \<Rightarrow> [] | Some j \<Rightarrow> [Jesclose j]) @
     (case rs_console_lock s of None \<Rightarrow> [] | Some a \<Rightarrow> [UnlockConsole a]) @
     (if rs_dslist_lock s then [UnlockDslist] else [])"

definition holds_nothing :: "rsession \<Rightarrow> bool" where
  "holds_nothing s \<longleftrightarrow> rs_files s = [] \<and> rs_jes s = None \<and> rs_console_lock s = None \<and> \<not> rs_dslist_lock s"

lemma session_cleanup_releases:
  "holds_nothing (session_cleanup a s)"
  "os_calls (session_cleanup a s) = os_calls s @ releases s"
  "ss_headers_sent (session_cleanup a s) = ss_headers_sent s"
  "ss_conn (session_cleanup a s) = ss_conn s" "ss_prints (session_cleanup a s) = ss_prints s"
  "ss_out (session_cleanup a s) = ss_out s" "ss_env (session_cleanup a s) = ss_env s"
  by (cases "rs_jes s"; cases "rs_console_lock s"; cases "rs_dslist_lock s";
      simp add: session_cleanup_def Let_def holds_nothing_def releases_def)+

lemma answers_session:
  assumes "answers s t"
  shows "holds_nothing t = holds_nothing s" "os_calls t = os_calls s" "rs_acee t = rs_acee s"
    "rs_task_acee t = rs_task_acee s" "rs_old_acee t = rs_old_acee s"
  using assms by (auto simp: answers_def holds_nothing_def os_calls_def)

section \<open>What a handler holds\<close>

text \<open>
  The states a handler brings its session to with the tracking operations: \<open>F\<close> the files it has
  open, \<open>J\<close> its JES handle.  A handler opens at most \<open>MAX_SESSION_FILES\<close> files at a time.
\<close>

inductive handler_holds :: "rsession \<Rightarrow> nat set \<Rightarrow> nat option \<Rightarrow> bool" where
  start: "rs_files s = [] \<Longrightarrow> rs_jes s = None \<Longrightarrow> handler_holds s {} None"
| opened: "handler_holds s F J \<Longrightarrow> fp \<notin> F \<Longrightarrow> card F < MAX_SESSION_FILES \<Longrightarrow>
    session_register_file s (Some fp) = (rc, s') \<Longrightarrow> handler_holds s' (insert fp F) J"
| closed: "handler_holds s F J \<Longrightarrow> fp \<in> F \<Longrightarrow>
    handler_holds (session_fclose s (Some fp)) (F - {fp}) J"
| jes_opened: "handler_holds s F None \<Longrightarrow> session_register_jes s (Some j) = (rc, s') \<Longrightarrow>
    handler_holds s' F (Some j)"
| jes_closed: "handler_holds s F (Some j) \<Longrightarrow> handler_holds (session_jesclose s (Some j)) F None"

inductive_cases handler_holds_emptyE: "handler_holds s {} None"

lemma handler_holds_tracked:
  "handler_holds s F J \<Longrightarrow> distinct (rs_files s) \<and> set (rs_files s) = F \<and> rs_jes s = J"
proof (induction rule: handler_holds.induct)
  case (opened s F J fp rc s')
  then have "length (rs_files s) < MAX_SESSION_FILES" by (metis distinct_card)
  with opened show ?case by (auto simp: session_register_file_def)
next
  case (closed s F J fp)
  then show ?case
    by (auto simp: session_fclose_def session_unregister_file_def)
next
  case (jes_closed s F j)
  then show ?case by (simp add: session_jesclose_def)
qed (auto simp: session_register_jes_def)

text \<open>A session for the witnesses.\<close>

definition sample_rsession :: rsession where
  "sample_rsession = \<lparr>ss_conn = sample_conn, ss_env = (\<lambda>_. None), ss_prints = [], ss_out = [],
     ss_headers_sent = False, rs_files = [], rs_jes = None, rs_console_lock = None,
     rs_dslist_lock = False, rs_acee = None, rs_old_acee = None, rs_task_acee = None, rs_calls = []\<rparr>"

section \<open>Properties\<close>

text \<open>Every route the server registers is kept, in order, and its pattern is well-formed, so
  that \<open>route_captures_values\<close> (theory Router) describes what it answers and captures.\<close>

theorem route_table_wellformed:
  "length (mvsmf_routes no_test version) = (if \<not> no_test \<and> build_is_dev version then 37 else 35) \<and>
   list_all (\<lambda>r. \<exists>gs. segs_ok gs \<and> rt_pattern r = seg_pattern gs) (mvsmf_routes no_test version)"
proof -
  have "\<forall>(m, p, h) \<in> set (route_list True). pattern_ok p"
    using patterns_ok by (simp only: list_all_iff)
  then have "\<forall>(m, p, h) \<in> set (route_list b). pattern_ok p" for b
    using route_list_mono [of b] by blast
  then have "list_all (\<lambda>r. pattern_ok (rt_pattern r)) (mvsmf_routes no_test version)"
    unfolding mvsmf_routes_of list_all_iff by (fastforce simp: route_of_def)
  moreover have "pattern_ok p \<Longrightarrow> \<exists>gs. segs_ok gs \<and> p = seg_pattern gs" for p
    unfolding pattern_ok_def by metis
  ultimately have "list_all (\<lambda>r. \<exists>gs. segs_ok gs \<and> rt_pattern r = seg_pattern gs) (mvsmf_routes no_test version)"
    by (simp add: list_all_iff)
  then show ?thesis
    by (simp add: mvsmf_routes_of route_list_def job_routes_def dataset_routes_def console_routes_def)
qed

text \<open>C11: without an identity no handler but the two of the authenticate endpoint ever runs: the
  outcome of a request does not depend on any other handler.\<close>

theorem no_identity_no_handler:
  assumes "\<forall>h \<in> {authLoginHandler, authLogoutHandler}. run h = run' h"
  shows "handle_request srv abends run (mvsmf_router srv None no_test version) s =
         handle_request srv abends run' (mvsmf_router srv None no_test version) s"
proof (cases "ss_env s ''REQUEST_PATH'' = Some auth_path")
  case True
  have path: "request_path_copy (Some auth_path) 1024 = Some auth_path"
    by (simp add: request_path_copy_def)
  have mw: "run_middlewares (rtr_middlewares (mvsmf_router srv None no_test version)) s = (0, s)"
    using True by (simp add: mvsmf_router_def init_router_def add_middleware_def MAX_MIDDLEWARES_def
        route_matching_middleware_def path_vars_extracting_middleware_def identity_middleware_def)
  have run: "run (rt_handler r) = run' (rt_handler r)"
    if "find_route (rtr_routes (mvsmf_router srv None no_test version)) m auth_path = Some r" for m r
    using auth_route_handlers [of no_test version m r] that assms by (auto simp: mvsmf_router_def)
  show ?thesis
    unfolding handle_request_def True path mw
    by (simp add: Let_def run split: option.split)
next
  case False
  have "\<exists>t. run_middlewares (rtr_middlewares (mvsmf_router srv None no_test version)) s = (-1, t)"
    using False by (simp add: mvsmf_router_def init_router_def add_middleware_def MAX_MIDDLEWARES_def
        route_matching_middleware_def path_vars_extracting_middleware_def identity_middleware_def)
  then show ?thesis
    unfolding handle_request_def by (auto simp: Let_def split: option.split)
qed

theorem no_identity_no_handler_witness:
  "handle_request sample_httpd (\<lambda>_. False) (\<lambda>_ s. Returned 0 s) (mvsmf_router sample_httpd None False None)
     (sample_rsession\<lparr>ss_env := [''REQUEST_PATH'' \<mapsto> ''/zosmf/restfiles/ds/A.B'']\<rparr>) =
   handle_request sample_httpd (\<lambda>_. False)
     (\<lambda>h s. if h = datasetDeleteHandler then Abended 0xC4 0 s else Returned 0 s)
     (mvsmf_router sample_httpd None False None)
     (sample_rsession\<lparr>ss_env := [''REQUEST_PATH'' \<mapsto> ''/zosmf/restfiles/ds/A.B'']\<rparr>)"
  by (rule no_identity_no_handler) simp

text \<open>C12: whatever an abending handler left open, and whichever of the protected calls of the
  recovery abend in turn, the recovery gives back every tracked file, the JES handle and both
  locks, each exactly once, before it answers; a response already begun is torn down.\<close>

theorem abend_recovery:
  "holds_nothing (recover srv abends method path sys usr s) \<and>
   os_calls (recover srv abends method path sys usr s) = os_calls s @ releases s \<and>
   (if ss_headers_sent s then torn_down (hd_cstate_done srv) (ss_conn (recover srv abends method path sys usr s))
    else \<forall>denial. abend_denial_detail sys = denial \<longrightarrow>
      recover srv abends method path sys usr s =
        snd (case denial of
          Some d \<Rightarrow> sendErrorResponse srv 500 4 8 0 (Some ''LMOPEN error'') [Some d]
            (session_cleanup abends (do_call (Wto (HandlerAbend sys usr method path)) s))
        | None \<Rightarrow> sendErrorResponse srv 500 6 8 99 (Some (abend_message 96 sys usr)) []
            (session_cleanup abends (do_call (Wto (HandlerAbend sys usr method path)) s))))"
proof -
  define t where "t = session_cleanup abends (do_call (Wto (HandlerAbend sys usr method path)) s)"
  have rel: "releases (do_call c s) = releases s" for c by (simp add: releases_def)
  have t: "holds_nothing t" "os_calls t = os_calls s @ releases s" "ss_headers_sent t = ss_headers_sent s"
    by (simp_all add: t_def session_cleanup_releases rel)
  note defs = HTTP_STATUS_INTERNAL_SERVER_ERROR_def CATEGORY_AUTHORIZATION_def RC_ERROR_def
    REASON_NOT_AUTHORIZED_def ERR_MSG_NOT_AUTHORIZED_def ABEND_MSG_SIZE_def
  show ?thesis
  proof (cases "ss_headers_sent s")
    case True
    then show ?thesis
      using t by (simp add: recover_def Let_def t_def [symmetric] holds_nothing_def)
  next
    case False
    then show ?thesis
      using t answers_session [OF answers_report]
      by (auto simp: recover_def Let_def t_def [symmetric] defs split: option.splits)
  qed
qed

theorem abend_recovery_witness:
  "holds_nothing (recover sample_httpd (\<lambda>_. True) ''GET'' ''/zosmf/info'' 0xC4 0
      (sample_rsession\<lparr>rs_files := [8, 24], rs_jes := Some 7\<rparr>)) \<and>
   os_calls (recover sample_httpd (\<lambda>_. True) ''GET'' ''/zosmf/info'' 0xC4 0
      (sample_rsession\<lparr>rs_files := [8, 24], rs_jes := Some 7\<rparr>))
     = [FcloseDiscard 8, FcloseDiscard 24, Jesclose 7]"
proof -
  have "releases (sample_rsession\<lparr>rs_files := [8, 24], rs_jes := Some 7\<rparr>)
      = [FcloseDiscard 8, FcloseDiscard 24, Jesclose 7]"
    "os_calls (sample_rsession\<lparr>rs_files := [8, 24], rs_jes := Some 7\<rparr>) = []"
    by (simp_all add: releases_def os_calls_def sample_rsession_def)
  with abend_recovery [of sample_httpd "\<lambda>_. True" "''GET''" "''/zosmf/info''" "0xC4" 0
      "sample_rsession\<lparr>rs_files := [8, 24], rs_jes := Some 7\<rparr>"]
  show ?thesis by simp
qed



end
