(* ===== verification/Jwn.thy ===== *)
theory Jwn
  imports Prelude
begin

text \<open>
  \<^verbatim>\<open>src/jwn.c\<close>, the spool authorization policy, with the parts of \<^verbatim>\<open>src/jobauth.c\<close> that bind it to a
  request, and \<^verbatim>\<open>src/authdec.c\<close>, the decision behind the console gate.

  RACF is the parameter \<open>auth\<close>: the return code for an entity and the attribute asked for, with
  the caller's ACEE already applied.  It answers alike within one request.  What the cache
  relies on is stated as \<open>rakf_prefix\<close>: RAKF compares an entity by its first 8 characters.
\<close>

section \<open>Types\<close>

datatype jwn_op = JWN_OP_LIST | JWN_OP_READ | JWN_OP_PURGE
datatype jwn_lv = JWN_LV_ERR | JWN_LV_NOPROFILE | JWN_LV_NONE | JWN_LV_READ | JWN_LV_UPDATE
datatype jwn_decision = JWN_HIDE | JWN_ALLOW | JWN_NOPURGE
datatype jwn_reason = JWN_R_ERR_RC | JWN_R_OWN | JWN_R_NOACEE | JWN_R_ERR_COMPONENT
  | JWN_R_NOPROFILE | JWN_R_NONE | JWN_R_READ | JWN_R_UPDATE
datatype jwn_narrow = JWN_NR_BAD | JWN_NR_RESET | JWN_NR_OWN | JWN_NR_ALL | JWN_NR_OTHER

text \<open>The levels are ordered, lowest first, as their values are in the header.\<close>

fun lv_rank :: "jwn_lv \<Rightarrow> nat" where
  "lv_rank JWN_LV_ERR = 0"
| "lv_rank JWN_LV_NOPROFILE = 1"
| "lv_rank JWN_LV_NONE = 2"
| "lv_rank JWN_LV_READ = 3"
| "lv_rank JWN_LV_UPDATE = 4"

lemma lv_rank_inj: "lv_rank a = lv_rank b \<Longrightarrow> a = b"
  by (cases a; cases b) simp_all

instantiation jwn_lv :: linorder
begin

definition less_eq_jwn_lv :: "jwn_lv \<Rightarrow> jwn_lv \<Rightarrow> bool" where
  "less_eq_jwn_lv a b \<longleftrightarrow> lv_rank a \<le> lv_rank b"

definition less_jwn_lv :: "jwn_lv \<Rightarrow> jwn_lv \<Rightarrow> bool" where
  "less_jwn_lv a b \<longleftrightarrow> lv_rank a < lv_rank b"

instance
  by intro_classes (auto simp: less_eq_jwn_lv_def less_jwn_lv_def dest: lv_rank_inj)

end

definition JWN_CHARS :: cstr where "JWN_CHARS = ''ABCDEFGHIJKLMNOPQRSTUVWXYZ0123456789$#@''"
definition JWN_COMPMAX :: nat where "JWN_COMPMAX = 8"
definition JWN_ENTMAX :: nat where "JWN_ENTMAX = 26"
definition JWN_ENTSZ :: nat where "JWN_ENTSZ = JWN_ENTMAX + 1"
definition JWN_KEYLEN :: nat where "JWN_KEYLEN = 8"
definition JWN_PRTSZ :: nat where "JWN_PRTSZ = JWN_COMPMAX + 1"
definition JWN_CACHEMAX :: nat where "JWN_CACHEMAX = 16"

record jwn_entry =
  je_key :: cstr
  je_update :: bool
  je_level :: jwn_lv
  je_rc :: int

type_synonym jwn_cache = "jwn_entry list"
type_synonym jwn_auth_fn = "cstr \<Rightarrow> bool \<Rightarrow> int"

record jwn_ctx =
  jc_acee_present :: bool
  jc_user :: "cstr option"
  jc_auth_fn :: "jwn_auth_fn option"
  jc_cache :: "jwn_cache option"

record jwn_res =
  jr_decision :: jwn_decision
  jr_reason :: jwn_reason
  jr_level :: jwn_lv
  jr_rc :: int
  jr_elen :: nat
  jr_racf_calls :: nat

section \<open>Components and entities\<close>

text \<open>\<^verbatim>\<open>strchr(JWN_CHARS, c)\<close> is only asked for characters of a string, so never for the NUL.\<close>

definition jwn_component_ok :: "cstr \<Rightarrow> bool" where
  "jwn_component_ok s \<longleftrightarrow> s \<noteq> [] \<and> length s \<le> JWN_COMPMAX \<and> (\<forall>c \<in> set s. c \<in> set JWN_CHARS)"

definition jwn_entity :: "nat \<Rightarrow> cstr \<Rightarrow> cstr \<Rightarrow> cstr \<Rightarrow> cstr option" where
  "jwn_entity sz owner jobname jobid =
     (if sz < 1 then None
      else if owner \<noteq> [] \<and> \<not> jwn_component_ok owner then None
      else if \<not> jwn_component_ok jobname \<or> \<not> jwn_component_ok jobid then None
      else if length owner + 1 + length jobname + 1 + length jobid + 1 > sz then None
      else Some (owner @ ''.'' @ jobname @ ''.'' @ jobid))"

definition jwn_probe :: "nat \<Rightarrow> cstr option \<Rightarrow> cstr option" where
  "jwn_probe sz userid =
     (let u = (case userid of None \<Rightarrow> [] | Some u \<Rightarrow> u) in
      if sz < 1 then None
      else if u \<noteq> [] \<and> \<not> jwn_component_ok u then None
      else if length u + 2 + 1 > sz then None
      else Some (u @ ''..''))"

section \<open>Ownership\<close>

definition has_filler :: "cstr \<Rightarrow> bool" where
  "has_filler s \<longleftrightarrow> (\<exists>c \<in> set s. c \<le> blank)"

definition jwn_mine :: "cstr option \<Rightarrow> cstr option \<Rightarrow> bool" where
  "jwn_mine owner user =
     (case (owner, user) of
        (Some ow, Some u) \<Rightarrow> ow \<noteq> [] \<and> u \<noteq> [] \<and> \<not> has_filler ow \<and> \<not> has_filler u \<and> ow = u
      | _ \<Rightarrow> False)"

section \<open>Level and decision\<close>

text \<open>The level, and the fields \<^verbatim>\<open>rc\<close> and \<^verbatim>\<open>racf_calls\<close> of the result.\<close>

definition jwn_level :: "jwn_ctx \<Rightarrow> cstr option \<Rightarrow> bool \<Rightarrow> jwn_lv \<times> int \<times> nat" where
  "jwn_level ctx entity want_update =
     (case (jc_auth_fn ctx, entity) of
        (Some auth_fn, Some e) \<Rightarrow>
          let rc = auth_fn e False in
          if rc = 4 then (JWN_LV_NOPROFILE, rc, 1)
          else if rc = 8 then (JWN_LV_NONE, rc, 1)
          else if rc \<noteq> 0 then (JWN_LV_ERR, rc, 1)
          else if \<not> want_update then (JWN_LV_READ, rc, 1)
          else
            let rc = auth_fn e True in
            if rc = 0 then (JWN_LV_UPDATE, rc, 2)
            else if rc = 8 then (JWN_LV_READ, rc, 2)
            else (JWN_LV_ERR, rc, 2)
      | _ \<Rightarrow> (JWN_LV_ERR, -1, 0))"

fun cache_find :: "jwn_cache \<Rightarrow> cstr \<Rightarrow> bool \<Rightarrow> jwn_entry option" where
  "cache_find [] key update = None"
| "cache_find (e # es) key update =
     (if je_update e = update \<and> je_key e = key then Some e else cache_find es key update)"

text \<open>An answer is stored unless it is unusable or the cache is full; nothing is evicted.\<close>

definition cache_add :: "jwn_cache \<Rightarrow> cstr \<times> bool \<Rightarrow> jwn_lv \<times> int \<Rightarrow> jwn_cache" where
  "cache_add c k v =
     (if fst v \<noteq> JWN_LV_ERR \<and> length c < JWN_CACHEMAX
      then c @ [\<lparr>je_key = fst k, je_update = snd k, je_level = fst v, je_rc = snd v\<rparr>]
      else c)"

definition level_cached :: "jwn_ctx \<Rightarrow> cstr \<Rightarrow> bool \<Rightarrow> (jwn_lv \<times> int \<times> nat) \<times> jwn_cache option" where
  "level_cached ctx entity want_update =
     (case jc_cache ctx of
        None \<Rightarrow> (jwn_level ctx (Some entity) want_update, None)
      | Some c \<Rightarrow>
          let key = take JWN_KEYLEN entity in
          (case cache_find c key want_update of
             Some e \<Rightarrow> ((je_level e, je_rc e, 0), Some c)
           | None \<Rightarrow>
               let (level, rc, calls) = jwn_level ctx (Some entity) want_update
               in ((level, rc, calls), Some (cache_add c (key, want_update) (level, rc)))))"

definition jwn_decide :: "jwn_op \<Rightarrow> jwn_lv \<Rightarrow> jwn_decision" where
  "jwn_decide op level =
     (case level of
        JWN_LV_READ \<Rightarrow> if op = JWN_OP_PURGE then JWN_NOPURGE else JWN_ALLOW
      | JWN_LV_UPDATE \<Rightarrow> JWN_ALLOW
      | _ \<Rightarrow> JWN_HIDE)"

definition reason_of :: "jwn_lv \<Rightarrow> jwn_reason" where
  "reason_of level =
     (case level of
        JWN_LV_NOPROFILE \<Rightarrow> JWN_R_NOPROFILE
      | JWN_LV_NONE \<Rightarrow> JWN_R_NONE
      | JWN_LV_READ \<Rightarrow> JWN_R_READ
      | JWN_LV_UPDATE \<Rightarrow> JWN_R_UPDATE
      | JWN_LV_ERR \<Rightarrow> JWN_R_ERR_RC)"

definition closed_res :: jwn_res where
  "closed_res = \<lparr>jr_decision = JWN_HIDE, jr_reason = JWN_R_ERR_RC, jr_level = JWN_LV_ERR,
     jr_rc = -1, jr_elen = 0, jr_racf_calls = 0\<rparr>"

text \<open>The result and the context behind the call, whose cache may have grown.\<close>

definition jwn_check ::
  "jwn_ctx option \<Rightarrow> jwn_op \<Rightarrow> cstr option \<Rightarrow> cstr option \<Rightarrow> cstr option \<Rightarrow> jwn_res \<times> jwn_ctx option" where
  "jwn_check ctx op owner jobname jobid =
     (case ctx of
        None \<Rightarrow> (closed_res, None)
      | Some cx \<Rightarrow>
          if \<not> jc_acee_present cx \<or> jc_user cx = None \<or> jc_user cx = Some []
          then (closed_res\<lparr>jr_reason := JWN_R_NOACEE\<rparr>, Some cx)
          else if jwn_mine owner (jc_user cx)
          then (closed_res\<lparr>jr_decision := JWN_ALLOW, jr_reason := JWN_R_OWN\<rparr>, Some cx)
          else case jwn_entity JWN_ENTSZ (case owner of None \<Rightarrow> [] | Some x \<Rightarrow> x)
                 (case jobname of None \<Rightarrow> [] | Some x \<Rightarrow> x) (case jobid of None \<Rightarrow> [] | Some x \<Rightarrow> x) of
            None \<Rightarrow> (closed_res\<lparr>jr_reason := JWN_R_ERR_COMPONENT\<rparr>, Some cx)
          | Some entity \<Rightarrow>
              let ((level, rc, calls), c) = level_cached cx entity (op = JWN_OP_PURGE)
              in (\<lparr>jr_decision = jwn_decide op level, jr_reason = reason_of level, jr_level = level,
                   jr_rc = rc, jr_elen = length entity, jr_racf_calls = calls\<rparr>,
                  Some (cx\<lparr>jc_cache := c\<rparr>)))"

section \<open>The owner filter and output\<close>

definition jwn_match :: "cstr option \<Rightarrow> cstr option \<Rightarrow> bool" where
  "jwn_match pattern owner =
     (case pattern of
        None \<Rightarrow> False
      | Some p \<Rightarrow>
          if p = [] then False
          else if p = ''*'' then True
          else case owner of
            None \<Rightarrow> False
          | Some ow \<Rightarrow> if ow = [] \<or> \<not> jwn_component_ok p then False else ow = p)"

definition jwn_narrows :: "cstr option \<Rightarrow> cstr option \<Rightarrow> nat \<Rightarrow> jwn_narrow \<times> cstr" where
  "jwn_narrows user v sz =
     (case v of
        None \<Rightarrow> (JWN_NR_BAD, [])
      | Some t \<Rightarrow>
          if sz < JWN_PRTSZ \<or> length t > JWN_COMPMAX then (JWN_NR_BAD, [])
          else
            let up = map toupper t in
            if up = [] then (JWN_NR_RESET, up)
            else if jwn_mine (Some up) user then (JWN_NR_OWN, up)
            else if up = ''*'' then (JWN_NR_ALL, up)
            else if jwn_component_ok up then (JWN_NR_OTHER, up)
            else (JWN_NR_BAD, []))"

definition jwn_printable :: "nat \<Rightarrow> cstr option \<Rightarrow> cstr" where
  "jwn_printable sz v =
     (case v of
        None \<Rightarrow> []
      | Some t \<Rightarrow> map (\<lambda>c. if c \<in> set JWN_CHARS then c else CHR ''?'') (take (min JWN_COMPMAX (sz - 1)) t))"

section \<open>Binding to a request\<close>

record jobauth =
  ja_user :: cstr
  ja_ctx :: jwn_ctx

text \<open>\<open>acee\<close> and \<open>userid\<close> are what httpd resolved; \<open>racf\<close> is \<^verbatim>\<open>racf_auth\<close>.\<close>

definition jobauth_racf :: "('a \<Rightarrow> cstr \<Rightarrow> cstr \<Rightarrow> bool \<Rightarrow> int) \<Rightarrow> 'a \<Rightarrow> jwn_auth_fn" where
  "jobauth_racf racf acee entity want_update = racf acee ''JESSPOOL'' entity want_update"

definition jobauth_init :: "('a option \<Rightarrow> cstr \<Rightarrow> cstr \<Rightarrow> bool \<Rightarrow> int) \<Rightarrow> 'a option \<Rightarrow> cstr option \<Rightarrow> jobauth" where
  "jobauth_init racf acee userid =
     (let user = (case userid of None \<Rightarrow> [] | Some u \<Rightarrow> map toupper (take JWN_COMPMAX u)) in
      \<lparr>ja_user = user,
       ja_ctx = \<lparr>jc_acee_present = (acee \<noteq> None), jc_user = Some user,
                 jc_auth_fn = Some (jobauth_racf racf acee), jc_cache = Some []\<rparr>\<rparr>)"

definition jobauth_job :: "jobauth \<Rightarrow> jwn_op \<Rightarrow> (cstr \<times> cstr \<times> cstr) option \<Rightarrow> jwn_decision \<times> jobauth" where
  "jobauth_job ja op job =
     (case job of
        None \<Rightarrow> (JWN_HIDE, ja)
      | Some (owner, jobname, jobid) \<Rightarrow>
          let (res, ctx) = jwn_check (Some (ja_ctx ja)) op (Some owner) (Some jobname) (Some jobid)
          in (jr_decision res, case ctx of None \<Rightarrow> ja | Some cx \<Rightarrow> ja\<lparr>ja_ctx := cx\<rparr>))"

definition jobauth_probe :: "jobauth \<Rightarrow> cstr option \<Rightarrow> bool" where
  "jobauth_probe ja userid =
     (if \<not> jc_acee_present (ja_ctx ja) then False
      else case jwn_probe JWN_ENTSZ userid of
        None \<Rightarrow> False
      | Some probe \<Rightarrow> fst (jwn_level (ja_ctx ja) (Some probe) False) \<ge> JWN_LV_READ)"

section \<open>The console gate\<close>

datatype authdec = AUTHDEC_ALLOW | AUTHDEC_DENY | AUTHDEC_NOACEE

definition authdec_decide :: "bool \<Rightarrow> int \<Rightarrow> authdec" where
  "authdec_decide acee_present rc =
     (if \<not> acee_present then AUTHDEC_NOACEE else if rc = 0 then AUTHDEC_ALLOW else AUTHDEC_DENY)"

definition authdec_gate :: "bool \<Rightarrow> (unit \<Rightarrow> int) option \<Rightarrow> authdec" where
  "authdec_gate acee_present fn =
     (if \<not> acee_present then AUTHDEC_NOACEE
      else case fn of None \<Rightarrow> AUTHDEC_DENY | Some f \<Rightarrow> authdec_decide True (f ()))"

section \<open>The cache of one request\<close>

text \<open>
  What the policy needs of its cache: looking up a key gives nothing that was not stored under it.
  Storing may fail silently, which costs a question to RACF and never an answer.
\<close>

locale memo =
  fixes find :: "'c \<Rightarrow> 'k \<Rightarrow> 'v option"
    and add :: "'c \<Rightarrow> 'k \<Rightarrow> 'v \<Rightarrow> 'c"
    and empty :: 'c
  assumes find_empty: "find empty k = None"
    and find_add: "find (add c k v) k' = Some w \<Longrightarrow> find c k' = Some w \<or> k' = k \<and> w = v"
begin

definition sound :: "('k \<Rightarrow> 'v) \<Rightarrow> 'c \<Rightarrow> bool" where
  "sound f c \<longleftrightarrow> (\<forall>k v. find c k = Some v \<longrightarrow> v = f k)"

lemma sound_empty: "sound f empty"
  by (simp add: sound_def find_empty)

lemma sound_hit: "sound f c \<Longrightarrow> find c k = Some v \<Longrightarrow> v = f k"
  by (simp add: sound_def)

lemma sound_add: "sound f c \<Longrightarrow> v = f k \<Longrightarrow> sound f (add c k v)"
  unfolding sound_def using find_add by metis

end

definition cache_get :: "jwn_cache \<Rightarrow> cstr \<times> bool \<Rightarrow> (jwn_lv \<times> int) option" where
  "cache_get c k = map_option (\<lambda>e. (je_level e, je_rc e)) (cache_find c (fst k) (snd k))"

lemma cache_find_append:
  "cache_find (c @ d) k u = (case cache_find c k u of None \<Rightarrow> cache_find d k u | Some e \<Rightarrow> Some e)"
  by (induction c) auto

lemma cache_get_add:
  "cache_get (cache_add c k v) k' =
     (case cache_get c k' of
        Some w \<Rightarrow> Some w
      | None \<Rightarrow> if fst v \<noteq> JWN_LV_ERR \<and> length c < JWN_CACHEMAX \<and> k' = k then Some v else None)"
  by (cases "cache_find c (fst k') (snd k')"; cases k; cases k'; cases v)
    (auto simp: cache_get_def cache_add_def cache_find_append)

interpretation request_cache: memo cache_get cache_add "[]"
  by unfold_locales (auto simp: cache_get_def[of "[]"] cache_get_add split: option.splits if_splits)

lemma cache_add_bounded: "length c \<le> JWN_CACHEMAX \<Longrightarrow> length (cache_add c k v) \<le> JWN_CACHEMAX"
  by (simp add: cache_add_def)

section \<open>The policy a request sees\<close>

text \<open>The policy of the header, as it is without a cache.\<close>

definition spool_policy :: "jwn_auth_fn \<Rightarrow> cstr \<Rightarrow> jwn_op \<Rightarrow> cstr \<times> cstr \<times> cstr \<Rightarrow> jwn_decision" where
  "spool_policy auth user op job =
     (case job of (owner, jobname, jobid) \<Rightarrow>
        if user = [] then JWN_HIDE
        else if owner = user \<and> \<not> has_filler user then JWN_ALLOW
        else if (owner \<noteq> [] \<and> \<not> jwn_component_ok owner) \<or> \<not> jwn_component_ok jobname
                \<or> \<not> jwn_component_ok jobid then JWN_HIDE
        else
          let e = owner @ ''.'' @ jobname @ ''.'' @ jobid in
          if auth e False \<noteq> 0 then JWN_HIDE
          else if op \<noteq> JWN_OP_PURGE then JWN_ALLOW
          else if auth e True = 0 then JWN_ALLOW
          else if auth e True = 8 then JWN_NOPURGE
          else JWN_HIDE)"

text \<open>The questions of one request, in order.\<close>

fun jobauth_jobs :: "jobauth \<Rightarrow> (jwn_op \<times> cstr \<times> cstr \<times> cstr) list \<Rightarrow> jwn_decision list \<times> jobauth" where
  "jobauth_jobs ja [] = ([], ja)"
| "jobauth_jobs ja ((op, job) # qs) =
     (let (d, ja') = jobauth_job ja op (Some job); (ds, ja'') = jobauth_jobs ja' qs in (d # ds, ja''))"

lemma component_ok_length: "jwn_component_ok s \<Longrightarrow> length s \<le> 8"
  by (simp add: jwn_component_ok_def JWN_COMPMAX_def)

lemma jwn_entity_Some:
  "jwn_entity JWN_ENTSZ ow j i =
     (if (ow \<noteq> [] \<and> \<not> jwn_component_ok ow) \<or> \<not> jwn_component_ok j \<or> \<not> jwn_component_ok i then None
      else Some (ow @ ''.'' @ j @ ''.'' @ i))"
  using component_ok_length[of ow] component_ok_length[of j] component_ok_length[of i]
  by (cases "ow = []") (auto simp: jwn_entity_def JWN_ENTSZ_def JWN_ENTMAX_def)

definition level_of :: "jwn_auth_fn \<Rightarrow> cstr \<times> bool \<Rightarrow> jwn_lv \<times> int" where
  "level_of auth k =
     (case jwn_level \<lparr>jc_acee_present = True, jc_user = None, jc_auth_fn = Some auth, jc_cache = None\<rparr>
             (Some (fst k)) (snd k) of (level, rc, calls) \<Rightarrow> (level, rc))"

lemma level_of_level:
  assumes "jc_auth_fn cx = Some auth" and "jwn_level cx (Some e) u = (level, rc, calls)"
  shows "(level, rc) = level_of auth (e, u)"
  using assms by (auto simp: level_of_def jwn_level_def Let_def split: if_splits)

lemma level_of_prefix:
  assumes "\<forall>e u. auth e u = auth (take 8 e) u"
  shows "level_of auth (take 8 e, u) = level_of auth (e, u)"
  using assms by (auto simp: level_of_def jwn_level_def Let_def)

abbreviation cache_sound :: "jwn_auth_fn \<Rightarrow> jwn_cache \<Rightarrow> bool" where
  "cache_sound auth c \<equiv> request_cache.sound (level_of auth) c"

lemma level_cached_sound:
  assumes rakf: "\<forall>e u. auth e u = auth (take 8 e) u"
    and fn: "jc_auth_fn cx = Some auth" and c: "jc_cache cx = Some c"
    and inv: "cache_sound auth c" "length c \<le> JWN_CACHEMAX"
  shows "\<exists>level rc calls c'. level_cached cx e u = ((level, rc, calls), Some c')
    \<and> (level, rc) = level_of auth (e, u) \<and> cache_sound auth c' \<and> length c' \<le> JWN_CACHEMAX"
proof (cases "cache_find c (take 8 e) u")
  case None
  obtain level rc calls where l: "jwn_level cx (Some e) u = (level, rc, calls)"
    by (metis prod_cases3)
  note lv = level_of_level[OF fn l]
  have "cache_sound auth (cache_add c (take 8 e, u) (level, rc))"
    using inv(1) by (rule request_cache.sound_add) (simp add: lv level_of_prefix[OF rakf])
  with lv l None c inv(2) show ?thesis
    by (simp add: level_cached_def Let_def JWN_KEYLEN_def cache_add_bounded)
next
  case (Some en)
  then have "cache_get c (take 8 e, u) = Some (je_level en, je_rc en)"
    by (simp add: cache_get_def)
  from request_cache.sound_hit[OF inv(1) this] show ?thesis
    using Some c inv by (simp add: level_cached_def Let_def JWN_KEYLEN_def level_of_prefix[OF rakf])
qed


text \<open>Where one question leads: the decision of the policy, and a cache still sound.\<close>

definition ja_inv :: "jwn_auth_fn \<Rightarrow> cstr \<Rightarrow> jobauth \<Rightarrow> bool" where
  "ja_inv auth user ja \<longleftrightarrow>
     jc_acee_present (ja_ctx ja) \<and> jc_user (ja_ctx ja) = Some user \<and> jc_auth_fn (ja_ctx ja) = Some auth
     \<and> (\<exists>c. jc_cache (ja_ctx ja) = Some c \<and> cache_sound auth c \<and> length c \<le> JWN_CACHEMAX)"

lemma jwn_mine_user: "user \<noteq> [] \<Longrightarrow> jwn_mine (Some ow) (Some user) \<longleftrightarrow> ow = user \<and> \<not> has_filler user"
  by (auto simp: jwn_mine_def)

lemma level_of_decide:
  "level_of auth (e, op = JWN_OP_PURGE) = (level, rc) \<Longrightarrow>
   jwn_decide op level =
     (if auth e False \<noteq> 0 then JWN_HIDE else if op \<noteq> JWN_OP_PURGE then JWN_ALLOW
      else if auth e True = 0 then JWN_ALLOW else if auth e True = 8 then JWN_NOPURGE else JWN_HIDE)"
  by (cases op) (auto simp: level_of_def jwn_level_def jwn_decide_def Let_def split: if_splits)

lemma jobauth_job_policy:
  assumes inv: "ja_inv auth user ja" and rakf: "\<forall>e u. auth e u = auth (take 8 e) u"
  shows "\<exists>ja'. jobauth_job ja op (Some job) = (spool_policy auth user op job, ja') \<and> ja_inv auth user ja'"
proof -
  obtain ow j i where job: "job = (ow, j, i)" by (cases job)
  let ?e = "ow @ ''.'' @ j @ ''.'' @ i" and ?cx = "ja_ctx ja"
  from inv obtain c where cx: "jc_acee_present ?cx" "jc_user ?cx = Some user" "jc_auth_fn ?cx = Some auth"
      "jc_cache ?cx = Some c" "cache_sound auth c" "length c \<le> JWN_CACHEMAX"
    by (auto simp: ja_inv_def)
  from level_cached_sound[OF rakf cx(3-6)] obtain level rc calls c' where
    l: "level_cached ?cx ?e (op = JWN_OP_PURGE) = ((level, rc, calls), Some c')"
       "level_of auth (?e, op = JWN_OP_PURGE) = (level, rc)" "cache_sound auth c'" "length c' \<le> JWN_CACHEMAX"
    by metis
  note d = level_of_decide[OF l(2)]
  have ja: "ja\<lparr>ja_ctx := ?cx\<rparr> = ja" by simp
  show ?thesis
  proof (cases "user = [] \<or> (ow = user \<and> \<not> has_filler user)
      \<or> (ow \<noteq> [] \<and> \<not> jwn_component_ok ow) \<or> \<not> jwn_component_ok j \<or> \<not> jwn_component_ok i")
    case True
    then show ?thesis using cx inv
      by (auto simp: jobauth_job_def jwn_check_def spool_policy_def job jwn_mine_user jwn_entity_Some
          closed_res_def)
  next
    case False
    with cx l d show ?thesis
      by (cases "ow = user"; cases "ow = []") (simp_all add: jobauth_job_def jwn_check_def spool_policy_def job jwn_mine_user jwn_entity_Some
          ja_inv_def Let_def)
  qed
qed

lemma jobauth_jobs_policy:
  assumes "ja_inv auth user ja" and "\<forall>e u. auth e u = auth (take 8 e) u"
  shows "fst (jobauth_jobs ja qs) = map (\<lambda>(op, job). spool_policy auth user op job) qs
    \<and> ja_inv auth user (snd (jobauth_jobs ja qs))"
  using assms(1)
proof (induction qs arbitrary: ja)
  case (Cons q qs)
  obtain op job where q: "q = (op, job)" by (cases q)
  from jobauth_job_policy[OF Cons.prems assms(2)] obtain ja' where
    s: "jobauth_job ja op (Some job) = (spool_policy auth user op job, ja')" "ja_inv auth user ja'"
    by blast
  from Cons.IH[OF s(2)] show ?case by (simp add: q s(1) split_beta)
qed simp

lemma jobauth_jobs_no_acee:
  "\<not> jc_acee_present (ja_ctx ja) \<Longrightarrow> jobauth_jobs ja qs = (map (\<lambda>_. JWN_HIDE) qs, ja)"
  by (induction qs) (auto simp: jobauth_job_def jwn_check_def closed_res_def)

text \<open>
  C14: In one request, each question about a job is answered as the policy of the header says for
  that job alone, whatever was asked before and whatever the cache then held: hidden without an
  ACEE or a userid, allowed for the user's own jobs, otherwise what RACF answers for the entity,
  with UPDATE asked for a purge only.  The cache may remember by the first 8 characters because RAKF
  compares no more of an entity (the hypothesis), and never holds more than 16 answers.
\<close>
theorem request_follows_policy:
  assumes "\<forall>a e u. racf a ''JESSPOOL'' e u = racf a ''JESSPOOL'' (take 8 e) u"
  shows "fst (jobauth_jobs (jobauth_init racf acee userid) qs) =
           (case (acee, userid) of
              (Some a, Some u) \<Rightarrow>
                map (\<lambda>(op, job). spool_policy (racf acee ''JESSPOOL'') (map toupper (take 8 u)) op job) qs
            | _ \<Rightarrow> map (\<lambda>_. JWN_HIDE) qs)
    \<and> (\<exists>c. jc_cache (ja_ctx (snd (jobauth_jobs (jobauth_init racf acee userid) qs))) = Some c
           \<and> length c \<le> JWN_CACHEMAX)"
proof (cases acee)
  case None
  then show ?thesis by (simp add: jobauth_jobs_no_acee jobauth_init_def Let_def)
next
  case (Some a)
  let ?auth = "racf acee ''JESSPOOL''" and ?u = "case userid of None \<Rightarrow> [] | Some u \<Rightarrow> map toupper (take 8 u)"
  let ?r = "jobauth_jobs (jobauth_init racf acee userid) qs"
  have fn: "jobauth_racf racf acee = ?auth" by (intro ext) (simp add: jobauth_racf_def)
  have "ja_inv ?auth ?u (jobauth_init racf acee userid)"
    by (simp add: ja_inv_def jobauth_init_def Let_def Some fn[unfolded Some] request_cache.sound_empty JWN_COMPMAX_def
        split: option.splits)
  then have f: "fst ?r = map (\<lambda>(op, job). spool_policy ?auth ?u op job) qs" and inv: "ja_inv ?auth ?u (snd ?r)"
    using jobauth_jobs_policy assms by blast+
  then have c: "\<exists>c. jc_cache (ja_ctx (snd ?r)) = Some c \<and> length c \<le> JWN_CACHEMAX"
    by (auto simp: ja_inv_def)
  show ?thesis
  proof (cases userid)
    case None
    with f c show ?thesis by (simp add: Some spool_policy_def split_def)
  next
    case (Some u)
    with f c \<open>acee = Some a\<close> show ?thesis by simp
  qed
qed

definition sample_racf :: "unit option \<Rightarrow> cstr \<Rightarrow> cstr \<Rightarrow> bool \<Rightarrow> int" where
  "sample_racf a class e u = (if take 8 e = ''IBMUSER.'' then (if u then 8 else 0) else 4)"

lemma request_follows_policy_witness:
  "fst (jobauth_jobs (jobauth_init sample_racf (Some ()) (Some ''MIKE1''))
     [(JWN_OP_LIST, ''MIKE1'', ''A'', ''JOB00001''), (JWN_OP_LIST, ''MIKE10'', ''A'', ''JOB00002''),
      (JWN_OP_READ, ''IBMUSER'', ''B'', ''JOB00003''), (JWN_OP_PURGE, ''IBMUSER'', ''B'', ''JOB00003''),
      (JWN_OP_READ, ''IBMUSER'', ''C C'', ''JOB00004'')])
   = [JWN_ALLOW, JWN_HIDE, JWN_ALLOW, JWN_NOPURGE, JWN_HIDE]"
  by (subst request_follows_policy[THEN conjunct1])
    (simp_all add: sample_racf_def spool_policy_def jwn_component_ok_def JWN_COMPMAX_def JWN_CHARS_def
      has_filler_def toupper_def)

lemma component_ok_no_dot: "jwn_component_ok s \<Longrightarrow> CHR ''.'' \<notin> set s"
proof -
  have "CHR ''.'' \<notin> set JWN_CHARS" by (simp add: JWN_CHARS_def)
  then show "jwn_component_ok s \<Longrightarrow> ?thesis" by (metis jwn_component_ok_def)
qed

lemma split_at_dot:
  "c \<notin> set xs \<Longrightarrow> c \<notin> set xs' \<Longrightarrow> xs @ c # ys = xs' @ c # ys' \<longleftrightarrow> xs = xs' \<and> ys = ys'"
proof (induction xs arbitrary: xs')
  case Nil
  then show ?case by (cases xs') auto
next
  case (Cons x xs)
  then show ?case by (cases xs') auto
qed

lemma entity_parts:
  assumes "ow = [] \<or> jwn_component_ok ow" "ow' = [] \<or> jwn_component_ok ow'"
    and "jwn_component_ok j" "jwn_component_ok j'"
  shows "ow @ CHR ''.'' # j @ CHR ''.'' # i = ow' @ CHR ''.'' # j' @ CHR ''.'' # i' \<longleftrightarrow>
    ow = ow' \<and> j = j' \<and> i = i'"
proof -
  have "CHR ''.'' \<notin> set ow" "CHR ''.'' \<notin> set ow'" "CHR ''.'' \<notin> set j" "CHR ''.'' \<notin> set j'"
    using assms component_ok_no_dot by auto
  then show ?thesis by (simp add: split_at_dot)
qed

text \<open>
  An entity is built exactly from an owner that is empty or valid and a valid job name and job
  id, it never has more than 26 characters, and two different jobs never share one.
\<close>
theorem entity_names_one_job:
  "jwn_entity JWN_ENTSZ ow j i = Some e \<Longrightarrow>
     length e \<le> JWN_ENTMAX \<and> (jwn_entity JWN_ENTSZ ow' j' i' = Some e \<longrightarrow> (ow', j', i') = (ow, j, i))"
proof -
  assume e: "jwn_entity JWN_ENTSZ ow j i = Some e"
  have len: "length e \<le> JWN_ENTMAX"
    using e component_ok_length[of ow] component_ok_length[of j] component_ok_length[of i]
    by (cases "ow = []") (auto simp: jwn_entity_Some JWN_ENTMAX_def split: if_splits)
  moreover have "(ow', j', i') = (ow, j, i)" if "jwn_entity JWN_ENTSZ ow' j' i' = Some e"
    using e that entity_parts[of ow' ow j' j] by (auto simp: jwn_entity_Some split: if_splits)
  ultimately show ?thesis by blast
qed

lemma entity_names_one_job_witness:
  "length ''MIKE1.PAYROLL.JOB00007'' \<le> JWN_ENTMAX"
  using entity_names_one_job[of "''MIKE1''" "''PAYROLL''" "''JOB00007''" "''MIKE1.PAYROLL.JOB00007''" "''MIKE1''" "''PAYROLL''" "''JOB00007''"]
  by (simp add: jwn_entity_Some jwn_component_ok_def JWN_COMPMAX_def JWN_CHARS_def)

end
