(* ===== verification/JobReq.thy ===== *)
theory JobReq
  imports Prelude
begin

text \<open>
  \<^verbatim>\<open>src/jobreq.c\<close>: which request the body of a PUT on a job makes.  A pointer into the body is
  the rest of the body from there; NULL is \<open>None\<close>.  The lemmas show that parsing a complete JSON
  object finds its last \<^verbatim>\<open>request\<close> member, and that cutting a body short makes it no request.
\<close>

section \<open>The scanner\<close>

text \<open>\<^verbatim>\<open>*p && *p <= ' '\<close>; a NUL ends the string and is no character of it.\<close>

definition is_ws :: "char \<Rightarrow> bool" where "is_ws c \<longleftrightarrow> c \<le> blank"

definition skip_ws :: "cstr \<Rightarrow> cstr" where "skip_ws p = dropWhile is_ws p"

text \<open>From behind the opening quote: the raw contents and the position after the closing quote.\<close>

fun scan_string :: "cstr \<Rightarrow> (cstr \<times> cstr) option" where
  "scan_string [] = None"
| "scan_string (c # p) =
     (if c = dquote then Some ([], p)
      else if c = bslash then
        (case p of
           [] \<Rightarrow> None
         | d # q \<Rightarrow> map_option (\<lambda>(s, r). (c # d # s, r)) (scan_string q))
      else map_option (\<lambda>(s, r). (c # s, r)) (scan_string p))"

lemma scan_string_split: "scan_string p = Some (s, r) \<Longrightarrow> p = s @ dquote # r"
  by (induction p arbitrary: s r rule: scan_string.induct) (auto split: if_splits list.splits)

lemma scan_string_shorter: "scan_string p = Some (s, r) \<Longrightarrow> length r < length p"
  by (drule scan_string_split) simp

definition opens :: "char \<Rightarrow> bool" where "opens c \<longleftrightarrow> c = CHR ''{'' \<or> c = CHR ''[''"
definition closes :: "char \<Rightarrow> bool" where "closes c \<longleftrightarrow> c = CHR ''}'' \<or> c = CHR '']''"

function skip_value :: "nat \<Rightarrow> cstr \<Rightarrow> cstr option" where
  "skip_value depth [] = None"
| "skip_value depth (c # q) =
     (if c = dquote then
        (case scan_string q of None \<Rightarrow> None | Some (s, r) \<Rightarrow> skip_value depth r)
      else if opens c then skip_value (depth + 1) q
      else if closes c then
        (if depth = 0 then (if c = CHR ''}'' then Some (c # q) else None) else skip_value (depth - 1) q)
      else if c = CHR '','' \<and> depth = 0 then Some (c # q)
      else skip_value depth q)"
  by pat_completeness auto
termination
  by (relation "measure (\<lambda>(d, p). length p)") (auto dest: scan_string_shorter)

section \<open>The parser\<close>

datatype jobreq = JOBREQ_NONE | JOBREQ_UNKNOWN | JOBREQ_CANCEL | JOBREQ_HOLD | JOBREQ_RELEASE

definition request_value :: "cstr \<Rightarrow> jobreq" where
  "request_value v =
     (if v = ''cancel'' then JOBREQ_CANCEL
      else if v = ''hold'' then JOBREQ_HOLD
      else if v = ''release'' then JOBREQ_RELEASE
      else JOBREQ_UNKNOWN)"

text \<open>A value: what it asks for and the position behind it.\<close>

definition member_value :: "cstr \<Rightarrow> (jobreq \<times> cstr) option" where
  "member_value p =
     (if c_at p 0 = dquote
      then map_option (\<lambda>(v, r). (request_value v, r)) (scan_string (tl p))
      else map_option (\<lambda>r. (JOBREQ_UNKNOWN, r)) (skip_value 0 p))"

text \<open>
  One turn of the loop: whether the member is the request, what it asks for, and the position of
  the next turn, which is a closing brace or the quote of the next key.
\<close>

definition member_step :: "cstr \<Rightarrow> (bool \<times> jobreq \<times> cstr) option" where
  "member_step p =
     (if c_at p 0 \<noteq> dquote then None
      else case scan_string (tl p) of
        None \<Rightarrow> None
      | Some (key, p) \<Rightarrow>
          let p = skip_ws p in
          if c_at p 0 \<noteq> CHR '':'' then None
          else case member_value (skip_ws (tl p)) of
            None \<Rightarrow> None
          | Some (this, p) \<Rightarrow>
              let p = skip_ws p in
              if c_at p 0 = CHR '','' then
                (let p = skip_ws (tl p) in
                 if c_at p 0 \<noteq> dquote then None else Some (key = ''request'', this, p))
              else if c_at p 0 \<noteq> CHR ''}'' then None
              else Some (key = ''request'', this, p))"

lemma skip_ws_shorter: "length (skip_ws p) \<le> length p"
  by (simp add: skip_ws_def dropWhile_length_le)

lemma skip_value_shorter: "skip_value d p = Some r \<Longrightarrow> length r \<le> length p"
  by (induction d p rule: skip_value.induct)
    (fastforce split: if_splits option.splits dest: scan_string_shorter)+

declare c_at_simps [simp]

lemma member_value_shorter: "member_value p = Some (v, r) \<Longrightarrow> length r \<le> length p"
  by (cases p) (auto simp: member_value_def c_at_def split: if_splits
      dest: skip_value_shorter scan_string_shorter)

lemma member_step_shorter: "member_step p = Some (k, v, r) \<Longrightarrow> length r < length p"
proof -
  assume m: "member_step p = Some (k, v, r)"
  then obtain q where p: "p = dquote # q" by (cases p) (auto simp: member_step_def split: if_splits)
  with m obtain key p1 where s: "scan_string q = Some (key, p1)"
    by (auto simp: member_step_def c_at_def split: option.splits)
  with m p obtain p2 where v: "member_value (skip_ws (tl (skip_ws p1))) = Some (v, p2)"
    and r: "r = skip_ws p2 \<or> r = skip_ws (tl (skip_ws p2))"
    by (auto simp: member_step_def Let_def c_at_def split: if_splits option.splits)
  have "length (skip_ws (tl (skip_ws p1))) \<le> length p1"
    by (metis (no_types) diff_le_self length_tl le_trans skip_ws_shorter)
  moreover have "length r \<le> length p2"
    using r by (metis (no_types) diff_le_self length_tl le_trans skip_ws_shorter)
  ultimately show ?thesis
    using member_value_shorter[OF v] scan_string_shorter[OF s] p by simp
qed

function members :: "jobreq \<Rightarrow> cstr \<Rightarrow> (jobreq \<times> cstr) option" where
  "members found p =
     (if c_at p 0 = CHR ''}'' then Some (found, tl p)
      else case member_step p of
        None \<Rightarrow> None
      | Some (is_request, this, p') \<Rightarrow> members (if is_request then this else found) p')"
  by pat_completeness auto
termination
  by (relation "measure (\<lambda>(f, p). length p)") (auto dest: member_step_shorter)

declare members.simps [simp del]

definition jobreq_object :: "cstr \<Rightarrow> (jobreq \<times> cstr) option" where
  "jobreq_object body =
     (let p = skip_ws body in
      if c_at p 0 \<noteq> CHR ''{'' then None else members JOBREQ_NONE (skip_ws (tl p)))"

definition jobreq_parse :: "cstr option \<Rightarrow> jobreq" where
  "jobreq_parse body =
     (case body of
        None \<Rightarrow> JOBREQ_NONE
      | Some b \<Rightarrow>
          (case jobreq_object b of
             None \<Rightarrow> JOBREQ_NONE
           | Some (found, p) \<Rightarrow> if skip_ws p \<noteq> [] then JOBREQ_NONE else found))"

section \<open>What is behind the end of an object does not matter to reading it\<close>

named_theorems append_local

lemma skip_ws_append [append_local]: "skip_ws p \<noteq> [] \<Longrightarrow> skip_ws (p @ x) = skip_ws p @ x"
  by (auto simp: skip_ws_def dropWhile_append)

lemma scan_string_append [append_local]:
  "scan_string p = Some (s, r) \<Longrightarrow> scan_string (p @ x) = Some (s, r @ x)"
  by (induction p arbitrary: s r rule: scan_string.induct) (auto split: if_splits list.splits)

lemma skip_value_append [append_local]:
  "skip_value d p = Some r \<Longrightarrow> skip_value d (p @ x) = Some (r @ x)"
proof (induction d p rule: skip_value.induct)
  case (2 depth c q)
  show ?case
  proof (cases "c = dquote")
    case True
    with 2(1,5) show ?thesis
      by (auto simp: scan_string_append split: option.splits prod.splits)
  next
    case False
    with 2(2-5) show ?thesis by (auto split: if_splits)
  qed
qed simp

lemma skip_value_ne: "skip_value d p = Some r \<Longrightarrow> r \<noteq> []"
proof (induction d p rule: skip_value.induct)
  case (2 depth c q)
  then show ?case
    by (cases "c = dquote") (auto split: if_splits option.splits prod.splits)
qed simp

lemma member_value_append [append_local]:
  "member_value p = Some (v, r) \<Longrightarrow> member_value (p @ x) = Some (v, r @ x)"
  by (cases p) (auto simp: member_value_def append_local split: if_splits dest: append_local(2,3))

lemma c_at_append: "p \<noteq> [] \<Longrightarrow> c_at (p @ x) 0 = c_at p 0"
  by (cases p) auto

lemma c_at_ne: "c_at p 0 = c \<Longrightarrow> c \<noteq> nul \<Longrightarrow> p \<noteq> []"
  by auto

lemma member_step_append [append_local]:
  assumes m: "member_step p = Some (k, v, r)"
  shows "member_step (p @ x) = Some (k, v, r @ x)"
proof -
  from m obtain q where p: "p = dquote # q" by (cases p) (auto simp: member_step_def split: if_splits)
  with m obtain key p1 where s: "scan_string q = Some (key, p1)"
    by (auto simp: member_step_def split: option.splits)
  with m p obtain q1 where c: "skip_ws p1 = CHR '':'' # q1"
    by (cases "skip_ws p1") (auto simp: member_step_def Let_def split: if_splits)
  with m p s obtain p2 where v: "member_value (skip_ws q1) = Some (v, p2)" and k: "k = (key = ''request'')"
    by (auto simp: member_step_def Let_def split: if_splits option.splits)
  have q1: "skip_ws q1 \<noteq> []" using v by (auto simp: member_value_def)
  consider (comma) q2 where "skip_ws p2 = CHR '','' # q2" "c_at (skip_ws q2) 0 = dquote" "r = skip_ws q2"
    | (brace) q2 where "skip_ws p2 = CHR ''}'' # q2" "r = skip_ws p2"
    using m p s c v
    by (cases "skip_ws p2") (auto simp: member_step_def Let_def split: if_splits)
  then show ?thesis
  proof cases
    case comma
    then have "skip_ws q2 \<noteq> []" by auto
    with p s c v k q1 comma show ?thesis
      by (simp add: member_step_def append_local c_at_append)
  next
    case brace
    with p s c v k q1 show ?thesis
      by (simp add: member_step_def append_local)
  qed
qed

lemma members_append [append_local]:
  "members f p = Some (g, r) \<Longrightarrow> members f (p @ x) = Some (g, r @ x)"
proof (induction f p rule: members.induct)
  case (1 f p)
  have p: "p \<noteq> []" using 1(2) by (auto simp: members.simps[of f "[]"] member_step_def)
  show ?case
  proof (cases "c_at p 0 = CHR ''}''")
    case True
    with 1(2) p have "f = g" "tl p = r" by (simp_all add: members.simps[of f p])
    with True p show ?thesis
      by (simp add: members.simps[of f "p @ x"] members.simps[of g "p @ x"] c_at_append)
  next
    case False
    with 1(2) obtain k v p' where m: "member_step p = Some (k, v, p')"
        and n: "members (if k then v else f) p' = Some (g, r)"
      by (auto simp: members.simps[of f p] split: option.splits)
    from 1(1)[OF False m refl refl n] m False p show ?thesis
      by (simp add: members.simps[of f "p @ x"] c_at_append append_local)
  qed
qed

lemma jobreq_object_append [append_local]:
  assumes "jobreq_object b = Some (f, r)"
  shows "jobreq_object (b @ x) = Some (f, r @ x)"
proof -
  from assms have b: "skip_ws b \<noteq> []" "c_at (skip_ws b) 0 = CHR ''{''"
      and m: "members JOBREQ_NONE (skip_ws (tl (skip_ws b))) = Some (f, r)"
    by (auto simp: jobreq_object_def Let_def split: if_splits)
  from m have "skip_ws (tl (skip_ws b)) \<noteq> []"
    by (auto simp: members.simps[of _ "[]"] member_step_def)
  with b m show ?thesis
    by (simp add: jobreq_object_def append_local c_at_append)
qed

text \<open>
  A body that has been cut short asks for nothing: if a body makes a request, then no part of
  it that stops before its last visible character is taken for a request, whatever the body says.
\<close>
theorem truncated_body_is_no_request:
  assumes "jobreq_parse (Some (b @ x)) \<noteq> JOBREQ_NONE" and "\<exists>c \<in> set x. \<not> is_ws c"
  shows "jobreq_parse (Some b) = JOBREQ_NONE"
proof (rule ccontr)
  assume "jobreq_parse (Some b) \<noteq> JOBREQ_NONE"
  then obtain f r where r: "jobreq_object b = Some (f, r)" "skip_ws r = []"
    by (auto simp: jobreq_parse_def split: option.splits if_splits)
  have "skip_ws (r @ x) \<noteq> []"
    using assms(2) by (auto simp: skip_ws_def)
  with jobreq_object_append[OF r(1), of x] assms(1) show False
    by (simp add: jobreq_parse_def)
qed

lemma truncated_body_is_no_request_witness:
  "jobreq_parse (Some (''{ '' @ [dquote] @ ''request'' @ [dquote] @ '':'' @ [dquote] @ ''cancel'' @ [dquote]))
     = JOBREQ_NONE"
  by (rule truncated_body_is_no_request[where x = "''}''"]) code_simp+

section \<open>Complete objects\<close>

text \<open>
  A JSON object with its white space: values other than strings are an atom (a number, \<open>true\<close>,
  \<open>false\<close> or \<open>null\<close>) or a nested object or array, whose inside is text without quotes and
  brackets, strings, and further nesting.
\<close>

datatype jpiece = Plain cstr | Quoted cstr | Nest bool "jpiece list"
datatype jvalue = VString cstr | VAtom cstr | VNest bool "jpiece list"

text \<open>White space, key, white space, colon, white space, value, white space.\<close>

datatype jmember = Member cstr cstr cstr cstr jvalue cstr

definition quote :: "cstr \<Rightarrow> cstr" where "quote s = dquote # s @ [dquote]"
definition nest :: "bool \<Rightarrow> cstr \<Rightarrow> cstr" where
  "nest obj s = (if obj then CHR ''{'' # s @ ''}'' else CHR ''['' # s @ '']'')"

fun piece_text :: "jpiece \<Rightarrow> cstr" where
  "piece_text (Plain t) = t"
| "piece_text (Quoted s) = quote s"
| "piece_text (Nest b ps) = nest b (concat (map piece_text ps))"

fun value_text :: "jvalue \<Rightarrow> cstr" where
  "value_text (VString s) = quote s"
| "value_text (VAtom t) = t"
| "value_text (VNest b ps) = nest b (concat (map piece_text ps))"

fun member_text :: "jmember \<Rightarrow> cstr" where
  "member_text (Member w key w1 w2 v w3) = w @ quote key @ w1 @ '':'' @ w2 @ value_text v @ w3"

fun members_text :: "jmember list \<Rightarrow> cstr" where
  "members_text [] = []"
| "members_text [m] = member_text m"
| "members_text (m # ms) = member_text m @ '','' @ members_text ms"

text \<open>Well-formed: escapes are complete, and structural characters only where they mean structure.\<close>

fun raw_ok :: "cstr \<Rightarrow> bool" where
  "raw_ok [] = True"
| "raw_ok (c # s) =
     (if c = dquote then False
      else if c = bslash then (case s of [] \<Rightarrow> False | d # t \<Rightarrow> raw_ok t)
      else raw_ok s)"

definition plain_ok :: "cstr \<Rightarrow> bool" where
  "plain_ok t \<longleftrightarrow> (\<forall>c \<in> set t. c \<noteq> dquote \<and> \<not> opens c \<and> \<not> closes c)"

definition ws_ok :: "cstr \<Rightarrow> bool" where "ws_ok w \<longleftrightarrow> (\<forall>c \<in> set w. is_ws c)"

fun piece_ok :: "jpiece \<Rightarrow> bool" where
  "piece_ok (Plain t) = plain_ok t"
| "piece_ok (Quoted s) = raw_ok s"
| "piece_ok (Nest b ps) = list_all piece_ok ps"

fun value_ok :: "jvalue \<Rightarrow> bool" where
  "value_ok (VString s) = raw_ok s"
| "value_ok (VAtom t) = (t \<noteq> [] \<and> plain_ok t \<and> CHR '','' \<notin> set t \<and> \<not> is_ws (t ! 0))"
| "value_ok (VNest b ps) = list_all piece_ok ps"

fun member_ok :: "jmember \<Rightarrow> bool" where
  "member_ok (Member w key w1 w2 v w3) \<longleftrightarrow>
     ws_ok w \<and> raw_ok key \<and> ws_ok w1 \<and> ws_ok w2 \<and> value_ok v \<and> ws_ok w3"

text \<open>What the members ask for: the last one that is named \<open>request\<close> decides.\<close>

fun asks :: "jvalue \<Rightarrow> jobreq" where
  "asks (VString s) = request_value s"
| "asks v = JOBREQ_UNKNOWN"

fun last_request :: "jobreq \<Rightarrow> jmember list \<Rightarrow> jobreq" where
  "last_request f [] = f"
| "last_request f (Member w key w1 w2 v w3 # ms) =
     last_request (if key = ''request'' then asks v else f) ms"

lemma scan_string_quote: "raw_ok s \<Longrightarrow> scan_string (s @ dquote # r) = Some (s, r)"
  by (induction s rule: raw_ok.induct) (auto split: if_splits list.splits)

lemma skip_ws_over: "ws_ok w \<Longrightarrow> skip_ws (w @ p) = skip_ws p"
  by (simp add: skip_ws_def ws_ok_def)

lemma skip_ws_stop: "\<not> is_ws c \<Longrightarrow> skip_ws (c # p) = c # p"
  by (simp add: skip_ws_def)

lemma structural [simp]: "\<not> is_ws dquote" "\<not> is_ws (CHR ''{'')" "\<not> is_ws (CHR ''}'')" "\<not> is_ws (CHR ''['')"
  "\<not> is_ws (CHR '','')" "\<not> is_ws (CHR '':'')"
  "opens (CHR ''{'')" "opens (CHR ''['')" "closes (CHR ''}'')" "closes (CHR '']'')"
  "\<not> opens (CHR ''}'')" "\<not> opens (CHR '']'')" "\<not> opens (CHR '','')" "\<not> closes (CHR '','')"
  by (simp_all add: is_ws_def opens_def closes_def)

lemma skip_value_plain: "plain_ok t \<Longrightarrow> d > 0 \<or> CHR '','' \<notin> set t \<Longrightarrow> skip_value d (t @ r) = skip_value d r"
  by (induction t) (auto simp: plain_ok_def)

lemma skip_value_quoted: "raw_ok s \<Longrightarrow> skip_value d (quote s @ r) = skip_value d r"
  by (simp add: quote_def scan_string_quote)

lemma skip_value_nest: "skip_value d (nest b t @ r) = skip_value d r"
  if "\<And>x. skip_value (Suc d) (t @ x) = skip_value (Suc d) x"
  using that by (simp add: nest_def)

lemma skip_value_piece: "piece_ok p \<Longrightarrow> skip_value (Suc d) (piece_text p @ r) = skip_value (Suc d) r"
proof (induction p arbitrary: d r)
  case (Nest b ps)
  have "skip_value (Suc (Suc d)) (concat (map piece_text ps) @ x) = skip_value (Suc (Suc d)) x" for x
    using Nest by (induction ps arbitrary: x) auto
  then show ?case by (simp add: skip_value_nest)
qed (simp_all add: skip_value_plain skip_value_quoted)

lemma skip_value_pieces:
  "list_all piece_ok ps \<Longrightarrow> skip_value (Suc d) (concat (map piece_text ps) @ r) = skip_value (Suc d) r"
  by (induction ps arbitrary: r) (auto simp: skip_value_piece)

lemma ws_plain: "ws_ok w \<Longrightarrow> plain_ok w \<and> CHR '','' \<notin> set w"
  by (auto simp: ws_ok_def plain_ok_def is_ws_def opens_def closes_def)

definition ends_value :: "char \<Rightarrow> bool" where "ends_value c \<longleftrightarrow> c = CHR '','' \<or> c = CHR ''}''"

lemma member_value_text:
  assumes v: "value_ok v" and w: "ws_ok w" and c: "ends_value c"
  shows "\<exists>p. member_value (value_text v @ w @ c # r) = Some (asks v, p) \<and> skip_ws p = c # r"
proof -
  have stop: "skip_ws (w @ c # r) = c # r" "skip_ws (c # r) = c # r"
    using c w by (auto simp: skip_ws_over skip_ws_stop ends_value_def)
  have over: "skip_value 0 (w @ c # r) = Some (c # r)"
    using c ws_plain[OF w] by (auto simp: skip_value_plain ends_value_def)
  show ?thesis
  proof (cases v)
    case (VString s)
    with v stop show ?thesis by (simp add: member_value_def quote_def scan_string_quote)
  next
    case (VAtom t)
    with v obtain d t' where t: "t = d # t'" "d \<noteq> dquote" by (cases t) (auto simp: plain_ok_def)
    from v VAtom over have "skip_value 0 (t @ w @ c # r) = Some (c # r)"
      using skip_value_plain[of t 0 "w @ c # r"] by simp
    with VAtom t stop show ?thesis by (simp add: member_value_def)
  next
    case (VNest b ps)
    with v over have "skip_value 0 (nest b (concat (map piece_text ps)) @ w @ c # r) = Some (c # r)"
      by (simp add: skip_value_nest skip_value_pieces)
    with VNest stop show ?thesis by (cases b) (simp_all add: member_value_def nest_def)
  qed
qed

lemma skip_ws_value: "value_ok v \<Longrightarrow> skip_ws (value_text v @ p) = value_text v @ p"
proof (cases v)
  case (VAtom t)
  moreover assume "value_ok v"
  ultimately show ?thesis by (cases t) (auto simp: skip_ws_stop)
qed (auto simp: quote_def nest_def skip_ws_stop)

fun member_tail :: "jmember \<Rightarrow> cstr" where
  "member_tail (Member w key w1 w2 v w3) = quote key @ w1 @ '':'' @ w2 @ value_text v @ w3"

lemma skip_ws_member: "member_ok m \<Longrightarrow> skip_ws (member_text m @ p) = member_tail m @ p"
  by (cases m) (simp add: skip_ws_over quote_def skip_ws_stop)

lemma member_step_text:
  assumes m: "member_ok (Member w key w1 w2 v w3)" and c: "ends_value c"
    and r: "c = CHR '','' \<Longrightarrow> c_at (skip_ws r) 0 = dquote"
  shows "member_step (member_tail (Member w key w1 w2 v w3) @ c # r) =
    Some (key = ''request'', asks v, if c = CHR '','' then skip_ws r else c # r)"
proof -
  from m have ok: "raw_ok key" "ws_ok w1" "ws_ok w2" "value_ok v" "ws_ok w3" by auto
  have "skip_ws (w1 @ '':'' @ w2 @ value_text v @ w3 @ c # r) = '':'' @ w2 @ value_text v @ w3 @ c # r"
    using ok(2) by (simp add: skip_ws_over skip_ws_stop)
  moreover obtain p where "member_value (value_text v @ w3 @ c # r) = Some (asks v, p)" "skip_ws p = c # r"
    using member_value_text[OF ok(4,5) c] by blast
  ultimately show ?thesis
    using ok c r
    by (auto simp: member_step_def quote_def scan_string_quote skip_ws_over skip_ws_value ends_value_def)
qed

lemma members_text_Cons:
  "ms \<noteq> [] \<Longrightarrow> members_text (m # ms) = member_text m @ '','' @ members_text ms"
  by (cases ms) auto

lemma tail_quote: "c_at (member_tail m @ p) 0 = dquote"
  by (cases m) (simp add: quote_def)

lemma skip_ws_members:
  "ms \<noteq> [] \<Longrightarrow> list_all member_ok ms \<Longrightarrow> c_at (skip_ws (members_text ms @ p)) 0 = dquote"
proof (cases ms)
  case (Cons m ms')
  moreover assume "list_all member_ok ms"
  ultimately show ?thesis
    by (cases ms') (auto simp: members_text_Cons skip_ws_member tail_quote)
qed simp

lemma members_object:
  "ms \<noteq> [] \<Longrightarrow> list_all member_ok ms \<Longrightarrow>
   members f (skip_ws (members_text ms @ CHR ''}'' # r)) = Some (last_request f ms, r)"
proof (induction ms arbitrary: f)
  case (Cons m ms)
  obtain w key w1 w2 v w3 where m: "m = Member w key w1 w2 v w3" by (cases m)
  have brace: "members g (CHR ''}'' # r) = Some (g, r)" for g
    by (simp add: members.simps[of g])
  show ?case
  proof (cases "ms = []")
    case True
    have "members f (member_tail m @ CHR ''}'' # r) = Some (last_request f [m], r)"
      using Cons.prems m member_step_text[of w key w1 w2 v w3 "CHR ''}''" r] tail_quote[of m "CHR ''}'' # r"]
      by (simp add: members.simps[of f "_ @ _"] ends_value_def brace del: member_tail.simps)
    with Cons.prems True show ?thesis by (simp add: skip_ws_member)
  next
    case False
    let ?r = "members_text ms @ CHR ''}'' # r"
    have "c_at (skip_ws ?r) 0 = dquote" using Cons.prems False by (simp add: skip_ws_members)
    with Cons.prems m Cons.IH[OF False] tail_quote[of m "CHR '','' # ?r"] False
    have "members f (member_tail m @ CHR '','' # ?r) = Some (last_request f (m # ms), r)"
      using member_step_text[of w key w1 w2 v w3 "CHR '',''" ?r]
      by (simp add: members.simps[of f "_ @ _"] ends_value_def del: member_tail.simps)
    with Cons.prems False show ?thesis by (simp add: members_text_Cons skip_ws_member)
  qed
qed simp

text \<open>
  C15: From a complete JSON object, with any white space, nesting and escapes, the parser returns
  what the last top-level member named request asks for: cancel, hold or release when its value is
  exactly that string, unknown for any other value, and no request when there is no such member.
\<close>
theorem request_of_object:
  assumes "ws_ok w0" "ws_ok w1" "ws_ok w2" "list_all member_ok ms"
  shows "jobreq_parse (Some (w0 @ ''{'' @ w1 @ members_text ms @ ''}'' @ w2)) = last_request JOBREQ_NONE ms"
proof -
  have "members JOBREQ_NONE (skip_ws (members_text ms @ CHR ''}'' # w2)) = Some (last_request JOBREQ_NONE ms, w2)"
    using assms(4)
    by (cases "ms = []") (simp_all add: members_object skip_ws_stop members.simps[of JOBREQ_NONE "CHR ''}'' # _"])
  moreover have "skip_ws w2 = []" using assms(3) by (simp add: skip_ws_def ws_ok_def)
  ultimately show ?thesis
    using assms(1,2)
    by (simp add: jobreq_parse_def jobreq_object_def skip_ws_over skip_ws_stop)
qed

lemma request_of_object_witness:
  "jobreq_parse (Some ([blank] @ ''{'' @ [blank] @
     members_text
       [Member [] ''version'' [] [] (VAtom ''2.0'') [],
        Member [blank] ''x'' [] [blank] (VNest False [Plain ''1,'', Nest True [Quoted ''request'', Plain '':'', Quoted ''hold'']]) [],
        Member [] ''request'' [] [] (VString ''cancel'') [blank]]
     @ ''}'' @ [])) = JOBREQ_CANCEL"
  by (subst request_of_object) (simp_all add: ws_ok_def is_ws_def plain_ok_def opens_def closes_def request_value_def)

text \<open>
  Not every text that is no JSON is refused: a value is skipped by its brackets alone, so an empty
  value and a closing bracket of the other kind pass.
\<close>

lemma damaged_body_taken_for_cancel:
  "jobreq_parse (Some (''{'' @ quote ''request'' @ '':'' @ quote ''cancel'' @ '','' @ quote ''x'' @ '':}''))
     = JOBREQ_CANCEL"
  "jobreq_parse (Some (''{'' @ quote ''x'' @ '':[},'' @ quote ''request'' @ '':'' @ quote ''cancel'' @ ''}''))
     = JOBREQ_CANCEL"
  by code_simp+

end
