(* ===== verification/JobCard.thy ===== *)
theory JobCard
  imports Prelude
begin

text \<open>
  \<^verbatim>\<open>src/jobcard.c\<close>: clearing the JOB card of a submitted deck of the credentials the server puts
  on it itself, and continuing the card onto the one it adds.  A line is a string that the C code
  edits in place; a pointer into it is the offset.
\<close>

abbreviation squote :: char where "squote \<equiv> CHR 0x27"

section \<open>Finding and removing an operand\<close>

fun find_loop :: "cstr \<Rightarrow> bool \<Rightarrow> bool \<Rightarrow> nat \<Rightarrow> cstr \<Rightarrow> nat option" where
  "find_loop kw in_quotes at_operand i [] = None"
| "find_loop kw in_quotes at_operand i (c # r) =
     (if c = squote then find_loop kw (\<not> in_quotes) False (Suc i) r
      else if in_quotes then find_loop kw in_quotes at_operand (Suc i) r
      else if at_operand \<and> c_prefix kw (c # r) \<and> c_at (lstrip (drop (length kw) (c # r))) 0 = CHR ''=''
      then Some i
      else find_loop kw in_quotes (c = CHR '','' \<or> c = blank) (Suc i) r)"

definition jobcard_find_operand :: "cstr option \<Rightarrow> cstr option \<Rightarrow> nat option" where
  "jobcard_find_operand line keyword =
     (case (line, keyword) of
        (Some l, Some kw) \<Rightarrow> if kw = [] then None else find_loop kw False True 0 l
      | _ \<Rightarrow> None)"

text \<open>One removal: the operand at an offset, with one of the commas beside it.\<close>

definition ends_operand :: "char \<Rightarrow> bool" where "ends_operand c \<longleftrightarrow> c = CHR '','' \<or> c = blank"

definition operand_end :: "cstr \<Rightarrow> nat \<Rightarrow> nat" where
  "operand_end line start =
     (let vstart = start + length (takeWhile (\<lambda>c. c \<noteq> CHR ''='') (drop start line)) + 1
      in vstart + length (takeWhile (\<lambda>c. \<not> ends_operand c) (drop vstart line)))"

definition strip_at :: "cstr \<Rightarrow> nat \<Rightarrow> cstr" where
  "strip_at line start =
     (let vend = operand_end line start
      in if c_at line vend = CHR '','' then take start line @ drop (vend + 1) line
         else if start > 0 \<and> c_at line (start - 1) = CHR '','' then take (start - 1) line @ drop vend line
         else take start line @ drop vend line)"

lemma find_loop_bound: "find_loop kw q a i l = Some k \<Longrightarrow> i \<le> k \<and> k < i + length l"
  by (induction l arbitrary: q a i) (fastforce split: if_splits)+

lemma strip_at_shorter: "start < length line \<Longrightarrow> length (strip_at line start) < length line"
  by (auto simp: strip_at_def operand_end_def Let_def)

text \<open>
  \<^verbatim>\<open>while ((op = jobcard_find_operand(line, keyword)) != NULL)\<close>; the test for a missing equals sign
  behind it never fires, because the operand found has one.
\<close>

function strip_loop :: "cstr \<Rightarrow> cstr \<Rightarrow> int \<Rightarrow> cstr \<times> int" where
  "strip_loop kw line removed =
     (case jobcard_find_operand (Some line) (Some kw) of
        None \<Rightarrow> (line, removed)
      | Some start \<Rightarrow> strip_loop kw (strip_at line start) (removed + 1))"
  by pat_completeness auto
termination
proof (relation "measure (\<lambda>(kw, line, n). length line)")
  fix kw line start
  assume "jobcard_find_operand (Some line) (Some kw) = Some start"
  then have "start < length line"
    using find_loop_bound[of kw False True 0 line start] by (auto simp: jobcard_find_operand_def split: if_splits)
  then show "((kw, strip_at line start, n + 1), kw, line, n) \<in> measure (\<lambda>(kw, line, n). length line)" for n
    by (simp add: strip_at_shorter)
qed simp

declare strip_loop.simps [simp del]

definition jobcard_strip_operand :: "cstr \<Rightarrow> cstr \<Rightarrow> cstr \<times> int" where
  "jobcard_strip_operand line kw = strip_loop kw line 0"

definition jobcard_operands_empty :: "cstr \<Rightarrow> bool" where
  "jobcard_operands_empty line =
     (let pp = (if c_at line 0 = CHR ''/'' \<and> c_at line 1 = CHR ''/'' then drop 2 line else line)
      in lstrip pp = [])"

section \<open>A whole card\<close>

text \<open>One line of the card; a NULL line is skipped.\<close>

definition strip_line :: "bool \<Rightarrow> cstr option \<Rightarrow> cstr option \<times> int" where
  "strip_line first line =
     (case line of
        None \<Rightarrow> (None, 0)
      | Some l \<Rightarrow>
          let (l, m) = jobcard_strip_operand l ''USER'';
              (l, n) = jobcard_strip_operand l ''PASSWORD''
          in (Some (if \<not> first \<and> jobcard_operands_empty l then [] else l), m + n))"

fun strip_lines :: "nat \<Rightarrow> nat \<Rightarrow> nat \<Rightarrow> cstr option list \<Rightarrow> int \<Rightarrow> int \<times> cstr option list" where
  "strip_lines start_idx ii 0 lines removed = (removed, lines)"
| "strip_lines start_idx ii (Suc n) lines removed =
     (let (l, k) = strip_line (ii \<le> start_idx) (lines ! ii)
      in strip_lines start_idx (Suc ii) n (lines[ii := l]) (removed + k))"

definition jobcard_strip_credentials :: "cstr option list option \<Rightarrow> int \<Rightarrow> int \<Rightarrow> int \<times> cstr option list option" where
  "jobcard_strip_credentials lines start_idx end_idx =
     (case lines of
        None \<Rightarrow> (-1, None)
      | Some ls \<Rightarrow>
          if start_idx < 0 \<or> end_idx < start_idx then (-1, Some ls)
          else
            let (removed, ls) =
              strip_lines (nat start_idx) (nat start_idx) (nat (end_idx - start_idx + 1)) ls 0
            in (removed, Some ls))"

section \<open>Continuing the card\<close>

definition JOBCARD_LAST_COL :: nat where "JOBCARD_LAST_COL = 71"

definition indent :: cstr where "indent = ''//         ''"

text \<open>The last comma outside quotes and parentheses.\<close>

fun last_separator :: "bool \<Rightarrow> int \<Rightarrow> nat \<Rightarrow> nat option \<Rightarrow> cstr \<Rightarrow> nat option" where
  "last_separator in_quotes depth i found [] = found"
| "last_separator in_quotes depth i found (c # r) =
     (if c = squote then last_separator (\<not> in_quotes) depth (Suc i) found r
      else if in_quotes then last_separator in_quotes depth (Suc i) found r
      else if c = CHR ''('' then last_separator in_quotes (depth + 1) (Suc i) found r
      else if c = CHR '')'' then last_separator in_quotes (depth - 1) (Suc i) found r
      else if c = CHR '','' \<and> depth = 0 then last_separator in_quotes depth (Suc i) (Some i) r
      else last_separator in_quotes depth (Suc i) found r)"

text \<open>The return code, the line, and the card moved out of it; \<open>moved_size\<close> is \<open>None\<close> for no buffer.\<close>

definition jobcard_continue :: "cstr option \<Rightarrow> nat option \<Rightarrow> int \<times> cstr option \<times> cstr option" where
  "jobcard_continue line moved_size =
     (case line of
        None \<Rightarrow> (-1, None, None)
      | Some l \<Rightarrow>
          let l = rstrip l; len = length l in
          if len = 0 \<or> last l = CHR '','' then (0, Some l, None)
          else if len < JOBCARD_LAST_COL then (1, Some (l @ '',''), None)
          else case moved_size of
            None \<Rightarrow> (-1, Some l, None)
          | Some sz \<Rightarrow>
              if len > JOBCARD_LAST_COL then (-1, Some l, None)
              else case last_separator False 0 0 None l of
                None \<Rightarrow> (-1, Some l, None)
              | Some last_comma \<Rightarrow>
                  let olen = len - (last_comma + 1) in
                  if length indent + olen + 1 > JOBCARD_LAST_COL \<or> length indent + olen + 1 \<ge> sz
                  then (-1, Some l, None)
                  else (2, Some (take (last_comma + 1) l),
                        Some (indent @ drop (last_comma + 1) l @ '','')))"

section \<open>What a strip leaves of a card\<close>

text \<open>
  A line as a prefix (the slashes, the name, the verb, the blanks), operands, a comma if the card
  goes on, and the blanks of the fixed record.  An operand may hold quoted text, with anything in it.
\<close>

fun operand_ok :: "bool \<Rightarrow> cstr \<Rightarrow> bool" where
  "operand_ok q [] = (\<not> q)"
| "operand_ok q (c # s) =
     (if c = squote then operand_ok (\<not> q) s
      else if q then operand_ok q s
      else c \<noteq> CHR '','' \<and> c \<noteq> blank \<and> operand_ok q s)"

definition names :: "cstr \<Rightarrow> cstr \<Rightarrow> bool" where
  "names kw oper \<longleftrightarrow> c_prefix kw oper \<and> c_at oper (length kw) = CHR ''=''"

definition keyword_ok :: "cstr \<Rightarrow> bool" where
  "keyword_ok kw \<longleftrightarrow> kw \<noteq> [] \<and> (\<forall>c \<in> set kw. c \<noteq> blank \<and> c \<noteq> CHR '','' \<and> c \<noteq> squote \<and> c \<noteq> CHR ''='')"

definition prefix_ok :: "cstr \<Rightarrow> bool" where
  "prefix_ok pre \<longleftrightarrow> pre \<noteq> [] \<and> last pre = blank \<and> (\<forall>c \<in> set pre. c \<noteq> squote \<and> c \<noteq> CHR ''='' \<and> c \<noteq> CHR '','')"

text \<open>An operand that may stand on the line: if it is a credential, its value is not quoted.\<close>

definition oper_ok :: "cstr \<Rightarrow> bool" where
  "oper_ok oper \<longleftrightarrow> operand_ok False oper \<and> oper \<noteq> [] \<and> c_at oper 0 \<noteq> CHR ''='' \<and>
     (names ''USER'' oper \<or> names ''PASSWORD'' oper \<longrightarrow> squote \<notin> set oper)"

fun commas :: "cstr list \<Rightarrow> cstr" where
  "commas [] = []"
| "commas (x # xs) = x @ '','' @ commas xs"

definition operands :: "bool \<Rightarrow> cstr list \<Rightarrow> cstr" where
  "operands cont ops = (if cont \<or> ops = [] then commas ops else commas (butlast ops) @ last ops)"

definition card_line :: "cstr \<Rightarrow> bool \<Rightarrow> cstr list \<Rightarrow> nat \<Rightarrow> cstr" where
  "card_line pre cont ops n = pre @ operands cont ops @ replicate n blank"

declare c_at_simps [simp]

lemma lstrip_no_eq:
  "CHR ''='' \<notin> set d \<Longrightarrow> c_at (lstrip rest) 0 \<noteq> CHR ''='' \<Longrightarrow> c_at (lstrip (d @ rest)) 0 \<noteq> CHR ''=''"
  by (induction d) (auto simp: lstrip_def)

lemma c_prefix_short:
  "c_prefix kw (s @ rest) \<Longrightarrow> length kw \<le> length s \<Longrightarrow> c_prefix kw s"
  by (auto simp: c_prefix_def)

lemma c_prefix_long:
  assumes "c_prefix kw (s @ rest)" "length s < length kw"
  shows "set s \<subseteq> set kw" and "rest \<noteq> [] \<and> c_at rest 0 \<in> set kw"
proof -
  obtain x where x: "s @ rest = kw @ x" using assms(1) by (auto simp: c_prefix_iff)
  with assms(2) obtain y where y: "kw = s @ y" "y \<noteq> []" "rest = y @ x"
    by (auto simp: append_eq_append_conv2)
  then show "set s \<subseteq> set kw" by auto
  from y show "rest \<noteq> [] \<and> c_at rest 0 \<in> set kw" by (cases y) auto
qed

lemma find_loop_blank_end:
  assumes kw: "keyword_ok kw" and rest: "c_at (lstrip rest) 0 \<noteq> CHR ''=''"
  shows "\<forall>c \<in> set pre. c \<noteq> squote \<and> c \<noteq> CHR ''='' \<Longrightarrow> pre \<noteq> [] \<longrightarrow> last pre = blank \<Longrightarrow>
    find_loop kw False a i (pre @ rest) = find_loop kw False (a \<or> pre \<noteq> []) (i + length pre) rest"
proof (induction pre arbitrary: a i)
  case (Cons c pre)
  have "\<not> (c_prefix kw ((c # pre) @ rest) \<and> c_at (lstrip (drop (length kw) ((c # pre) @ rest))) 0 = CHR ''='')"
  proof
    assume m: "c_prefix kw ((c # pre) @ rest) \<and> c_at (lstrip (drop (length kw) ((c # pre) @ rest))) 0 = CHR ''=''"
    show False
    proof (cases "length kw \<le> length (c # pre)")
      case True
      have "CHR ''='' \<notin> set (drop (length kw) (c # pre))"
        using Cons.prems(1) by (metis in_set_dropD)
      from lstrip_no_eq[OF this rest]
      have "c_at (lstrip (drop (length kw) (c # pre) @ rest)) 0 \<noteq> CHR ''=''" .
      moreover have "drop (length kw) ((c # pre) @ rest) = drop (length kw) (c # pre) @ rest"
        using True by (simp only: drop_append) simp
      ultimately show False using m by metis
    next
      case False
      with m c_prefix_long(1)[of kw "c # pre" rest] have "blank \<in> set kw"
        using Cons.prems(2) by (metis last_in_set linorder_not_le list.distinct(1) subsetD)
      with kw show False by (auto simp: keyword_ok_def)
    qed
  qed
  with Cons show ?case
    by (cases "pre = []") (auto simp: conj_commute)
qed simp

lemma find_loop_inside:
  "operand_ok q oper \<Longrightarrow>
   find_loop kw q False i (oper @ rest) = find_loop kw False False (i + length oper) rest"
  by (induction oper arbitrary: q i) (auto split: if_splits)

lemma operand_ok_drop:
  "operand_ok False oper \<Longrightarrow> c_prefix kw oper \<Longrightarrow> squote \<notin> set kw \<Longrightarrow> operand_ok False (drop (length kw) oper)"
proof (induction kw arbitrary: oper)
  case (Cons k kw)
  then show ?case by (cases oper) (auto simp: c_prefix_def split: if_splits)
qed simp

lemma find_loop_other:
  assumes kw: "keyword_ok kw" and oper: "operand_ok False oper" "oper \<noteq> []" "\<not> names kw oper"
    and rest: "rest = [] \<or> ends_operand (c_at rest 0)" "c_at (lstrip rest) 0 \<noteq> CHR ''=''"
  shows "find_loop kw False True i (oper @ rest) = find_loop kw False False (i + length oper) rest"
proof -
  obtain c s where o: "oper = c # s" using oper(2) by (cases oper) auto
  have "\<not> (c_prefix kw (oper @ rest) \<and> c_at (lstrip (drop (length kw) (oper @ rest))) 0 = CHR ''='')"
  proof
    assume m: "c_prefix kw (oper @ rest) \<and> c_at (lstrip (drop (length kw) (oper @ rest))) 0 = CHR ''=''"
    show False
    proof (cases "length kw \<le> length oper")
      case True
      with m have p: "c_prefix kw oper" using c_prefix_short by blast
      with oper(1) kw have d: "operand_ok False (drop (length kw) oper)"
        by (auto intro: operand_ok_drop simp: keyword_ok_def)
      show False
      proof (cases "drop (length kw) oper")
        case Nil
        with m True rest(2) show False by simp
      next
        case (Cons e t)
        with d have "e \<noteq> blank" by (auto split: if_splits)
        with m True Cons have "e = CHR ''=''" by (simp add: lstrip_def)
        moreover have "c_at oper (length kw) = e"
          using Cons by (metis c_at_def drop_all hd_drop_conv_nth linorder_not_less list.distinct(1) list.sel(1))
        ultimately show False using p oper(3) by (simp add: names_def)
      qed
    next
      case False
      with m c_prefix_long(2)[of kw oper rest] rest(1) kw show False
        by (auto simp: keyword_ok_def ends_operand_def)
    qed
  qed
  with o oper(1) show ?thesis
    using find_loop_inside[of _ s kw "Suc i" rest] by (auto split: if_splits)
qed

lemma find_loop_names:
  assumes "keyword_ok kw" "names kw oper"
  shows "find_loop kw False True i (oper @ rest) = Some i"
proof -
  from assms(2) obtain r where r: "oper = kw @ r" by (auto simp: names_def c_prefix_iff)
  with assms(2) obtain v where v: "oper = kw @ CHR ''='' # v"
    by (cases r) (auto simp: names_def c_at_def)
  from assms(1) obtain k kw' where k: "kw = k # kw'" by (cases kw) (auto simp: keyword_ok_def)
  with v assms(1) show ?thesis
    by (auto simp: keyword_ok_def c_prefix_def lstrip_def)
qed


section \<open>One line\<close>

lemma find_loop_blanks: "find_loop kw False a i (replicate n blank) = None" if "keyword_ok kw"
  using find_loop_blank_end[OF that, of "[]" "replicate n blank" a i]
  by (cases n) (auto simp: lstrip_def)

lemma lstrip_blanks: "lstrip (replicate n blank) = []"
  by (simp add: lstrip_def)

lemma find_loop_comma:
  assumes kw: "keyword_ok kw" and "operand_ok False oper" "oper \<noteq> []" "\<not> names kw oper"
  shows "find_loop kw False True i (oper @ CHR '','' # rest) = find_loop kw False True (i + length oper + 1) rest"
proof -
  have "find_loop kw False True i (oper @ CHR '','' # rest) =
      find_loop kw False False (i + length oper) (CHR '','' # rest)"
    by (rule find_loop_other[OF assms]) (simp_all add: ends_operand_def lstrip_def)
  then show ?thesis by simp
qed

abbreviation plain_oper :: "cstr \<Rightarrow> cstr \<Rightarrow> bool" where
  "plain_oper kw oper \<equiv> operand_ok False oper \<and> oper \<noteq> [] \<and> \<not> names kw oper"

lemma find_loop_commas:
  "keyword_ok kw \<Longrightarrow> list_all (plain_oper kw) ops \<Longrightarrow>
   find_loop kw False True i (commas ops @ rest) = find_loop kw False True (i + length (commas ops)) rest"
  by (induction ops arbitrary: i) (simp_all add: find_loop_comma add.assoc)

lemma commas_append [simp]: "commas (xs @ ys) = commas xs @ commas ys"
  by (induction xs) auto

lemma operands_split:
  "operands cont (a @ oper # b) =
     commas a @ oper @ (if cont \<or> b \<noteq> [] then CHR '','' # operands cont b else [])"
  by (auto simp: operands_def butlast_append)

lemma operands_end: "operands cont a = (if cont \<or> a = [] then commas a else butlast (commas a))"
  by (cases a rule: rev_cases) (auto simp: operands_def butlast_append)

lemma find_operand_none:
  assumes kw: "keyword_ok kw" and pre: "prefix_ok pre" and ops: "list_all (plain_oper kw) ops"
    and eq: "\<forall>x \<in> set ops. c_at x 0 \<noteq> CHR ''=''"
  shows "jobcard_find_operand (Some (card_line pre cont ops n)) (Some kw) = None"
proof -
  have ne: "kw \<noteq> []" using kw by (simp add: keyword_ok_def)
  have first: "c_at (lstrip (operands cont ops @ replicate n blank)) 0 \<noteq> CHR ''=''"
  proof (cases ops)
    case (Cons x xs)
    then obtain c s where x: "x = c # s" using ops by (cases x) auto
    then have "c \<noteq> blank" using Cons ops by (auto split: if_splits)
    moreover have "c \<noteq> CHR ''=''" using eq Cons x by simp
    ultimately show ?thesis
      using Cons x operands_split[of cont "[]" x xs] by (simp add: lstrip_def)
  qed (simp add: operands_def lstrip_blanks)
  have pr: "find_loop kw False True 0 (card_line pre cont ops n) =
      find_loop kw False True (length pre) (operands cont ops @ replicate n blank)"
    using find_loop_blank_end[OF kw first, of pre True 0] pre by (auto simp: card_line_def prefix_ok_def)
  have "find_loop kw False True i (operands cont ops @ replicate n blank) = None" for i
  proof (cases "cont \<or> ops = []")
    case True
    with kw ops show ?thesis by (auto simp: operands_def find_loop_commas find_loop_blanks)
  next
    case False
    then obtain a x where a: "ops = a @ [x]" by (cases ops rule: rev_cases) auto
    then have "operands cont ops @ replicate n blank = commas a @ x @ replicate n blank"
      using False by (simp add: operands_split)
    moreover have "find_loop kw False True j (x @ replicate n blank) = None" for j
    proof -
      have "find_loop kw False True j (x @ replicate n blank) = find_loop kw False False (j + length x) (replicate n blank)"
      proof (rule find_loop_other[OF kw])
        show "replicate n blank = [] \<or> ends_operand (c_at (replicate n blank) 0)"
          by (cases n) (simp_all add: ends_operand_def)
      qed (use ops a in \<open>simp_all add: lstrip_blanks\<close>)
      then show ?thesis by (simp add: find_loop_blanks[OF kw])
    qed
    ultimately show ?thesis using kw ops a by (simp add: find_loop_commas)
  qed
  with pr ne show ?thesis by (simp add: jobcard_find_operand_def)
qed

lemma find_operand_some:
  assumes kw: "keyword_ok kw" and pre: "prefix_ok pre" and a: "list_all (plain_oper kw) a"
    and eq: "\<forall>x \<in> set (a @ [oper]). c_at x 0 \<noteq> CHR ''=''" and oper: "names kw oper" "operand_ok False oper"
  shows "jobcard_find_operand (Some (pre @ commas a @ oper @ rest)) (Some kw) = Some (length pre + length (commas a))"
proof -
  have ne: "kw \<noteq> []" using kw by (simp add: keyword_ok_def)
  have "\<exists>c s t. commas a @ oper @ rest = c # s \<and> c \<noteq> blank \<and> c \<noteq> CHR ''=''"
  proof (cases a)
    case Nil
    from oper(1) ne obtain c s where "oper = c # s" by (cases oper) (auto simp: names_def c_prefix_def)
    with Nil eq oper(2) show ?thesis by (auto split: if_splits)
  next
    case (Cons x xs)
    with a obtain c s where "x = c # s" by (cases x) auto
    with Cons a eq show ?thesis by (auto split: if_splits)
  qed
  then have first: "c_at (lstrip (commas a @ oper @ rest)) 0 \<noteq> CHR ''=''"
    by (auto simp: lstrip_def)
  have "find_loop kw False True 0 (pre @ commas a @ oper @ rest) =
      find_loop kw False True (length pre) (commas a @ oper @ rest)"
    using find_loop_blank_end[OF kw first, of pre True 0] pre by (auto simp: prefix_ok_def)
  with ne show ?thesis
    by (simp add: jobcard_find_operand_def find_loop_commas[OF kw a] find_loop_names[OF kw oper(1)])
qed

text \<open>A removed operand: the keyword, an equals sign and a value without separators.\<close>

lemma strip_at_names:
  assumes kw: "keyword_ok kw" and oper: "names kw oper" "operand_ok False oper" "squote \<notin> set oper"
    and rest: "rest = [] \<or> ends_operand (c_at rest 0)"
  shows "strip_at (P @ oper @ rest) (length P) =
    (if c_at rest 0 = CHR '','' then P @ tl rest
     else if P \<noteq> [] \<and> last P = CHR '','' then butlast P @ rest else P @ rest)"
proof -
  from oper(1) obtain r where r: "oper = kw @ r" by (auto simp: names_def c_prefix_iff)
  with oper(1) obtain v where v: "oper = kw @ CHR ''='' # v"
    by (cases r) (auto simp: names_def c_at_def)
  have sep: "c \<in> set oper \<Longrightarrow> \<not> ends_operand c" for c
    using oper(2,3) by (induction oper) (auto simp: ends_operand_def split: if_splits)
  have tk: "takeWhile (\<lambda>c. c \<noteq> CHR ''='') (oper @ rest) = kw"
    using kw v by (simp add: keyword_ok_def takeWhile_append2)
  have tv: "takeWhile (\<lambda>c. \<not> ends_operand c) (v @ rest) = v"
    using sep v rest by (cases rest) (auto simp: takeWhile_append2)
  have d: "drop (length P + length kw + 1) (P @ oper @ rest) = v @ rest"
    using v by simp
  have e: "length P + length kw + 1 + length v = length P + length oper"
    using v by simp
  have e: "operand_end (P @ oper @ rest) (length P) = length P + length oper"
    using d e tk tv by (simp add: operand_end_def)
  have at: "c_at (P @ oper @ rest) (length P + length oper) = c_at rest 0"
    by (auto simp: c_at_def nth_append)
  have at': "P \<noteq> [] \<Longrightarrow> c_at (P @ oper @ rest) (length P - 1) = last P"
    "P \<noteq> [] \<Longrightarrow> take (length P - 1) (P @ oper @ rest) = butlast P"
    by (cases P rule: rev_cases; auto simp: c_at_def nth_append)+
  have tl: "drop (length P + length oper + 1) (P @ oper @ rest) = tl rest"
    by (cases rest) auto
  have dr: "drop (length P + length oper) (P @ oper @ rest) = rest" "take (length P) (P @ oper @ rest) = P"
    by simp_all
  show ?thesis
    unfolding strip_at_def Let_def e at tl dr length_greater_0_conv by (cases "P = []") (simp_all only: at' if_True if_False simp_thms not_False_eq_True)
qed

lemma strip_at_operand:
  assumes kw: "keyword_ok kw" and pre: "prefix_ok pre"
    and oper: "names kw oper" "operand_ok False oper" "squote \<notin> set oper"
  shows "strip_at (card_line pre cont (a @ oper # b) n) (length pre + length (commas a)) = card_line pre cont (a @ b) n"
proof -
  let ?P = "pre @ commas a"
  define rest where "rest = (if cont \<or> b \<noteq> [] then CHR '','' # operands cont b else []) @ replicate n blank"
  have rest_ok: "rest = [] \<or> ends_operand (c_at rest 0)"
    by (cases n) (auto simp: rest_def ends_operand_def)
  have line: "card_line pre cont (a @ oper # b) n = ?P @ oper @ rest"
    by (simp add: card_line_def operands_split rest_def)
  have strip: "strip_at (?P @ oper @ rest) (length ?P) =
    (if c_at rest 0 = CHR '','' then ?P @ tl rest
     else if ?P \<noteq> [] \<and> last ?P = CHR '','' then butlast ?P @ rest else ?P @ rest)"
    using kw oper rest_ok by (rule strip_at_names)
  show ?thesis
  proof (cases "cont \<or> b \<noteq> []")
    case True
    then have "operands cont (a @ b) = commas a @ operands cont b"
      by (cases b) (auto simp: operands_def butlast_append)
    with True line strip show ?thesis by (simp add: rest_def card_line_def)
  next
    case False
    then have r: "rest = replicate n blank" by (simp add: rest_def)
    have nc: "c_at rest 0 \<noteq> CHR '',''" by (cases n) (simp_all add: r)
    show ?thesis
    proof (cases a rule: rev_cases)
      case Nil
      with nc line strip False pre show ?thesis
        by (simp add: card_line_def operands_def r prefix_ok_def)
    next
      case (snoc a' x)
      with nc line strip False show ?thesis
        by (simp add: card_line_def operands_def r butlast_append)
    qed
  qed
qed

lemma strip_loop_card:
  assumes kw: "keyword_ok kw" and pre: "prefix_ok pre"
    and ops: "\<forall>x \<in> set ops. operand_ok False x \<and> x \<noteq> [] \<and> c_at x 0 \<noteq> CHR ''='' \<and> (names kw x \<longrightarrow> squote \<notin> set x)"
  shows "strip_loop kw (card_line pre cont ops n) r =
    (card_line pre cont (filter (\<lambda>x. \<not> names kw x) ops) n, r + int (length (filter (names kw) ops)))"
  using ops
proof (induction "length ops" arbitrary: ops r rule: less_induct)
  case less
  show ?case
  proof (cases "\<exists>x \<in> set ops. names kw x")
    case False
    then have "jobcard_find_operand (Some (card_line pre cont ops n)) (Some kw) = None"
      using less.prems by (intro find_operand_none[OF kw pre]) (auto simp: list_all_iff)
    moreover have "filter (\<lambda>x. \<not> names kw x) ops = ops" "filter (names kw) ops = []"
      using False by (auto intro: filter_True filter_False)
    ultimately show ?thesis by (simp add: strip_loop.simps)
  next
    case True
    then obtain a oper b where o: "ops = a @ oper # b" "names kw oper" "\<forall>x \<in> set a. \<not> names kw x"
      by (metis split_list_first_prop)
    have "jobcard_find_operand (Some (card_line pre cont ops n)) (Some kw) = Some (length pre + length (commas a))"
      using less.prems o find_operand_some[OF kw pre, of a oper]
      by (simp add: card_line_def operands_split list_all_iff)
    moreover have "strip_at (card_line pre cont ops n) (length pre + length (commas a)) = card_line pre cont (a @ b) n"
      using less.prems o by (simp add: strip_at_operand[OF kw pre])
    ultimately have "strip_loop kw (card_line pre cont ops n) r = strip_loop kw (card_line pre cont (a @ b) n) (r + 1)"
      by (simp add: strip_loop.simps[of _ "card_line pre cont ops n"])
    also have "\<dots> = (card_line pre cont (filter (\<lambda>x. \<not> names kw x) (a @ b)) n,
        r + 1 + int (length (filter (names kw) (a @ b))))"
      using less.prems o by (intro less.hyps) auto
    finally show ?thesis using o by (simp add: filter_empty_conv)
  qed
qed

section \<open>The card\<close>

type_synonym jcl_line = "cstr \<times> bool \<times> cstr list \<times> nat"

definition line_text :: "jcl_line \<Rightarrow> cstr" where
  "line_text l = (case l of (pre, cont, ops, n) \<Rightarrow> card_line pre cont ops n)"

definition line_ok :: "jcl_line \<Rightarrow> bool" where
  "line_ok l = (case l of (pre, cont, ops, n) \<Rightarrow> prefix_ok pre \<and> list_all oper_ok ops)"

definition credential :: "cstr \<Rightarrow> bool" where
  "credential oper \<longleftrightarrow> names ''USER'' oper \<or> names ''PASSWORD'' oper"

definition credentials :: "jcl_line \<Rightarrow> nat" where
  "credentials l = (case l of (pre, cont, ops, n) \<Rightarrow> length (filter credential ops))"

definition uncredentialed :: "jcl_line \<Rightarrow> jcl_line" where
  "uncredentialed l = (case l of (pre, cont, ops, n) \<Rightarrow> (pre, cont, filter (\<lambda>x. \<not> credential x) ops, n))"

text \<open>The line the card keeps: a continuation without operands becomes empty, to be skipped.\<close>

definition kept :: "bool \<Rightarrow> jcl_line \<Rightarrow> cstr" where
  "kept first l =
     (let t = line_text (uncredentialed l) in if \<not> first \<and> jobcard_operands_empty t then [] else t)"

lemma keywords_ok: "keyword_ok ''USER''" "keyword_ok ''PASSWORD''"
  by (auto simp: keyword_ok_def)

lemma names_disjoint: "names ''USER'' x \<Longrightarrow> \<not> names ''PASSWORD'' x"
  by (cases x) (auto simp: names_def c_prefix_def)

lemma strip_line_card:
  assumes "line_ok l"
  shows "strip_line first (Some (line_text l)) = (Some (kept first l), int (credentials l))"
proof -
  obtain pre cont ops n where l: "l = (pre, cont, ops, n)" by (cases l)
  let ?nu = "\<lambda>x. \<not> names ''USER'' x"
  from assms have pre: "prefix_ok pre" and ops: "\<forall>x \<in> set ops. operand_ok False x \<and> x \<noteq> [] \<and> c_at x 0 \<noteq> CHR ''=''
      \<and> (names ''USER'' x \<or> names ''PASSWORD'' x \<longrightarrow> squote \<notin> set x)"
    by (auto simp: line_ok_def l oper_ok_def list_all_iff)
  have u: "jobcard_strip_operand (card_line pre cont ops n) ''USER'' =
      (card_line pre cont (filter ?nu ops) n, int (length (filter (names ''USER'') ops)))"
    using strip_loop_card[OF keywords_ok(1) pre, of ops cont n 0] ops by (simp add: jobcard_strip_operand_def)
  have p: "jobcard_strip_operand (card_line pre cont (filter ?nu ops) n) ''PASSWORD'' =
      (card_line pre cont (filter (\<lambda>x. \<not> names ''PASSWORD'' x) (filter ?nu ops)) n,
       int (length (filter (names ''PASSWORD'') (filter ?nu ops))))"
    using strip_loop_card[OF keywords_ok(2) pre, of "filter ?nu ops" cont n 0] ops
    by (simp add: jobcard_strip_operand_def)
  have f: "filter (\<lambda>x. \<not> names ''PASSWORD'' x) (filter ?nu ops) = filter (\<lambda>x. \<not> credential x) ops"
    by (simp add: credential_def conj_commute)
  have c: "length (filter (names ''USER'') ops) + length (filter (names ''PASSWORD'') (filter ?nu ops))
      = length (filter credential ops)"
    using names_disjoint by (induction ops) (auto simp: credential_def)
  show ?thesis
    using u p f c
    by (simp add: strip_line_def line_text_def l kept_def uncredentialed_def credentials_def Let_def
        flip: of_nat_add)
qed

lemma strip_lines_card:
  assumes "list_all line_ok ls"
  shows "start \<le> length before \<Longrightarrow>
    strip_lines start (length before) (length ls) (before @ map (Some \<circ> line_text) ls @ after) r =
    (r + int (\<Sum>l \<leftarrow> ls. credentials l),
     before @ (case ls of [] \<Rightarrow> [] | l # k \<Rightarrow> Some (kept (length before \<le> start) l) # map (Some \<circ> kept False) k) @ after)"
  using assms
proof (induction ls arbitrary: before r)
  case (Cons l ls)
  let ?k = "Some (kept (length before \<le> start) l)"
  have "strip_lines start (length before) (length (l # ls)) (before @ map (Some \<circ> line_text) (l # ls) @ after) r
      = strip_lines start (length (before @ [?k])) (length ls) ((before @ [?k]) @ map (Some \<circ> line_text) ls @ after)
          (r + int (credentials l))"
    using Cons.prems by (simp add: nth_append strip_line_card list_update_append)
  also have "\<dots> = (r + int (credentials l) + int (\<Sum>l \<leftarrow> ls. credentials l), (before @ [?k]) @
      (case ls of [] \<Rightarrow> [] | l # k \<Rightarrow> Some (kept (length (before @ [?k]) \<le> start) l) # map (Some \<circ> kept False) k) @ after)"
    using Cons.prems by (intro Cons.IH) auto
  also have "(case ls of [] \<Rightarrow> [] | l # k \<Rightarrow> Some (kept (length (before @ [?k]) \<le> start) l) # map (Some \<circ> kept False) k)
      = map (Some \<circ> kept False) ls"
    using Cons.prems by (cases ls) auto
  finally show ?case by (simp add: algebra_simps)
qed simp

lemma kept_clean:
  assumes "line_ok l"
  shows "jobcard_find_operand (Some (kept first l)) (Some ''USER'') = None"
    and "jobcard_find_operand (Some (kept first l)) (Some ''PASSWORD'') = None"
proof -
  obtain pre cont ops n where l: "l = (pre, cont, ops, n)" by (cases l)
  have "jobcard_find_operand (Some (line_text (uncredentialed l))) (Some kw) = None"
    if "kw = ''USER'' \<or> kw = ''PASSWORD''" for kw
    unfolding line_text_def uncredentialed_def l prod.case
    using assms that keywords_ok
    by (intro find_operand_none) (auto simp: line_ok_def l oper_ok_def credential_def list_all_iff)
  moreover have "jobcard_find_operand (Some []) (Some kw) = None" for kw
    by (simp add: jobcard_find_operand_def)
  ultimately show "jobcard_find_operand (Some (kept first l)) (Some ''USER'') = None"
    and "jobcard_find_operand (Some (kept first l)) (Some ''PASSWORD'') = None"
    by (simp_all add: kept_def Let_def)
qed



text \<open>A quoted value is cut at the comma inside it, and what follows then reads as an operand.\<close>

lemma quoted_password_leaves_user:
  "jobcard_strip_credentials (Some [Some (''//J JOB PASSWORD='' @ [squote] @ ''A,USER=X'' @ [squote])]) 0 0
     = (1, Some [Some (''//J JOB USER=X'' @ [squote])])"
  "jobcard_find_operand (Some (''//J JOB USER=X'' @ [squote])) (Some ''USER'') = Some 8"
  by code_simp+

section \<open>Continuing\<close>

text \<open>Quotes open and depth of parentheses behind a text.\<close>

fun scan_state :: "bool \<Rightarrow> int \<Rightarrow> cstr \<Rightarrow> bool \<times> int" where
  "scan_state q d [] = (q, d)"
| "scan_state q d (c # r) =
     (if c = squote then scan_state (\<not> q) d r
      else if q then scan_state q d r
      else if c = CHR ''('' then scan_state q (d + 1) r
      else if c = CHR '')'' then scan_state q (d - 1) r
      else scan_state q d r)"

lemma last_separator_some:
  "last_separator q d i found s = Some k \<Longrightarrow>
   found = Some k \<or> (i \<le> k \<and> k < i + length s \<and> s ! (k - i) = CHR '','' \<and> scan_state q d (take (k - i) s) = (False, 0))"
proof (induction s arbitrary: q d i found)
  case (Cons c r)
  define q' where "q' = (if c = squote then \<not> q else q)"
  define d' where "d' = (if c = squote \<or> q then d else if c = CHR ''('' then d + 1 else if c = CHR '')'' then d - 1 else d)"
  define f' where "f' = (if c \<noteq> squote \<and> \<not> q \<and> c = CHR '','' \<and> d = 0 then Some i else found)"
  have "last_separator q' d' (Suc i) f' r = Some k"
    using Cons.prems by (auto simp: q'_def d'_def f'_def split: if_splits)
  from Cons.IH[OF this] consider (f) "f' = Some k" | (r) "Suc i \<le> k" "k < Suc i + length r"
      "r ! (k - Suc i) = CHR '',''" "scan_state q' d' (take (k - Suc i) r) = (False, 0)"
    by blast
  then show ?case
  proof cases
    case f
    then show ?thesis by (auto simp: f'_def split: if_splits)
  next
    case r
    then obtain j where j: "k - i = Suc j" "k - Suc i = j" by (metis Suc_diff_le diff_Suc_Suc)
    have "scan_state q d (c # take j r) = scan_state q' d' (take j r)"
      by (simp add: q'_def d'_def)
    with r j show ?thesis by (simp add: nth_Cons')
  qed
qed simp

lemma continue_outcome:
  assumes "jobcard_continue (Some l) sz = (rc, l', moved)"
  shows "case (rc, moved) of
      (rc, None) \<Rightarrow>
        rc = 0 \<and> l' = Some (rstrip l) \<and> (rstrip l = [] \<or> last (rstrip l) = CHR '','')
        \<or> rc = 1 \<and> l' = Some (rstrip l @ '','') \<and> length (rstrip l) < 71
        \<or> rc = -1 \<and> l' = Some (rstrip l) \<and> length (rstrip l) \<ge> 71
    | (rc, Some crd) \<Rightarrow>
        rc = 2 \<and> (\<exists>keep oper n. rstrip l = keep @ '','' @ oper \<and> l' = Some (keep @ '','') \<and> crd = indent @ oper @ '',''
          \<and> scan_state False 0 keep = (False, 0) \<and> length (rstrip l) = 71 \<and> length crd \<le> 71 \<and> sz = Some n \<and> length crd < n)"
proof -
  let ?l = "rstrip l"
  show ?thesis
  proof (cases "?l = [] \<or> last ?l = CHR '','' \<or> length ?l < JOBCARD_LAST_COL \<or> sz = None
      \<or> length ?l > JOBCARD_LAST_COL \<or> last_separator False 0 0 None ?l = None")
    case True
    with assms show ?thesis
      by (auto simp: jobcard_continue_def Let_def JOBCARD_LAST_COL_def split: if_splits option.splits)
  next
    case False
    then obtain n k where n: "sz = Some n" and k: "last_separator False 0 0 None ?l = Some k"
        and len: "length ?l = 71" "?l \<noteq> []" "last ?l \<noteq> CHR '',''"
      by (auto simp: JOBCARD_LAST_COL_def)
    from last_separator_some[OF k] have s: "k < 71" "?l ! k = CHR '',''" "scan_state False 0 (take k ?l) = (False, 0)"
      using len by auto
    then have split: "?l = take k ?l @ '','' @ drop (Suc k) ?l" "take (Suc k) ?l = take k ?l @ '',''"
      using id_take_nth_drop[of k ?l] len(1) by (simp_all add: take_Suc_conv_app_nth)
    show ?thesis
    proof (cases moved)
      case None
      with assms n k len show ?thesis
        by (auto simp: jobcard_continue_def Let_def JOBCARD_LAST_COL_def split: if_splits)
    next
      case (Some crd)
      with assms n k len have "rc = 2" "l' = Some (take k ?l @ '','')" "crd = indent @ drop (Suc k) ?l @ '',''"
          "length crd \<le> 71" "length crd < n"
        by (auto simp: jobcard_continue_def Let_def JOBCARD_LAST_COL_def split(2) split: if_splits)
      with Some n s(3) len(1) split(1) show ?thesis by auto
    qed
  qed
qed

text \<open>
  Continuing a card loses nothing and stays in column 71: the line, without its trailing
  blanks, is either left alone (it is empty or ends with a comma), or gets a comma, or is split
  behind a comma outside quotes and parentheses, its rest going to a card of its own with a comma
  that fits both the card and the buffer.  When none of that is possible the line is unchanged.
\<close>
theorem card_continued:
  assumes "jobcard_continue (Some l) sz = (rc, l', moved)"
  shows "case (rc, moved) of
      (rc, None) \<Rightarrow>
        rc = 0 \<and> l' = Some (rstrip l) \<and> (rstrip l = [] \<or> last (rstrip l) = CHR '','')
        \<or> rc = 1 \<and> l' = Some (rstrip l @ '','') \<and> length (rstrip l) < 71
        \<or> rc = -1 \<and> l' = Some (rstrip l) \<and> length (rstrip l) \<ge> 71
    | (rc, Some crd) \<Rightarrow>
        rc = 2 \<and> (\<exists>keep oper n. rstrip l = keep @ '','' @ oper \<and> l' = Some (keep @ '','') \<and> crd = indent @ oper @ '',''
          \<and> scan_state False 0 keep = (False, 0) \<and> length (rstrip l) = 71 \<and> length crd \<le> 71 \<and> sz = Some n \<and> length crd < n)"
  by (rule continue_outcome[OF assms])

lemma card_continued_witness:
  "\<exists>keep oper. rstrip (''//J JOB ('' @ replicate 53 (CHR ''1'') @ ''),X=(A,B)'') = keep @ '','' @ oper \<and>
     scan_state False 0 keep = (False, 0) \<and> indent @ ''X=(A,B),'' = indent @ oper @ '',''"
proof -
  have "jobcard_continue (Some (''//J JOB ('' @ replicate 53 (CHR ''1'') @ ''),X=(A,B)'')) (Some 81)
      = (2, Some (''//J JOB ('' @ replicate 53 (CHR ''1'') @ ''),''), Some (indent @ ''X=(A,B),''))"
    by code_simp
  from card_continued[OF this] show ?thesis by auto
qed

end
