(* ===== verification/JobsApi.thy ===== *)
theory JobsApi
  imports Dispatch JobReq Jwn ReqBody
begin

text \<open>
  The job lookup of \<^verbatim>\<open>src/jobsapi.c\<close> and the handlers that show, cancel and purge one job.

  JES2 is seen through the calls of libc370: \<open>je_open\<close> is \<^verbatim>\<open>jesopen\<close>, \<open>je_queue\<close> is \<^verbatim>\<open>jesjob\<close>
  with the job id as its filter, at the k-th look of the request, because the queue changes while
  a request runs, and \<open>je_cancel\<close> is \<^verbatim>\<open>jescanj\<close>.  What is asked of JES2 is recorded in
  \<open>rs_calls\<close>.  The flag bits of a queue entry are those of libc370 and are fields of the
  environment too.
\<close>

section \<open>Jobs\<close>

record JESDD =
  dsid :: nat
  ddname :: cstr
  stepname :: cstr
  procstep :: cstr
  recfm :: byte
  lrecl :: u32
  oclass :: char
  dd_records :: nat
  mttr :: u32
  dd_flag :: byte

record JESJOB =
  jobname :: cstr
  jobid :: cstr
  owner :: cstr
  sysid :: cstr
  eclass :: char
  q_type :: byte
  q_flag2 :: byte
  completion :: u32
  jtflg :: byte
  start_time :: "cstr option"
  end_time :: "cstr option"
  jesdd :: "JESDD option list"

datatype canj =
  CANJ_OK | CANJ_NOJB | CANJ_BADI | CANJ_SYNTX | CANJ_ICAN | CANJ_OUTP | CANJ_OTHER int

record jes_flags =
  f_XEQ :: byte
  f_INPUT :: byte
  f_XMIT :: byte
  f_SETUP :: byte
  f_RECEIVE :: byte
  f_OUTPUT :: byte
  f_HARDCPY :: byte
  f_QUEINIT :: byte
  f_JESJOB_ABD :: byte
  f_JESJOB_JF :: byte
  f_CANJ_OUTP :: int
  f_SYSIN :: byte
  f_PDBINJCL :: nat
  f_RECFM_F :: byte
  f_RECFM_V :: byte
  f_RECFM_U :: byte
  f_RECFM_BR :: byte
  f_RECFM_CA :: byte
  f_RECFM_CM :: byte
  f_RECFM_SB :: byte

record jes_env =
  je_flags :: jes_flags
  je_racf :: "nat option \<Rightarrow> cstr \<Rightarrow> cstr \<Rightarrow> bool \<Rightarrow> int"
  je_acee :: "nat option"
  je_userid :: "cstr option"
  je_cmp :: "cstr \<Rightarrow> cstr \<Rightarrow> bool"
  je_open :: "nat \<Rightarrow> nat option"
  je_queue :: "nat \<Rightarrow> cstr \<Rightarrow> JESJOB option list option"
  je_cancel :: "cstr \<Rightarrow> cstr \<Rightarrow> bool \<Rightarrow> canj"
  je_owner_size :: nat

section \<open>Finding a job and clearing the caller for it\<close>

text \<open>The loop over the queue: the one job of that name and id, none if there are two.\<close>

fun scan_jobs ::
  "(cstr \<Rightarrow> cstr \<Rightarrow> bool) \<Rightarrow> cstr \<Rightarrow> cstr \<Rightarrow> JESJOB option \<Rightarrow> JESJOB option list \<Rightarrow> JESJOB option" where
  "scan_jobs cmp name jid found [] = found"
| "scan_jobs cmp name jid found (None # js) = scan_jobs cmp name jid found js"
| "scan_jobs cmp name jid found (Some job # js) =
     (if \<not> cmp (jobname job) name then scan_jobs cmp name jid found js
      else if jobid job \<noteq> jid then scan_jobs cmp name jid found js
      else if found \<noteq> None then None
      else scan_jobs cmp name jid (Some job) js)"

text \<open>An owner JES2 has not written yet is completed by the submitter; one it has written stays.\<close>

definition complete_owner :: "jes_env \<Rightarrow> cstr option \<Rightarrow> JESJOB \<Rightarrow> JESJOB" where
  "complete_owner env submitter job =
     (case submitter of
        None \<Rightarrow> job
      | Some u \<Rightarrow> if u \<noteq> [] \<and> owner job = [] then job\<lparr>owner := take (je_owner_size env - 1) u\<rparr> else job)"

definition judge :: "jes_env \<Rightarrow> jwn_op \<Rightarrow> JESJOB \<Rightarrow> jwn_decision" where
  "judge env op job =
     fst (jobauth_job (jobauth_init (je_racf env) (je_acee env) (je_userid env)) op
            (Some (owner job, jobname job, jobid job)))"

definition find_job_by_name_and_id ::
  "jes_env \<Rightarrow> nat \<Rightarrow> cstr option \<Rightarrow> cstr option \<Rightarrow> jwn_op \<Rightarrow> cstr option \<Rightarrow> rsession \<Rightarrow>
     (JESJOB option \<times> jwn_decision) \<times> rsession" where
  "find_job_by_name_and_id env look name jid op submitter s =
     (case (name, jid) of
        (Some name, Some jid) \<Rightarrow>
          let jes = je_open env look; s = snd (session_register_jes s jes) in
          (case jes of
             None \<Rightarrow> ((None, JWN_HIDE), do_call (Wto JesUnavailable) s)
           | Some _ \<Rightarrow>
               let r = (case je_queue env look jid of
                          None \<Rightarrow> (None, JWN_HIDE)
                        | Some js \<Rightarrow>
                            (case scan_jobs (je_cmp env) name jid None js of
                               None \<Rightarrow> (None, JWN_HIDE)
                             | Some job \<Rightarrow>
                                 let job = complete_owner env submitter job; verdict = judge env op job
                                 in (if verdict = JWN_HIDE then None else Some job, verdict)))
               in (r, session_jesclose s jes))
      | _ \<Rightarrow> ((None, JWN_HIDE), s))"

section \<open>Answers\<close>

definition JOBS_CATEGORY_UNEXPECTED :: u32 where "JOBS_CATEGORY_UNEXPECTED = 8"
definition JOBS_REASON_SERVER_ERROR :: u32 where "JOBS_REASON_SERVER_ERROR = 1"
definition JOBS_ERR_MSG_SERVER_ERROR :: cstr where "JOBS_ERR_MSG_SERVER_ERROR = ''Internal server error occurred''"
definition REASON_JOB_NOT_FOUND :: u32 where "REASON_JOB_NOT_FOUND = 2"
definition REASON_INVALID_REQUEST :: u32 where "REASON_INVALID_REQUEST = 4"
definition REASON_STC_PURGE :: u32 where "REASON_STC_PURGE = 5"
definition REASON_STC_CANCEL :: u32 where "REASON_STC_CANCEL = 13"
definition REASON_JOB_ON_OUTPUT_QUEUE :: u32 where "REASON_JOB_ON_OUTPUT_QUEUE = 14"
definition REASON_JOB_REQUEST_NOT_IMPLEMENTED :: u32 where "REASON_JOB_REQUEST_NOT_IMPLEMENTED = 15"
definition MAX_ERR_MSG_LENGTH :: nat where "MAX_ERR_MSG_LENGTH = 256"
definition NOT_FOUND_ECHO_SZ :: nat where "NOT_FOUND_ECHO_SZ = 65"
definition MSG_PURGE_PENDING :: cstr where
  "MSG_PURGE_PENDING = ''Purge requested. JES2 keeps the job marked for purge until the output it holds is released.''"

text \<open>A quote, a backslash and what sorts below the blank become question marks.\<close>

definition echo_request_field :: "nat \<Rightarrow> cstr option \<Rightarrow> cstr" where
  "echo_request_field sz s =
     (case s of
        None \<Rightarrow> []
      | Some t \<Rightarrow> map (\<lambda>c. if c < blank \<or> c = dquote \<or> c = bslash then CHR ''?'' else c) (take (sz - 1) t))"

definition send_job_not_found :: "httpd \<Rightarrow> cstr option \<Rightarrow> cstr option \<Rightarrow> rsession \<Rightarrow> rsession" where
  "send_job_not_found srv name jid s =
     snd (sendErrorResponse srv HTTP_STATUS_NOT_FOUND CATEGORY_SERVICE RC_WARNING REASON_JOB_NOT_FOUND
       (Some (c_snprintf MAX_ERR_MSG_LENGTH
          (''Job '' @ [CHR 0x27] @ echo_request_field NOT_FOUND_ECHO_SZ name @ ''('' @
             echo_request_field NOT_FOUND_ECHO_SZ jid @ '')'' @ [CHR 0x27] @ '' not found'')))
       [] s)"

text \<open>A run of builder calls whose results are dropped but for the last, as for one object.\<close>

fun run_ops :: "json_op list \<Rightarrow> int \<Rightarrow> json_op" where
  "run_ops [] rc b = (rc, b)"
| "run_ops (f # fs) rc b = (let (rc, b) = f b in run_ops fs rc b)"

definition run_object :: "(nat \<Rightarrow> bool) \<Rightarrow> json_member list \<Rightarrow> json_op" where
  "run_object al ms = run_ops (startJsonObject al # map (emit_member al) ms @ [endJsonObject al]) 0"

section \<open>Cancel and purge\<close>

definition PURGE_LOOKS :: nat where "PURGE_LOOKS = 5"

fun still_queued_loop :: "jes_env \<Rightarrow> nat \<Rightarrow> nat \<Rightarrow> cstr \<Rightarrow> cstr \<Rightarrow> rsession \<Rightarrow> bool \<times> rsession" where
  "still_queued_loop env look 0 name jid s = (True, s)"
| "still_queued_loop env look (Suc n) name jid s =
     (let ((job, d), s) = find_job_by_name_and_id env look (Some name) (Some jid) JWN_OP_PURGE None s
      in if job = None then (False, s) else still_queued_loop env (Suc look) n name jid s)"

definition job_still_queued :: "jes_env \<Rightarrow> cstr \<Rightarrow> cstr \<Rightarrow> rsession \<Rightarrow> bool \<times> rsession" where
  "job_still_queued env name jid s = still_queued_loop env 1 PURGE_LOOKS name jid s"

definition report :: "httpd \<Rightarrow> int \<Rightarrow> u32 \<Rightarrow> u32 \<Rightarrow> u32 \<Rightarrow> cstr \<Rightarrow> rsession \<Rightarrow> rsession" where
  "report srv status category rc reason msg s =
     snd (sendErrorResponse srv status category rc reason (Some msg) [] s)"

definition feedback_members :: "bool \<Rightarrow> JESJOB \<Rightarrow> json_member list" where
  "feedback_members pending job =
     (let pr = (\<lambda>v. Some (jwn_printable JWN_PRTSZ (Some v))) in
      [MStr ''jobid'' (pr (jobid job)),
       MStr ''message'' (Some (if pending then MSG_PURGE_PENDING else ''Request was successful.'')),
       MStr ''original-jobid'' (pr (jobid job)),
       MStr ''jobname'' (pr (jobname job)),
       MStr ''owner'' (pr (owner job)),
       MNum ''status'' 0])"

text \<open>What is answered once JES2 has answered.\<close>

definition answer_cancel ::
  "httpd \<Rightarrow> jes_env \<Rightarrow> bool \<Rightarrow> JsonBuilder option \<Rightarrow> cstr option \<Rightarrow> cstr option \<Rightarrow> JESJOB \<Rightarrow> canj \<Rightarrow> rsession \<Rightarrow> rsession" where
  "answer_cancel srv env purge builder name jid job rc s =
     (case rc of
        CANJ_OK \<Rightarrow>
          let (pending, s) = (if purge then job_still_queued env (take 8 (jobname job)) (take 8 (jobid job)) s
                              else (False, s));
              (rc, builder) = on_builder (run_object (hd_alloc srv) (feedback_members pending job)) builder
          in if rc < 0 then s else snd (sendJSONResponse srv HTTP_STATUS_OK builder s)
      | CANJ_NOJB \<Rightarrow> send_job_not_found srv name jid s
      | CANJ_BADI \<Rightarrow> send_job_not_found srv name jid s
      | CANJ_SYNTX \<Rightarrow> send_job_not_found srv name jid s
      | CANJ_ICAN \<Rightarrow>
          if \<not> purge
          then report srv HTTP_STATUS_BAD_REQUEST CATEGORY_SERVICE RC_WARNING REASON_STC_CANCEL
                 ''Cannot cancel a started task or a TSO user'' s
          else report srv HTTP_STATUS_BAD_REQUEST CATEGORY_SERVICE RC_WARNING REASON_STC_PURGE
                 ''Cannot purge a started task'' s
      | CANJ_OUTP \<Rightarrow>
          if \<not> purge
          then report srv HTTP_STATUS_BAD_REQUEST CATEGORY_SERVICE RC_WARNING REASON_JOB_ON_OUTPUT_QUEUE
                 (c_snprintf MAX_ERR_MSG_LENGTH (''Job '' @ [CHR 0x27] @ jwn_printable JWN_PRTSZ (Some (jobname job)) @ ''(''
                    @ jwn_printable JWN_PRTSZ (Some (jobid job)) @ '')'' @ [CHR 0x27]
                    @ '' is on the output queue and is not running'')) s
          else report srv HTTP_STATUS_INTERNAL_SERVER_ERROR JOBS_CATEGORY_UNEXPECTED RC_SEVERE
                 JOBS_REASON_SERVER_ERROR JOBS_ERR_MSG_SERVER_ERROR (do_call (Wto (JescanjRc (f_CANJ_OUTP (je_flags env)))) s)
      | CANJ_OTHER n \<Rightarrow>
          report srv HTTP_STATUS_INTERNAL_SERVER_ERROR JOBS_CATEGORY_UNEXPECTED RC_SEVERE
            JOBS_REASON_SERVER_ERROR JOBS_ERR_MSG_SERVER_ERROR (do_call (Wto (JescanjRc n)) s))"

definition cancel_job :: "httpd \<Rightarrow> jes_env \<Rightarrow> bool \<Rightarrow> rsession \<Rightarrow> int \<times> rsession" where
  "cancel_job srv env purge s =
     (let name = getPathParam s ''job-name''; jid = getPathParam s ''jobid'';
          builder = createResponseBuilder srv in
      if name = None \<or> jid = None then
        (0, report srv HTTP_STATUS_BAD_REQUEST JOBS_CATEGORY_UNEXPECTED RC_SEVERE JOBS_REASON_SERVER_ERROR
              JOBS_ERR_MSG_SERVER_ERROR s)
      else
        let ((job, decision), s) = find_job_by_name_and_id env 0 name jid JWN_OP_PURGE None s in
        (case job of
           None \<Rightarrow> (0, send_job_not_found srv name jid s)
         | Some job \<Rightarrow>
             if decision \<noteq> JWN_ALLOW then
               (0, snd (send_not_authorized srv
                     (Some (if purge then ''Authorization failed - You may not purge this job.''
                            else ''Authorization failed - You may not cancel this job.'')) s))
             else
               let cancel_name = take 8 (jobname job); cancel_id = take 8 (jobid job);
                   s = do_call (Jescanj cancel_name cancel_id purge) s
               in (0, answer_cancel srv env purge builder name jid job (je_cancel env cancel_name cancel_id purge) s)))"

definition jobPurgeHandler :: "httpd \<Rightarrow> jes_env \<Rightarrow> rsession \<Rightarrow> int \<times> rsession" where
  "jobPurgeHandler srv env s = cancel_job srv env True s"

text \<open>
  \<open>read_content\<close> stands for the call of \<^verbatim>\<open>read_request_content\<close> (theory ReqBody) on the
  connection of the session: its return code, the body if it allocated one, and the session behind
  the read.  \<open>to_host\<close> is the translation of \<^verbatim>\<open>http_xlate\<close>.
\<close>

definition jobCancelHandler ::
  "httpd \<Rightarrow> jes_env \<Rightarrow> (byte list \<Rightarrow> cstr) \<Rightarrow> (rsession \<Rightarrow> (int \<times> byte list option) \<times> rsession) \<Rightarrow> rsession \<Rightarrow> int \<times> rsession" where
  "jobCancelHandler srv env to_host read_content s =
     (let ((rc, body), s) = read_content s in
      if rc = REQBODY_NOMEM \<or> rc = REQBODY_TOO_LARGE then (0, snd (send_body_error srv rc s))
      else
        let request = (case body of
                         Some b \<Rightarrow> if rc = REQBODY_OK then jobreq_parse (Some (to_host b)) else JOBREQ_NONE
                       | None \<Rightarrow> JOBREQ_NONE);
            bad = (\<lambda>reason msg. report srv HTTP_STATUS_BAD_REQUEST CATEGORY_SERVICE RC_ERROR reason msg s)
        in (0, case request of
            JOBREQ_CANCEL \<Rightarrow> snd (cancel_job srv env False s)
          | JOBREQ_HOLD \<Rightarrow> bad REASON_JOB_REQUEST_NOT_IMPLEMENTED
              (c_snprintf MAX_ERR_MSG_LENGTH (''Update request '' @ [CHR 0x27] @ ''hold'' @ [CHR 0x27] @ '' is not implemented''))
          | JOBREQ_RELEASE \<Rightarrow> bad REASON_JOB_REQUEST_NOT_IMPLEMENTED
              (c_snprintf MAX_ERR_MSG_LENGTH (''Update request '' @ [CHR 0x27] @ ''release'' @ [CHR 0x27] @ '' is not implemented''))
          | JOBREQ_UNKNOWN \<Rightarrow> bad REASON_INVALID_REQUEST
              (''Update request is not '' @ [CHR 0x27] @ ''cancel'' @ [CHR 0x27] @ '', '' @ [CHR 0x27] @ ''hold'' @ [CHR 0x27]
                 @ '' or '' @ [CHR 0x27] @ ''release'' @ [CHR 0x27])
          | JOBREQ_NONE \<Rightarrow> bad REASON_INVALID_REQUEST ''Request does not contain a valid job update request''))"

section \<open>The decision\<close>

text \<open>The first question of a request needs no fact about RACF: the cache is still empty.\<close>

definition policy :: "jes_env \<Rightarrow> jwn_op \<Rightarrow> JESJOB \<Rightarrow> jwn_decision" where
  "policy env op job =
     (case (je_acee env, je_userid env) of
        (Some a, Some u) \<Rightarrow>
          spool_policy (je_racf env (Some a) ''JESSPOOL'') (map toupper (take 8 u)) op
            (owner job, jobname job, jobid job)
      | _ \<Rightarrow> JWN_HIDE)"

lemma jobauth_init_fields:
  "ja_ctx (jobauth_init racf acee userid) =
     \<lparr>jc_acee_present = (acee \<noteq> None),
      jc_user = Some (case userid of None \<Rightarrow> [] | Some u \<Rightarrow> map toupper (take 8 u)),
      jc_auth_fn = Some (racf acee ''JESSPOOL''), jc_cache = Some []\<rparr>"
proof -
  have "jobauth_racf racf acee = racf acee ''JESSPOOL''" by (intro ext) (simp add: jobauth_racf_def)
  then show ?thesis by (cases userid) (simp_all add: jobauth_init_def Let_def JWN_COMPMAX_def)
qed

lemma level_cached_empty:
  assumes "jc_cache cx = Some []" "jc_auth_fn cx = Some auth"
  shows "\<exists>level rc calls c. level_cached cx e u = ((level, rc, calls), c) \<and> level_of auth (e, u) = (level, rc)"
proof -
  obtain level rc calls where l: "jwn_level cx (Some e) u = (level, rc, calls)" by (metis prod_cases3)
  from level_of_level[OF assms(2) l] l assms(1) show ?thesis
    by (simp add: level_cached_def Let_def)
qed

lemma judge_policy: "judge env op job = policy env op job"
proof (cases "je_acee env")
  case None
  then show ?thesis
    by (simp add: judge_def policy_def jobauth_job_def jwn_check_def jobauth_init_fields closed_res_def)
next
  case (Some a)
  let ?auth = "je_racf env (Some a) ''JESSPOOL''"
  let ?u = "case je_userid env of None \<Rightarrow> [] | Some u \<Rightarrow> map toupper (take 8 u)"
  let ?cx = "ja_ctx (jobauth_init (je_racf env) (je_acee env) (je_userid env))"
  let ?e = "owner job @ ''.'' @ jobname job @ ''.'' @ jobid job"
  have cx: "jc_acee_present ?cx" "jc_user ?cx = Some ?u" "jc_cache ?cx = Some []" "jc_auth_fn ?cx = Some ?auth"
    by (simp_all add: jobauth_init_fields Some)
  obtain level rc calls c where l: "level_cached ?cx ?e (op = JWN_OP_PURGE) = ((level, rc, calls), c)"
      "level_of ?auth (?e, op = JWN_OP_PURGE) = (level, rc)"
    using level_cached_empty[OF cx(3,4)] by metis
  note d = level_of_decide[OF l(2)]
  have "judge env op job = spool_policy ?auth ?u op (owner job, jobname job, jobid job)"
  proof (cases "?u = [] \<or> (owner job = ?u \<and> \<not> has_filler ?u)
      \<or> (owner job \<noteq> [] \<and> \<not> jwn_component_ok (owner job)) \<or> \<not> jwn_component_ok (jobname job)
      \<or> \<not> jwn_component_ok (jobid job)")
    case True
    then show ?thesis using cx
      by (auto simp: judge_def jobauth_job_def jwn_check_def spool_policy_def jwn_mine_user jwn_entity_Some
          closed_res_def)
  next
    case False
    with cx l d show ?thesis
      by (cases "owner job = ?u"; cases "owner job = []")
        (simp_all add: judge_def jobauth_job_def jwn_check_def spool_policy_def jwn_mine_user jwn_entity_Some Let_def)
  qed
  then show ?thesis
    by (auto simp: policy_def Some spool_policy_def split: option.splits)
qed

section \<open>The lookup\<close>

definition is_match :: "jes_env \<Rightarrow> cstr \<Rightarrow> cstr \<Rightarrow> JESJOB \<Rightarrow> bool" where
  "is_match env name jid job \<longleftrightarrow> je_cmp env (jobname job) name \<and> jobid job = jid"

definition matches :: "jes_env \<Rightarrow> cstr \<Rightarrow> cstr \<Rightarrow> JESJOB option list \<Rightarrow> JESJOB list" where
  "matches env name jid js = [job. Some job \<leftarrow> js, is_match env name jid job]"

text \<open>What the lookup is for: the one job of that name and id that the caller may see.\<close>

definition visible_job :: "jes_env \<Rightarrow> nat \<Rightarrow> cstr \<Rightarrow> cstr \<Rightarrow> jwn_op \<Rightarrow> cstr option \<Rightarrow> JESJOB option \<times> jwn_decision" where
  "visible_job env look name jid op submitter =
     (case (je_open env look, je_queue env look jid) of
        (Some _, Some js) \<Rightarrow>
          (case matches env name jid js of
             [job] \<Rightarrow>
               let job = complete_owner env submitter job; d = policy env op job
               in (if d = JWN_HIDE then None else Some job, d)
           | _ \<Rightarrow> (None, JWN_HIDE))
      | _ \<Rightarrow> (None, JWN_HIDE))"

lemma scan_jobs_matches:
  "scan_jobs (je_cmp env) name jid found js =
     (case matches env name jid js of
        [] \<Rightarrow> found | [job] \<Rightarrow> (if found = None then Some job else None) | _ \<Rightarrow> None)"
proof (induction js arbitrary: found)
  case Nil
  then show ?case by (simp add: matches_def)
next
  case (Cons j js)
  show ?case
  proof (cases j)
    case None
    with Cons show ?thesis by (simp add: matches_def)
  next
    case (Some job)
    have "matches env name jid (j # js) = (if is_match env name jid job then [job] else []) @ matches env name jid js"
      by (simp add: matches_def Some)
    with Some Cons show ?thesis
      by (cases "matches env name jid js") (auto simp: is_match_def split: list.splits)
  qed
qed

text \<open>What the lookup leaves of the session does not depend on the queue.\<close>

definition looked :: "jes_env \<Rightarrow> nat \<Rightarrow> rsession \<Rightarrow> rsession" where
  "looked env look s =
     (let t = snd (session_register_jes s (je_open env look)) in
      if je_open env look = None then do_call (Wto JesUnavailable) t
      else session_jesclose t (je_open env look))"

lemma find_job_spec:
  "find_job_by_name_and_id env look (Some name) (Some jid) op submitter s =
     (visible_job env look name jid op submitter, looked env look s)"
  by (cases "je_open env look"; cases "je_queue env look jid")
    (auto simp: find_job_by_name_and_id_def visible_job_def looked_def scan_jobs_matches judge_policy Let_def
      split: list.splits)

definition is_jescanj :: "os_call \<Rightarrow> bool" where
  "is_jescanj c = (case c of Jescanj _ _ _ \<Rightarrow> True | _ \<Rightarrow> False)"

text \<open>The requests to cancel or purge a job that reached JES2.\<close>

definition cancels :: "rsession \<Rightarrow> os_call list" where
  "cancels s = filter is_jescanj (rs_calls s)"

lemma cancels_call [simp]:
  "cancels (do_call c s) = cancels s @ (if is_jescanj c then [c] else [])"
  by (simp add: cancels_def do_call_def)

lemma is_jescanj_simps [simp]:
  "is_jescanj (Jescanj a b c)" "\<not> is_jescanj (Wto m)" "\<not> is_jescanj (Jesclose n)" "\<not> is_jescanj (Fclose n)"
  by (simp_all add: is_jescanj_def)

lemma cancels_fields [simp]: "cancels (s\<lparr>rs_jes := j\<rparr>) = cancels s"
  by (simp add: cancels_def)

lemma cancels_looked [simp]: "cancels (looked env look s) = cancels s"
  by (simp add: looked_def Let_def session_register_jes_def session_jesclose_def split: option.splits)

lemma cancels_answers: "answers s t \<Longrightarrow> cancels t = cancels s"
  by (auto simp: answers_def cancels_def)

lemma cancels_report [simp]:
  "cancels (report srv status category rc reason msg s) = cancels s"
  "cancels (send_job_not_found srv name jid s) = cancels s"
  "cancels (snd (send_not_authorized srv d s)) = cancels s"
  by (simp_all add: report_def send_job_not_found_def send_not_authorized_def cancels_answers[OF answers_report])

lemma answers_json: "answers s (snd (sendJSONResponse srv status b s))"
  by (auto simp: sendJSONResponse_def answers_refl intro: answers_then answers_headers answers_data
      split: option.splits)

lemma cancels_json [simp]: "cancels (snd (sendJSONResponse srv status b s)) = cancels s"
  by (rule cancels_answers[OF answers_json])

lemma cancels_still_queued [simp]: "cancels (snd (still_queued_loop env look n name jid s)) = cancels s"
  by (induction n arbitrary: look s) (auto simp: find_job_spec split: prod.splits)

lemma cancels_answer_cancel [simp]: "cancels (answer_cancel srv env purge builder name jid job rc s) = cancels s"
proof (cases rc)
  case CANJ_OK
  have "cancels (snd (job_still_queued env n i s)) = cancels s" for n i
    by (simp add: job_still_queued_def)
  with CANJ_OK show ?thesis
    by (auto simp: answer_cancel_def split: prod.splits) (metis snd_conv)+
qed (simp_all add: answer_cancel_def)

text \<open>
  C17: A request to cancel or purge reaches JES2 exactly when there is one job of that name and id on
  the queue and the policy allows its purge, and then it names that very job, once.  In every other
  case (no such job, two of them, a hidden one, one that may only be read, no access to the spool)
  nothing is asked of JES2.
\<close>
theorem cancel_exactly_authorized:
  "cancels (snd (cancel_job srv env purge s)) = cancels s @
     (case (getPathParam s ''job-name'', getPathParam s ''jobid'') of
        (Some name, Some jid) \<Rightarrow>
          (case visible_job env 0 name jid JWN_OP_PURGE None of
             (Some job, JWN_ALLOW) \<Rightarrow> [Jescanj (take 8 (jobname job)) (take 8 (jobid job)) purge]
           | _ \<Rightarrow> [])
      | _ \<Rightarrow> [])"
  by (auto simp: cancel_job_def find_job_spec Let_def split: option.splits prod.splits jwn_decision.splits)

text \<open>A queue and a caller for the witnesses: one job of the caller, one of somebody else.\<close>

definition sample_flags :: jes_flags where
  "sample_flags = \<lparr>f_XEQ = 0x40, f_INPUT = 0x80, f_XMIT = 0x08, f_SETUP = 0x20, f_RECEIVE = 0x10, f_OUTPUT = 0x04,
     f_HARDCPY = 0x02, f_QUEINIT = 0x01, f_JESJOB_ABD = 0x80, f_JESJOB_JF = 0x40, f_CANJ_OUTP = 20, f_SYSIN = 0x01,
     f_PDBINJCL = 2, f_RECFM_F = 0x80, f_RECFM_V = 0x40, f_RECFM_U = 0xC0, f_RECFM_BR = 0x10, f_RECFM_CA = 0x04,
     f_RECFM_CM = 0x02, f_RECFM_SB = 0x08\<rparr>"

definition sample_dd :: JESDD where
  "sample_dd = \<lparr>dsid = 102, ddname = ''SYSUT2'', stepname = ''COPY'', procstep = [], recfm = 0x90, lrecl = 80,
     oclass = CHR ''A'', dd_records = 2, mttr = 0x10001, dd_flag = 0\<rparr>"

definition sample_job :: JESJOB where
  "sample_job = \<lparr>jobname = ''MIKE1A'', jobid = ''JOB00007'', owner = ''MIKE1'', sysid = ''TK4-'', eclass = CHR ''A'',
     q_type = 0x04, q_flag2 = 0, completion = 0, jtflg = 0, start_time = None, end_time = None,
     jesdd = [None, Some sample_dd]\<rparr>"

definition other_job :: JESJOB where
  "other_job = sample_job\<lparr>jobname := ''PAYROLL'', jobid := ''JOB00008'', owner := ''BOB''\<rparr>"

definition sample_env :: jes_env where
  "sample_env = \<lparr>je_flags = sample_flags,
     je_racf = (\<lambda>a cls e u. if take 8 e = ''IBMUSER.'' then 0 else 8),
     je_acee = Some 1, je_userid = Some ''MIKE1'', je_cmp = (\<lambda>a b. a = b), je_open = (\<lambda>_. Some 7),
     je_queue = (\<lambda>_ _. Some [Some sample_job, None, Some other_job]), je_cancel = (\<lambda>_ _ _. CANJ_OK), je_owner_size = 9\<rparr>"

lemma sample_policy:
  "policy sample_env op sample_job = JWN_ALLOW" "policy sample_env op other_job = JWN_HIDE"
  by (simp_all add: policy_def sample_env_def sample_job_def other_job_def spool_policy_def has_filler_def toupper_def)

end
