(* ===== verification/JobList.thy ===== *)
theory JobList
  imports JobsApi
begin

text \<open>
  The job list and the job status of \<^verbatim>\<open>src/jobsapi.c\<close>: filters, status and return code of a job,
  the document of one job and the handlers that send it.
\<close>

section \<open>Status and return code\<close>

definition has :: "byte \<Rightarrow> byte \<Rightarrow> bool" where "has v bits \<longleftrightarrow> v AND bits \<noteq> 0"

definition job_status_str :: "jes_flags \<Rightarrow> JESJOB option \<Rightarrow> cstr" where
  "job_status_str fl job =
     (case job of
        None \<Rightarrow> ''UNKNOWN''
      | Some j \<Rightarrow>
          if q_type j = 0 then ''UNKNOWN''
          else if has (q_type j) (f_XEQ fl) then ''ACTIVE''
          else if has (q_type j) (f_INPUT fl) then ''INPUT''
          else if has (q_type j) (f_XMIT fl) then ''XMIT''
          else if has (q_type j) (f_SETUP fl) then ''SETUP''
          else if has (q_type j) (f_RECEIVE fl) then ''RECEIVE''
          else if has (q_type j) (f_OUTPUT fl OR f_HARDCPY fl) then ''OUTPUT''
          else ''UNKNOWN'')"

text \<open>The completion word is stamped \<open>0x77\<close> once the job has executed.\<close>

definition retcode :: "jes_flags \<Rightarrow> JESJOB \<Rightarrow> cstr option" where
  "retcode fl job =
     (if \<not> has (q_type job) (f_OUTPUT fl OR f_HARDCPY fl) then None
      else
        let comp = completion job in
        if drop_bit 24 comp = 0x77 then
          (let abend = drop_bit 12 comp AND 0xFFF; maxcc = comp AND 0xFFF in
           if abend \<noteq> 0 then Some (''ABEND S'' @ hex3 (unat abend))
           else if has (jtflg job) (f_JESJOB_ABD fl) \<and> maxcc \<noteq> 0 then Some (''ABEND U'' @ dec4 (unat maxcc))
           else if jtflg job = f_JESJOB_JF fl then Some ''JCL ERROR''
           else Some (''CC '' @ dec4 (unat maxcc)))
        else if comp = 4 \<or> comp = 8 \<or> comp = 36 then Some ''JCL ERROR''
        else if jtflg job = f_JESJOB_JF fl then Some ''JCL ERROR''
        else None)"

section \<open>Filters\<close>

datatype jesfilt = FILTER_NONE | FILTER_JOBNAME | FILTER_JOBID

definition STATUS_STR_SIZE :: nat where "STATUS_STR_SIZE = 16"
definition MAX_JOBS_LIMIT :: nat where "MAX_JOBS_LIMIT = 1000"

text \<open>A parameter whose value starts with an asterisk counts as absent.\<close>

definition no_star :: "cstr option \<Rightarrow> cstr option" where
  "no_star p = (case p of None \<Rightarrow> None | Some v \<Rightarrow> if c_at v 0 = CHR ''*'' then None else Some v)"

definition process_job_list_filters :: "'a session_scheme \<Rightarrow> nat \<Rightarrow> cstr \<times> jesfilt \<times> cstr" where
  "process_job_list_filters s status_size =
     (let pre = no_star (getQueryParam s ''prefix'');
          req_status = no_star (getQueryParam s ''status'');
          status = (case req_status of None \<Rightarrow> [] | Some v \<Rightarrow> map toupper (take (status_size - 1) v))
      in case (pre, getQueryParam s ''jobid'') of
           (Some p, None) \<Rightarrow> (p, FILTER_JOBNAME, status)
         | (_, Some j) \<Rightarrow> (j, FILTER_JOBID, status)
         | (None, None) \<Rightarrow> ([], FILTER_NONE, status))"

definition resolve_owner_filter :: "jobauth \<Rightarrow> cstr option \<Rightarrow> nat \<Rightarrow> bool \<times> cstr" where
  "resolve_owner_filter ja requested out_size =
     (let own = (take (out_size - 1) (ja_user ja) \<noteq> [], take (out_size - 1) (ja_user ja)) in
      case jwn_narrows (Some (ja_user ja)) (Some (case requested of None \<Rightarrow> [] | Some r \<Rightarrow> r)) out_size of
        (JWN_NR_RESET, _) \<Rightarrow> own
      | (JWN_NR_OWN, _) \<Rightarrow> own
      | (JWN_NR_ALL, canon) \<Rightarrow> if jobauth_probe ja (Some []) then (True, canon) else own
      | (JWN_NR_OTHER, canon) \<Rightarrow> (jobauth_probe ja (Some canon), canon)
      | (JWN_NR_BAD, _) \<Rightarrow> (False, []))"

text \<open>\<^verbatim>\<open>strtol\<close> with base 10, for a string it consumes whole; a long has 32 bits.\<close>

definition strtol_whole :: "cstr \<Rightarrow> int option" where
  "strtol_whole v =
     (let t = dropWhile isspace v;
          neg = (c_at t 0 = CHR ''-'');
          d = (if neg \<or> c_at t 0 = CHR ''+'' then tl t else t);
          n = int (dec_fold 0 d)
      in if v = [] then Some 0
         else if d = [] \<or> \<not> list_all is_digit d then None
         else Some (if neg then max (- n) (-(2 ^ 31)) else min n (2 ^ 31 - 1)))"

definition get_max_jobs :: "'a session_scheme \<Rightarrow> nat" where
  "get_max_jobs s =
     (case getQueryParam s ''max-jobs'' of
        None \<Rightarrow> MAX_JOBS_LIMIT
      | Some v \<Rightarrow>
          (case strtol_whole v of
             None \<Rightarrow> MAX_JOBS_LIMIT
           | Some n \<Rightarrow> if n > 0 then min (nat n) MAX_JOBS_LIMIT else MAX_JOBS_LIMIT))"

definition should_skip_job :: "jes_flags \<Rightarrow> JESJOB option \<Rightarrow> cstr option \<Rightarrow> cstr option \<Rightarrow> bool" where
  "should_skip_job fl job own status =
     (case job of
        None \<Rightarrow> True
      | Some j \<Rightarrow>
          (case own of None \<Rightarrow> False | Some ow \<Rightarrow> \<not> jwn_match (Some ow) (Some (owner j)))
          \<or> has (q_flag2 j) (f_QUEINIT fl)
          \<or> jobname j = ''SYSLOG'' \<or> jobname j = ''INIT''
          \<or> (case status of None \<Rightarrow> False | Some st \<Rightarrow> job_status_str fl job \<noteq> st))"

definition want_exec_data :: "'a session_scheme \<Rightarrow> bool" where
  "want_exec_data s =
     (case getQueryParam s ''exec-data'' of
        None \<Rightarrow> False
      | Some v \<Rightarrow> c_at v 0 = CHR ''Y'' \<or> c_at v 0 = CHR ''y'')"

section \<open>The document of one job\<close>

definition MAX_URL_LENGTH :: nat where "MAX_URL_LENGTH = 256"

definition isalnum :: "char \<Rightarrow> bool" where
  "isalnum c \<longleftrightarrow> is_digit c \<or> CHR ''A'' \<le> c \<and> c \<le> CHR ''Z'' \<or> CHR ''a'' \<le> c \<and> c \<le> CHR ''z''"

definition job_members :: "jes_flags \<Rightarrow> JESJOB \<Rightarrow> cstr option \<Rightarrow> cstr \<Rightarrow> bool \<Rightarrow> json_member list" where
  "job_members fl job host scheme exec_data =
     (let pr = (\<lambda>v. jwn_printable JWN_PRTSZ (Some v));
          host_str = (case host of None \<Rightarrow> ''127.0.0.1:8080'' | Some h \<Rightarrow> h);
          jobid_p = pr (jobid job);
          type_str = take 3 jobid_p;
          class_str = (if isalnum (eclass job) then [eclass job] else take 3 jobid_p);
          url_str = c_snprintf MAX_URL_LENGTH
            (scheme @ ''://'' @ host_str @ ''/zosmf/restjobs/jobs/'' @ pr (jobname job) @ ''/'' @ jobid_p);
          files_url = c_snprintf MAX_URL_LENGTH (url_str @ ''/files'')
      in [MStr ''subsystem'' (Some ''JES2''), MStr ''jobname'' (Some (pr (jobname job))),
          MStr ''jobid'' (Some jobid_p), MStr ''owner'' (Some (pr (owner job))),
          MStr ''type'' (Some type_str), MStr ''class'' (Some class_str),
          MStr ''url'' (Some url_str), MStr ''files-url'' (Some files_url),
          MStr ''status'' (Some (job_status_str fl (Some job))), MStr ''retcode'' (retcode fl job)]
         @ (if exec_data then
              [MStr ''exec-system'' (Some (pr (sysid job))), MStr ''exec-member'' (Some (pr (sysid job))),
               MStr ''exec-started'' (start_time job), MStr ''exec-ended'' (end_time job)]
            else []))"

text \<open>
  1 when the job was sent, 0 when a filter or the policy skipped it, negative on an error; with
  the builder and the cache behind it.  \<open>ja\<close> is \<open>None\<close> for a job that has been cleared already.
\<close>

definition process_job ::
  "httpd \<Rightarrow> jes_flags \<Rightarrow> JsonBuilder option \<Rightarrow> JESJOB option \<Rightarrow> jobauth option \<Rightarrow> cstr option \<Rightarrow> cstr option \<Rightarrow>
     cstr option \<Rightarrow> cstr \<Rightarrow> bool \<Rightarrow> int \<times> JsonBuilder option \<times> jobauth option" where
  "process_job srv fl builder job ja own status host scheme exec_data =
     (case job of
        None \<Rightarrow> (0, builder, ja)
      | Some j \<Rightarrow>
          if should_skip_job fl job own status then (0, builder, ja)
          else
            let (decision, ja) =
                  (case ja of
                     None \<Rightarrow> (JWN_ALLOW, None)
                   | Some a \<Rightarrow> (case jobauth_job a JWN_OP_LIST (Some (owner j, jobname j, jobid j)) of
                                  (d, a) \<Rightarrow> (d, Some a)))
            in if decision \<noteq> JWN_ALLOW then (0, builder, ja)
               else
                 let (rc, builder) = on_builder (run_object (hd_alloc srv) (job_members fl j host scheme exec_data)) builder
                 in (if rc < 0 then rc else 1, builder, ja))"

section \<open>The list\<close>

fun list_loop ::
  "httpd \<Rightarrow> jes_flags \<Rightarrow> cstr option \<Rightarrow> cstr option \<Rightarrow> cstr option \<Rightarrow> cstr \<Rightarrow> bool \<Rightarrow> nat \<Rightarrow> nat \<Rightarrow>
     JsonBuilder option \<Rightarrow> jobauth option \<Rightarrow> JESJOB option list \<Rightarrow> int \<times> JsonBuilder option" where
  "list_loop srv fl own status host scheme exec_data max_jobs sent builder ja [] = (0, builder)"
| "list_loop srv fl own status host scheme exec_data max_jobs sent builder ja (job # jobs) =
     (if sent \<ge> max_jobs then (0, builder)
      else
        let (rc, builder, ja) = process_job srv fl builder job ja own status host scheme exec_data
        in if rc < 0 then (rc, builder)
           else list_loop srv fl own status host scheme exec_data max_jobs (sent + nat rc) builder ja jobs)"

definition JOBS_CATEGORY_VSAM :: u32 where "JOBS_CATEGORY_VSAM = 7"
definition REASON_INCORRECT_JES_VSAM_HANDLE :: u32 where "REASON_INCORRECT_JES_VSAM_HANDLE = 6"
definition ERR_MSG_INCORRECT_JES_VSAM_HANDLE :: cstr where
  "ERR_MSG_INCORRECT_JES_VSAM_HANDLE = ''Unable to open JES2 checkpoint and spool datasets''"

definition server_error :: "httpd \<Rightarrow> int \<Rightarrow> rsession \<Rightarrow> rsession" where
  "server_error srv status s =
     report srv status JOBS_CATEGORY_UNEXPECTED RC_SEVERE JOBS_REASON_SERVER_ERROR JOBS_ERR_MSG_SERVER_ERROR s"

text \<open>\<open>jesjob\<close> is the scan of the queue with a filter; NULL is an empty list to the loop.\<close>

definition jobListHandler ::
  "httpd \<Rightarrow> jes_env \<Rightarrow> (cstr \<Rightarrow> jesfilt \<Rightarrow> JESJOB option list) \<Rightarrow> rsession \<Rightarrow> int \<times> rsession" where
  "jobListHandler srv env jesjob s =
     (case createResponseBuilder srv of
        None \<Rightarrow> (0, server_error srv HTTP_STATUS_INTERNAL_SERVER_ERROR s)
      | Some b \<Rightarrow>
          let host = getHeaderParam s ''HOST'';
              max_jobs = get_max_jobs s;
              ja = jobauth_init (je_racf env) (je_acee env) (je_userid env);
              (shown, own) = resolve_owner_filter ja (getQueryParam s ''owner'') JWN_PRTSZ;
              (filt, jesfilt, status) = process_job_list_filters s STATUS_STR_SIZE;
              jes = je_open env 0;
              s = snd (session_register_jes s jes)
          in if jes = None then
               (0, report srv HTTP_STATUS_INTERNAL_SERVER_ERROR JOBS_CATEGORY_VSAM RC_SEVERE
                     REASON_INCORRECT_JES_VSAM_HANDLE ERR_MSG_INCORRECT_JES_VSAM_HANDLE (do_call (Wto JesUnavailable) s))
             else
               let jobs = (if shown then jesjob filt jesfilt else []);
                   (_, builder) = on_builder (startArray (hd_alloc srv)) (Some b);
                   (rc, builder) = list_loop srv (je_flags env) (Some own) (if status = [] then None else Some status)
                     host (getRequestScheme srv s) (want_exec_data s) max_jobs 0 builder (Some ja) jobs
               in if rc < 0 then (0, session_jesclose s jes)
                  else
                    let (_, builder) = on_builder (endArray (hd_alloc srv)) builder
                    in (0, session_jesclose (snd (sendJSONResponse srv HTTP_STATUS_OK builder s)) jes))"

section \<open>One job\<close>

definition send_job_status_response :: "httpd \<Rightarrow> jes_env \<Rightarrow> JESJOB \<Rightarrow> cstr option \<Rightarrow> rsession \<Rightarrow> int \<times> rsession" where
  "send_job_status_response srv env job host s =
     (case createResponseBuilder srv of
        None \<Rightarrow> (-1, server_error srv HTTP_STATUS_INTERNAL_SERVER_ERROR s)
      | Some b \<Rightarrow>
          let (rc, builder, ja) = process_job srv (je_flags env) (Some b) (Some job) None None None host
                (getRequestScheme srv s) (want_exec_data s)
          in if rc < 0 then (rc, s) else sendJSONResponse srv HTTP_STATUS_OK builder s)"

definition find_and_send_job_status ::
  "httpd \<Rightarrow> jes_env \<Rightarrow> nat \<Rightarrow> cstr option \<Rightarrow> cstr option \<Rightarrow> cstr option \<Rightarrow> cstr option \<Rightarrow> rsession \<Rightarrow> int \<times> rsession" where
  "find_and_send_job_status srv env look name jid host submitter s =
     (if name = None \<or> jid = None then (-1, server_error srv HTTP_STATUS_BAD_REQUEST s)
      else
        let ((job, d), s) = find_job_by_name_and_id env look name jid JWN_OP_READ submitter s in
        (case job of
           None \<Rightarrow> (-1, send_job_not_found srv name jid s)
         | Some j \<Rightarrow> send_job_status_response srv env j host s))"

definition jobStatusHandler :: "httpd \<Rightarrow> jes_env \<Rightarrow> rsession \<Rightarrow> int \<times> rsession" where
  "jobStatusHandler srv env s =
     (0, snd (find_and_send_job_status srv env 0 (getPathParam s ''job-name'') (getPathParam s ''jobid'')
           (getHeaderParam s ''HOST'') None s))"

section \<open>Building with storage\<close>

text \<open>With an allocator that refuses nothing, every call of a document returns 0.\<close>

definition op_total :: "json_op \<Rightarrow> bool" where "op_total f \<longleftrightarrow> (\<forall>b. fst (f b) = 0)"

lemma emits_total: "\<forall>n. al n \<Longrightarrow> (\<And>e u. \<exists>t v. emits al e u f t v) \<Longrightarrow> op_total f"
  unfolding op_total_def by (metis emitsD emitted_def)

lemma then_total: "op_total f \<Longrightarrow> then_op f g b = g (snd (f b))"
  by (simp add: op_total_def then_op_ok)

lemma run_ops_total:
  "list_all op_total fs \<Longrightarrow> run_ops fs 0 b = (0, fold (\<lambda>f b. snd (f b)) fs b)"
proof (induction fs arbitrary: b)
  case (Cons f fs)
  then have "f b = (0, snd (f b))" by (simp add: op_total_def prod_eq_iff)
  with Cons show ?case by (metis fold_simps(2) list.pred_inject(2) run_ops.simps(2) split_conv)
qed simp

lemma emit_members_total:
  "\<forall>m \<in> set ms. op_total (emit_member al m) \<Longrightarrow>
   emit_members al ms b = (0, fold (\<lambda>f b. snd (f b)) (map (emit_member al) ms) b)"
  by (induction ms arbitrary: b) (simp_all add: then_total)

definition plain_members :: "json_member list \<Rightarrow> bool" where
  "plain_members ms \<longleftrightarrow> (\<forall>m \<in> set ms. \<forall>k \<in> member_keys m. short_key k)"

lemma member_total: "\<forall>n. al n \<Longrightarrow> \<forall>k \<in> member_keys m. short_key k \<Longrightarrow> op_total (emit_member al m)"
  using emits_document(1) by (blast intro: emits_total[of al])

lemma brace_total:
  "\<forall>n. al n \<Longrightarrow> op_total (startJsonObject al)" "\<forall>n. al n \<Longrightarrow> op_total (endJsonObject al)"
  "\<forall>n. al n \<Longrightarrow> op_total (startArray al)" "\<forall>n. al n \<Longrightarrow> op_total (endArray al)"
  by (rule emits_total, assumption,
      blast intro: emits_startJsonObject emits_endJsonObject emits_startArray emits_endArray)+

lemma run_object_item:
  assumes "\<forall>n. al n" "plain_members ms"
  shows "run_object al ms b = emit_item al (IObj ms) b"
proof -
  have m: "\<forall>m \<in> set ms. op_total (emit_member al m)"
    using assms member_total by (simp add: plain_members_def)
  then have "list_all op_total (startJsonObject al # map (emit_member al) ms @ [endJsonObject al])"
    using assms(1) by (simp add: brace_total list_all_iff)
  from run_ops_total[OF this] have "run_object al ms b =
      (0, snd (endJsonObject al (fold (\<lambda>f b. snd (f b)) (map (emit_member al) ms) (snd (startJsonObject al b)))))"
    by (simp add: run_object_def)
  moreover have "emit_item al (IObj ms) b =
      endJsonObject al (fold (\<lambda>f b. snd (f b)) (map (emit_member al) ms) (snd (startJsonObject al b)))"
    using brace_total(1)[OF assms(1)] emit_members_total[OF m]
    by (simp add: then_total then_op_ok)
  moreover have "fst (endJsonObject al c) = 0" for c
    using brace_total(2)[OF assms(1)] by (simp add: op_total_def)
  ultimately show ?thesis by (simp add: prod_eq_iff)
qed

lemma item_total: "\<forall>n. al n \<Longrightarrow> plain_members ms \<Longrightarrow> op_total (emit_item al (IObj ms))"
proof (rule emits_total[of al])
  assume "plain_members ms"
  then have "\<forall>k \<in> item_keys (IObj ms). short_key k" by (auto simp: plain_members_def)
  from emits_document(3)[OF this] show "\<exists>t v. emits al e u (emit_item al (IObj ms)) t v" for e u by blast
qed

text \<open>A new builder, and what an array of objects leaves in it.\<close>

lemma array_text:
  assumes al: "\<forall>n. hd_alloc srv n" and b: "createResponseBuilder srv = Some b"
    and ms: "\<forall>ms \<in> set mss. plain_members ms"
  shows "jb_buffer (snd (endArray (hd_alloc srv) (snd (emit_items (hd_alloc srv) (map IObj mss)
      (snd (startArray (hd_alloc srv) b)))))) = ''['' @ render_items (Some (hd_etoa srv)) (map IObj mss) @ '']''"
proof -
  let ?al = "hd_alloc srv" and ?e = "Some (hd_etoa srv)"
  have new: "jb_is_first b" "builder_etoa b = ?e" "jb_buffer b = []"
    using b by (auto simp: createResponseBuilder_def createJsonBuilder_def builder_etoa_def split: if_splits)
  have keys: "\<forall>i \<in> set (map IObj mss). \<forall>k \<in> item_keys i. short_key k"
    using ms by (auto simp: plain_members_def)
  have items: "emits ?al ?e True (emit_items ?al (map IObj mss)) (render_items ?e (map IObj mss)) (mss = [])"
    using emits_document(4)[OF keys, of ?al ?e True] by (cases "mss = []") (simp_all add: sep_def)
  have "emits ?al ?e True (then_op (startArray ?al) (then_op (emit_items ?al (map IObj mss)) (endArray ?al)))
      (''['' @ render_items ?e (map IObj mss) @ '']'') False"
    by (rule emits_then[OF emits_startArray emits_then[OF items emits_endArray]])
  from emitsD[OF this, of b] new al
  have "jb_buffer (snd (then_op (startArray ?al) (then_op (emit_items ?al (map IObj mss)) (endArray ?al)) b)) =
      ''['' @ render_items ?e (map IObj mss) @ '']''"
    by (auto simp: emitted_def)
  moreover have "fst (emit_items ?al (map IObj mss) c) = 0" for c
    using ms by (induction mss arbitrary: c) (simp_all add: then_total item_total[OF al] del: emit_item.simps)
  ultimately show ?thesis
    using brace_total(3)[OF al] by (simp add: then_total then_op_ok)
qed

section \<open>The list as the policy sees it\<close>

definition listed :: "jes_env \<Rightarrow> cstr option \<Rightarrow> cstr option \<Rightarrow> JESJOB option list \<Rightarrow> JESJOB list" where
  "listed env own status jobs =
     [j. Some j \<leftarrow> jobs, \<not> should_skip_job (je_flags env) (Some j) own status \<and> policy env JWN_OP_LIST j = JWN_ALLOW]"

definition ja_ok :: "jes_env \<Rightarrow> jobauth \<Rightarrow> bool" where
  "ja_ok env ja \<longleftrightarrow>
     (case je_acee env of
        None \<Rightarrow> \<not> jc_acee_present (ja_ctx ja)
      | Some a \<Rightarrow> ja_inv (je_racf env (Some a) ''JESSPOOL'')
          (case je_userid env of None \<Rightarrow> [] | Some u \<Rightarrow> map toupper (take 8 u)) ja)"

lemma ja_ok_init: "ja_ok env (jobauth_init (je_racf env) (je_acee env) (je_userid env))"
  by (auto simp: ja_ok_def ja_inv_def jobauth_init_fields request_cache.sound_empty split: option.splits)

definition rakf_prefix :: "jes_env \<Rightarrow> bool" where
  "rakf_prefix env \<longleftrightarrow>
     (\<forall>e u. je_racf env (je_acee env) ''JESSPOOL'' e u = je_racf env (je_acee env) ''JESSPOOL'' (take 8 e) u)"

lemma jobauth_job_ok:
  assumes "ja_ok env ja" "rakf_prefix env"
  shows "\<exists>ja'. jobauth_job ja op (Some (owner j, jobname j, jobid j)) = (policy env op j, ja') \<and> ja_ok env ja'"
proof (cases "je_acee env")
  case None
  with assms(1) show ?thesis
    by (auto simp: ja_ok_def jobauth_job_def jwn_check_def closed_res_def policy_def split: option.splits)
next
  case (Some a)
  let ?u = "case je_userid env of None \<Rightarrow> [] | Some u \<Rightarrow> map toupper (take 8 u)"
  have p: "policy env op j = spool_policy (je_racf env (Some a) ''JESSPOOL'') ?u op (owner j, jobname j, jobid j)"
    by (auto simp: policy_def Some spool_policy_def split: option.splits)
  from assms Some jobauth_job_policy[of "je_racf env (Some a) ''JESSPOOL''" ?u ja op "(owner j, jobname j, jobid j)"]
  show ?thesis by (auto simp: ja_ok_def rakf_prefix_def p)
qed

lemma job_members_plain: "plain_members (job_members fl j host scheme exec_data)"
  by (auto simp: plain_members_def job_members_def Let_def)

lemma list_loop_spec:
  assumes al: "\<forall>n. hd_alloc srv n" and rakf: "rakf_prefix env"
  shows "ja_ok env ja \<Longrightarrow>
    list_loop srv (je_flags env) own status host scheme exec_data max_jobs n (Some b) (Some ja) jobs =
      (0, Some (snd (emit_items (hd_alloc srv)
         (map IObj (map (\<lambda>j. job_members (je_flags env) j host scheme exec_data)
            (take (max_jobs - n) (listed env own status jobs)))) b)))"
proof (induction jobs arbitrary: ja n b)
  case Nil
  then show ?case by (simp add: listed_def)
next
  case (Cons job jobs)
  show ?case
  proof (cases "n \<ge> max_jobs \<or> job = None \<or> should_skip_job (je_flags env) job own status")
    case True
    with Cons show ?thesis
      by (cases job) (auto simp: listed_def process_job_def)
  next
    case False
    then obtain j where j: "job = Some j" by (cases job) auto
    from jobauth_job_ok[OF Cons.prems rakf] obtain ja' where
      ja': "jobauth_job ja JWN_OP_LIST (Some (owner j, jobname j, jobid j)) = (policy env JWN_OP_LIST j, ja')"
        "ja_ok env ja'" by blast
    let ?m = "job_members (je_flags env) j host scheme exec_data"
    let ?b = "snd (emit_item (hd_alloc srv) (IObj ?m) b)"
    have ro: "run_object (hd_alloc srv) ?m b = (0, ?b)"
      using item_total[OF al job_members_plain] run_object_item[OF al job_members_plain]
      by (simp add: op_total_def prod_eq_iff)
    have l: "listed env own status (job # jobs) =
        (if policy env JWN_OP_LIST j = JWN_ALLOW then [j] else []) @ listed env own status jobs"
      using False by (simp add: listed_def j)
    show ?thesis
    proof (cases "policy env JWN_OP_LIST j = JWN_ALLOW")
      case True
      then have "process_job srv (je_flags env) (Some b) job (Some ja) own status host scheme exec_data = (1, Some ?b, Some ja')"
        using False j ja' ro by (simp add: process_job_def on_builder_def)
      moreover obtain k where "max_jobs - n = Suc k" "max_jobs - (n + 1) = k"
        using False by (metis Suc_diff_Suc Suc_eq_plus1 linorder_not_le)
      ultimately show ?thesis
        using False Cons.IH[OF ja'(2), of "n + 1" ?b] True l
        by (simp add: then_total item_total[OF al job_members_plain] del: emit_item.simps)
    next
      case denied: False
      then have "process_job srv (je_flags env) (Some b) job (Some ja) own status host scheme exec_data = (0, Some b, Some ja')"
        using False j ja' by (simp add: process_job_def)
      then show ?thesis
        using False Cons.IH[OF ja'(2), of n b] denied l by simp
    qed
  qed
qed

text \<open>
  C18: The job list is one JSON array with exactly the jobs of the queue that pass the owner and
  status filters, are no system job, and that the policy lets the caller see, in queue order and
  at most max-jobs of them counted after filtering, each rendered as its document; a caller whose
  owner filter cannot match gets the empty array without a look at the queue.
\<close>
theorem job_list_exact:
  assumes "open_client srv s" and "\<forall>n. hd_alloc srv n" and "rakf_prefix env"
    and "je_open env 0 = Some h"
    and "resolve_owner_filter (jobauth_init (je_racf env) (je_acee env) (je_userid env)) (getQueryParam s ''owner'') 9
           = (shown, own)"
    and "process_job_list_filters s 16 = (filt, jf, st)"
  shows "\<exists>r t. jobListHandler srv env jesjob s = (0, session_jesclose t (Some h)) \<and>
    document_sent srv 200
      (''['' @ render_items (Some (hd_etoa srv))
         (map (\<lambda>j. IObj (job_members (je_flags env) j (getHeaderParam s ''HOST'') (getRequestScheme srv s) (want_exec_data s)))
           (take (get_max_jobs s)
             (listed env (Some own) (if st = [] then None else Some st) (if shown then jesjob filt jf else [])))) @ '']'')
      (snd (session_register_jes s (Some h))) r t"
proof -
  let ?al = "hd_alloc srv" and ?s = "snd (session_register_jes s (Some h))"
  let ?jobs = "take (get_max_jobs s) (listed env (Some own) (if st = [] then None else Some st) (if shown then jesjob filt jf else []))"
  let ?doc = "\<lambda>j. job_members (je_flags env) j (getHeaderParam s ''HOST'') (getRequestScheme srv s) (want_exec_data s)"
  obtain b where b: "createResponseBuilder srv = Some b"
    using assms(2) by (simp add: createResponseBuilder_def createJsonBuilder_def)
  have same: "getRequestScheme srv ?s = getRequestScheme srv s" "want_exec_data ?s = want_exec_data s" "open_client srv ?s"
    using assms(1)
    by (simp_all add: session_register_jes_def do_call_def getRequestScheme_def getHeaderParam_def get_env_param_def
        want_exec_data_def getQueryParam_def open_client_def)
  define jobs where "jobs = (if shown then jesjob filt jf else [])"
  obtain b1 where b1: "startArray ?al b = (0, b1)"
    using brace_total(3)[OF assms(2)] by (metis op_total_def prod.collapse)
  define b2 where "b2 = snd (emit_items ?al (map IObj (map ?doc ?jobs)) b1)"
  obtain b3 where b3: "endArray ?al b2 = (0, b3)"
    using brace_total(4)[OF assms(2)] by (metis op_total_def prod.collapse)
  have loop: "list_loop srv (je_flags env) (Some own) (if st = [] then None else Some st) (getHeaderParam s ''HOST'')
      (getRequestScheme srv s) (want_exec_data s) (get_max_jobs s) 0 (Some b1)
      (Some (jobauth_init (je_racf env) (je_acee env) (je_userid env))) jobs = (0, Some b2)"
    using list_loop_spec[OF assms(2,3) ja_ok_init] by (simp add: jobs_def b2_def)
  obtain r t where rt: "sendJSONResponse srv 200 (Some b3) ?s = (r, t)" by force
  have "jobListHandler srv env jesjob s = (0, session_jesclose t (Some h))"
    using assms(4-6) b loop rt b1 b3
    by (simp add: jobListHandler_def JWN_PRTSZ_def JWN_COMPMAX_def STATUS_STR_SIZE_def HTTP_STATUS_OK_def on_builder_def
        Let_def same flip: jobs_def split del: if_split)
  moreover have "document_sent srv 200 (jb_buffer b3) ?s r t"
    using sendJSONResponse_sent[OF same(3) assms(2) rt] .
  moreover have "jb_buffer b3 = ''['' @ render_items (Some (hd_etoa srv)) (map IObj (map ?doc ?jobs)) @ '']''"
    using array_text[OF assms(2) b, of "map ?doc ?jobs"] job_members_plain b1 b3 by (simp add: b2_def)
  ultimately show ?thesis
    by (intro exI[of _ r] exI[of _ t]) (simp add: comp_def split del: if_split)
qed

lemma sample_rakf: "rakf_prefix sample_env"
  by (simp add: rakf_prefix_def sample_env_def)

theorem job_list_exact_witness:
  "\<exists>r t. jobListHandler sample_httpd sample_env (\<lambda>_ _. [Some sample_job, Some other_job]) sample_rsession =
       (0, session_jesclose t (Some 7)) \<and> ss_headers_sent t \<and>
     (r = 0 \<or> r = -1 \<and> torn_down (hd_cstate_done sample_httpd) (ss_conn t))"
proof -
  obtain shown own where o: "resolve_owner_filter (jobauth_init (je_racf sample_env) (je_acee sample_env)
      (je_userid sample_env)) (getQueryParam sample_rsession ''owner'') 9 = (shown, own)" by force
  obtain filt jf st where f: "process_job_list_filters sample_rsession 16 = (filt, jf, st)" by (metis prod_cases3)
  have "open_client sample_httpd sample_rsession"
    by (simp add: open_client_def sample_httpd_def sample_rsession_def sample_conn_def)
  from job_list_exact[OF this sample_open(2) sample_rakf _ o f, of 7 "\<lambda>_ _. [Some sample_job, Some other_job]"]
  show ?thesis by (auto simp: sample_env_def document_sent_def)
qed

end
