(* ===== verification/Spool.thy ===== *)
theory Spool
  imports JobList
begin

text \<open>
  The spool files of a job: \<^verbatim>\<open>src/spoolln.c\<close>, and the handlers of \<^verbatim>\<open>src/jobsapi.c\<close> that list the data
  sets of a job and stream the records of one.

  \<^verbatim>\<open>jesprint\<close> of libc370 is a parameter: what it says of a data set id, namely its return code, the
  records it hands to the callback in order, and why the walk ended.  \<open>stops\<close> says which result of
  the callback makes it give up.
\<close>

section \<open>The decision per record\<close>

datatype spool_line = SPOOL_LINE_EMIT | SPOOL_LINE_SKIP | SPOOL_LINE_STOP

definition spool_line_action :: "bool \<Rightarrow> nat \<Rightarrow> nat \<Rightarrow> cstr \<Rightarrow> spool_line" where
  "spool_line_action jclin limit count line =
     (if limit \<noteq> 0 \<and> count \<ge> limit then SPOOL_LINE_STOP
      else if \<not> jclin then SPOOL_LINE_EMIT
      else if line = [] then SPOOL_LINE_SKIP
      else if c_at line 0 = CHR ''/'' then SPOOL_LINE_EMIT
      else SPOOL_LINE_SKIP)"

section \<open>Why a walk ended\<close>

datatype jespr =
    JESPR_END | JESPR_EMPTY | JESPR_OPENEND | JESPR_IOERR | JESPR_FOREIGN | JESPR_DSID | JESPR_LOOP
  | JESPR_CAP | JESPR_NOBUF | JESPR_NOMEM | JESPR_STOPPED

definition do_print_sysout_why :: "int \<Rightarrow> jespr \<Rightarrow> nat \<Rightarrow> cstr option" where
  "do_print_sysout_why prc reason records =
     (if prc > 0 then Some ''JES2 checkpoint or spool data set not available''
      else case reason of
        JESPR_IOERR \<Rightarrow> Some ''spool read failed''
      | JESPR_FOREIGN \<Rightarrow> if records \<noteq> 0 then Some ''no longer on the spool'' else None
      | JESPR_DSID \<Rightarrow> if records \<noteq> 0 then Some ''first spool block belongs to another data set'' else None
      | JESPR_LOOP \<Rightarrow> Some ''spool block chain loops, output truncated''
      | JESPR_CAP \<Rightarrow> Some ''spool block limit reached, output truncated''
      | JESPR_NOBUF \<Rightarrow> Some ''incomplete spanned record, output truncated''
      | JESPR_NOMEM \<Rightarrow> Some ''out of storage, output truncated''
      | _ \<Rightarrow> None)"

definition do_print_sysout_status :: "int \<Rightarrow> jespr \<Rightarrow> nat \<Rightarrow> int" where
  "do_print_sysout_status prc reason records =
     (if prc > 0 then HTTP_STATUS_INTERNAL_SERVER_ERROR
      else if reason = JESPR_FOREIGN \<and> records \<noteq> 0 then HTTP_STATUS_NOT_FOUND
      else if do_print_sysout_why prc reason records \<noteq> None then HTTP_STATUS_INTERNAL_SERVER_ERROR
      else HTTP_STATUS_OK)"

section \<open>Streaming\<close>

record spool_ctx =
  sc_limit :: nat
  sc_count :: nat
  sc_total :: nat
  sc_jclin :: bool

definition RC_SPOOL_CAP :: int where "RC_SPOOL_CAP = -77"

definition crlf :: cstr where "crlf = [CHR 0x0D, CHR 0x0A]"

definition do_print_sysout_line ::
  "httpd \<Rightarrow> cstr \<Rightarrow> spool_ctx \<Rightarrow> rsession \<Rightarrow> int \<times> spool_ctx \<times> rsession" where
  "do_print_sysout_line srv line ctx s =
     (case spool_line_action (sc_jclin ctx) (sc_limit ctx) (sc_count ctx) line of
        SPOOL_LINE_STOP \<Rightarrow> (RC_SPOOL_CAP, ctx, s)
      | SPOOL_LINE_SKIP \<Rightarrow> (0, ctx, s)
      | SPOOL_LINE_EMIT \<Rightarrow>
          let (rc, s) = (if \<not> ss_headers_sent s
                         then sendDefaultHeaders srv HTTP_STATUS_OK (Some ''text/plain'') 0 s else (0, s))
          in if rc < 0 then (rc, ctx, s)
             else
               let (rc, s) = http_print srv (OutText (line @ crlf)) s
               in (rc, if rc \<ge> 0 then ctx\<lparr>sc_count := sc_count ctx + 1, sc_total := sc_total ctx + 1\<rparr> else ctx, s))"

record dsres =
  dr_prc :: int
  dr_lines :: "cstr list"
  dr_reason :: jespr

text \<open>The walk: the result the callback stopped it with, if it did.\<close>

fun walk ::
  "(int \<Rightarrow> bool) \<Rightarrow> httpd \<Rightarrow> cstr list \<Rightarrow> spool_ctx \<Rightarrow> rsession \<Rightarrow> int option \<times> spool_ctx \<times> rsession" where
  "walk stops srv [] ctx s = (None, ctx, s)"
| "walk stops srv (line # lines) ctx s =
     (let (rc, ctx, s) = do_print_sysout_line srv line ctx s
      in if stops rc then (Some rc, ctx, s) else walk stops srv lines ctx s)"

definition separator :: cstr where
  "separator = concat (replicate 65 ''- '') @ ''-'' @ crlf"

text \<open>The state of the loop over the data sets: the context, the first abnormal outcome, the session.\<close>

type_synonym dds_state = "spool_ctx \<times> (nat \<times> cstr \<times> int) option \<times> rsession"

text \<open>One data set; \<open>Inl\<close> is a jump to \<^verbatim>\<open>quit\<close>.\<close>

definition print_dd ::
  "(int \<Rightarrow> bool) \<Rightarrow> (nat \<Rightarrow> dsres) \<Rightarrow> httpd \<Rightarrow> jes_flags \<Rightarrow> nat \<Rightarrow> JESDD option \<Rightarrow> dds_state \<Rightarrow>
     (int \<times> rsession) + dds_state" where
  "print_dd stops jesprint srv fl want entry st =
     (case entry of
        None \<Rightarrow> Inr st
      | Some dd \<Rightarrow>
          if dsid dd \<noteq> want \<or> mttr dd = 0 \<or> has (dd_flag dd) (f_SYSIN fl) \<and> want = 0 then Inr st
          else
            let (ctx, bad, s) = st;
                (rc, s) = (if sc_total ctx \<noteq> 0 then http_print srv (OutText separator) s else (0, s)) in
            if rc < 0 then Inl (rc, s)
            else
              let ctx = ctx\<lparr>sc_limit := if has (dd_flag dd) (f_SYSIN fl) then dd_records dd else 0,
                            sc_count := 0, sc_jclin := (dsid dd = f_PDBINJCL fl)\<rparr>;
                  res = jesprint (dsid dd);
                  (stopped, ctx, s) = walk stops srv (dr_lines res) ctx s;
                  reason = (if stopped = None then dr_reason res else JESPR_STOPPED)
              in if stopped \<noteq> None \<and> stopped \<noteq> Some RC_SPOOL_CAP then Inl (the stopped, s)
                 else
                   let prc = (if dr_prc res < 0 then 0 else dr_prc res);
                       bad = (case (do_print_sysout_why prc reason (dd_records dd), bad) of
                                (Some why, None) \<Rightarrow>
                                  Some (dsid dd, why, do_print_sysout_status prc reason (dd_records dd))
                              | _ \<Rightarrow> bad)
                   in Inr (ctx, bad, s))"

primrec print_dds ::
  "(int \<Rightarrow> bool) \<Rightarrow> (nat \<Rightarrow> dsres) \<Rightarrow> httpd \<Rightarrow> jes_flags \<Rightarrow> nat \<Rightarrow> JESDD option list \<Rightarrow> dds_state \<Rightarrow>
     (int \<times> rsession) + dds_state" where
  "print_dds stops jesprint srv fl want [] st = Inr st"
| "print_dds stops jesprint srv fl want (dd # dds) st =
     (case print_dd stops jesprint srv fl want dd st of
        Inl q \<Rightarrow> Inl q
      | Inr st \<Rightarrow> print_dds stops jesprint srv fl want dds st)"

definition JOBS_REASON_SPOOL_GONE :: u32 where "JOBS_REASON_SPOOL_GONE = 10"
definition JOBS_REASON_SPOOL_READ :: u32 where "JOBS_REASON_SPOOL_READ = 11"

text \<open>How the answers name the job, \<^verbatim>\<open>%.8s(%.8s)\<close> in quotes, and the two texts.\<close>

definition named_job :: "JESJOB \<Rightarrow> cstr" where
  "named_job job = [CHR 0x27] @ take 8 (jwn_printable JWN_PRTSZ (Some (jobname job))) @ ''('' @
     take 8 (jwn_printable JWN_PRTSZ (Some (jobid job))) @ '')'' @ [CHR 0x27]"

definition spool_gone :: "JESJOB \<Rightarrow> nat \<Rightarrow> cstr" where
  "spool_gone job n = c_snprintf MAX_ERR_MSG_LENGTH
     (''Spool output for job '' @ named_job job @ '' DD id '' @ show_nat n @ '' is no longer on the spool'')"

definition spool_unreadable :: "JESJOB \<Rightarrow> nat \<Rightarrow> cstr \<Rightarrow> cstr" where
  "spool_unreadable job n why = c_snprintf MAX_ERR_MSG_LENGTH
     (''Unable to read spool output for job '' @ named_job job @ '' DD id '' @ show_nat n @ '': '' @ why)"

definition do_print_sysout ::
  "(int \<Rightarrow> bool) \<Rightarrow> (nat \<Rightarrow> dsres) \<Rightarrow> httpd \<Rightarrow> jes_env \<Rightarrow> nat \<Rightarrow> JESJOB \<Rightarrow> nat \<Rightarrow> rsession \<Rightarrow> int \<times> rsession" where
  "do_print_sysout stops jesprint srv env look job want s =
     (let jobname_p = jwn_printable JWN_PRTSZ (Some (jobname job));
          jobid_p = jwn_printable JWN_PRTSZ (Some (jobid job));
          jes = je_open env look;
          s = snd (session_register_jes s jes)
      in if jes = None then
           (-1, report srv HTTP_STATUS_INTERNAL_SERVER_ERROR CATEGORY_SERVICE RC_SEVERE
                  REASON_INCORRECT_JES_VSAM_HANDLE ERR_MSG_INCORRECT_JES_VSAM_HANDLE (do_call (Wto JesUnavailable) s))
         else case print_dds stops jesprint srv (je_flags env) want (jesdd job)
                     (\<lparr>sc_limit = 0, sc_count = 0, sc_total = 0, sc_jclin = False\<rparr>, None, s) of
           Inl (rc, s) \<Rightarrow> (rc, session_jesclose s jes)
         | Inr (ctx, bad, s) \<Rightarrow>
             if sc_total ctx \<noteq> 0 then
               (0, session_jesclose
                     (case bad of
                        None \<Rightarrow> s
                      | Some (bad_dsid, why, status) \<Rightarrow> do_call (Wto (SpoolWalk jobname_p jobid_p bad_dsid why)) s) jes)
             else
               let (rc, s) =
                 (case bad of
                    None \<Rightarrow> sendDefaultHeaders srv HTTP_STATUS_OK (Some ''text/plain'') 0 s
                  | Some (bad_dsid, why, status) \<Rightarrow>
                      if status = HTTP_STATUS_NOT_FOUND then
                        sendErrorResponse srv HTTP_STATUS_NOT_FOUND CATEGORY_SERVICE RC_WARNING JOBS_REASON_SPOOL_GONE
                          (Some (spool_gone job bad_dsid)) [] s
                      else if status \<noteq> HTTP_STATUS_OK then
                        sendErrorResponse srv status CATEGORY_SERVICE RC_ERROR JOBS_REASON_SPOOL_READ
                          (Some (spool_unreadable job bad_dsid why)) [] s
                      else sendDefaultHeaders srv HTTP_STATUS_OK (Some ''text/plain'') 0 s)
               in (rc, session_jesclose s jes))"

section \<open>The handlers\<close>

definition JOBS_REASON_INVALID_QUERY :: u32 where "JOBS_REASON_INVALID_QUERY = 3"

definition jobRecordsHandler ::
  "(int \<Rightarrow> bool) \<Rightarrow> (nat \<Rightarrow> dsres) \<Rightarrow> httpd \<Rightarrow> jes_env \<Rightarrow> rsession \<Rightarrow> int \<times> rsession" where
  "jobRecordsHandler stops jesprint srv env s =
     (let name = getPathParam s ''job-name''; jid = getPathParam s ''jobid''; ddid = getPathParam s ''ddid'';
          bad_query = (\<lambda>msg s. (0, report srv HTTP_STATUS_BAD_REQUEST CATEGORY_SERVICE RC_ERROR JOBS_REASON_INVALID_QUERY msg s))
      in case ddid of
        None \<Rightarrow> (0, server_error srv HTTP_STATUS_INTERNAL_SERVER_ERROR s)
      | Some ddid \<Rightarrow>
          if name = None \<or> jid = None then (0, server_error srv HTTP_STATUS_INTERNAL_SERVER_ERROR s)
          else
            let ((job, d), s) = find_job_by_name_and_id env 0 name jid JWN_OP_READ None s in
            (case job of
               None \<Rightarrow> (0, send_job_not_found srv name jid s)
             | Some job \<Rightarrow>
                 (case strtol_whole ddid of
                    None \<Rightarrow> bad_query ''Invalid DDID parameter'' s
                  | Some n \<Rightarrow>
                      if n < 0 then bad_query ''Invalid DDID parameter'' s
                      else if \<not> list_ex (\<lambda>dd. case dd of None \<Rightarrow> False | Some x \<Rightarrow> dsid x = nat n) (jesdd job)
                      then bad_query ''DDID not found for job'' s
                      else (0, snd (do_print_sysout stops jesprint srv env 1 job (nat n) s)))))"

definition get_recfm_string :: "jes_flags \<Rightarrow> byte \<Rightarrow> cstr" where
  "get_recfm_string fl r =
     (let base = (if r AND f_RECFM_U fl = f_RECFM_U fl then ''U''
                  else if r AND f_RECFM_F fl = f_RECFM_F fl then ''F''
                  else if r AND f_RECFM_V fl = f_RECFM_V fl then ''V'' else []);
          s = base @ (if has r (f_RECFM_BR fl) then ''B'' else [])
                @ (if has r (f_RECFM_CA fl) then ''A'' else if has r (f_RECFM_CM fl) then ''M'' else [])
      in s @ (if c_at s 0 = CHR ''V'' \<and> has r (f_RECFM_SB fl) then ''S'' else []))"

definition file_members :: "jes_flags \<Rightarrow> JESJOB \<Rightarrow> cstr \<Rightarrow> cstr \<Rightarrow> JESDD \<Rightarrow> json_member list" where
  "file_members fl job host_str scheme dd =
     (let pr = (\<lambda>v. Some (jwn_printable JWN_PRTSZ (Some v)));
          url_str = c_snprintf MAX_URL_LENGTH
            (scheme @ ''://'' @ host_str @ ''/zosmf/restjobs/jobs/'' @ jwn_printable JWN_PRTSZ (Some (jobname job)) @ ''/''
               @ jwn_printable JWN_PRTSZ (Some (jobid job)) @ ''/files/'' @ show_nat (dsid dd) @ ''/records'')
      in [MStr ''recfm'' (Some (get_recfm_string fl (recfm dd))), MStr ''records-url'' (Some url_str),
          MStr ''subsystem'' (Some ''JES2''), MStr ''byte-count'' None, MNum ''lrecl'' (lrecl dd),
          MStr ''jobid'' (pr (jobid job)), MStr ''ddname'' (pr (ddname dd)), MNum ''id'' (of_nat (dsid dd)),
          MNum ''record-count'' (of_nat (dd_records dd)),
          MStr ''class'' (Some (takeWhile (\<lambda>c. c \<noteq> nul) [oclass dd])), MStr ''jobname'' (pr (jobname job)),
          MStr ''stepname'' (if stepname dd \<noteq> [] then pr (stepname dd) else Some ''JES2''),
          MStr ''procstep'' (if procstep dd \<noteq> [] then pr (procstep dd) else None)])"

text \<open>
  The entries are taken to be there, as the code takes them: it reads the name of every entry
  without the test for NULL that the streaming has.
\<close>

fun process_job_files ::
  "httpd \<Rightarrow> (cstr \<Rightarrow> cstr \<Rightarrow> bool) \<Rightarrow> jes_flags \<Rightarrow> JESJOB \<Rightarrow> cstr \<Rightarrow> cstr \<Rightarrow> JESDD list \<Rightarrow> JsonBuilder option \<Rightarrow>
     int \<times> JsonBuilder option" where
  "process_job_files srv cmp fl job host_str scheme [] builder = (0, builder)"
| "process_job_files srv cmp fl job host_str scheme (dd # dds) builder =
     (if cmp (ddname dd) ''JESINTXT'' then process_job_files srv cmp fl job host_str scheme dds builder
      else
        let (rc, builder) = on_builder (run_object (hd_alloc srv) (file_members fl job host_str scheme dd)) builder
        in if rc < 0 then (rc, builder) else process_job_files srv cmp fl job host_str scheme dds builder)"

definition jobFilesHandler :: "httpd \<Rightarrow> jes_env \<Rightarrow> rsession \<Rightarrow> int \<times> rsession" where
  "jobFilesHandler srv env s =
     (case createResponseBuilder srv of
        None \<Rightarrow> (0, server_error srv HTTP_STATUS_INTERNAL_SERVER_ERROR s)
      | Some b \<Rightarrow>
          let host = getHeaderParam s ''HOST''; name = getPathParam s ''job-name''; jid = getPathParam s ''jobid'' in
          if name = None \<or> jid = None then (0, server_error srv HTTP_STATUS_INTERNAL_SERVER_ERROR s)
          else
            let ((job, d), s) = find_job_by_name_and_id env 0 name jid JWN_OP_READ None s in
            (case job of
               None \<Rightarrow> (0, send_job_not_found srv name jid s)
             | Some job \<Rightarrow>
                 let (_, builder) = on_builder (startArray (hd_alloc srv)) (Some b);
                     (rc, builder) = process_job_files srv (je_cmp env) (je_flags env) job
                       (case host of None \<Rightarrow> ''127.0.0.1:8080'' | Some h \<Rightarrow> h) (getRequestScheme srv s)
                       (List.map_filter (\<lambda>x. x) (jesdd job)) builder
                 in if rc < 0 then (0, s)
                    else
                      let (_, builder) = on_builder (endArray (hd_alloc srv)) builder
                      in (0, snd (sendJSONResponse srv HTTP_STATUS_OK builder s))))"

section \<open>What a client reads\<close>

text \<open>
  The records that are content: all of a SYSOUT data set; of a capped one as many as the count of
  the checkpoint; of the job's own JCL only cards, pointer records costing nothing of the cap.
\<close>

definition visible :: "bool \<Rightarrow> cstr \<Rightarrow> bool" where
  "visible jclin line \<longleftrightarrow> (jclin \<longrightarrow> line \<noteq> [] \<and> c_at line 0 = CHR ''/'')"

definition content :: "bool \<Rightarrow> nat \<Rightarrow> nat \<Rightarrow> cstr list \<Rightarrow> cstr list" where
  "content jclin limit count lines =
     (let v = filter (visible jclin) lines in if limit = 0 then v else take (limit - count) v)"

definition texts :: "cstr list \<Rightarrow> out_item list" where
  "texts lines = map (\<lambda>l. OutText (l @ crlf)) lines"

definition dd_limit :: "jes_flags \<Rightarrow> JESDD \<Rightarrow> nat" where
  "dd_limit fl dd = (if has (dd_flag dd) (f_SYSIN fl) then dd_records dd else 0)"

definition selected :: "jes_flags \<Rightarrow> nat \<Rightarrow> JESDD \<Rightarrow> bool" where
  "selected fl want dd \<longleftrightarrow> dsid dd = want \<and> mttr dd \<noteq> 0 \<and> \<not> (has (dd_flag dd) (f_SYSIN fl) \<and> want = 0)"

lemma http_print_open:
  "open_client srv s \<Longrightarrow> http_print srv item s = (0, s\<lparr>ss_out := ss_out s @ [item]\<rparr>)"
  by (simp add: open_client_def http_print_def)

lemma default_items_out [simp]:
  "default_items srv st ct n (s\<lparr>ss_out := o'\<rparr>) = default_items srv st ct n s"
  "default_items srv st ct n (s\<lparr>ss_headers_sent := b\<rparr>) = default_items srv st ct n s"
  by (simp_all add: default_items_def)

text \<open>The session once lines have gone out, headers before the first.\<close>

definition streamed :: "httpd \<Rightarrow> rsession \<Rightarrow> cstr list \<Rightarrow> rsession" where
  "streamed srv s lines =
     (if lines = [] then s
      else s\<lparr>ss_headers_sent := True,
             ss_out := ss_out s @ (if ss_headers_sent s then [] else default_items srv 200 (Some ''text/plain'') 0 s)
               @ texts lines\<rparr>)"

lemma open_streamed: "open_client srv s \<Longrightarrow> open_client srv (streamed srv s ls)"
  by (simp add: streamed_def open_client_def)

lemma streamed_append: "streamed srv (streamed srv s xs) ys = streamed srv s (xs @ ys)"
  by (auto simp: streamed_def texts_def)

lemma line_emitted:
  assumes "open_client srv s"
    and "spool_line_action (sc_jclin ctx) (sc_limit ctx) (sc_count ctx) line = SPOOL_LINE_EMIT"
  shows "do_print_sysout_line srv line ctx s =
    (0, ctx\<lparr>sc_count := sc_count ctx + 1, sc_total := sc_total ctx + 1\<rparr>, streamed srv s [line])"
proof (cases "ss_headers_sent s")
  case True
  with assms show ?thesis
    by (simp add: do_print_sysout_line_def http_print_open streamed_def texts_def)
next
  case False
  have o: "open_client srv (s\<lparr>ss_headers_sent := True, ss_out := x\<rparr>)" for x
    using assms(1) by (simp add: open_client_def)
  from False assms show ?thesis
    by (simp add: do_print_sysout_line_def sendDefaultHeaders_items http_print_open[OF o] streamed_def texts_def
        HTTP_STATUS_OK_def)
qed

lemma walk_spec:
  assumes stops: "\<forall>rc. stops rc \<longleftrightarrow> rc < 0"
  shows "open_client srv s \<Longrightarrow>
    \<exists>stopped. walk stops srv lines ctx s =
      (stopped, ctx\<lparr>sc_count := sc_count ctx + length (content (sc_jclin ctx) (sc_limit ctx) (sc_count ctx) lines),
                    sc_total := sc_total ctx + length (content (sc_jclin ctx) (sc_limit ctx) (sc_count ctx) lines)\<rparr>,
       streamed srv s (content (sc_jclin ctx) (sc_limit ctx) (sc_count ctx) lines))
    \<and> (stopped = None \<or> stopped = Some RC_SPOOL_CAP \<and> sc_limit ctx \<noteq> 0 \<and>
         sc_limit ctx \<le> sc_count ctx + length (content (sc_jclin ctx) (sc_limit ctx) (sc_count ctx) lines))"
proof (induction lines arbitrary: ctx s)
  case Nil
  then show ?case by (simp add: content_def streamed_def)
next
  case (Cons line lines)
  let ?c = "content (sc_jclin ctx) (sc_limit ctx) (sc_count ctx)"
  show ?case
  proof (cases "spool_line_action (sc_jclin ctx) (sc_limit ctx) (sc_count ctx) line")
    case SPOOL_LINE_STOP
    then have l: "sc_limit ctx \<noteq> 0" "sc_limit ctx \<le> sc_count ctx"
      by (auto simp: spool_line_action_def split: if_splits)
    with SPOOL_LINE_STOP stops show ?thesis
      by (simp add: do_print_sysout_line_def content_def streamed_def RC_SPOOL_CAP_def)
  next
    case SPOOL_LINE_SKIP
    then have "\<not> visible (sc_jclin ctx) line"
      by (auto simp: spool_line_action_def visible_def split: if_splits)
    then have "?c (line # lines) = ?c lines" by (simp add: content_def)
    with SPOOL_LINE_SKIP stops Cons show ?thesis
      by (simp add: do_print_sysout_line_def)
  next
    case SPOOL_LINE_EMIT
    then have v: "visible (sc_jclin ctx) line" "sc_limit ctx = 0 \<or> sc_count ctx < sc_limit ctx"
      by (auto simp: spool_line_action_def visible_def split: if_splits)
    let ?ctx = "ctx\<lparr>sc_count := sc_count ctx + 1, sc_total := sc_total ctx + 1\<rparr>"
    have c: "?c (line # lines) = line # content (sc_jclin ctx) (sc_limit ctx) (sc_count ctx + 1) lines"
      using v by (auto simp: content_def Let_def take_Cons')
    from Cons.IH[of "streamed srv s [line]" ?ctx] Cons.prems show ?thesis
      using stops by (auto simp: line_emitted[OF Cons.prems SPOOL_LINE_EMIT] c open_streamed streamed_append)
  qed
qed

text \<open>A list of data sets of which one is asked for is as good as that one.\<close>

lemma print_dds_skip:
  "list_all (\<lambda>e. case e of None \<Rightarrow> True | Some dd \<Rightarrow> \<not> selected fl want dd) dds \<Longrightarrow>
   print_dds stops jesprint srv fl want (dds @ es) st = print_dds stops jesprint srv fl want es st"
  by (induction dds) (auto simp: print_dd_def selected_def split: option.splits)

lemma print_dds_one:
  assumes "[dd. Some dd \<leftarrow> dds, selected fl want dd] = [dd]"
  shows "print_dds stops jesprint srv fl want dds st = print_dd stops jesprint srv fl want (Some dd) st"
proof -
  let ?no = "list_all (\<lambda>e. case e of None \<Rightarrow> True | Some dd \<Rightarrow> \<not> selected fl want dd)"
  have none: "?no es" if "[dd. Some dd \<leftarrow> es, selected fl want dd] = []" for es
    using that by (induction es) (auto split: option.splits if_splits)
  have "\<exists>pre post. dds = pre @ Some dd # post \<and> ?no pre \<and> ?no post"
    using assms
  proof (induction dds)
    case (Cons e es)
    show ?case
    proof (cases "\<exists>d. e = Some d \<and> selected fl want d")
      case True
      with Cons.prems none[of es] show ?thesis
        by (intro exI[of _ "[]"] exI[of _ es]) auto
    next
      case False
      then have "[dd. Some dd \<leftarrow> es, selected fl want dd] = [dd]"
        using Cons.prems by (cases e) auto
      from Cons.IH[OF this] obtain pre post where "es = pre @ Some dd # post" "?no pre" "?no post" by blast
      with False show ?thesis
        by (intro exI[of _ "e # pre"] exI[of _ post]) (auto split: option.splits)
    qed
  qed simp
  then obtain pre post where d: "dds = pre @ Some dd # post" "?no pre" "?no post" by blast
  show ?thesis
    using print_dds_skip[OF d(2)] print_dds_skip[OF d(3), of stops jesprint srv "[]"]
    by (auto simp: d(1) split: sum.splits)
qed

definition spool_content :: "jes_flags \<Rightarrow> (nat \<Rightarrow> dsres) \<Rightarrow> JESDD \<Rightarrow> cstr list" where
  "spool_content fl jesprint dd =
     content (dsid dd = f_PDBINJCL fl) (dd_limit fl dd) 0 (dr_lines (jesprint (dsid dd)))"

lemma print_dd_selected:
  assumes stops: "\<forall>rc. stops rc \<longleftrightarrow> rc < 0" and "open_client srv s" and sel: "selected fl want dd"
  shows "\<exists>ctx bad. print_dd stops jesprint srv fl want (Some dd)
      (\<lparr>sc_limit = 0, sc_count = 0, sc_total = 0, sc_jclin = False\<rparr>, None, s)
      = Inr (ctx, bad, streamed srv s (spool_content fl jesprint dd))
    \<and> sc_total ctx = length (spool_content fl jesprint dd)
    \<and> (spool_content fl jesprint dd = [] \<longrightarrow>
        bad = map_option (\<lambda>why. (dsid dd, why,
            do_print_sysout_status (dr_prc (jesprint (dsid dd))) (dr_reason (jesprint (dsid dd))) (dd_records dd)))
          (do_print_sysout_why (dr_prc (jesprint (dsid dd))) (dr_reason (jesprint (dsid dd))) (dd_records dd)))"
proof -
  let ?res = "jesprint (dsid dd)"
  let ?ctx = "\<lparr>sc_limit = dd_limit fl dd, sc_count = 0, sc_total = 0, sc_jclin = (dsid dd = f_PDBINJCL fl)\<rparr>"
  from walk_spec[OF stops assms(2), of "dr_lines ?res" ?ctx] obtain stopped where
    w: "walk stops srv (dr_lines ?res) ?ctx s =
        (stopped, ?ctx\<lparr>sc_count := length (spool_content fl jesprint dd), sc_total := length (spool_content fl jesprint dd)\<rparr>,
         streamed srv s (spool_content fl jesprint dd))"
    and st: "stopped = None \<or> stopped = Some RC_SPOOL_CAP \<and> dd_limit fl dd \<noteq> 0
        \<and> dd_limit fl dd \<le> length (spool_content fl jesprint dd)"
    by (auto simp: spool_content_def)
  have m: "do_print_sysout_why (if dr_prc ?res < 0 then 0 else dr_prc ?res) = do_print_sysout_why (dr_prc ?res)"
    "do_print_sysout_status (if dr_prc ?res < 0 then 0 else dr_prc ?res) = do_print_sysout_status (dr_prc ?res)"
    by (simp_all add: do_print_sysout_why_def do_print_sysout_status_def fun_eq_iff)
  have none: "spool_content fl jesprint dd = [] \<Longrightarrow> stopped = None" using st by auto
  have limit: "(if has (dd_flag dd) (f_SYSIN fl) then dd_records dd else 0) = dd_limit fl dd"
    by (simp add: dd_limit_def)
  show ?thesis
    unfolding print_dd_def option.case limit
    using sel w st none
    by (cases "do_print_sysout_why (dr_prc ?res) (if stopped = None then dr_reason ?res else JESPR_STOPPED) (dd_records dd)")
      (auto simp: selected_def m Let_def split del: if_split)
qed

lemma registered:
  "open_client srv s \<Longrightarrow> open_client srv (snd (session_register_jes s jes))"
  "ss_headers_sent (snd (session_register_jes s jes)) = ss_headers_sent s"
  "ss_out (snd (session_register_jes s jes)) = ss_out s"
  "default_items srv st ct n (snd (session_register_jes s jes)) = default_items srv st ct n s"
  by (auto simp: session_register_jes_def do_call_def open_client_def default_items_def cookie_headers_def
      challenge_headers_def is_browser_fetch_def getHeaderParam_def get_env_param_def split: option.splits)

lemma jesclose_out [simp]: "ss_out (session_jesclose s jes) = ss_out s"
  by (simp add: session_jesclose_def split: option.splits)

lemmas http_status_defs = HTTP_STATUS_OK_def HTTP_STATUS_NOT_FOUND_def HTTP_STATUS_INTERNAL_SERVER_ERROR_def

text \<open>
  C19: Asked for one data set of a job, the server streams exactly its content: every record of an
  output data set, at most the promised number of an input data set, and of the job's own JCL only
  the cards, with headers announcing plain text before the first line.  When there is nothing to
  stream the answer says why: an empty 200 for an empty data set, 404 for a data set whose records
  JES2 has purged, 500 for any other failed read, never an empty 200 for lost output.
\<close>
theorem spool_file_streamed:
  assumes stops: "\<forall>rc. stops rc \<longleftrightarrow> rc < 0" and client: "open_client srv s" "\<not> ss_headers_sent s"
    and al: "\<forall>n. hd_alloc srv n" and h: "je_open env look = Some h"
    and one: "[dd. Some dd \<leftarrow> jesdd job, selected (je_flags env) want dd] = [dd]"
  shows "\<exists>rc s'. do_print_sysout stops jesprint srv env look job want s = (rc, s') \<and>
    (let lines = spool_content (je_flags env) jesprint dd;
         res = jesprint (dsid dd);
         why = do_print_sysout_why (dr_prc res) (dr_reason res) (dd_records dd)
     in if lines \<noteq> [] then
          rc = 0 \<and> ss_out s' = ss_out s @ default_items srv 200 (Some ''text/plain'') 0 s @ texts lines
        else if why = None then ss_out s' = ss_out s @ default_items srv 200 (Some ''text/plain'') 0 s
        else \<exists>t. s' = session_jesclose t (Some h) \<and>
          (if dr_prc res \<le> 0 \<and> dr_reason res = JESPR_FOREIGN \<and> dd_records dd \<noteq> 0
           then document_sent srv 404
             (report_text srv CATEGORY_SERVICE RC_WARNING JOBS_REASON_SPOOL_GONE (Some (spool_gone job (dsid dd))) [])
             (snd (session_register_jes s (Some h))) rc t
           else document_sent srv 500
             (report_text srv CATEGORY_SERVICE RC_ERROR JOBS_REASON_SPOOL_READ
               (Some (spool_unreadable job (dsid dd) (the why))) [])
             (snd (session_register_jes s (Some h))) rc t))"
proof -
  let ?fl = "je_flags env" and ?t = "snd (session_register_jes s (Some h))"
  let ?res = "jesprint (dsid dd)"
  let ?why = "do_print_sysout_why (dr_prc ?res) (dr_reason ?res) (dd_records dd)"
  have sel: "selected ?fl want dd"
    using one by (auto dest!: arg_cong[where f = set] split: option.splits if_splits)
  have open_t: "open_client srv ?t" and sent_t: "\<not> ss_headers_sent ?t" and out_t: "ss_out ?t = ss_out s"
    and items_t: "default_items srv 200 (Some ''text/plain'') 0 ?t = default_items srv 200 (Some ''text/plain'') 0 s"
    using client by (simp_all add: registered)
  obtain ctx bad where
    dd: "print_dd stops jesprint srv ?fl want (Some dd)
        (\<lparr>sc_limit = 0, sc_count = 0, sc_total = 0, sc_jclin = False\<rparr>, None, ?t)
      = Inr (ctx, bad, streamed srv ?t (spool_content ?fl jesprint dd))"
    and total: "sc_total ctx = length (spool_content ?fl jesprint dd)"
    and bad: "spool_content ?fl jesprint dd = [] \<Longrightarrow> bad = map_option (\<lambda>why. (dsid dd, why,
            do_print_sysout_status (dr_prc ?res) (dr_reason ?res) (dd_records dd))) ?why"
    using print_dd_selected[OF stops open_t sel] by blast
  note run = do_print_sysout_def print_dds_one[OF one] h dd total
  show ?thesis
  proof (cases "spool_content ?fl jesprint dd = []")
    case False
    then show ?thesis
      using sent_t out_t items_t by (auto simp: run streamed_def Let_def split: option.splits)
  next
    case empty: True
    show ?thesis
    proof (cases ?why)
      case None
      with empty show ?thesis
        by (simp add: run bad streamed_def sendDefaultHeaders_items[OF open_t] items_t out_t Let_def HTTP_STATUS_OK_def)
    next
      case (Some why)
      then have status: "do_print_sysout_status (dr_prc ?res) (dr_reason ?res) (dd_records dd) =
          (if dr_prc ?res \<le> 0 \<and> dr_reason ?res = JESPR_FOREIGN \<and> dd_records dd \<noteq> 0 then 404 else 500)"
        by (auto simp: do_print_sysout_status_def http_status_defs)
      obtain r1 t1 where gone: "sendErrorResponse srv 404 CATEGORY_SERVICE RC_WARNING JOBS_REASON_SPOOL_GONE
          (Some (spool_gone job (dsid dd))) [] ?t = (r1, t1)" by force
      obtain r2 t2 where failed: "sendErrorResponse srv 500 CATEGORY_SERVICE RC_ERROR JOBS_REASON_SPOOL_READ
          (Some (spool_unreadable job (dsid dd) why)) [] ?t = (r2, t2)" by force
      show ?thesis
        using empty Some status sendErrorResponse_sent[OF open_t al gone] sendErrorResponse_sent[OF open_t al failed]
        by (auto simp: run bad streamed_def Let_def http_status_defs gone failed)
    qed
  qed
qed

definition sample_print :: "nat \<Rightarrow> dsres" where
  "sample_print n = \<lparr>dr_prc = 0, dr_lines = [''FIRST'', ''SECOND''], dr_reason = JESPR_END\<rparr>"

theorem spool_file_streamed_witness:
  "\<exists>s'. do_print_sysout (\<lambda>rc. rc < 0) sample_print sample_httpd sample_env 1 sample_job 102 sample_rsession = (0, s') \<and>
     ss_out s' = default_items sample_httpd 200 (Some ''text/plain'') 0 sample_rsession @ texts [''FIRST'', ''SECOND'']"
proof -
  have "open_client sample_httpd sample_rsession" "\<not> ss_headers_sent sample_rsession"
    by (simp_all add: open_client_def sample_httpd_def sample_rsession_def sample_conn_def)
  moreover have "je_open sample_env 1 = Some 7" by (simp add: sample_env_def)
  moreover have "[dd. Some dd \<leftarrow> jesdd sample_job, selected (je_flags sample_env) 102 dd] = [sample_dd]"
    by (simp add: selected_def sample_job_def sample_dd_def sample_env_def sample_flags_def has_def)
  moreover have "spool_content (je_flags sample_env) sample_print sample_dd = [''FIRST'', ''SECOND'']"
    by (simp add: spool_content_def content_def visible_def dd_limit_def sample_dd_def sample_env_def sample_flags_def
        has_def sample_print_def)
  moreover have "ss_out sample_rsession = []" by (simp add: sample_rsession_def)
  ultimately show ?thesis
    using spool_file_streamed[where stops = "\<lambda>rc. rc < 0" and srv = sample_httpd and s = sample_rsession and
        env = sample_env and look = 1 and job = sample_job and want = 102 and dd = sample_dd and jesprint = sample_print] sample_open(2)
    by simp
qed

section \<open>Hidden jobs\<close>

lemma visible_hidden:
  assumes "\<And>js job. je_queue env look jid = Some js \<Longrightarrow> job \<in> set (matches env name jid js) \<Longrightarrow> policy env op job = JWN_HIDE"
  shows "visible_job env look name jid op None = (None, JWN_HIDE)"
  using assms by (auto simp: visible_job_def complete_owner_def Let_def split: option.splits list.splits)

lemma lookup_empty_queue:
  "visible_job (env\<lparr>je_queue := \<lambda>_ _. Some []\<rparr>) look name jid op sub = (None, JWN_HIDE)"
  "looked (env\<lparr>je_queue := \<lambda>_ _. Some []\<rparr>) look s = looked env look s"
  by (cases "je_open env look"; simp add: visible_job_def matches_def looked_def)+

text \<open>
  C20: A job the policy hides is, to every operation on one job (its status, its list of files, the
  records of a file, cancel and purge), exactly a job that does not exist: the answer, the calls
  made and the state left are those of an empty queue.
\<close>
theorem hidden_job_looks_absent:
  assumes "getPathParam s ''job-name'' = Some name" and "getPathParam s ''jobid'' = Some jid"
    and "\<And>js job op. je_queue env 0 jid = Some js \<Longrightarrow> job \<in> set (matches env name jid js) \<Longrightarrow>
           policy env op job = JWN_HIDE"
  shows "(let absent = env\<lparr>je_queue := \<lambda>_ _. Some []\<rparr> in
      cancel_job srv env purge s = cancel_job srv absent purge s \<and>
      jobStatusHandler srv env s = jobStatusHandler srv absent s \<and>
      jobFilesHandler srv env s = jobFilesHandler srv absent s \<and>
      jobRecordsHandler stops jesprint srv env s = jobRecordsHandler stops jesprint srv absent s)"
  using assms visible_hidden[of env 0 jid name, OF assms(3)]
  by (simp_all add: cancel_job_def jobStatusHandler_def find_and_send_job_status_def jobFilesHandler_def
      jobRecordsHandler_def find_job_spec lookup_empty_queue Let_def split: option.splits)

definition other_session :: rsession where
  "other_session = sample_rsession\<lparr>ss_env :=
     [''HTTP_job-name'' \<mapsto> ''PAYROLL'', ''HTTP_jobid'' \<mapsto> ''JOB00008'']\<rparr>"

theorem hidden_job_looks_absent_witness:
  "jobStatusHandler sample_httpd sample_env other_session =
   jobStatusHandler sample_httpd (sample_env\<lparr>je_queue := \<lambda>_ _. Some []\<rparr>) other_session"
proof -
  have params: "getPathParam other_session ''job-name'' = Some ''PAYROLL''"
      "getPathParam other_session ''jobid'' = Some ''JOB00008''"
    by (simp_all add: other_session_def getPathParam_def get_env_param_def c_snprintf_def ENV_NAME_SIZE_def)
  have "policy sample_env op job = JWN_HIDE" if "je_queue sample_env 0 ''JOB00008'' = Some js"
    and "job \<in> set (matches sample_env ''PAYROLL'' ''JOB00008'' js)" for js job op
  proof -
    have "job = other_job" using that
      by (auto simp: sample_env_def matches_def is_match_def sample_job_def split: if_splits)
    then show ?thesis by (simp add: sample_policy)
  qed
  from hidden_job_looks_absent[OF params this] show ?thesis by (simp add: Let_def)
qed

end
