(* ===== verification/JclLines.thy ===== *)
theory JclLines
  imports Prelude
begin

text \<open>
  The line table of the job submission, \<^verbatim>\<open>src/jclines.c\<close>: a block of card slots and an array of
  pointers into it, grown together.

  Storage is modelled as far as the function can tear the table apart: a heap of live blocks, a
  pointer as a block and an offset, and \<^verbatim>\<open>realloc\<close> as documented (on success the old block is gone and
  its content is the start of the new one, on failure nothing changes).  \<open>grants\<close> says which of the
  calls succeed, \<open>fill\<close> what the bytes of a new block hold.
\<close>

section \<open>Storage\<close>

datatype block = Chars "byte list" | Pointers "(nat \<times> nat) list"

record heap =
  hp_live :: "nat \<Rightarrow> block option"
  hp_next :: nat

definition LINE_STRIDE :: nat where "LINE_STRIDE = 81"

definition resize :: "'a list \<Rightarrow> nat \<Rightarrow> (nat \<Rightarrow> 'a) \<Rightarrow> 'a list" where
  "resize xs n fill = map (\<lambda>i. if i < length xs then xs ! i else fill i) [0..<n]"

definition realloc_chars :: "bool \<Rightarrow> (nat \<Rightarrow> byte) \<Rightarrow> nat \<Rightarrow> nat \<Rightarrow> heap \<Rightarrow> nat option \<times> heap" where
  "realloc_chars granted fill p n h =
     (case hp_live h p of
        Some (Chars bs) \<Rightarrow>
          if granted
          then (Some (hp_next h),
                h\<lparr>hp_live := (hp_live h)(p := None, hp_next h := Some (Chars (resize bs n fill))), hp_next := hp_next h + 1\<rparr>)
          else (None, h)
      | _ \<Rightarrow> (None, h))"

definition realloc_pointers :: "bool \<Rightarrow> (nat \<Rightarrow> nat \<times> nat) \<Rightarrow> nat \<Rightarrow> nat \<Rightarrow> heap \<Rightarrow> nat option \<times> heap" where
  "realloc_pointers granted fill p n h =
     (case hp_live h p of
        Some (Pointers ps) \<Rightarrow>
          if granted
          then (Some (hp_next h),
                h\<lparr>hp_live := (hp_live h)(p := None, hp_next h := Some (Pointers (resize ps n fill))), hp_next := hp_next h + 1\<rparr>)
          else (None, h)
      | _ \<Rightarrow> (None, h))"

section \<open>Growing\<close>

text \<open>
  The three variables of the caller.  The doubling of a capacity that is not positive would never
  reach \<open>required\<close>; \<open>None\<close> is the loop that does not return, \<open>Some None\<close> the overflow.
\<close>

record line_table =
  lt_lines :: nat
  lt_buf :: nat
  lt_capacity :: int

definition INT_MAX :: int where "INT_MAX = 2 ^ 31 - 1"

partial_function (option) grow_capacity :: "int \<Rightarrow> int \<Rightarrow> int option option" where
  "grow_capacity new_cap required =
     (if new_cap < required then
        (if new_cap > INT_MAX div 2 then Some None else grow_capacity (new_cap * 2) required)
      else Some (Some new_cap))"

declare grow_capacity.simps [code]

text \<open>The block from \<open>from\<close> on zeroed, as the \<^verbatim>\<open>memset\<close> does.\<close>

definition zero_from :: "nat \<Rightarrow> byte list \<Rightarrow> byte list" where
  "zero_from k bs = take k bs @ replicate (length bs - k) 0"

definition slot_pointers :: "nat \<Rightarrow> nat \<Rightarrow> (nat \<times> nat) list" where
  "slot_pointers buf n = map (\<lambda>i. (buf, i * LINE_STRIDE)) [0..<n]"

definition grow_lines_arrays ::
  "bool \<times> bool \<Rightarrow> (nat \<Rightarrow> nat \<times> nat) \<Rightarrow> (nat \<Rightarrow> byte) \<Rightarrow> line_table \<Rightarrow> int \<Rightarrow> heap \<Rightarrow>
     (int \<times> line_table \<times> heap) option" where
  "grow_lines_arrays granted pfill fill t required h =
     (if required \<le> lt_capacity t then Some (0, t, h)
      else
        (case grow_capacity (lt_capacity t) required of
           None \<Rightarrow> None
         | Some None \<Rightarrow> Some (-1, t, h)
         | Some (Some new_cap) \<Rightarrow>
             Some (case realloc_pointers (fst granted) pfill (lt_lines t) (nat new_cap) h of
                (None, h) \<Rightarrow> (-1, t, h)
              | (Some new_lines, h) \<Rightarrow>
                  (case realloc_chars (snd granted) fill (lt_buf t) (nat new_cap * LINE_STRIDE) h of
                     (None, h) \<Rightarrow> (-1, t\<lparr>lt_lines := new_lines\<rparr>, h)
                   | (Some new_buf, h) \<Rightarrow>
                       let old = (case hp_live h new_buf of Some (Chars bs) \<Rightarrow> bs | _ \<Rightarrow> []);
                           live = (hp_live h)(new_buf := Some (Chars (zero_from (nat (lt_capacity t) * LINE_STRIDE) old)),
                                              new_lines := Some (Pointers (slot_pointers new_buf (nat new_cap))))
                       in (0, \<lparr>lt_lines = new_lines, lt_buf = new_buf, lt_capacity = new_cap\<rparr>, h\<lparr>hp_live := live\<rparr>)))))"

section \<open>The doubling\<close>

text \<open>It ends for every capacity a caller has, and ends at the first doubling that is enough.\<close>

lemma grow_capacity_returns:
  assumes "0 < cap" and "required \<le> INT_MAX"
  shows "\<exists>r. grow_capacity cap required = Some r \<and>
    (case r of None \<Rightarrow> INT_MAX < 2 * required
             | Some c \<Rightarrow> required \<le> c \<and> (cap < required \<longrightarrow> c < 2 * required) \<and> c \<le> max cap INT_MAX)"
  using assms
proof (induction "nat (required - cap)" arbitrary: cap rule: less_induct)
  case less
  show ?case
  proof (cases "cap < required \<and> cap \<le> INT_MAX div 2")
    case True
    then have "nat (required - cap * 2) < nat (required - cap)" "0 < cap * 2" using less.prems by auto
    from less.hyps[OF this less.prems(2)] obtain r where
      r: "grow_capacity (cap * 2) required = Some r"
        "case r of None \<Rightarrow> INT_MAX < 2 * required
             | Some c \<Rightarrow> required \<le> c \<and> (cap * 2 < required \<longrightarrow> c < 2 * required) \<and> c \<le> max (cap * 2) INT_MAX"
      by blast
    have same: "\<not> cap * 2 < required \<Longrightarrow> r = Some (cap * 2)"
      using r(1) by (subst (asm) grow_capacity.simps) simp
    from True r same show ?thesis
      by (subst grow_capacity.simps) (cases r; cases "cap * 2 < required"; auto)
  next
    case False
    then show ?thesis by (subst grow_capacity.simps) auto
  qed
qed

text \<open>A capacity of zero doubles for ever; the callers start at 256.\<close>

lemma grow_capacity_zero: "0 < required \<Longrightarrow> grow_capacity 0 required = None"
proof (rule ccontr)
  assume pos: "0 < required" and "grow_capacity 0 required \<noteq> None"
  then obtain r where "grow_capacity 0 required = Some r" by blast
  then have "(0::int) = 0 \<longrightarrow> \<not> 0 < required"
    by (rule grow_capacity.raw_induct[where P = "\<lambda>c q _. c = 0 \<longrightarrow> \<not> 0 < q", rotated])
      (auto simp: INT_MAX_def split: if_splits)
  with pos show False by simp
qed

section \<open>The table\<close>

definition table_ok :: "heap \<Rightarrow> line_table \<Rightarrow> bool" where
  "table_ok h t \<longleftrightarrow>
     (\<exists>ps bs. hp_live h (lt_lines t) = Some (Pointers ps) \<and> hp_live h (lt_buf t) = Some (Chars bs) \<and>
        0 < lt_capacity t \<and> nat (lt_capacity t) * LINE_STRIDE \<le> length bs \<and> nat (lt_capacity t) \<le> length ps \<and>
        (\<forall>i < nat (lt_capacity t). ps ! i = (lt_buf t, i * LINE_STRIDE))) \<and>
     (\<forall>p \<ge> hp_next h. hp_live h p = None)"

text \<open>The card in a slot, read through its pointer.\<close>

definition slot :: "heap \<Rightarrow> line_table \<Rightarrow> nat \<Rightarrow> byte list option" where
  "slot h t i =
     (case hp_live h (lt_lines t) of
        Some (Pointers ps) \<Rightarrow>
          if i < length ps then
            (case hp_live h (fst (ps ! i)) of
               Some (Chars bs) \<Rightarrow>
                 if snd (ps ! i) + LINE_STRIDE \<le> length bs then Some (take LINE_STRIDE (drop (snd (ps ! i)) bs)) else None
             | _ \<Rightarrow> None)
          else None
      | _ \<Rightarrow> None)"

lemma resize_nth: "i < n \<Longrightarrow> resize xs n fill ! i = (if i < length xs then xs ! i else fill i)"
  by (simp add: resize_def)

lemma resize_length [simp]: "length (resize xs n fill) = n"
  by (simp add: resize_def)

lemma zero_from_length [simp]: "k \<le> length bs \<Longrightarrow> length (zero_from k bs) = length bs"
  by (simp add: zero_from_def)

lemma slot_in_table:
  assumes "table_ok h t" and "i < nat (lt_capacity t)"
  shows "\<exists>bs. hp_live h (lt_buf t) = Some (Chars bs) \<and> (i + 1) * LINE_STRIDE \<le> length bs \<and>
    slot h t i = Some (take LINE_STRIDE (drop (i * LINE_STRIDE) bs))"
proof -
  from assms(1) obtain ps bs where t: "hp_live h (lt_lines t) = Some (Pointers ps)"
      "hp_live h (lt_buf t) = Some (Chars bs)" "nat (lt_capacity t) * LINE_STRIDE \<le> length bs"
      "nat (lt_capacity t) \<le> length ps" "\<forall>i < nat (lt_capacity t). ps ! i = (lt_buf t, i * LINE_STRIDE)"
    unfolding table_ok_def by blast
  have "(i + 1) * LINE_STRIDE \<le> nat (lt_capacity t) * LINE_STRIDE"
    using assms(2) by (intro mult_right_mono) auto
  with t assms(2) show ?thesis by (simp add: slot_def)
qed

lemma zero_from_slots:
  assumes "length bs = n * LINE_STRIDE" "m \<le> n"
  shows "i < m \<Longrightarrow> take LINE_STRIDE (drop (i * LINE_STRIDE) (zero_from (m * LINE_STRIDE) bs)) =
           take LINE_STRIDE (drop (i * LINE_STRIDE) bs)"
    and "m \<le> i \<Longrightarrow> i < n \<Longrightarrow> take LINE_STRIDE (drop (i * LINE_STRIDE) (zero_from (m * LINE_STRIDE) bs)) =
           replicate LINE_STRIDE 0"
proof -
  have le: "j * LINE_STRIDE + LINE_STRIDE \<le> k * LINE_STRIDE" if "j < k" for j k
    using that by (simp add: LINE_STRIDE_def)
  have m: "m * LINE_STRIDE \<le> length bs" using assms by (simp add: LINE_STRIDE_def)
  show "take LINE_STRIDE (drop (i * LINE_STRIDE) (zero_from (m * LINE_STRIDE) bs)) =
      take LINE_STRIDE (drop (i * LINE_STRIDE) bs)" if "i < m"
    using le[OF that] m by (simp add: zero_from_def drop_take min_def)
  show "take LINE_STRIDE (drop (i * LINE_STRIDE) (zero_from (m * LINE_STRIDE) bs)) = replicate LINE_STRIDE 0"
    if "m \<le> i" "i < n"
  proof -
    have "m * LINE_STRIDE \<le> i * LINE_STRIDE" using that by (simp add: LINE_STRIDE_def)
    with le[OF that(2)] m assms(1) show ?thesis
      by (simp add: zero_from_def)
  qed
qed

lemma resize_slots:
  assumes "(i + 1) * LINE_STRIDE \<le> length bs" "(i + 1) * LINE_STRIDE \<le> n"
  shows "take LINE_STRIDE (drop (i * LINE_STRIDE) (resize bs n fill)) = take LINE_STRIDE (drop (i * LINE_STRIDE) bs)"
  using assms by (intro nth_equalityI) (auto simp: resize_nth)

text \<open>
  C21: Growing the line table always returns, and whichever of its two allocations fails it leaves a
  table: every pointer addresses its slot of the live buffer, the cards it held are unchanged, new
  slots are zeroed, no block is lost or left behind, and on failure the capacity and the buffer are
  the caller's own.
\<close>
theorem grow_keeps_table:
  assumes ok: "table_ok h t" and req: "required \<le> INT_MAX"
  shows "\<exists>rc t' h'. grow_lines_arrays granted pfill fill t required h = Some (rc, t', h') \<and> table_ok h' t' \<and>
    (rc = 0 \<and> required \<le> lt_capacity t' \<or>
     rc = -1 \<and> lt_capacity t' = lt_capacity t \<and> lt_buf t' = lt_buf t) \<and>
    (\<forall>i < nat (lt_capacity t). slot h' t' i = slot h t i) \<and>
    (\<forall>i < nat (lt_capacity t'). i < nat (lt_capacity t) \<or> slot h' t' i = Some (replicate LINE_STRIDE 0)) \<and>
    dom (hp_live h') = dom (hp_live h) - {lt_lines t, lt_buf t} \<union> {lt_lines t', lt_buf t'}"
proof -
  let ?cap = "lt_capacity t"
  from ok obtain ps bs where
    ps: "hp_live h (lt_lines t) = Some (Pointers ps)" and bs: "hp_live h (lt_buf t) = Some (Chars bs)"
    and pos: "0 < ?cap" and room: "nat ?cap * LINE_STRIDE \<le> length bs" "nat ?cap \<le> length ps"
    and ptr: "\<forall>i < nat ?cap. ps ! i = (lt_buf t, i * LINE_STRIDE)" and fresh: "\<forall>p \<ge> hp_next h. hp_live h p = None"
    unfolding table_ok_def by blast
  have ne: "lt_lines t \<noteq> lt_buf t" "lt_lines t < hp_next h" "lt_buf t < hp_next h"
    using ps bs fresh by (auto simp: not_le[symmetric])
  have same: ?thesis if "grow_lines_arrays granted pfill fill t required h = Some (rc, t, h)"
    "rc = 0 \<and> required \<le> ?cap \<or> rc = -1" for rc
    using that ok ps bs by (intro exI[of _ rc] exI[of _ t] exI[of _ h]) (auto simp: dom_def)
  from grow_capacity_returns[OF pos req] obtain r where r: "grow_capacity ?cap required = Some r"
    "case r of None \<Rightarrow> True | Some c \<Rightarrow> required \<le> c" by (auto split: option.splits)
  show ?thesis
  proof (cases "required \<le> ?cap \<or> r = None \<or> \<not> fst granted")
    case True
    then show ?thesis
      using r ps by (intro same[of "if required \<le> ?cap then 0 else -1"])
        (auto simp: grow_lines_arrays_def realloc_pointers_def split: option.splits)
  next
    case False
    then obtain c where c: "r = Some c" "?cap < c" "required \<le> c" using r(2) by (auto split: option.splits)
    let ?n = "nat c" and ?m = "nat ?cap"
    note zless_nat_conj [simp del]
    have mn: "?m < ?n" using c(2) pos by (simp add: nat_mono_iff)
    then have len: "(i + 1) * LINE_STRIDE \<le> ?m * LINE_STRIDE" "(i + 1) * LINE_STRIDE \<le> ?n * LINE_STRIDE" if "i < ?m" for i
      using that by (intro mult_right_mono; linarith)+
    define ps' where "ps' = resize ps ?n pfill"
    define h1 where "h1 = h\<lparr>hp_live := (hp_live h)(lt_lines t := None, hp_next h := Some (Pointers ps')), hp_next := hp_next h + 1\<rparr>"
    have step1: "realloc_pointers (fst granted) pfill (lt_lines t) ?n h = (Some (hp_next h), h1)"
      using False ps by (simp add: realloc_pointers_def h1_def ps'_def)
    have bs1: "hp_live h1 (lt_buf t) = Some (Chars bs)" "hp_live h1 (hp_next h) = Some (Pointers ps')"
      using bs ne by (auto simp: h1_def)
    show ?thesis
    proof (cases "snd granted")
      case refused: False
      let ?t = "t\<lparr>lt_lines := hp_next h\<rparr>"
      have run: "grow_lines_arrays granted pfill fill t required h = Some (-1, ?t, h1)"
        using False r c refused step1 bs1 by (simp add: grow_lines_arrays_def realloc_chars_def)
      have ptr': "\<forall>i < ?m. ps' ! i = (lt_buf t, i * LINE_STRIDE)" "?m \<le> length ps'"
        using ptr room mn by (auto simp: ps'_def resize_nth)
      have ok1: "table_ok h1 ?t"
        using bs1 room(1) pos ptr' fresh unfolding table_ok_def by (auto simp: h1_def)
      have "slot h1 ?t i = slot h t i" if "i < ?m" for i
        using slot_in_table[OF ok1, of i] slot_in_table[OF ok that] that bs bs1 by simp
      moreover have "dom (hp_live h1) = dom (hp_live h) - {lt_lines t, lt_buf t} \<union> {hp_next h, lt_buf t}"
        using bs ne by (auto simp: h1_def)
      ultimately show ?thesis
        using run ok1 by (intro exI[of _ "-1"] exI[of _ ?t] exI[of _ h1]) simp
    next
      case granted: True
      define bs' where "bs' = zero_from (?m * LINE_STRIDE) (resize bs (?n * LINE_STRIDE) fill)"
      let ?q = "hp_next h + 1"
      let ?t = "\<lparr>lt_lines = hp_next h, lt_buf = ?q, lt_capacity = c\<rparr>"
      define h2 where "h2 = h1\<lparr>hp_live := (hp_live h1)(lt_buf t := None, ?q := Some (Chars bs'),
          hp_next h := Some (Pointers (slot_pointers ?q ?n))), hp_next := hp_next h + 2\<rparr>"
      have run: "grow_lines_arrays granted pfill fill t required h = Some (0, ?t, h2)"
        using False r c granted step1 bs1
        by (simp add: grow_lines_arrays_def realloc_chars_def h2_def bs'_def) (simp add: h1_def)
      have len': "length bs' = ?n * LINE_STRIDE"
        using mn by (simp add: bs'_def LINE_STRIDE_def)
      have live2: "hp_live h2 (hp_next h) = Some (Pointers (slot_pointers ?q ?n))" "hp_live h2 ?q = Some (Chars bs')"
        using ne by (auto simp: h2_def)
      have ok2: "table_ok h2 ?t"
        using live2 pos c(2) len' fresh unfolding table_ok_def by (auto simp: h2_def h1_def slot_pointers_def)
      have new: "slot h2 ?t i = Some (take LINE_STRIDE (drop (i * LINE_STRIDE) bs'))" if "i < ?n" for i
        using slot_in_table[OF ok2, of i] that live2 by simp
      have "slot h2 ?t i = slot h t i" if "i < ?m" for i
        using new[of i] slot_in_table[OF ok that] that mn bs len[OF that]
          resize_slots[of i bs "?n * LINE_STRIDE" fill] zero_from_slots(1)[of "resize bs (?n * LINE_STRIDE) fill" ?n ?m i]
        by (simp add: bs'_def)
      moreover have "slot h2 ?t i = Some (replicate LINE_STRIDE 0)" if "i < ?n" "\<not> i < ?m" for i
        using new[of i] that mn zero_from_slots(2)[of "resize bs (?n * LINE_STRIDE) fill" ?n ?m i] by (simp add: bs'_def)
      moreover have "dom (hp_live h2) = dom (hp_live h) - {lt_lines t, lt_buf t} \<union> {hp_next h, ?q}"
        using ne by (auto simp: h2_def h1_def)
      ultimately show ?thesis
        using run ok2 c(3) by (intro exI[of _ 0] exI[of _ ?t] exI[of _ h2]) auto
    qed
  qed
qed

text \<open>A table of two slots.\<close>

definition sample_heap :: heap where
  "sample_heap = \<lparr>hp_live = [0 \<mapsto> Pointers (slot_pointers 1 2), 1 \<mapsto> Chars (replicate 162 0x40)], hp_next = 2\<rparr>"

definition sample_table :: line_table where
  "sample_table = \<lparr>lt_lines = 0, lt_buf = 1, lt_capacity = 2\<rparr>"

lemma sample_table_ok: "table_ok sample_heap sample_table"
  by (auto simp: table_ok_def sample_heap_def sample_table_def slot_pointers_def LINE_STRIDE_def)

theorem grow_keeps_table_witness:
  "\<exists>rc t' h'. grow_lines_arrays (True, True) (\<lambda>_. (9, 9)) (\<lambda>_. 0xFF) sample_table 3 sample_heap = Some (rc, t', h') \<and>
     (\<forall>i < 2. slot h' t' i = slot sample_heap sample_table i)"
  using grow_keeps_table[OF sample_table_ok, of 3 "(True, True)" "\<lambda>_. (9, 9)" "\<lambda>_. 0xFF"]
  by (force simp: INT_MAX_def sample_table_def)

end
