(* ===== verification/JclSubmit.thy ===== *)
theory JclSubmit
  imports JclLines JobCard JobList
begin

text \<open>
  The submission of a job, \<^verbatim>\<open>src/jobsapi.c\<close>: the lines of a deck, its JOB card, the card with the caller's
  credentials that is put behind it, and the way of the deck to the internal reader.

  A deck is the list of its card images, each of at most 80 characters; the storage of the table is
  the subject of theory JclLines, here it is a parameter that says for which capacity there is
  room.  Of the host's character set only the line ends are named: \<open>EBCDIC_NEL\<close> is what a line feed
  of the request becomes.
\<close>

section \<open>Lines\<close>

definition EBCDIC_NEL :: char where "EBCDIC_NEL = CHR 0x0A"
definition EBCDIC_LF :: char where "EBCDIC_LF = CHR 0x85"
definition INITIAL_JCL_CAPACITY :: int where "INITIAL_JCL_CAPACITY = 256"

text \<open>A call of \<open>tokenize\<close>: the token, and the place it saves for the next call.\<close>

definition tokenize :: "cstr option \<Rightarrow> cstr \<Rightarrow> cstr option \<Rightarrow> cstr option \<times> cstr option" where
  "tokenize str delim saveptr =
     (case (if str = None then saveptr else str) of
        None \<Rightarrow> (None, saveptr)
      | Some s \<Rightarrow>
          let t = dropWhile (\<lambda>c. c \<in> set delim) s in
          if t = [] then (None, Some [])
          else (Some (takeWhile (\<lambda>c. c \<notin> set delim) t), Some (drop 1 (dropWhile (\<lambda>c. c \<notin> set delim) t))))"

definition strip_cr :: "cstr \<Rightarrow> cstr" where
  "strip_cr l = (if l \<noteq> [] \<and> last l = CHR 0x0D then butlast l else l)"

definition grow_room :: "(int \<Rightarrow> bool) \<Rightarrow> int \<Rightarrow> int \<Rightarrow> int option" where
  "grow_room room cap required =
     (if required \<le> cap then Some cap
      else case grow_capacity cap required of
        Some (Some c) \<Rightarrow> if room c then Some c else None
      | _ \<Rightarrow> None)"

lemma tokenize_shorter:
  "tokenize None d (Some s) = (Some l, s') \<Longrightarrow> \<exists>r. s' = Some r \<and> length r < length s"
proof -
  assume t: "tokenize None d (Some s) = (Some l, s')"
  let ?t = "dropWhile (\<lambda>c. c \<in> set d) s"
  have "?t \<noteq> []" using t by (auto simp: tokenize_def Let_def split: if_splits)
  then have "s \<noteq> []" by auto
  moreover have "length (dropWhile (\<lambda>c. c \<notin> set d) ?t) \<le> length s"
    using dropWhile_length_le by (rule order_trans) (rule dropWhile_length_le)
  ultimately show ?thesis using t by (cases s) (auto simp: tokenize_def Let_def split: if_splits)
qed

text \<open>
  The loop over the lines of an inline deck: the current line and the saved place, with the table
  grown when it is full; \<open>None\<close> when there is no storage.
\<close>

function collect_lines ::
  "(int \<Rightarrow> bool) \<Rightarrow> int \<Rightarrow> cstr list \<Rightarrow> cstr option \<Rightarrow> cstr option \<Rightarrow> (cstr list \<times> int) option" where
  "collect_lines room cap lines line saveptr =
     (case line of
        None \<Rightarrow> Some (lines, cap)
      | Some l \<Rightarrow>
          (case (if int (length lines) \<ge> cap then grow_room room cap (int (length lines) + 1) else Some cap) of
             None \<Rightarrow> None
           | Some cap \<Rightarrow>
               collect_lines room cap (lines @ [take 80 (strip_cr l)])
                 (fst (tokenize None [EBCDIC_NEL] saveptr)) (snd (tokenize None [EBCDIC_NEL] saveptr))))"
  by pat_completeness auto
termination
proof (relation "measure (\<lambda>(room, cap, lines, line, saveptr).
    case line of None \<Rightarrow> 0 | Some _ \<Rightarrow> 1 + (case saveptr of None \<Rightarrow> 0 | Some s \<Rightarrow> length s))", simp)
  fix room :: "int \<Rightarrow> bool" and cap c :: int and lines :: "cstr list" and line saveptr :: "cstr option" and l
  assume "line = Some l"
  then show "((room, c, lines @ [take 80 (strip_cr l)], fst (tokenize None [EBCDIC_NEL] saveptr),
      snd (tokenize None [EBCDIC_NEL] saveptr)), room, cap, lines, line, saveptr)
    \<in> measure (\<lambda>(room, cap, lines, line, saveptr).
        case line of None \<Rightarrow> 0 | Some _ \<Rightarrow> 1 + (case saveptr of None \<Rightarrow> 0 | Some s \<Rightarrow> length s))"
    by (cases saveptr; cases "tokenize None [EBCDIC_NEL] saveptr")
      (auto simp: tokenize_def[of None _ None] dest: tokenize_shorter split: option.splits)
qed

declare collect_lines.simps [simp del]

section \<open>The JOB card\<close>

definition get_operation :: "cstr \<Rightarrow> nat \<Rightarrow> cstr" where
  "get_operation line op_size =
     (if op_size < 5 \<or> length line < 3 then []
      else
        let pos = drop 2 line;
            pos = drop (min 8 (length (takeWhile (\<lambda>c. c \<noteq> blank) pos))) pos;
            oper = take (min 4 (op_size - 1)) (takeWhile (\<lambda>c. c \<noteq> blank) (lstrip pos))
        in rev (dropWhile isspace (rev oper)))"

definition is_jcl_line :: "cstr \<Rightarrow> bool" where "is_jcl_line line = c_prefix ''//'' line"

definition ends_with_comma :: "cstr \<Rightarrow> bool" where
  "ends_with_comma line = (c_at (dropWhile isspace (rev line)) 0 = CHR '','')"

definition continues :: "cstr \<Rightarrow> bool" where
  "continues line \<longleftrightarrow> is_jcl_line line \<and> list_all (\<lambda>k. isspace (c_at line k)) [2..<10]"

fun card_end :: "nat \<Rightarrow> cstr list \<Rightarrow> nat" where
  "card_end jj (line # follow # rest) =
     (if ends_with_comma line \<and> continues follow then card_end (Suc jj) (follow # rest) else jj)"
| "card_end jj rest = jj"

definition is_job_card :: "cstr \<Rightarrow> bool" where
  "is_job_card line \<longleftrightarrow> length line \<ge> 3 \<and> is_jcl_line line \<and> get_operation line 5 = ''JOB''"

fun card_range :: "nat \<Rightarrow> cstr list \<Rightarrow> int \<times> int" where
  "card_range ii [] = (-1, -1)"
| "card_range ii (line # rest) =
     (if is_job_card line then (int ii, int (card_end ii (line # rest))) else card_range (Suc ii) rest)"

definition find_job_card_range :: "cstr list \<Rightarrow> int \<times> int" where
  "find_job_card_range lines = card_range 0 lines"

definition find_notify_operand :: "cstr \<Rightarrow> nat option" where
  "find_notify_operand line = find_loop ''NOTIFY'' False True 0 line"

definition JOBCARD_ERR_NO_CARD :: int where "JOBCARD_ERR_NO_CARD = -1"
definition JOBCARD_ERR_TOO_LONG :: int where "JOBCARD_ERR_TOO_LONG = -2"
definition JOBCARD_NOTIFY_USER :: cstr where "JOBCARD_NOTIFY_USER = ''$MVSMF''"

text \<open>What follows the value \<^verbatim>\<open>&SYSUID\<close>, from the text behind it; \<open>None\<close> when it does not fit its buffer.\<close>

definition behind_sysuid :: "cstr \<Rightarrow> cstr option" where
  "behind_sysuid rest =
     (let real_end = dropWhile (\<lambda>c. c \<noteq> CHR '','' \<and> c \<noteq> blank) (lstrip rest) in
      if c_at real_end 0 = CHR '','' then Some (rstrip (take 79 real_end))
      else
        let r = lstrip real_end in
        if r = [] then Some []
        else if length r + 1 \<ge> 80 then None
        else Some (rstrip (CHR '','' # r)))"

text \<open>One line of the card: is there a NOTIFY, and its \<^verbatim>\<open>&SYSUID\<close> replaced unless one has been.\<close>

definition notify_line :: "cstr \<Rightarrow> bool \<Rightarrow> bool \<Rightarrow> cstr \<Rightarrow> (cstr \<times> bool \<times> bool) option" where
  "notify_line user present replaced line =
     (case find_notify_operand line of
        None \<Rightarrow> Some (line, present, replaced)
      | Some at \<Rightarrow>
          let sysuid = lstrip (drop 1 (dropWhile (\<lambda>c. c \<noteq> CHR ''='') (drop at line))) in
          if \<not> replaced \<and> c_prefix ''&SYSUID'' sysuid then
            (case behind_sysuid (drop 7 sysuid) of
               None \<Rightarrow> None
             | Some after \<Rightarrow>
                 let new = take at line @ ''NOTIFY='' @ user @ after in
                 if length new \<ge> 72 then None else Some (new, True, True))
          else Some (line, True, replaced))"

text \<open>The lines of the card in turn; the last one is made to continue, which may need a card more.\<close>

fun edit_card :: "cstr \<Rightarrow> bool \<Rightarrow> bool \<Rightarrow> cstr list \<Rightarrow> (cstr list \<times> bool \<times> cstr option) option" where
  "edit_card user present replaced [] = Some ([], present, None)"
| "edit_card user present replaced (line # rest) =
     (case notify_line user present replaced line of
        None \<Rightarrow> None
      | Some (line, present, replaced) \<Rightarrow>
          if rest = [] then
            (case jobcard_continue (Some line) (Some 81) of
               (cont, line, moved) \<Rightarrow>
                 if cont < 0 then None
                 else Some ([the line], present, if cont = 2 then moved else None))
          else
            (case edit_card user present replaced rest of
               None \<Rightarrow> None
             | Some (rest, present, moved) \<Rightarrow> Some (line # rest, present, moved)))"

definition credentials_text :: "bool \<Rightarrow> cstr \<Rightarrow> cstr \<Rightarrow> cstr \<Rightarrow> cstr" where
  "credentials_text present user password marker =
     ''//         '' @ (if present then [] else ''NOTIFY='' @ JOBCARD_NOTIFY_USER @ '','') @
     ''USER='' @ user @ '',PASSWORD='' @ password @ marker"

definition credentials_card :: "bool \<Rightarrow> cstr \<Rightarrow> cstr \<Rightarrow> cstr option" where
  "credentials_card present user password =
     (let long = credentials_text present user password ''   GENERATED BY MVSMF'';
          short = credentials_text present user password ''   BY MVSMF''
      in if length long < 72 then Some long else if length short < 72 then Some short else None)"

text \<open>The deck with its card edited, the job name and the class, or the error.\<close>

definition process_jobcard :: "cstr list \<Rightarrow> char \<Rightarrow> cstr \<Rightarrow> cstr \<Rightarrow> int + (cstr list \<times> cstr \<times> char)" where
  "process_jobcard lines jobclass user password =
     (if lines = [] then Inl JOBCARD_ERR_NO_CARD
      else
        let (start_idx, end_idx) = find_job_card_range lines in
        if start_idx < 0 \<or> end_idx < 0 then Inl JOBCARD_ERR_NO_CARD
        else
          let i = nat start_idx; j = nat end_idx; first_line = lines ! i in
          if length first_line < 3 then Inl JOBCARD_ERR_NO_CARD
          else
            let jobname = takeWhile (\<lambda>c. c \<noteq> blank) (take 8 (drop 2 first_line));
                jobclass = (case c_strstr ''CLASS='' first_line of
                              None \<Rightarrow> jobclass
                            | Some p \<Rightarrow> if length p > 6 then c_at p 6 else jobclass);
                stripped = map the (the (snd (jobcard_strip_credentials (Some (map Some lines)) start_idx end_idx)))
            in case edit_card user False False (take (j + 1 - i) (drop i stripped)) of
                 None \<Rightarrow> Inl JOBCARD_ERR_TOO_LONG
               | Some (edited, present, moved) \<Rightarrow>
                   (case credentials_card present user password of
                      None \<Rightarrow> Inl JOBCARD_ERR_TOO_LONG
                    | Some cred \<Rightarrow>
                        Inr (take i stripped @ edited @ (case moved of None \<Rightarrow> [] | Some m \<Rightarrow> [take 80 m])
                               @ [cred] @ map (take 80) (drop (j + 1) stripped), jobname, jobclass)))"

section \<open>What the editing leaves\<close>

definition stripped :: "nat \<Rightarrow> nat \<Rightarrow> cstr list \<Rightarrow> cstr list" where
  "stripped i n lines = map (\<lambda>k. the (fst (strip_line (k = 0) (Some (lines ! (i + k)))))) [0..<n]"

lemma strip_line_Some: "\<exists>l'. fst (strip_line first (Some l)) = Some l' \<and> length l' \<le> length l"
proof -
  have shorter: "length (fst (strip_loop kw line n)) \<le> length line" for kw line n
  proof (induction kw line n rule: strip_loop.induct)
    case (1 kw line n)
    show ?case
    proof (cases "jobcard_find_operand (Some line) (Some kw)")
      case None
      then show ?thesis by (simp add: strip_loop.simps)
    next
      case (Some start)
      then have "start < length line"
        using find_loop_bound[of kw False True 0 line start] by (auto simp: jobcard_find_operand_def split: if_splits)
      with 1[OF Some] Some strip_at_shorter[of start line] show ?thesis by (simp add: strip_loop.simps[of kw line])
    qed
  qed
  obtain l1 m where 1: "strip_loop ''USER'' l 0 = (l1, m)" by force
  obtain l2 n where 2: "strip_loop ''PASSWORD'' l1 0 = (l2, n)" by force
  from shorter[of "''USER''" l 0] shorter[of "''PASSWORD''" l1 0] 1 2 have "length l2 \<le> length l" by simp
  with 1 2 show ?thesis by (simp add: strip_line_def jobcard_strip_operand_def)
qed

lemma strip_lines_spec:
  "ii + n \<le> length ls \<Longrightarrow> start \<le> ii \<Longrightarrow>
   snd (strip_lines start ii n ls r) =
     take ii ls @ map (\<lambda>k. fst (strip_line (k \<le> start) (ls ! k))) [ii..<ii + n] @ drop (ii + n) ls"
proof (induction n arbitrary: ii ls r)
  case (Suc n)
  obtain l m where l: "strip_line (ii \<le> start) (ls ! ii) = (l, m)" by force
  have "snd (strip_lines start ii (Suc n) ls r) = snd (strip_lines start (Suc ii) n (ls[ii := l]) (r + m))"
    by (simp add: l)
  also have "\<dots> = take (Suc ii) (ls[ii := l]) @
      map (\<lambda>k. fst (strip_line (k \<le> start) (ls[ii := l] ! k))) [Suc ii..<Suc ii + n] @ drop (Suc ii + n) (ls[ii := l])"
    using Suc.prems by (intro Suc.IH) auto
  also have "map (\<lambda>k. fst (strip_line (k \<le> start) (ls[ii := l] ! k))) [Suc ii..<Suc ii + n] =
      map (\<lambda>k. fst (strip_line (k \<le> start) (ls ! k))) [Suc ii..<Suc ii + n]"
    by (intro map_cong) auto
  also have "take (Suc ii) (ls[ii := l]) = take ii ls @ [l]"
    using Suc.prems(1) by (simp add: take_Suc_conv_app_nth)
  also have "[ii..<ii + Suc n] = ii # [Suc ii..<Suc ii + n]" by (simp add: upt_conv_Cons)
  ultimately show ?case using l by simp
qed (simp add: append_take_drop_id)

lemma stripped_lines:
  assumes "i \<le> j" "j < length lines"
  shows "map the (the (snd (jobcard_strip_credentials (Some (map Some lines)) (int i) (int j)))) =
    take i lines @ stripped i (j + 1 - i) lines @ drop (j + 1) lines"
proof -
  have n: "nat (int j - int i + 1) = j + 1 - i" using assms(1) by auto
  have e: "i + (j + 1 - i) = j + 1" using assms by auto
  have "snd (strip_lines i i (j + 1 - i) (map Some lines) 0) = map Some (take i lines) @
      map (\<lambda>k. fst (strip_line (k \<le> i) (map Some lines ! k))) [i..<j + 1] @ map Some (drop (j + 1) lines)"
    using strip_lines_spec[of i "j + 1 - i" "map Some lines" i 0] assms by (simp add: e take_map drop_map)
  moreover have "map (\<lambda>k. the (fst (strip_line (k \<le> i) (map Some lines ! k)))) [i..<j + 1] = stripped i (j + 1 - i) lines"
    using assms by (auto simp: stripped_def intro!: nth_equalityI simp del: upt_Suc)
  ultimately show ?thesis
    using assms(1) n by (simp add: jobcard_strip_credentials_def split_def comp_def)
qed

lemma stripped_length [simp]: "length (stripped i n lines) = n"
  by (simp add: stripped_def)

lemma stripped_short:
  assumes "\<forall>l \<in> set lines. length l \<le> 80" "i + n \<le> length lines" "l \<in> set (stripped i n lines)"
  shows "length l \<le> 80"
proof -
  from assms(3) obtain k where k: "k < n" "l = the (fst (strip_line (k = 0) (Some (lines ! (i + k)))))"
    by (auto simp: stripped_def)
  with assms(1,2) have "length (lines ! (i + k)) \<le> 80" by auto
  with k strip_line_Some[of "k = 0" "lines ! (i + k)"] show ?thesis by auto
qed

lemma card_end_bounds: "lines \<noteq> [] \<Longrightarrow> jj \<le> card_end jj lines \<and> card_end jj lines < jj + length lines"
  by (induction jj lines rule: card_end.induct) (auto split: if_splits)

lemma card_range_found:
  "card_range ii lines = (s, e) \<Longrightarrow> 0 \<le> s \<Longrightarrow>
   \<exists>k. s = int (ii + k) \<and> k < length lines \<and> is_job_card (lines ! k) \<and> (\<forall>m < k. \<not> is_job_card (lines ! m)) \<and>
     s \<le> e \<and> e < int (ii + length lines)"
proof (induction ii lines rule: card_range.induct)
  case (2 ii line rest)
  show ?case
  proof (cases "is_job_card line")
    case True
    with 2(2) card_end_bounds[of "line # rest" ii] show ?thesis by (intro exI[of _ 0]) auto
  next
    case False
    with 2 obtain k where "s = int (Suc ii + k)" "k < length rest" "is_job_card (rest ! k)"
      "\<forall>m < k. \<not> is_job_card (rest ! m)" "s \<le> e" "e < int (Suc ii + length rest)" by auto
    with False show ?thesis
      by (intro exI[of _ "Suc k"]) (auto simp: less_Suc_eq_0_disj)
  qed
qed simp

lemma notify_line_spec:
  assumes "notify_line user present replaced line = Some (line', present', replaced')"
  shows "(present' \<longleftrightarrow> present \<or> find_notify_operand line \<noteq> None) \<and> (length line' \<le> length line \<or> length line' < 72) \<and>
    (find_notify_operand line = None \<longrightarrow> line' = line)"
  using assms by (auto simp: notify_line_def Let_def split: option.splits if_splits)

text \<open>A line a card can be continued behind: blank, or ending in a comma.\<close>

definition continued :: "cstr \<Rightarrow> bool" where "continued l \<longleftrightarrow> l = [] \<or> last l = CHR '',''"

lemma continue_fits:
  assumes c: "jobcard_continue (Some l) (Some 81) = (cont, l', mv)" and "0 \<le> cont" "length l \<le> 80"
  shows "\<exists>t. l' = Some t \<and> length t \<le> 80 \<and>
    (case mv of None \<Rightarrow> cont \<noteq> 2 \<and> continued t | Some m \<Rightarrow> cont = 2 \<and> length m \<le> 71 \<and> continued m)"
proof (cases mv)
  case None
  have "length (rstrip l) \<le> 80" using rstrip_length[of l] assms(3) by linarith
  with None continue_outcome[OF c] assms(2) show ?thesis by (auto simp: continued_def)
next
  case (Some m)
  from Some continue_outcome[OF c] obtain keep oper where k: "cont = 2" "rstrip l = keep @ '','' @ oper"
    "l' = Some (keep @ '','')" "m = indent @ oper @ '',''" "length (rstrip l) = 71" "length m \<le> 71" by auto
  from k(2,5) have "length keep < 71" by simp
  with k Some show ?thesis by (simp add: continued_def)
qed

lemma edit_card_spec:
  assumes "edit_card user present replaced lines = Some (edited, present', moved)" and "lines \<noteq> []"
    and "\<forall>l \<in> set lines. length l \<le> 80"
  shows "length edited = length lines \<and> (\<forall>l \<in> set edited. length l \<le> 80) \<and>
    (present' \<longleftrightarrow> present \<or> (\<exists>l \<in> set lines. find_notify_operand l \<noteq> None)) \<and>
    (\<forall>k. k + 1 < length lines \<longrightarrow> find_notify_operand (lines ! k) = None \<longrightarrow> edited ! k = lines ! k) \<and>
    (case moved of None \<Rightarrow> continued (last edited) | Some m \<Rightarrow> length m \<le> 71 \<and> continued m)"
  using assms
proof (induction lines arbitrary: present replaced edited)
  case (Cons line rest)
  from Cons.prems(1) obtain line' p r where n: "notify_line user present replaced line = Some (line', p, r)"
    by (auto split: option.splits)
  note spec = notify_line_spec[OF n]
  have short: "length line' \<le> 80" using spec Cons.prems(3) by auto
  show ?case
  proof (cases "rest = []")
    case True
    obtain cont l' mv where c: "jobcard_continue (Some line') (Some 81) = (cont, l', mv)" by (metis prod_cases3)
    with Cons.prems(1) n True have cont: "0 \<le> cont" and e: "edited = [the l']" "present' = p"
      "moved = (if cont = 2 then mv else None)" by (auto split: if_splits)
    from continue_fits[OF c cont short] obtain t where t: "l' = Some t" "length t \<le> 80"
      "case mv of None \<Rightarrow> cont \<noteq> 2 \<and> continued t | Some m \<Rightarrow> cont = 2 \<and> length m \<le> 71 \<and> continued m" by blast
    show ?thesis
      using t spec True e by (cases mv) auto
  next
    case False
    with Cons.prems(1) n obtain edited' where e: "edit_card user p r rest = Some (edited', present', moved)"
      "edited = line' # edited'" by (auto split: option.splits)
    from Cons.IH[OF e(1) False] Cons.prems(3) have ih: "length edited' = length rest"
      "\<forall>l \<in> set edited'. length l \<le> 80" "present' \<longleftrightarrow> p \<or> (\<exists>l \<in> set rest. find_notify_operand l \<noteq> None)"
      "\<forall>k. k + 1 < length rest \<longrightarrow> find_notify_operand (rest ! k) = None \<longrightarrow> edited' ! k = rest ! k"
      "case moved of None \<Rightarrow> continued (last edited') | Some m \<Rightarrow> length m \<le> 71 \<and> continued m" by auto
    from ih(1) False have "edited' \<noteq> []" by auto
    with ih e(2) spec short show ?thesis
      by (auto simp: nth_Cons' split: option.splits)
  qed
qed simp

definition sample_deck :: "cstr list" where
  "sample_deck = [''//MIKE1A   JOB (1),CLASS=A,USER=BOB'', ''//S1      EXEC PGM=IEFBR14'']"


definition sample_result :: "cstr list" where
  "sample_result =
     [''//MIKE1A   JOB (1),CLASS=A,'', ''//         NOTIFY=$MVSMF,USER=MIKE1,PASSWORD=SECRET   BY MVSMF'',
      ''//S1      EXEC PGM=IEFBR14'']"

lemma sample_deck_result:
  "process_jobcard sample_deck (CHR ''A'') ''MIKE1'' ''SECRET'' = Inr (sample_result, ''MIKE1A'', CHR ''A'')"
  by code_simp


text \<open>
  Two cards that are read as what they are not: a comment card is taken for the JOB statement, and
  the comment field behind \<^verbatim>\<open>&SYSUID\<close> becomes an operand.
\<close>

lemma comment_taken_for_job_card:
  "find_job_card_range [''//* JOB TO COPY A TAPE'', ''//MIKE1A   JOB (1)''] = (0, 0)"
  by code_simp

lemma comment_becomes_operand:
  "notify_line ''MIKE1'' False False ''//A JOB (1),NOTIFY=&SYSUID  MY COMMENT'' =
   Some (''//A JOB (1),NOTIFY=MIKE1,COMMENT'', True, True)"
  by code_simp

end
