(* ===== verification/JobSubmit.thy ===== *)
theory JobSubmit
  imports JclSubmit Spool "HOL-Library.Sublist"
begin

text \<open>
  The way of a deck to the internal reader: the handler of the submit request in \<^verbatim>\<open>src/jobsapi.c\<close>, for a
  deck in the body and for one in a data set, and the data set name of \<^verbatim>\<open>src/subdsn.c\<close>.

  The internal reader of libc370 is a parameter: what opening it returns, what each card put on it
  returns, and the return code and job id of the close that ends the deck.  A reader that opened, each
  card and each close are recorded among the calls of the session.
\<close>

section \<open>The data set of a request\<close>

definition DSNAME_MAX :: nat where "DSNAME_MAX = 44"
definition MEMBER_MAX :: nat where "MEMBER_MAX = 8"
definition SUBDSN_SIZE :: nat where "SUBDSN_SIZE = DSNAME_MAX + 1 + MEMBER_MAX + 1 + 1"

definition submit_dsname :: "cstr \<Rightarrow> nat \<Rightarrow> cstr option" where
  "submit_dsname filename size_max =
     (let len = length filename in
      if len \<le> 4 \<or> c_at filename 0 \<noteq> CHR ''/'' \<or> c_at filename 1 \<noteq> CHR ''/'' \<or> c_at filename 2 \<noteq> squote
         \<or> c_at filename (len - 1) \<noteq> squote then None
      else
        let name = take (len - 4) (drop 3 filename);
            inner = (if c_at name 0 = squote
                     then if length name < 2 \<or> last name \<noteq> squote then None else Some (butlast (tl name))
                     else Some name)
        in case inner of
          None \<Rightarrow> None
        | Some name \<Rightarrow>
            if name = [] \<or> c_at name 0 = squote \<or> last name = squote then None
            else
              let dsn_len = length (takeWhile (\<lambda>c. c \<noteq> CHR ''('') name); n = length name in
              if dsn_len < n \<and> (last name \<noteq> CHR '')'' \<or> n - dsn_len - 2 = 0 \<or> n - dsn_len - 2 > MEMBER_MAX) then None
              else if dsn_len = 0 \<or> dsn_len > DSNAME_MAX \<or> n \<ge> size_max then None
              else Some name)"

definition skip_json_ws :: "cstr \<Rightarrow> cstr" where
  "skip_json_ws p = dropWhile (\<lambda>c. c = blank \<or> c = tab) p"

text \<open>The value of the member \<open>file\<close>; the body is terminated, so its end is the terminator.\<close>

definition extract_file_value :: "cstr option \<Rightarrow> nat \<Rightarrow> cstr option" where
  "extract_file_value json len =
     (case json of
        None \<Rightarrow> None
      | Some j \<Rightarrow>
          if len = 0 then None
          else case c_strstr (dquote # ''file'' @ [dquote]) j of
            None \<Rightarrow> None
          | Some p \<Rightarrow>
              let p = skip_json_ws (drop 6 p) in
              if c_at p 0 \<noteq> CHR '':'' then None
              else
                let p = skip_json_ws (drop 1 p) in
                if c_at p 0 \<noteq> dquote then None
                else
                  let val_start = drop 1 p in
                  if c_strchr dquote val_start = None then None
                  else Some (takeWhile (\<lambda>c. c \<noteq> dquote) val_start))"

section \<open>The internal reader\<close>

record submit_file_data =
  sf_handle :: nat
  sf_buffer :: bool
  sf_records :: "cstr list"
  sf_error :: bool

record submit_env =
  se_password :: "cstr option"
  se_table :: bool
  se_room :: "int \<Rightarrow> bool"
  se_open :: int
  se_put :: "nat \<Rightarrow> cstr \<Rightarrow> int"
  se_close :: "int \<times> cstr"
  se_file :: "cstr \<Rightarrow> submit_file_data option"

definition validate_intrdr_headers :: "'a session_scheme \<Rightarrow> int" where
  "validate_intrdr_headers s =
     (let wrong = (\<lambda>name v. case getHeaderParam s name of None \<Rightarrow> False | Some x \<Rightarrow> x \<noteq> v) in
      if wrong ''X-IBM-Intrdr-Mode'' ''TEXT'' then -1
      else if wrong ''X-IBM-Intrdr-Lrecl'' ''80'' then -1
      else if wrong ''X-IBM-Intrdr-Recfm'' ''F'' then -1
      else 0)"

definition open_intrdr :: "httpd \<Rightarrow> submit_env \<Rightarrow> rsession \<Rightarrow> int \<times> rsession" where
  "open_intrdr srv sub s =
     (if se_open sub < 0
      then (-1, report srv HTTP_STATUS_INTERNAL_SERVER_ERROR CATEGORY_SERVICE RC_SEVERE JOBS_REASON_SERVER_ERROR
                  ''Failed to open internal reader'' (do_call (Wto IntrdrOpen) s))
      else (0, do_call Jesiropn s))"

definition get_caller_credentials :: "jes_env \<Rightarrow> submit_env \<Rightarrow> (cstr \<times> cstr) option" where
  "get_caller_credentials env sub =
     (case (je_userid env, se_password sub) of
        (Some u, Some p) \<Rightarrow> Some (take 63 u, take 255 p)
      | _ \<Rightarrow> None)"

text \<open>The loop over the deck; an empty line is not a card.\<close>

fun put_deck :: "(nat \<Rightarrow> cstr \<Rightarrow> int) \<Rightarrow> nat \<Rightarrow> cstr list \<Rightarrow> rsession \<Rightarrow> int \<times> rsession" where
  "put_deck put k [] s = (0, s)"
| "put_deck put k (line # lines) s =
     (if line = [] then put_deck put (Suc k) lines s
      else
        let s = do_call (Jesirput line) s; rc = put k line
        in if rc < 0 then (rc, s) else put_deck put (Suc k) lines s)"

definition REASON_MISSING_FILE_FIELD :: u32 where "REASON_MISSING_FILE_FIELD = 7"
definition REASON_SUBMIT_FILE_OPEN :: u32 where "REASON_SUBMIT_FILE_OPEN = 8"
definition REASON_JOBCARD_TOO_LONG :: u32 where "REASON_JOBCARD_TOO_LONG = 12"
definition ERR_MSG_JOBCARD_TOO_LONG :: cstr where
  "ERR_MSG_JOBCARD_TOO_LONG = ''JOB card cannot be continued: no room for the comma that joins it to the NOTIFY, USER and PASSWORD operands mvsMF adds''"

definition ERR_MSG_MISSING_FILE_FIELD :: cstr where
  "ERR_MSG_MISSING_FILE_FIELD = ''Missing or invalid '' @ [squote] @ ''file'' @ [squote] @ '' field in request body''"

text \<open>
  What both forms of a submission do once the lines are read: credentials, JOB card, cards, close.
  \<open>answer\<close> is what is sent when the reader fails, \<open>no_card\<close> the text for a deck without a JOB card.
  The result is the return code, the job name and the job id.
\<close>

definition submit_deck ::
  "httpd \<Rightarrow> jes_env \<Rightarrow> submit_env \<Rightarrow> (rsession \<Rightarrow> rsession) \<Rightarrow> cstr \<Rightarrow> cstr list \<Rightarrow> rsession \<Rightarrow>
     (int \<times> cstr \<times> cstr) \<times> rsession" where
  "submit_deck srv env sub answer no_card lines s =
     (let bad = (\<lambda>reason msg. report srv HTTP_STATUS_BAD_REQUEST CATEGORY_SERVICE RC_ERROR reason msg s) in
      case get_caller_credentials env sub of
        None \<Rightarrow> ((-1, [], []), do_call Jesircls (bad REASON_INVALID_REQUEST
                  ''Job submission requires an authenticated session with a password''))
      | Some (user, password) \<Rightarrow>
          (case process_jobcard lines (CHR ''A'') user password of
             Inl rc \<Rightarrow>
               ((rc, [], []), do_call Jesircls
                  (if rc = JOBCARD_ERR_TOO_LONG then bad REASON_JOBCARD_TOO_LONG ERR_MSG_JOBCARD_TOO_LONG
                   else bad REASON_INVALID_REQUEST no_card))
           | Inr (deck, nm, jobclass) \<Rightarrow>
               let (rc, s) = put_deck (se_put sub) 0 deck s in
               if rc < 0 then ((rc, nm, []), do_call Jesircls (answer (do_call (Wto IntrdrWrite) s)))
               else
                 let s = do_call Jesircl2 s; (rc, jid) = se_close sub in
                 if rc < 0 then ((rc, nm, []), answer (do_call (Wto IntrdrClose) s))
                 else ((0, nm, take 8 jid),
                       do_call (Wto (JobSubmitted (jwn_printable JWN_PRTSZ (Some nm))
                                       (jwn_printable JWN_PRTSZ (Some (take 8 jid))))) s)))"

definition submit_jcl_content ::
  "httpd \<Rightarrow> jes_env \<Rightarrow> submit_env \<Rightarrow> cstr option \<Rightarrow> rsession \<Rightarrow> (int \<times> cstr \<times> cstr) \<times> rsession" where
  "submit_jcl_content srv env sub text s =
     (let no_storage = ((-1, [], []), do_call Jesircls (do_call (Wto JclStorageFailed) s));
          (line, saveptr) = tokenize text [EBCDIC_NEL] None
      in if \<not> se_table sub then no_storage
         else case collect_lines (se_room sub) INITIAL_JCL_CAPACITY [] line saveptr of
           None \<Rightarrow> no_storage
         | Some (lines, cap) \<Rightarrow>
             if grow_room (se_room sub) cap (int (length lines) + 2) = None then no_storage
             else submit_deck srv env sub (\<lambda>s. s) ''No valid JOB card found in submitted JCL'' lines s)"

section \<open>A deck in a data set\<close>

definition strip_eol :: "cstr \<Rightarrow> cstr" where
  "strip_eol l = rev (dropWhile (\<lambda>c. c = EBCDIC_NEL \<or> c = CHR 0x0D \<or> c = EBCDIC_LF) (rev l))"

fun collect_records :: "(int \<Rightarrow> bool) \<Rightarrow> int \<Rightarrow> cstr list \<Rightarrow> cstr list \<Rightarrow> (cstr list \<times> int) option" where
  "collect_records room cap lines [] = Some (lines, cap)"
| "collect_records room cap lines (buffer # records) =
     (case (if int (length lines) \<ge> cap then grow_room room cap (int (length lines) + 1) else Some cap) of
        None \<Rightarrow> None
      | Some cap \<Rightarrow> collect_records room cap (lines @ [take 80 (strip_eol buffer)]) records)"

definition submit_file ::
  "httpd \<Rightarrow> jes_env \<Rightarrow> submit_env \<Rightarrow> cstr \<Rightarrow> rsession \<Rightarrow> (int \<times> cstr \<times> cstr) \<times> rsession" where
  "submit_file srv env sub filename s =
     (let not_opened = (\<lambda>status name s. report srv status CATEGORY_SERVICE RC_ERROR REASON_SUBMIT_FILE_OPEN
                          (c_snprintf MAX_ERR_MSG_LENGTH (''Cannot open dataset: '' @ name)) s);
          failed = (\<lambda>s. server_error srv HTTP_STATUS_INTERNAL_SERVER_ERROR s)
      in case submit_dsname filename SUBDSN_SIZE of
        None \<Rightarrow> ((-1, [], []), do_call Jesircls (not_opened HTTP_STATUS_BAD_REQUEST filename s))
      | Some dsname \<Rightarrow>
          let s = do_call (Fopen dsname) s in
          (case se_file sub dsname of
             None \<Rightarrow> ((-1, [], []), do_call Jesircls (not_opened HTTP_STATUS_NOT_FOUND dsname s))
           | Some f \<Rightarrow>
               let s = snd (session_register_file s (Some (sf_handle f)));
                   abandoned = (\<lambda>s. ((-1, [], []), session_fclose (do_call Jesircls (failed s)) (Some (sf_handle f))))
               in if \<not> sf_buffer f \<or> \<not> se_table sub then abandoned s
                  else case collect_records (se_room sub) INITIAL_JCL_CAPACITY [] (sf_records f) of
                    None \<Rightarrow> abandoned s
                  | Some (lines, cap) \<Rightarrow>
                      if sf_error f then abandoned (do_call (Wto DsReadError) s)
                      else
                        let s = session_fclose s (Some (sf_handle f)) in
                        if grow_room (se_room sub) cap (int (length lines) + 2) = None
                        then ((-1, [], []), do_call Jesircls (failed s))
                        else submit_deck srv env sub failed ''No valid JOB card found in dataset'' lines s))"

section \<open>The handler\<close>

definition contains :: "cstr \<Rightarrow> cstr \<Rightarrow> bool" where "contains pat s \<longleftrightarrow> c_strstr pat s \<noteq> None"

definition ERR_UNSUPPORTED_TYPE :: cstr where
  "ERR_UNSUPPORTED_TYPE = ''Unsupported Content-Type for job submission. Use application/json or text/plain''"

definition ERR_INTRDR_PARAMS :: cstr where "ERR_INTRDR_PARAMS = ''Invalid internal reader parameters''"
definition ERR_READ_CONTENT :: cstr where "ERR_READ_CONTENT = ''Failed to read request content''"

definition bad_request :: "httpd \<Rightarrow> u32 \<Rightarrow> cstr \<Rightarrow> rsession \<Rightarrow> rsession" where
  "bad_request srv reason msg s = report srv HTTP_STATUS_BAD_REQUEST CATEGORY_SERVICE RC_ERROR reason msg s"

text \<open>The end of the request: a failure that has answered nothing is answered 500.\<close>

definition submit_quit :: "httpd \<Rightarrow> int \<Rightarrow> rsession \<Rightarrow> int \<times> rsession" where
  "submit_quit srv rc s =
     (rc, if rc < 0 \<and> \<not> ss_headers_sent s then server_error srv HTTP_STATUS_INTERNAL_SERVER_ERROR s else s)"

text \<open>The answer to a submission that went through: the status of the job, its owner completed.\<close>

definition submit_answer ::
  "httpd \<Rightarrow> jes_env \<Rightarrow> (int \<times> cstr \<times> cstr) \<times> rsession \<Rightarrow> int \<times> rsession" where
  "submit_answer srv env result =
     (case result of
        ((rc, nm, jid), s) \<Rightarrow>
          if rc < 0 then submit_quit srv rc s
          else
            (case find_and_send_job_status srv env 0 (Some nm) (Some jid) (getHeaderParam s ''HOST'')
                    (Some (case je_userid env of None \<Rightarrow> [] | Some u \<Rightarrow> take 63 u)) s of
               (rc, s) \<Rightarrow> submit_quit srv rc s))"

definition jobSubmitHandler ::
  "httpd \<Rightarrow> jes_env \<Rightarrow> submit_env \<Rightarrow> (byte list \<Rightarrow> cstr) \<Rightarrow> (rsession \<Rightarrow> (int \<times> byte list option) \<times> rsession) \<Rightarrow>
     rsession \<Rightarrow> int \<times> rsession" where
  "jobSubmitHandler srv env sub to_host read_content s =
     (if validate_intrdr_headers s < 0
      then submit_quit srv (-1) (bad_request srv JOBS_REASON_INVALID_QUERY ERR_INTRDR_PARAMS s)
      else
        let ((rc, body), s) = read_content s in
        if rc \<noteq> REQBODY_OK \<and> rc \<noteq> REQBODY_BAD then submit_quit srv rc (snd (send_body_error srv rc s))
        else if rc < 0 then submit_quit srv rc (bad_request srv REASON_INVALID_REQUEST ERR_READ_CONTENT s)
        else
          let content_type = getHeaderParam s ''Content-Type'';
              is_json = (case content_type of None \<Rightarrow> False | Some t \<Rightarrow> contains ''application/json'' t);
              is_text = (case content_type of None \<Rightarrow> True | Some t \<Rightarrow> contains ''text/plain'' t);
              text = map_option to_host body
          in if \<not> is_json \<and> \<not> is_text then
               submit_quit srv (-1) (bad_request srv REASON_INVALID_REQUEST ERR_UNSUPPORTED_TYPE s)
             else
               let named = (if is_json then extract_file_value text (case body of None \<Rightarrow> 0 | Some d \<Rightarrow> length d) else Some []) in
               if is_json \<and> (named = None \<or> named = Some []) then
                 submit_quit srv (-1) (bad_request srv REASON_MISSING_FILE_FIELD ERR_MSG_MISSING_FILE_FIELD s)
               else
                 let (rc, s) = open_intrdr srv sub s in
                 if rc < 0 then submit_quit srv (-1) s
                 else submit_answer srv env
                        (if is_json then submit_file srv env sub (the named) s
                         else submit_jcl_content srv env sub text s))"

section \<open>What reaches the internal reader\<close>

definition is_intrdr :: "os_call \<Rightarrow> bool" where
  "is_intrdr c = (case c of Jesiropn \<Rightarrow> True | Jesirput _ \<Rightarrow> True | Jesircl2 \<Rightarrow> True | Jesircls \<Rightarrow> True | _ \<Rightarrow> False)"

lemma is_intrdr_simps [simp]:
  "is_intrdr Jesiropn" "is_intrdr (Jesirput c)" "is_intrdr Jesircl2" "is_intrdr Jesircls"
  "\<not> is_intrdr (Wto m)" "\<not> is_intrdr (Jesclose n)" "\<not> is_intrdr (Fclose n)" "\<not> is_intrdr (Fopen d)"
  by (simp_all add: is_intrdr_def)

definition intrdr :: "rsession \<Rightarrow> os_call list" where
  "intrdr s = filter is_intrdr (rs_calls s)"

lemma intrdr_call [simp]: "intrdr (do_call c s) = intrdr s @ (if is_intrdr c then [c] else [])"
  by (simp add: intrdr_def do_call_def)

lemma intrdr_fields [simp]: "intrdr (s\<lparr>rs_jes := j\<rparr>) = intrdr s" "intrdr (s\<lparr>rs_files := fs\<rparr>) = intrdr s"
  by (simp_all add: intrdr_def)

lemma intrdr_answers: "answers s t \<Longrightarrow> intrdr t = intrdr s"
  by (auto simp: answers_def intrdr_def)

lemma intrdr_sessions [simp]:
  "intrdr (snd (session_register_jes s j)) = intrdr s" "intrdr (session_jesclose s j) = intrdr s"
  "intrdr (snd (session_register_file s f)) = intrdr s" "intrdr (session_fclose s f) = intrdr s"
  "intrdr (looked env look s) = intrdr s"
  by (auto simp: session_register_jes_def session_jesclose_def session_register_file_def session_fclose_def
      session_unregister_file_def looked_def Let_def split: option.splits)

lemma intrdr_reports [simp]:
  "intrdr (report srv st ca rc re msg s) = intrdr s" "intrdr (server_error srv st s) = intrdr s"
  "intrdr (bad_request srv re msg s) = intrdr s" "intrdr (send_job_not_found srv nm jid s) = intrdr s"
  "intrdr (snd (send_body_error srv n s)) = intrdr s" "intrdr (snd (sendJSONResponse srv st b s)) = intrdr s"
  by (simp_all add: report_def server_error_def bad_request_def send_job_not_found_def send_body_error_def
      intrdr_answers[OF answers_report] intrdr_answers[OF answers_json])

lemma intrdr_quit [simp]: "intrdr (snd (submit_quit srv rc s)) = intrdr s"
  by (simp add: submit_quit_def)

lemma intrdr_status [simp]: "intrdr (snd (find_and_send_job_status srv env look nm jid host sub s)) = intrdr s"
proof -
  have "intrdr (snd (send_job_status_response srv env j host s)) = intrdr s" for j s
    by (auto simp: send_job_status_response_def split: option.splits prod.splits)
  then show ?thesis
    by (auto simp: find_and_send_job_status_def find_job_spec split: option.splits prod.splits)
qed

lemma intrdr_answer [simp]: "intrdr (snd (submit_answer srv env (r, s))) = intrdr s"
proof -
  obtain rc nm jid where r: "r = (rc, nm, jid)" by (metis prod_cases3)
  obtain rc' s' where f: "find_and_send_job_status srv env 0 (Some nm) (Some jid) (getHeaderParam s ''HOST'')
      (Some (case je_userid env of None \<Rightarrow> [] | Some u \<Rightarrow> take 63 u)) s = (rc', s')" by force
  have "intrdr s' = intrdr s" using intrdr_status f by (metis snd_conv)
  then show ?thesis by (simp add: submit_answer_def r f)
qed

definition cards_of :: "cstr list \<Rightarrow> cstr list" where "cards_of deck = filter (\<lambda>l. l \<noteq> []) deck"

text \<open>
  What may follow an open of the reader: a close that ends nothing, the cards of the edited deck up
  to one that was refused and a close, or all of them and the close that ends the deck.
\<close>

definition submission :: "jes_env \<Rightarrow> submit_env \<Rightarrow> cstr list \<Rightarrow> os_call list \<Rightarrow> bool" where
  "submission env sub lines calls \<longleftrightarrow>
     (\<exists>user password deck nm cls cs.
        get_caller_credentials env sub = Some (user, password) \<and>
        process_jobcard lines (CHR ''A'') user password = Inr (deck, nm, cls) \<and>
        (prefix cs (cards_of deck) \<and> calls = map Jesirput cs @ [Jesircls] \<or>
         calls = map Jesirput (cards_of deck) @ [Jesircl2]))"

lemma put_deck_spec:
  "put_deck put k deck s = (rc, s') \<Longrightarrow>
   \<exists>cs. intrdr s' = intrdr s @ map Jesirput cs \<and> prefix cs (cards_of deck) \<and> (0 \<le> rc \<longrightarrow> cs = cards_of deck)"
proof (induction put k deck s arbitrary: rc s' rule: put_deck.induct)
  case (1 put k s)
  then show ?case by (simp add: cards_of_def)
next
  case (2 put k line lines s)
  show ?case
  proof (cases "line = [] \<or> put k line < 0")
    case True
    with 2 show ?thesis
      by (cases "line = []") (auto simp: cards_of_def intro: exI[of _ "[line]"])
  next
    case False
    with 2(3) have "put_deck put (Suc k) lines (do_call (Jesirput line) s) = (rc, s')" by simp
    from 2(2)[OF _ refl refl _ this] False obtain cs where "intrdr s' = intrdr s @ Jesirput line # map Jesirput cs"
      "prefix cs (cards_of lines)" "0 \<le> rc \<longrightarrow> cs = cards_of lines" by auto
    with False show ?thesis by (intro exI[of _ "line # cs"]) (simp add: cards_of_def)
  qed
qed

lemma submit_deck_spec:
  assumes "\<And>s. intrdr (answer s) = intrdr s"
  shows "\<exists>calls. intrdr (snd (submit_deck srv env sub answer no_card lines s)) = intrdr s @ calls \<and>
    (calls = [Jesircls] \<or> submission env sub lines calls)"
proof (cases "get_caller_credentials env sub")
  case None
  then show ?thesis by (simp add: submit_deck_def)
next
  case (Some up)
  obtain user password where up: "up = (user, password)" by force
  show ?thesis
  proof (cases "process_jobcard lines (CHR ''A'') user password")
    case (Inl rc)
    with Some up show ?thesis by (simp add: submit_deck_def)
  next
    case (Inr d)
    obtain deck nm cls where d: "d = (deck, nm, cls)" by (metis prod_cases3)
    obtain rc s' where p: "put_deck (se_put sub) 0 deck s = (rc, s')" by force
    obtain rc2 jid where c: "se_close sub = (rc2, jid)" by force
    from put_deck_spec[OF p] obtain cs where cs: "intrdr s' = intrdr s @ map Jesirput cs" "prefix cs (cards_of deck)"
      "0 \<le> rc \<longrightarrow> cs = cards_of deck" by blast
    let ?calls = "map Jesirput cs @ [if rc < 0 then Jesircls else Jesircl2]"
    have "intrdr (snd (submit_deck srv env sub answer no_card lines s)) = intrdr s @ ?calls"
      using Some up Inr d p c cs(1) assms by (simp add: submit_deck_def Let_def)
    moreover have "submission env sub lines ?calls"
      using Some up Inr d cs(2,3) unfolding submission_def by auto
    ultimately show ?thesis by blast
  qed
qed

text \<open>The lines a request stands for: those of its body, or the records of its data set, all of them read.\<close>

definition request_lines :: "submit_env \<Rightarrow> cstr option \<Rightarrow> cstr list \<Rightarrow> bool" where
  "request_lines sub text lines \<longleftrightarrow>
     (\<exists>cap line saveptr. tokenize text [EBCDIC_NEL] None = (line, saveptr) \<and>
        collect_lines (se_room sub) INITIAL_JCL_CAPACITY [] line saveptr = Some (lines, cap)) \<or>
     (\<exists>cap len value dsname f. extract_file_value text len = Some value \<and>
        submit_dsname value SUBDSN_SIZE = Some dsname \<and> se_file sub dsname = Some f \<and> \<not> sf_error f \<and>
        collect_records (se_room sub) INITIAL_JCL_CAPACITY [] (sf_records f) = Some (lines, cap))"

definition reader_calls :: "jes_env \<Rightarrow> submit_env \<Rightarrow> cstr option \<Rightarrow> os_call list \<Rightarrow> bool" where
  "reader_calls env sub text calls \<longleftrightarrow>
     calls = [Jesircls] \<or> (\<exists>lines. request_lines sub text lines \<and> submission env sub lines calls)"

lemma reader_callsI:
  assumes "intrdr t = intrdr s" "\<And>s. intrdr (answer s) = intrdr s" "request_lines sub text lines"
  shows "\<exists>calls. intrdr (snd (submit_deck srv env sub answer no_card lines t)) = intrdr s @ calls \<and>
    reader_calls env sub text calls"
  using submit_deck_spec[of answer srv env sub no_card lines t] assms unfolding reader_calls_def by metis

lemma submit_content_spec:
  "\<exists>calls. intrdr (snd (submit_jcl_content srv env sub text s)) = intrdr s @ calls \<and> reader_calls env sub text calls"
proof -
  obtain line saveptr where t: "tokenize text [EBCDIC_NEL] None = (line, saveptr)" by force
  show ?thesis
  proof (cases "collect_lines (se_room sub) INITIAL_JCL_CAPACITY [] line saveptr")
    case None
    with t show ?thesis by (simp add: submit_jcl_content_def Let_def reader_calls_def)
  next
    case (Some lc)
    obtain lines cap where lc: "lc = (lines, cap)" by force
    with Some t have "request_lines sub text lines" unfolding request_lines_def by blast
    from reader_callsI[OF refl _ this, where answer = "\<lambda>s. s" and s = s] t Some lc show ?thesis
      by (simp add: submit_jcl_content_def Let_def reader_calls_def)
  qed
qed

lemma submit_file_spec:
  assumes v: "extract_file_value text len = Some value"
  shows "\<exists>calls. intrdr (snd (submit_file srv env sub value s)) = intrdr s @ calls \<and> reader_calls env sub text calls"
proof -
  have close: "\<exists>calls. intrdr t = intrdr s @ calls \<and> reader_calls env sub text calls"
    if "intrdr t = intrdr s @ [Jesircls]" for t
    using that by (auto simp: reader_calls_def)
  show ?thesis
  proof (cases "submit_dsname value SUBDSN_SIZE")
    case None
    then show ?thesis by (intro close) (simp add: submit_file_def)
  next
    case ds: (Some dsname)
    show ?thesis
    proof (cases "se_file sub dsname")
      case None
      with ds show ?thesis by (intro close) (simp add: submit_file_def)
    next
      case f: (Some f)
      show ?thesis
      proof (cases "collect_records (se_room sub) INITIAL_JCL_CAPACITY [] (sf_records f)")
        case None
        with ds f show ?thesis by (intro close) (simp add: submit_file_def Let_def)
      next
        case (Some lc)
        obtain lines cap where lc: "lc = (lines, cap)" by force
        show ?thesis
        proof (cases "\<not> sf_buffer f \<or> \<not> se_table sub \<or> sf_error f \<or>
            grow_room (se_room sub) cap (int (length lines) + 2) = None")
          case True
          with ds f Some lc show ?thesis by (intro close) (auto simp: submit_file_def Let_def)
        next
          case False
          with v ds f Some lc have r: "request_lines sub text lines" unfolding request_lines_def by blast
          let ?t = "session_fclose (snd (session_register_file (do_call (Fopen dsname) s) (Some (sf_handle f))))
              (Some (sf_handle f))"
          have "snd (submit_file srv env sub value s) = snd (submit_deck srv env sub
              (server_error srv HTTP_STATUS_INTERNAL_SERVER_ERROR) ''No valid JOB card found in dataset'' lines ?t)"
            using False ds f Some lc by (auto simp: submit_file_def Let_def)
          moreover have "intrdr ?t = intrdr s" by simp
          ultimately show ?thesis
            using reader_callsI[OF _ _ r, of ?t s "server_error srv HTTP_STATUS_INTERNAL_SERVER_ERROR"] by simp
        qed
      qed
    qed
  qed
qed


definition sample_submit :: submit_env where
  "sample_submit = \<lparr>se_password = Some ''SECRET'', se_table = True, se_room = (\<lambda>_. True), se_open = 0,
     se_put = (\<lambda>_ _. 0), se_close = (0, ''JOB00007''), se_file = (\<lambda>_. None)\<rparr>"


end
