(* ===== verification/DsMeta.thy ===== *)
theory DsMeta
  imports Prelude
begin

text \<open>
  What the data set services read off a volume: the tracks of a data set from the extents of its
  DSCBs (\<^verbatim>\<open>src/dsextent.c\<close>), the blocks of a track and the device type (\<^verbatim>\<open>src/blkptrk.c\<close>), what an empty list
  means (\<^verbatim>\<open>src/listfail.c\<close>) and the volume serial of a request (\<^verbatim>\<open>src/volser.c\<close>).

  Numbers of tracks are 32-bit and wrap as they do in the code.  The reader of a format-3 DSCB is a
  parameter: the 140 bytes at an address, or nothing.
\<close>

unbundle bit_operations_syntax

section \<open>Extents\<close>

definition DSX_EXTENT_LEN :: nat where "DSX_EXTENT_LEN = 10"
definition DSX_F1_EXTENTS :: nat where "DSX_F1_EXTENTS = 3"
definition DSX_PTR_LEN :: nat where "DSX_PTR_LEN = 5"
definition DSX_F3_LEN :: nat where "DSX_F3_LEN = 140"
definition DSX_F3_EXT4_OFF :: nat where "DSX_F3_EXT4_OFF = 4"
definition DSX_F3_EXT4_CNT :: nat where "DSX_F3_EXT4_CNT = 4"
definition DSX_F3_FMTID_OFF :: nat where "DSX_F3_FMTID_OFF = 44"
definition DSX_F3_FMTID :: byte where "DSX_F3_FMTID = 0xF3"
definition DSX_F3_EXT9_OFF :: nat where "DSX_F3_EXT9_OFF = 45"
definition DSX_F3_EXT9_CNT :: nat where "DSX_F3_EXT9_CNT = 9"
definition DSX_F3_PTR_OFF :: nat where "DSX_F3_PTR_OFF = 135"
definition DSX_MAX_F3 :: nat where "DSX_MAX_F3 = 4"

datatype dsx_error = DSX_ERR_READ | DSX_ERR_CHAIN | DSX_ERR_FORMAT

definition be16 :: "byte list \<Rightarrow> u32" where
  "be16 p = push_bit 8 (ucast (p ! 0)) OR ucast (p ! 1)"

definition extent_tracks :: "byte list \<Rightarrow> u32 \<Rightarrow> u32" where
  "extent_tracks extent tpc =
     (let lower = drop 2 extent; upper = drop 6 extent in
      (be16 upper - be16 lower) * tpc + (be16 (drop 2 upper) - be16 (drop 2 lower)) + 1)"

definition ptr_is_zero :: "byte list \<Rightarrow> bool" where
  "ptr_is_zero ptr = list_all (\<lambda>b. b = 0) (take DSX_PTR_LEN ptr)"

text \<open>The loop over the slots, from slot \<open>e\<close> with \<open>n\<close> slots left.\<close>

fun sum_from :: "byte list \<Rightarrow> nat \<Rightarrow> nat \<Rightarrow> u32 \<Rightarrow> nat \<Rightarrow> u32 \<Rightarrow> nat \<times> u32" where
  "sum_from base 0 want tpc e trks = (e, trks)"
| "sum_from base (Suc n) want tpc e trks =
     (if e < want
      then sum_from base n want tpc (Suc e) (trks + extent_tracks (drop (e * DSX_EXTENT_LEN) base) tpc)
      else (e, trks))"

definition sum_group :: "byte list \<Rightarrow> nat \<Rightarrow> nat \<Rightarrow> u32 \<Rightarrow> u32 \<Rightarrow> nat \<times> u32" where
  "sum_group base count want tpc trks = sum_from base count want tpc 0 trks"

fun chain_loop ::
  "(byte list \<Rightarrow> byte list option) \<Rightarrow> u32 \<Rightarrow> nat \<Rightarrow> byte list \<Rightarrow> nat \<Rightarrow> u32 \<Rightarrow> dsx_error + u32" where
  "chain_loop read3 tpc hops ptr 0 trks = Inr trks"
| "chain_loop read3 tpc 0 ptr (Suc l) trks = Inl DSX_ERR_CHAIN"
| "chain_loop read3 tpc (Suc hops) ptr (Suc l) trks =
     (if ptr_is_zero ptr then Inl DSX_ERR_CHAIN
      else case read3 ptr of
        None \<Rightarrow> Inl DSX_ERR_READ
      | Some area \<Rightarrow>
          if area ! DSX_F3_FMTID_OFF \<noteq> DSX_F3_FMTID then Inl DSX_ERR_FORMAT
          else
            let (e4, trks) = sum_group (drop DSX_F3_EXT4_OFF area) DSX_F3_EXT4_CNT (Suc l) tpc trks;
                (e9, trks) = sum_group (drop DSX_F3_EXT9_OFF area) DSX_F3_EXT9_CNT (Suc l - e4) tpc trks
            in chain_loop read3 tpc hops (take DSX_PTR_LEN (drop DSX_F3_PTR_OFF area)) (Suc l - e4 - e9) trks)"

text \<open>\<open>hops\<close> counts down from \<open>DSX_MAX_F3\<close>.\<close>

definition dscb_alloc_tracks ::
  "byte list \<Rightarrow> byte list \<Rightarrow> nat \<Rightarrow> u32 \<Rightarrow> (byte list \<Rightarrow> byte list option) \<Rightarrow> dsx_error + u32" where
  "dscb_alloc_tracks f1ext f1ptr noepv tpc read3 =
     (let (e, trks) = sum_group f1ext DSX_F1_EXTENTS noepv tpc 0
      in chain_loop read3 tpc DSX_MAX_F3 (take DSX_PTR_LEN f1ptr) (noepv - e) trks)"

section \<open>Device geometry\<close>

definition DS4DEVFG_CELLS :: u32 where "DS4DEVFG_CELLS = 0x20"
definition CELL_BYTES :: u32 where "CELL_BYTES = 32"
definition CELLS_3380 :: u32 where "CELLS_3380 = 1499"
definition DEVTK_3380 :: u32 where "DEVTK_3380 = CELLS_3380 * CELL_BYTES"
definition CELLS_BLOCK_FIX :: u32 where "CELLS_BLOCK_FIX = 15"
definition CELLS_DATA_FIX :: u32 where "CELLS_DATA_FIX = 12"
definition DEVICE_UNKNOWN :: cstr where "DEVICE_UNKNOWN = ''????''"

definition device_name :: "u32 \<Rightarrow> cstr" where
  "device_name devtk =
     (if devtk = 13165 then ''3330'' else if devtk = 19254 then ''3350'' else if devtk = 36000 then ''3375''
      else if devtk = 47968 then ''3380'' else if devtk = 58786 then ''3390'' else DEVICE_UNKNOWN)"

definition blocks_per_track :: "u32 \<Rightarrow> u32 \<Rightarrow> u32 \<Rightarrow> u32 \<Rightarrow> u32 \<Rightarrow> u32" where
  "blocks_per_track devtk devov devk devfg blksz =
     (if blksz = 0 then 0
      else if devfg AND DS4DEVFG_CELLS \<noteq> 0 then
        if devtk \<noteq> DEVTK_3380 then 0
        else CELLS_3380 div (CELLS_BLOCK_FIX + (blksz + CELLS_DATA_FIX + CELL_BYTES - 1) div CELL_BYTES)
      else if devov < devk then 0
      else
        let overhead = devov - devk in
        if devtk \<le> overhead then 0 else (devtk - overhead) div (overhead + blksz))"

section \<open>Lists and volumes\<close>

datatype list_result = LIST_FOUND | LIST_EMPTY | LIST_NOSTOR | LIST_FAILED

text \<open>\<open>enomem\<close> is the value of \<^verbatim>\<open>ENOMEM\<close>.\<close>

definition list_outcome :: "int \<Rightarrow> 'a option \<Rightarrow> int \<Rightarrow> list_result" where
  "list_outcome enomem lst err =
     (if lst \<noteq> None then LIST_FOUND
      else if err = 0 then LIST_EMPTY
      else if err = enomem then LIST_NOSTOR
      else LIST_FAILED)"

definition VOLSER_LEN :: nat where "VOLSER_LEN = 6"
definition VOLSER_SIZE :: nat where "VOLSER_SIZE = VOLSER_LEN + 1"
definition VOLSER_CHARS :: cstr where "VOLSER_CHARS = ''ABCDEFGHIJKLMNOPQRSTUVWXYZ0123456789$#@''"

definition shift_letter :: "char \<Rightarrow> char \<Rightarrow> char \<Rightarrow> char" where
  "shift_letter ch small big = char_of (of_char ch - of_char small + of_char big :: nat)"

definition volser_upper :: "char \<Rightarrow> char" where
  "volser_upper ch =
     (if CHR ''a'' \<le> ch \<and> ch \<le> CHR ''i'' then shift_letter ch (CHR ''a'') (CHR ''A'')
      else if CHR ''j'' \<le> ch \<and> ch \<le> CHR ''r'' then shift_letter ch (CHR ''j'') (CHR ''J'')
      else if CHR ''s'' \<le> ch \<and> ch \<le> CHR ''z'' then shift_letter ch (CHR ''s'') (CHR ''S'')
      else ch)"

definition volser_normalize :: "cstr option \<Rightarrow> nat \<Rightarrow> cstr option" where
  "volser_normalize value size_max =
     (case value of
        None \<Rightarrow> None
      | Some v \<Rightarrow>
          if size_max < VOLSER_SIZE \<or> v = [] \<or> length v > VOLSER_LEN then None
          else if list_all (\<lambda>c. volser_upper c \<in> set VOLSER_CHARS) v then Some (map volser_upper v)
          else None)"

datatype volser_answer = VOLSER_ON_VOLUME | VOLSER_NOT_CATALOGED | VOLSER_OTHER_VOLUME | VOLSER_BAD

text \<open>The volume of the catalog is six bytes, blank padded; \<open>None\<close> when the catalog cannot resolve the name.\<close>

definition volser_verdict :: "cstr option \<Rightarrow> bool \<Rightarrow> cstr option \<Rightarrow> volser_answer" where
  "volser_verdict requested located cat_volser =
     (case volser_normalize requested VOLSER_SIZE of
        None \<Rightarrow> VOLSER_BAD
      | Some want \<Rightarrow>
          (case cat_volser of
             None \<Rightarrow> VOLSER_NOT_CATALOGED
           | Some cat \<Rightarrow>
               if \<not> located then VOLSER_NOT_CATALOGED
               else if want @ replicate (VOLSER_LEN - length want) blank = take VOLSER_LEN cat then VOLSER_ON_VOLUME
               else VOLSER_OTHER_VOLUME))"

section \<open>The extents of a data set\<close>

definition slots :: "byte list \<Rightarrow> nat \<Rightarrow> byte list list" where
  "slots base n = map (\<lambda>e. drop (e * DSX_EXTENT_LEN) base) [0..<n]"

definition f3_slots :: "byte list \<Rightarrow> byte list list" where
  "f3_slots area = slots (drop DSX_F3_EXT4_OFF area) DSX_F3_EXT4_CNT @ slots (drop DSX_F3_EXT9_OFF area) DSX_F3_EXT9_CNT"

text \<open>The format-3 DSCBs behind a pointer.\<close>

fun linked :: "(byte list \<Rightarrow> byte list option) \<Rightarrow> byte list \<Rightarrow> byte list list \<Rightarrow> bool" where
  "linked read3 ptr [] \<longleftrightarrow> True"
| "linked read3 ptr (area # areas) \<longleftrightarrow>
     \<not> ptr_is_zero ptr \<and> read3 ptr = Some area \<and> area ! DSX_F3_FMTID_OFF = DSX_F3_FMTID \<and>
     linked read3 (take DSX_PTR_LEN (drop DSX_F3_PTR_OFF area)) areas"

definition tracks :: "u32 \<Rightarrow> byte list list \<Rightarrow> u32" where
  "tracks tpc es = sum_list (map (\<lambda>x. extent_tracks x tpc) es)"

lemma slots_length [simp]: "length (slots base n) = n"
  by (simp add: slots_def)

lemma f3_slots_length [simp]: "length (f3_slots area) = 13"
  by (simp add: f3_slots_def DSX_F3_EXT4_CNT_def DSX_F3_EXT9_CNT_def)

lemma tracks_append [simp]: "tracks tpc (xs @ ys) = tracks tpc xs + tracks tpc ys"
  by (simp add: tracks_def)

lemma sum_from_spec:
  "sum_from base n want tpc e trks =
     (e + min n (want - e), trks + tracks tpc (take (want - e) (drop e (slots base (e + n)))))"
proof (induction n arbitrary: e trks)
  case 0
  then show ?case by (simp add: tracks_def slots_def)
next
  case (Suc n)
  have d: "drop e (slots base (e + Suc n)) = drop (e * DSX_EXTENT_LEN) base # drop (Suc e) (slots base (Suc e + n))"
    unfolding slots_def drop_map drop_upt by (simp add: upt_conv_Cons del: upt_Suc)
  show ?case
  proof (cases "e < want")
    case True
    then obtain k where k: "want - e = Suc k" "want - Suc e = k" by (metis Suc_diff_Suc)
    with True Suc[of "Suc e"] d show ?thesis by (simp add: tracks_def add.assoc)
  next
    case False
    then show ?thesis by (simp add: tracks_def)
  qed
qed

lemma sum_group_spec:
  "sum_group base n want tpc trks = (min n want, trks + tracks tpc (take want (slots base n)))"
  by (simp add: sum_group_def sum_from_spec)

lemma f3_group:
  "(let (e4, trks) = sum_group (drop DSX_F3_EXT4_OFF area) DSX_F3_EXT4_CNT want tpc trks;
        (e9, trks) = sum_group (drop DSX_F3_EXT9_OFF area) DSX_F3_EXT9_CNT (want - e4) tpc trks
    in f (want - e4 - e9) trks) = f (want - 13) (trks + tracks tpc (take want (f3_slots area)))"
proof -
  have "want - min 4 want - min 9 (want - min 4 want) = want - 13" by linarith
  moreover have "take want (f3_slots area) = take want (slots (drop DSX_F3_EXT4_OFF area) 4) @
      take (want - min 4 want) (slots (drop DSX_F3_EXT9_OFF area) 9)"
    by (auto simp: f3_slots_def DSX_F3_EXT4_CNT_def DSX_F3_EXT9_CNT_def min_def)
  ultimately show ?thesis
    by (simp add: sum_group_spec DSX_F3_EXT4_CNT_def DSX_F3_EXT9_CNT_def add.assoc)
qed

lemma chain_loop_spec:
  "chain_loop read3 tpc hops ptr left trks = Inr r \<longleftrightarrow>
     (\<exists>areas. length areas \<le> hops \<and> linked read3 ptr areas \<and> left \<le> 13 * length areas \<and>
        r = trks + tracks tpc (take left (concat (map f3_slots areas))))"
proof (induction hops arbitrary: ptr left trks)
  case 0
  show ?case by (cases left) (auto simp: tracks_def)
next
  case (Suc hops)
  show ?case (is "?loop = _ \<longleftrightarrow> ?rhs")
  proof (cases left)
    case 0
    then show ?thesis by (auto simp: tracks_def intro: exI[of _ "[]"])
  next
    case left: (Suc l)
    show ?thesis
    proof (cases "\<not> ptr_is_zero ptr \<and> (\<exists>area. read3 ptr = Some area \<and> area ! DSX_F3_FMTID_OFF = DSX_F3_FMTID)")
      case False
      have "\<not> ?rhs"
      proof
        assume ?rhs
        then obtain areas where "linked read3 ptr areas" "Suc l \<le> 13 * length areas" using left by blast
        with False show "False" by (cases areas) auto
      qed
      with False show ?thesis by (auto simp: left split: option.splits)
    next
      case True
      then obtain area where a: "\<not> ptr_is_zero ptr" "read3 ptr = Some area" "area ! DSX_F3_FMTID_OFF = DSX_F3_FMTID" by blast
      let ?next = "take DSX_PTR_LEN (drop DSX_F3_PTR_OFF area)"
      let ?trks = "trks + tracks tpc (take (Suc l) (f3_slots area))"
      have loop: "?loop = chain_loop read3 tpc hops ?next (Suc l - 13) ?trks"
        unfolding left chain_loop.simps(3) by (simp only: a if_False option.case f3_group simp_thms)
      have ih: "?loop = Inr r \<longleftrightarrow> (\<exists>areas. length areas \<le> hops \<and> linked read3 ?next areas \<and> Suc l - 13 \<le> 13 * length areas \<and>
          r = ?trks + tracks tpc (take (Suc l - 13) (concat (map f3_slots areas))))"
        unfolding loop by (rule Suc.IH)
      show ?thesis unfolding ih
      proof
        assume "\<exists>areas. length areas \<le> hops \<and> linked read3 ?next areas \<and> Suc l - 13 \<le> 13 * length areas \<and>
          r = ?trks + tracks tpc (take (Suc l - 13) (concat (map f3_slots areas)))"
        then obtain areas where "length areas \<le> hops" "linked read3 ?next areas" "Suc l - 13 \<le> 13 * length areas"
          "r = ?trks + tracks tpc (take (Suc l - 13) (concat (map f3_slots areas)))" by blast
        with a left show ?rhs by (intro exI[of _ "area # areas"]) (auto simp: add.assoc)
      next
        assume ?rhs
        then obtain areas where r: "length areas \<le> Suc hops" "linked read3 ptr areas" "Suc l \<le> 13 * length areas"
          "r = trks + tracks tpc (take (Suc l) (concat (map f3_slots areas)))" using left by auto
        then obtain areas' where "areas = area # areas'" using a by (cases areas) auto
        with r show "\<exists>areas. length areas \<le> hops \<and> linked read3 ?next areas \<and> Suc l - 13 \<le> 13 * length areas \<and>
          r = ?trks + tracks tpc (take (Suc l - 13) (concat (map f3_slots areas)))"
          by (intro exI[of _ areas']) (auto simp: add.assoc)
      qed
    qed
  qed
qed

text \<open>
  C24: The size of a data set is the tracks of exactly its first \<open>noepv\<close> extents, those of the format-1
  DSCB and then those of the format-3 DSCBs chained behind it; it is answered exactly when the chain,
  of at most four DSCBs, is readable, of the right format and holds that many, and in every other
  case there is an error and no number.
\<close>
theorem dscb_alloc_exact:
  "dscb_alloc_tracks f1ext f1ptr noepv tpc read3 = Inr trks \<longleftrightarrow>
     (\<exists>areas. length areas \<le> 4 \<and> linked read3 (take 5 f1ptr) areas \<and> noepv \<le> 3 + 13 * length areas \<and>
        trks = tracks tpc (take noepv (slots f1ext 3 @ concat (map f3_slots areas))))"
proof -
  have "noepv - min 3 noepv = noepv - 3" by linarith
  then show ?thesis
    by (simp add: dscb_alloc_tracks_def sum_group_spec chain_loop_spec DSX_F1_EXTENTS_def DSX_MAX_F3_def
        DSX_PTR_LEN_def le_diff_conv add.commute)
qed

text \<open>As many blocks as fit, on a device that counts bytes, and no more.\<close>

lemma blocks_fit:
  assumes "blksz \<noteq> 0" "devfg AND DS4DEVFG_CELLS = 0" "devk \<le> devov" "devov - devk < devtk"
    and "unat (devov - devk) + unat blksz < 2 ^ 32"
  shows "unat (blocks_per_track devtk devov devk devfg blksz) =
    (unat devtk - unat (devov - devk)) div (unat (devov - devk) + unat blksz)"
proof -
  have "unat (devov - devk + blksz) = unat (devov - devk) + unat blksz"
    using assms(5) by (simp add: unat_plus_if')
  moreover have "unat (devtk - (devov - devk)) = unat devtk - unat (devov - devk)"
    using assms(4) by (simp add: unat_sub)
  ultimately show ?thesis
    using assms(1-4) by (simp add: blocks_per_track_def Let_def unat_div not_less not_le)
qed

end
