(* ===== verification/IspfStat.thy ===== *)
theory IspfStat
  imports Prelude
begin

text \<open>
  The ISPF statistics of a member, \<^verbatim>\<open>src/ispfstat.c\<close>: packed numbers and dates in the user data of a
  directory entry, and the header that asks for them.
\<close>

unbundle bit_operations_syntax

section \<open>Packed fields\<close>

definition ENTRY_FIXED :: nat where "ENTRY_FIXED = 12"
definition ISPF_STATS_LEN :: nat where "ISPF_STATS_LEN = 30"
definition IND_TTRS :: byte where "IND_TTRS = 0x60"
definition IND_UDATA :: byte where "IND_UDATA = 0x1F"
definition FLAG_SCLM :: byte where "FLAG_SCLM = 0x80"

definition bcd2 :: "byte \<Rightarrow> nat option" where
  "bcd2 b = (let hi = unat (drop_bit 4 b); lo = unat (b AND 0x0F)
             in if hi > 9 \<or> lo > 9 then None else Some (hi * 10 + lo))"

definition put2 :: "nat \<Rightarrow> cstr" where
  "put2 v = [digit_char (v div 10 mod 10), digit_char (v mod 10)]"

definition mdays :: "nat \<Rightarrow> nat list" where
  "mdays leap = [31, 28 + leap, 31, 30, 31, 30, 31, 31, 30, 31, 30, 31]"

fun month_loop :: "nat \<Rightarrow> nat \<Rightarrow> nat list \<Rightarrow> nat \<times> nat" where
  "month_loop month doy [] = (month, doy)"
| "month_loop month doy (len # lens) =
     (if doy \<le> len then (month, doy) else month_loop (Suc month) (doy - len) lens)"

definition leap_year :: "nat \<Rightarrow> nat" where
  "leap_year year = (if year mod 4 = 0 \<and> year mod 100 \<noteq> 0 \<or> year mod 400 = 0 then 1 else 0)"

definition format_date :: "byte \<Rightarrow> byte list \<Rightarrow> cstr option" where
  "format_date cent d =
     (if cent > 1 then None
      else
        case (bcd2 (d ! 0), bcd2 (d ! 1)) of
          (Some yy, Some d1) \<Rightarrow>
            let d3 = unat (drop_bit 4 (d ! 2)); sign = unat (d ! 2 AND 0x0F) in
            if d3 > 9 \<or> sign < 0x0A then None
            else
              let year = 1900 + 100 * unat cent + yy; doy = d1 * 10 + d3; leap = leap_year year in
              if doy < 1 \<or> doy > 365 + leap then None
              else
                let (month, day) = month_loop 0 doy (mdays leap)
                in Some ([digit_char (year div 1000), digit_char (year div 100 mod 10),
                          digit_char (year div 10 mod 10), digit_char (year mod 10), CHR ''/'']
                         @ put2 (month + 1) @ ''/'' @ put2 day)
        | _ \<Rightarrow> None)"

section \<open>An entry\<close>

record ISPFSTATS =
  vers :: nat
  modl :: nat
  cnorc :: nat
  inorc :: nat
  mnorc :: nat
  c4date :: cstr
  m4date :: cstr
  mtime :: cstr
  msec :: cstr
  user :: "byte list"
  sclm :: bool

text \<open>\<^verbatim>\<open>((unsigned) u[k] << 8) | u[k + 1]\<close>\<close>

definition half :: "byte list \<Rightarrow> nat \<Rightarrow> nat" where
  "half u k = unat (u ! k) * 256 + unat (u ! (k + 1))"

definition trim_user :: "byte list \<Rightarrow> byte list" where
  "trim_user u = rev (dropWhile (\<lambda>b. b = 0x40 \<or> b = 0x00) (rev u))"

definition ispf_stats_parse :: "byte list option \<Rightarrow> nat \<Rightarrow> ISPFSTATS option" where
  "ispf_stats_parse entry sz =
     (case entry of
        None \<Rightarrow> None
      | Some e \<Rightarrow>
          if sz < ENTRY_FIXED + ISPF_STATS_LEN then None
          else if e ! 11 AND IND_TTRS \<noteq> 0 then None
          else if unat (e ! 11 AND IND_UDATA) * 2 \<noteq> ISPF_STATS_LEN then None
          else
            let u = drop ENTRY_FIXED e in
            if u ! 0 > 99 \<or> u ! 1 > 99 then None
            else
              case (bcd2 (u ! 3), bcd2 (u ! 12), bcd2 (u ! 13)) of
                (Some sec, Some hh, Some mm) \<Rightarrow>
                  if sec > 59 \<or> hh > 23 \<or> mm > 59 then None
                  else
                    (case (format_date (u ! 4) (drop 5 u), format_date (u ! 8) (drop 9 u)) of
                       (Some c, Some m) \<Rightarrow>
                         Some \<lparr>vers = unat (u ! 0), modl = unat (u ! 1), cnorc = half u 14, inorc = half u 16,
                               mnorc = half u 18, c4date = c, m4date = m, mtime = put2 hh @ '':'' @ put2 mm,
                               msec = put2 sec, user = trim_user (take 8 (drop 20 u)),
                               sclm = (u ! 2 AND FLAG_SCLM \<noteq> 0)\<rparr>
                     | _ \<Rightarrow> None)
              | _ \<Rightarrow> None)"

definition ispf_wants_base :: "cstr option \<Rightarrow> bool" where
  "ispf_wants_base value =
     (case value of
        None \<Rightarrow> False
      | Some v \<Rightarrow>
          list_all (\<lambda>i. toupper (c_at v i) = ''BASE'' ! i) [0..<4] \<and>
          (c_at v 4 = nul \<or> c_at v 4 = CHR '','' \<or> c_at v 4 = blank))"

section \<open>Dates\<close>

text \<open>A calendar date as it is stored: the century, the two digits of the year and the ordinal day, packed.\<close>

type_synonym date = "nat \<times> nat \<times> nat"

definition valid_date :: "date \<Rightarrow> bool" where
  "valid_date dt = (case dt of (y, m, d) \<Rightarrow>
     1900 \<le> y \<and> y < 2100 \<and> 1 \<le> m \<and> m \<le> 12 \<and> 1 \<le> d \<and> d \<le> mdays (leap_year y) ! (m - 1))"

definition ordinal :: "date \<Rightarrow> nat" where
  "ordinal dt = (case dt of (y, m, d) \<Rightarrow> sum_list (take (m - 1) (mdays (leap_year y))) + d)"

definition pack2 :: "nat \<Rightarrow> byte" where "pack2 n = of_nat (n div 10 * 16 + n mod 10)"

definition pack_sign :: "nat \<Rightarrow> nat \<Rightarrow> byte" where "pack_sign k sign = of_nat (k * 16 + sign)"

definition century :: "date \<Rightarrow> byte" where "century dt = of_nat ((fst dt - 1900) div 100)"

definition packed_date :: "nat \<Rightarrow> date \<Rightarrow> byte list" where
  "packed_date sign dt =
     [pack2 ((fst dt - 1900) mod 100), pack2 (ordinal dt div 10), pack_sign (ordinal dt mod 10) sign]"

definition date_text :: "date \<Rightarrow> cstr" where
  "date_text dt = (case dt of (y, m, d) \<Rightarrow>
     [digit_char (y div 1000), digit_char (y div 100 mod 10), digit_char (y div 10 mod 10), digit_char (y mod 10), CHR ''/'']
       @ put2 m @ ''/'' @ put2 d)"

lemma bcd2_pack2: "n < 100 \<Longrightarrow> bcd2 (pack2 n) = Some n"
proof -
  have "list_all (\<lambda>n. bcd2 (pack2 n) = Some n) [0..<100]" by code_simp
  then show "n < 100 \<Longrightarrow> bcd2 (pack2 n) = Some n" by (simp add: list_all_iff)
qed

lemma packed_sign:
  assumes "k < 10" "sign < 16"
  shows "unat (drop_bit 4 (pack_sign k sign)) = k" "unat (pack_sign k sign AND 0x0F) = sign"
proof -
  have "list_all (\<lambda>k. list_all (\<lambda>s. unat (drop_bit 4 (pack_sign k s)) = k \<and>
      unat (pack_sign k s AND 0x0F) = s) [0..<16]) [0..<10]" by code_simp
  with assms show "unat (drop_bit 4 (pack_sign k sign)) = k" "unat (pack_sign k sign AND 0x0F) = sign"
    by (simp_all add: list_all_iff)
qed

lemma month_loop_spec:
  "i < length lens \<Longrightarrow> 1 \<le> d \<Longrightarrow> d \<le> lens ! i \<Longrightarrow> month_loop k (sum_list (take i lens) + d) lens = (k + i, d)"
proof (induction lens arbitrary: i k)
  case (Cons len lens)
  then show ?case by (cases i) auto
qed simp

lemma sum_mdays: "i < 12 \<Longrightarrow> sum_list (take i (mdays l)) + mdays l ! i \<le> 365 + l"
  by (simp add: mdays_def less_Suc_eq eval_nat_numeral) auto

lemma format_packed:
  assumes "valid_date dt" "10 \<le> sign" "sign < 16"
  shows "format_date (century dt) (packed_date sign dt @ rest) = Some (date_text dt)"
proof -
  obtain y m d where dt: "dt = (y, m, d)" by (metis prod_cases3)
  with assms(1) have y: "1900 \<le> y" "y < 2100" and m: "m - 1 < 12" "1 \<le> m" and d: "1 \<le> d" "d \<le> mdays (leap_year y) ! (m - 1)"
    by (auto simp: valid_date_def)
  have o: "1 \<le> ordinal dt" "ordinal dt \<le> 365 + leap_year y"
    using sum_mdays[OF m(1), of "leap_year y"] d by (auto simp: ordinal_def dt)
  have "leap_year y \<le> 1" by (simp add: leap_year_def)
  then have o100: "ordinal dt div 10 < 100" using o by linarith
  have c: "\<not> century dt > 1" "unat (century dt) = (y - 1900) div 100"
  proof -
    have "(y - 1900) div 100 = 0 \<or> (y - 1900) div 100 = 1" using y by auto
    then show "\<not> century dt > 1" "unat (century dt) = (y - 1900) div 100" by (auto simp: century_def dt)
  qed
  have year: "1900 + 100 * ((y - 1900) div 100) + (y - 1900) mod 100 = y" using y by simp
  have loop: "month_loop 0 (ordinal dt) (mdays (leap_year y)) = (m - 1, d)"
    using month_loop_spec[of "m - 1" "mdays (leap_year y)" d 0] m d by (simp add: ordinal_def dt mdays_def)
  have "ordinal dt div 10 * 10 + ordinal dt mod 10 = ordinal dt" by simp
  with o o100 c year loop m(2) assms(2,3) show ?thesis
    by (simp add: format_date_def packed_date_def bcd2_pack2 packed_sign dt Let_def date_text_def)
qed

section \<open>Properties\<close>

text \<open>What an editor knows when it stows a member, and the user data it writes.\<close>

record stamp =
  st_vers :: nat
  st_mod :: nat
  st_flags :: byte
  st_created :: date
  st_changed :: date
  st_time :: "nat \<times> nat \<times> nat"
  st_records :: "nat \<times> nat \<times> nat"
  st_user :: "byte list"

definition valid_stamp :: "stamp \<Rightarrow> bool" where
  "valid_stamp st \<longleftrightarrow>
     st_vers st \<le> 99 \<and> st_mod st \<le> 99 \<and> valid_date (st_created st) \<and> valid_date (st_changed st) \<and>
     (case st_time st of (hh, mm, ss) \<Rightarrow> hh \<le> 23 \<and> mm \<le> 59 \<and> ss \<le> 59) \<and>
     (case st_records st of (a, b, c) \<Rightarrow> a < 65536 \<and> b < 65536 \<and> c < 65536) \<and>
     length (st_user st) \<le> 8 \<and> (st_user st \<noteq> [] \<longrightarrow> last (st_user st) \<noteq> 0x40 \<and> last (st_user st) \<noteq> 0)"

definition half_bytes :: "nat \<Rightarrow> byte list" where "half_bytes n = [of_nat (n div 256), of_nat (n mod 256)]"

definition stamp_bytes :: "nat \<Rightarrow> stamp \<Rightarrow> byte list" where
  "stamp_bytes sign st =
     (case (st_time st, st_records st) of ((hh, mm, ss), (a, b, c)) \<Rightarrow>
        [of_nat (st_vers st), of_nat (st_mod st), st_flags st, pack2 ss, century (st_created st)] @
        packed_date sign (st_created st) @ [century (st_changed st)] @ packed_date sign (st_changed st) @
        [pack2 hh, pack2 mm] @ half_bytes a @ half_bytes b @ half_bytes c @
        st_user st @ replicate (8 - length (st_user st)) 0x40)"

definition stamp_stats :: "stamp \<Rightarrow> ISPFSTATS" where
  "stamp_stats st =
     (case (st_time st, st_records st) of ((hh, mm, ss), (a, b, c)) \<Rightarrow>
        \<lparr>vers = st_vers st, modl = st_mod st, cnorc = a, inorc = b, mnorc = c, c4date = date_text (st_created st),
         m4date = date_text (st_changed st), mtime = put2 hh @ '':'' @ put2 mm, msec = put2 ss, user = st_user st,
         sclm = (st_flags st AND FLAG_SCLM \<noteq> 0)\<rparr>)"

lemma half_halves:
  "n < 65536 \<Longrightarrow> u ! k = of_nat (n div 256) \<Longrightarrow> u ! (k + 1) = of_nat (n mod 256) \<Longrightarrow> half u k = n"
  by (simp add: half_def unat_of_nat)

lemma trim_padded:
  "v \<noteq> [] \<longrightarrow> last v \<noteq> 0x40 \<and> last v \<noteq> 0 \<Longrightarrow> trim_user (v @ replicate n 0x40) = v"
proof -
  have "dropWhile (\<lambda>b. b = 0x40 \<or> b = 0) (replicate n 0x40 @ xs) = dropWhile (\<lambda>b. b = 0x40 \<or> b = 0) xs"
    for xs :: "byte list" by (induction n) simp_all
  then show "v \<noteq> [] \<longrightarrow> last v \<noteq> 0x40 \<and> last v \<noteq> 0 \<Longrightarrow> trim_user (v @ replicate n 0x40) = v"
    by (cases v rule: rev_cases) (simp_all add: trim_user_def)
qed

text \<open>
  C25: The statistics of a member are read back as they were written: for every version, time, counts,
  user and every calendar date from 1900 to 2099, in a directory entry without a TTR list and of the
  right length, the parser gives exactly these values, the packed ordinal day as year, month and day.
\<close>
theorem ispf_stats_roundtrip:
  assumes st: "valid_stamp st" and sign: "10 \<le> sign" "sign < 16"
    and entry: "length fixed = 11" "ind AND IND_TTRS = 0" "ind AND IND_UDATA = 15" "42 \<le> sz"
  shows "ispf_stats_parse (Some (fixed @ [ind] @ stamp_bytes sign st @ rest)) sz = Some (stamp_stats st)"
proof -
  obtain hh mm ss where t: "st_time st = (hh, mm, ss)" by (metis prod_cases3)
  obtain a b c where r: "st_records st = (a, b, c)" by (metis prod_cases3)
  let ?e = "fixed @ [ind] @ stamp_bytes sign st @ rest"
  let ?u = "stamp_bytes sign st @ rest"
  have v: "st_vers st \<le> 99" "st_mod st \<le> 99" "valid_date (st_created st)" "valid_date (st_changed st)"
    "hh \<le> 23" "mm \<le> 59" "ss \<le> 59" "a < 65536" "b < 65536" "c < 65536" "length (st_user st) \<le> 8"
    "st_user st \<noteq> [] \<longrightarrow> last (st_user st) \<noteq> 0x40 \<and> last (st_user st) \<noteq> 0"
    using st by (auto simp: valid_stamp_def t r)
  have e: "?e ! 11 = ind" "drop ENTRY_FIXED ?e = ?u"
    using entry(1) by (simp_all add: nth_append ENTRY_FIXED_def)
  obtain p q s where pq: "packed_date sign (st_created st) = [p, q, s]" by (simp add: packed_date_def)
  obtain p' q' s' where pq': "packed_date sign (st_changed st) = [p', q', s']" by (simp add: packed_date_def)
  have u: "?u = [of_nat (st_vers st), of_nat (st_mod st), st_flags st, pack2 ss, century (st_created st), p, q, s,
      century (st_changed st), p', q', s', pack2 hh, pack2 mm, of_nat (a div 256), of_nat (a mod 256),
      of_nat (b div 256), of_nat (b mod 256), of_nat (c div 256), of_nat (c mod 256)]
      @ (st_user st @ replicate (8 - length (st_user st)) 0x40) @ rest"
    by (simp add: stamp_bytes_def t r pq pq' half_bytes_def)
  define w where "w = st_user st @ replicate (8 - length (st_user st)) (0x40 :: byte)"
  have w: "length w = 8" "trim_user w = st_user st" using v(11,12) by (simp_all add: w_def trim_padded)
  have dates: "format_date (century (st_created st)) (p # q # s # xs) = Some (date_text (st_created st))"
    "format_date (century (st_changed st)) (p' # q' # s' # xs) = Some (date_text (st_changed st))" for xs
    using format_packed[OF v(3) sign, of xs] format_packed[OF v(4) sign, of xs] pq pq' by simp_all
  have small: "\<not> (of_nat n :: byte) > 99" "unat (of_nat n :: byte) = n" if "n \<le> 99" for n
    using that by (simp_all add: word_less_nat_alt unat_of_nat not_less)
  have ind: "unat (ind AND IND_UDATA) * 2 = ISPF_STATS_LEN" using entry(3) by (simp add: ISPF_STATS_LEN_def)
  have halves: "half (?u) 14 = a" "half ?u 16 = b" "half ?u 18 = c"
    by (rule half_halves; simp add: u v)+
  show ?thesis
    unfolding ispf_stats_parse_def option.case e
    using entry(2,4) ind v(1,2,5-7) halves
    by (simp add: Let_def ENTRY_FIXED_def ISPF_STATS_LEN_def u small bcd2_pack2 dates w_def[symmetric] w
        stamp_stats_def t r)
qed

definition sample_stamp :: stamp where
  "sample_stamp = \<lparr>st_vers = 1, st_mod = 7, st_flags = 0, st_created = (1999, 12, 31), st_changed = (2024, 2, 29),
     st_time = (23, 5, 0), st_records = (300, 12, 0), st_user = [0xC9, 0xC2]\<rparr>"

theorem ispf_stats_roundtrip_witness:
  "map_option m4date (ispf_stats_parse (Some (replicate 11 0x40 @ [0x0F] @ stamp_bytes 12 sample_stamp @ [0, 0])) 42)
     = Some ''2024/02/29''"
proof -
  have "valid_stamp sample_stamp"
    by (simp add: valid_stamp_def sample_stamp_def valid_date_def mdays_def leap_year_def)
  from ispf_stats_roundtrip[OF this, of 12 "replicate 11 0x40" "0x0F" 42 "[0, 0]"]
  have "ispf_stats_parse (Some (replicate 11 0x40 @ [0x0F] @ stamp_bytes 12 sample_stamp @ [0, 0])) 42 =
      Some (stamp_stats sample_stamp)" by (simp add: IND_TTRS_def IND_UDATA_def)
  moreover have "m4date (stamp_stats sample_stamp) = ''2024/02/29''" by code_simp
  ultimately show ?thesis by simp
qed

end
