(* ===== verification/KeyStore.thy ===== *)
theory KeyStore
  imports Prelude
begin

text \<open>
  The name-keyed store of \<^verbatim>\<open>src/ntstore.c\<close> and the context block of \<^verbatim>\<open>src/mvsmfctx.c\<close> it hangs off.

  A name is the sixteen characters of \<^verbatim>\<open>NT_SLOT.name\<close>, its padding included.  The time of an
  operation is an argument: the code reads the clock before it takes the latch, so a sequence of
  operations need not have ascending times.  Under the latch an operation is one step.
\<close>

unbundle bit_operations_syntax

section \<open>Slots\<close>

definition MVSMF_KVS_EYE :: cstr where "MVSMF_KVS_EYE = ''MVSMFKVS''"
definition MVSMF_KVS_SLOTS :: nat where "MVSMF_KVS_SLOTS = 32"
definition MVSMF_KVS_NAMELEN :: nat where "MVSMF_KVS_NAMELEN = 16"
definition MVSMF_KVS_VALMAX :: nat where "MVSMF_KVS_VALMAX = 192"
definition KVS_TTL_TICKS :: u32 where "KVS_TTL_TICKS = 300"

record NT_SLOT =
  nt_name :: cstr
  last_access :: u64
  val_len :: nat
  nt_value :: "byte list"

record NT_STORE =
  nt_eye :: cstr
  nt_len :: nat
  nt_ver :: nat
  nslots :: nat
  nt_slot :: "NT_SLOT list"

definition name_eq :: "cstr \<Rightarrow> cstr \<Rightarrow> bool" where
  "name_eq a b \<longleftrightarrow> take MVSMF_KVS_NAMELEN a = take MVSMF_KVS_NAMELEN b"

definition name_free :: "cstr \<Rightarrow> bool" where
  "name_free n \<longleftrightarrow> list_all (\<lambda>c. c = nul) (take MVSMF_KVS_NAMELEN n)"

definition slot_expired :: "u64 \<Rightarrow> u64 \<Rightarrow> bool" where
  "slot_expired access now =
     (let now_hi = ucast (drop_bit 32 now) :: u32; acc_hi = ucast (drop_bit 32 access) :: u32
      in now_hi - acc_hi \<ge> KVS_TTL_TICKS)"

definition zero_slot :: NT_SLOT where
  "zero_slot = \<lparr>nt_name = replicate MVSMF_KVS_NAMELEN nul, last_access = 0, val_len = 0,
     nt_value = replicate MVSMF_KVS_VALMAX 0\<rparr>"

text \<open>\<open>size_of\<close> is \<^verbatim>\<open>sizeof(NT_STORE)\<close>, kept as a halfword.\<close>

definition nt_store_init :: "nat \<Rightarrow> NT_STORE" where
  "nt_store_init size_of =
     \<lparr>nt_eye = MVSMF_KVS_EYE, nt_len = size_of mod 65536, nt_ver = 1, nslots = MVSMF_KVS_SLOTS,
      nt_slot = replicate MVSMF_KVS_SLOTS zero_slot\<rparr>"

text \<open>A loop over the slots that stops at the first one that fits.\<close>

fun first_slot :: "(NT_SLOT \<Rightarrow> bool) \<Rightarrow> nat \<Rightarrow> NT_SLOT list \<Rightarrow> nat option" where
  "first_slot p i [] = None"
| "first_slot p i (s # ss) = (if p s then Some i else first_slot p (Suc i) ss)"

fun lru_loop :: "nat \<Rightarrow> nat \<Rightarrow> u64 \<Rightarrow> NT_SLOT list \<Rightarrow> nat" where
  "lru_loop i lru oldest [] = lru"
| "lru_loop i lru oldest (s # ss) =
     (if last_access s < oldest then lru_loop (Suc i) i (last_access s) ss
      else lru_loop (Suc i) lru oldest ss)"

definition slots_of :: "NT_STORE \<Rightarrow> NT_SLOT list" where
  "slots_of st = take (nslots st) (nt_slot st)"

definition pick_slot :: "u64 \<Rightarrow> cstr \<Rightarrow> NT_STORE \<Rightarrow> nat" where
  "pick_slot now name st =
     (case first_slot (\<lambda>s. \<not> name_free (nt_name s) \<and> name_eq (nt_name s) name) 0 (slots_of st) of
        Some i \<Rightarrow> i
      | None \<Rightarrow>
          (case first_slot (\<lambda>s. name_free (nt_name s) \<or> slot_expired (last_access s) now) 0 (slots_of st) of
             Some i \<Rightarrow> i
           | None \<Rightarrow> lru_loop 1 0 (last_access (nt_slot st ! 0)) (drop 1 (slots_of st))))"

definition put_slot :: "u64 \<Rightarrow> cstr \<Rightarrow> byte list \<Rightarrow> nat \<Rightarrow> NT_SLOT \<Rightarrow> NT_SLOT" where
  "put_slot now name val len s =
     \<lparr>nt_name = take MVSMF_KVS_NAMELEN name, last_access = now, val_len = len,
      nt_value = take len val @ drop len (nt_value s)\<rparr>"

definition nt_set ::
  "u64 \<Rightarrow> NT_STORE option \<Rightarrow> cstr option \<Rightarrow> byte list \<Rightarrow> nat \<Rightarrow> int \<times> NT_STORE option" where
  "nt_set now store name val len =
     (case (store, name) of
        (Some st, Some name) \<Rightarrow>
          let len = (if len > MVSMF_KVS_VALMAX then MVSMF_KVS_VALMAX else len); i = pick_slot now name st
          in (0, Some (st\<lparr>nt_slot := (nt_slot st)[i := put_slot now name val len (nt_slot st ! i)]\<rparr>))
      | _ \<Rightarrow> (8, store))"

text \<open>A value, or a miss (return code 4).\<close>

definition nt_get ::
  "u64 \<Rightarrow> NT_STORE option \<Rightarrow> cstr option \<Rightarrow> nat \<Rightarrow> byte list option \<times> NT_STORE option" where
  "nt_get now store name max_len =
     (case (store, name) of
        (Some st, Some name) \<Rightarrow>
          (case first_slot (\<lambda>s. \<not> name_free (nt_name s) \<and> \<not> slot_expired (last_access s) now \<and>
                   name_eq (nt_name s) name) 0 (slots_of st) of
             None \<Rightarrow> (None, store)
           | Some i \<Rightarrow>
               let s = nt_slot st ! i; n = (if val_len s > max_len then max_len else val_len s)
               in (Some (take n (nt_value s)), Some (st\<lparr>nt_slot := (nt_slot st)[i := s\<lparr>last_access := now\<rparr>]\<rparr>)))
      | _ \<Rightarrow> (None, store))"

definition nt_del :: "NT_STORE option \<Rightarrow> cstr option \<Rightarrow> int \<times> NT_STORE option" where
  "nt_del store name =
     (case (store, name) of
        (Some st, Some name) \<Rightarrow>
          (case first_slot (\<lambda>s. \<not> name_free (nt_name s) \<and> name_eq (nt_name s) name) 0 (slots_of st) of
             None \<Rightarrow> (4, store)
           | Some i \<Rightarrow> (0, Some (st\<lparr>nt_slot := (nt_slot st)[i := zero_slot]\<rparr>)))
      | _ \<Rightarrow> (4, store))"

section \<open>The context\<close>

record MVSMF_CTX =
  ctx_len :: nat
  ctx_ver :: nat
  kvstore :: "NT_STORE option"

text \<open>
  \<open>svc\<close> is what httpd's cgictx service answers for the eyecatcher: the block it keeps, or nothing.
  \<open>storage\<close> says whether \<^verbatim>\<open>__getmsp\<close> finds the storage of the store, \<open>ctx_size\<close> and \<open>size_of\<close> are the
  sizes of the two blocks.
\<close>

definition mvsmf_ctx_get :: "bool \<Rightarrow> MVSMF_CTX option \<Rightarrow> MVSMF_CTX option" where
  "mvsmf_ctx_get server svc = (if \<not> server then None else svc)"

definition mvsmf_kvstore ::
  "nat \<Rightarrow> nat \<Rightarrow> bool \<Rightarrow> bool \<Rightarrow> MVSMF_CTX option \<Rightarrow> NT_STORE option \<times> MVSMF_CTX option" where
  "mvsmf_kvstore ctx_size size_of storage server svc =
     (case mvsmf_ctx_get server svc of
        None \<Rightarrow> (None, svc)
      | Some ctx \<Rightarrow>
          let ctx = (if kvstore ctx \<noteq> None then ctx
                     else
                       let ctx = (if ctx_len ctx = 0 then ctx\<lparr>ctx_len := ctx_size mod 65536, ctx_ver := 1\<rparr> else ctx)
                       in if storage then ctx\<lparr>kvstore := Some (nt_store_init size_of)\<rparr> else ctx)
          in (kvstore ctx, Some ctx))"

section \<open>Interface\<close>

text \<open>
  What the console relies on: a key put at a time reads back at every later time up to the end of
  its life, reading a key starts its life again, and neither reading nor writing one key adds or
  changes another.
\<close>

locale kv_store =
  fixes wf :: "'s \<Rightarrow> bool"
    and key :: "'k \<Rightarrow> bool"
    and fits :: "'v \<Rightarrow> bool"
    and alive :: "'t \<Rightarrow> 't \<Rightarrow> bool"
    and view :: "'t \<Rightarrow> 's \<Rightarrow> 'k \<Rightarrow> 'v option"
    and put :: "'t \<Rightarrow> 'k \<Rightarrow> 'v \<Rightarrow> 's \<Rightarrow> 's"
    and get :: "'t \<Rightarrow> 'k \<Rightarrow> 's \<Rightarrow> 'v option \<times> 's"
  assumes put_wf: "wf s \<Longrightarrow> key k \<Longrightarrow> fits v \<Longrightarrow> wf (put t k v s)"
    and get_wf: "wf s \<Longrightarrow> wf (snd (get t k s))"
    and put_same: "wf s \<Longrightarrow> key k \<Longrightarrow> fits v \<Longrightarrow> alive t t' \<Longrightarrow> view t' (put t k v s) k = Some v"
    and put_other: "wf s \<Longrightarrow> key k \<Longrightarrow> fits v \<Longrightarrow> j \<noteq> k \<Longrightarrow> view t' (put t k v s) j = Some w \<Longrightarrow> view t' s j = Some w"
    and get_same: "wf s \<Longrightarrow> key k \<Longrightarrow> fst (get t k s) = view t s k"
    and get_alive: "wf s \<Longrightarrow> key k \<Longrightarrow> view t s k = Some v \<Longrightarrow> alive t t' \<Longrightarrow> view t' (snd (get t k s)) k = Some v"
begin

text \<open>A client's step: read the value under its key at one time, and write back what it becomes at another.\<close>

definition step_key :: "('v \<Rightarrow> 'v) \<Rightarrow> 'k \<Rightarrow> 't \<Rightarrow> 't \<Rightarrow> 's \<Rightarrow> 's" where
  "step_key f k t u s = (case get t k s of (None, s') \<Rightarrow> s' | (Some v, s') \<Rightarrow> put u k (f v) s')"

fun steps_key :: "('v \<Rightarrow> 'v) \<Rightarrow> 'k \<Rightarrow> ('t \<times> 't) list \<Rightarrow> 's \<Rightarrow> 's" where
  "steps_key f k [] s = s"
| "steps_key f k ((t, u) # ts) s = steps_key f k ts (step_key f k t u s)"

fun unbroken :: "'t \<Rightarrow> ('t \<times> 't) list \<Rightarrow> 't \<Rightarrow> bool" where
  "unbroken u [] t' \<longleftrightarrow> alive u t'"
| "unbroken u ((t, v) # ts) t' \<longleftrightarrow> alive u t \<and> unbroken v ts t'"

lemma put_get: "wf s \<Longrightarrow> key k \<Longrightarrow> fits v \<Longrightarrow> alive t t' \<Longrightarrow> fst (get t' k (put t k v s)) = Some v"
  by (simp add: get_same put_same put_wf)

lemma step_key_view:
  assumes "wf s" "key k" "view t s k = Some v" "fits (f v)"
  shows "wf (step_key f k t u s) \<and> (\<forall>t'. alive u t' \<longrightarrow> view t' (step_key f k t u s) k = Some (f v))"
proof -
  obtain s' where g: "get t k s = (Some v, s')" using get_same[OF assms(1,2)] assms(3) by (metis prod.collapse)
  have "wf s'" using get_wf[OF assms(1), of t k] g by simp
  with assms show ?thesis by (simp add: step_key_def g put_wf put_same)
qed

text \<open>A key that is stepped again within its life each time keeps its history.\<close>

lemma steps_key_view:
  "wf s \<Longrightarrow> key k \<Longrightarrow> (\<And>n. fits ((f ^^ n) v)) \<Longrightarrow> (\<forall>t'. alive u t' \<longrightarrow> view t' s k = Some v) \<Longrightarrow>
   unbroken u ts t' \<Longrightarrow> view t' (steps_key f k ts s) k = Some ((f ^^ length ts) v)"
proof (induction f k ts s arbitrary: u v rule: steps_key.induct)
  case (2 f k t w ts s)
  then have v: "view t s k = Some v" and f: "fits (f v)" using "2.prems"(3)[of 1] by auto
  note st = step_key_view[OF 2(2,3) v, of f w, OF f]
  have n: "fits ((f ^^ n) (f v))" for n using "2.prems"(3)[of "Suc n"] by (simp add: funpow_swap1)
  from "2.IH"[OF _ 2(3) n, of w] st 2(6) show ?case by (simp add: funpow_swap1)
qed simp

end

section \<open>The store as a map\<close>

definition live :: "u64 \<Rightarrow> NT_SLOT \<Rightarrow> bool" where
  "live now s \<longleftrightarrow> \<not> name_free (nt_name s) \<and> \<not> slot_expired (last_access s) now"

definition nt_key :: "cstr \<Rightarrow> bool" where
  "nt_key k \<longleftrightarrow> length k = MVSMF_KVS_NAMELEN \<and> \<not> name_free k"

definition slot_wf :: "NT_SLOT \<Rightarrow> bool" where
  "slot_wf s \<longleftrightarrow> length (nt_name s) = MVSMF_KVS_NAMELEN \<and> length (nt_value s) = MVSMF_KVS_VALMAX \<and>
     val_len s \<le> MVSMF_KVS_VALMAX"

definition nt_wf :: "NT_STORE \<Rightarrow> bool" where
  "nt_wf st \<longleftrightarrow> nslots st = MVSMF_KVS_SLOTS \<and> length (nt_slot st) = MVSMF_KVS_SLOTS \<and>
     (\<forall>i<MVSMF_KVS_SLOTS. slot_wf (nt_slot st ! i)) \<and>
     (\<forall>i<MVSMF_KVS_SLOTS. \<forall>j<MVSMF_KVS_SLOTS. i \<noteq> j \<longrightarrow> \<not> name_free (nt_name (nt_slot st ! i)) \<longrightarrow>
        nt_name (nt_slot st ! i) \<noteq> nt_name (nt_slot st ! j))"

definition slot_bytes :: "NT_SLOT \<Rightarrow> byte list" where
  "slot_bytes s = take (val_len s) (nt_value s)"

text \<open>The keys a caller can still read at a time, with their values.\<close>

definition nt_view :: "u64 \<Rightarrow> NT_STORE \<Rightarrow> cstr \<Rightarrow> byte list option" where
  "nt_view now st k =
     map_option (\<lambda>i. slot_bytes (nt_slot st ! i))
       (first_slot (\<lambda>s. live now s \<and> nt_name s = k) 0 (nt_slot st))"

definition nt_access :: "u64 \<Rightarrow> NT_STORE \<Rightarrow> cstr \<Rightarrow> u64 option" where
  "nt_access now st k =
     map_option (\<lambda>i. last_access (nt_slot st ! i))
       (first_slot (\<lambda>s. live now s \<and> nt_name s = k) 0 (nt_slot st))"

lemma first_slot_Some:
  "first_slot p i ss = Some n \<Longrightarrow> i \<le> n \<and> n < i + length ss \<and> p (ss ! (n - i)) \<and> (\<forall>m<n - i. \<not> p (ss ! m))"
proof (induction ss arbitrary: i)
  case (Cons s ss)
  show ?case
  proof (cases "p s")
    case False
    with Cons.prems have "first_slot p (Suc i) ss = Some n" by simp
    from Cons.IH[OF this] have "Suc i \<le> n \<and> n < Suc i + length ss \<and> p (ss ! (n - Suc i)) \<and> (\<forall>m<n - Suc i. \<not> p (ss ! m))" .
    moreover from this have "n - i = Suc (n - Suc i)" by linarith
    ultimately show ?thesis using False by (auto simp: less_Suc_eq_0_disj)
  qed (use Cons in auto)
qed simp

lemma first_slot_None: "first_slot p i ss = None \<longleftrightarrow> (\<forall>m<length ss. \<not> p (ss ! m))"
  by (induction ss arbitrary: i) (auto simp: less_Suc_eq_0_disj)

lemma first_slot_unique:
  assumes "m < length ss" "p (ss ! m)" "\<And>j. j < length ss \<Longrightarrow> p (ss ! j) \<Longrightarrow> j = m"
  shows "first_slot p 0 ss = Some m"
proof (cases "first_slot p 0 ss")
  case None
  with assms(1,2) show ?thesis by (auto simp: first_slot_None)
next
  case (Some n)
  from first_slot_Some[OF Some] have "n < length ss" "p (ss ! n)" by simp_all
  then have "n = m" by (rule assms(3))
  with Some show ?thesis by simp
qed

lemma lru_loop_min:
  "lru < i \<Longrightarrow> oldest = last_access (all ! lru) \<Longrightarrow> drop i all = ss \<Longrightarrow> (\<forall>j<i. j < length all \<longrightarrow> oldest \<le> last_access (all ! j)) \<Longrightarrow>
   lru < length all \<Longrightarrow>
   lru_loop i lru oldest ss < length all \<and> (\<forall>j<length all. last_access (all ! lru_loop i lru oldest ss) \<le> last_access (all ! j))"
proof (induction ss arbitrary: i lru oldest)
  case Nil
  then show ?case by auto
next
  case (Cons s ss)
  then have i: "i < length all" "all ! i = s" "drop (Suc i) all = ss"
    by (metis drop_eq_Nil list.discI not_le, metis nth_via_drop, metis drop_Suc drop_tl list.sel(3))
  show ?case
  proof (cases "last_access s < oldest")
    case True
    with Cons.prems i have "\<forall>j<Suc i. j < length all \<longrightarrow> last_access s \<le> last_access (all ! j)"
      by (auto simp: less_Suc_eq intro: order.trans[OF less_imp_le])
    with True Cons.IH[of i "Suc i" "last_access s"] i show ?thesis by simp
  next
    case False
    with Cons.prems i have "\<forall>j<Suc i. j < length all \<longrightarrow> oldest \<le> last_access (all ! j)"
      by (auto simp: less_Suc_eq not_less)
    with False Cons.IH[of lru "Suc i" oldest] Cons.prems i show ?thesis by simp
  qed
qed

lemma slots_of_wf [simp]: "nt_wf st \<Longrightarrow> slots_of st = nt_slot st"
  by (simp add: slots_of_def nt_wf_def)

lemma view_iff:
  assumes "nt_wf st"
  shows "nt_view now st k = Some v \<longleftrightarrow>
    (\<exists>i<MVSMF_KVS_SLOTS. live now (nt_slot st ! i) \<and> nt_name (nt_slot st ! i) = k \<and> v = slot_bytes (nt_slot st ! i))"
    (is "_ \<longleftrightarrow> ?rhs")
proof
  assume "nt_view now st k = Some v"
  then obtain i where "first_slot (\<lambda>s. live now s \<and> nt_name s = k) 0 (nt_slot st) = Some i" "v = slot_bytes (nt_slot st ! i)"
    by (auto simp: nt_view_def)
  with first_slot_Some[OF this(1)] assms show ?rhs by (auto simp: nt_wf_def)
next
  assume ?rhs
  then obtain i where i: "i < MVSMF_KVS_SLOTS" "live now (nt_slot st ! i)" "nt_name (nt_slot st ! i) = k" "v = slot_bytes (nt_slot st ! i)" by blast
  have "first_slot (\<lambda>s. live now s \<and> nt_name s = k) 0 (nt_slot st) = Some i"
    using i assms by (intro first_slot_unique) (auto simp: nt_wf_def live_def)
  with i show "nt_view now st k = Some v" by (simp add: nt_view_def)
qed

lemma access_iff:
  assumes "nt_wf st"
  shows "nt_access now st k = Some a \<longleftrightarrow>
    (\<exists>i<MVSMF_KVS_SLOTS. live now (nt_slot st ! i) \<and> nt_name (nt_slot st ! i) = k \<and> a = last_access (nt_slot st ! i))"
    (is "_ \<longleftrightarrow> ?rhs")
proof
  assume "nt_access now st k = Some a"
  then obtain i where "first_slot (\<lambda>s. live now s \<and> nt_name s = k) 0 (nt_slot st) = Some i" "a = last_access (nt_slot st ! i)"
    by (auto simp: nt_access_def)
  with first_slot_Some[OF this(1)] assms show ?rhs by (auto simp: nt_wf_def)
next
  assume ?rhs
  then obtain i where i: "i < MVSMF_KVS_SLOTS" "live now (nt_slot st ! i)" "nt_name (nt_slot st ! i) = k" "a = last_access (nt_slot st ! i)" by blast
  have "first_slot (\<lambda>s. live now s \<and> nt_name s = k) 0 (nt_slot st) = Some i"
    using i assms by (intro first_slot_unique) (auto simp: nt_wf_def live_def)
  with i show "nt_access now st k = Some a" by (simp add: nt_access_def)
qed

text \<open>Writing one slot, when no other slot has the new name.\<close>

lemma view_update:
  assumes wf: "nt_wf st" and i: "i < MVSMF_KVS_SLOTS" and s: "slot_wf s"
    and others: "\<And>j. j < MVSMF_KVS_SLOTS \<Longrightarrow> j \<noteq> i \<Longrightarrow> \<not> name_free (nt_name s) \<Longrightarrow> nt_name (nt_slot st ! j) \<noteq> nt_name s"
  defines "st' \<equiv> st\<lparr>nt_slot := (nt_slot st)[i := s]\<rparr>"
  shows "nt_wf st'"
    and "nt_view now st' =
      (let m = (if live now (nt_slot st ! i) then (nt_view now st)(nt_name (nt_slot st ! i) := None) else nt_view now st)
       in if live now s then m(nt_name s \<mapsto> slot_bytes s) else m)"
proof -
  have len: "length (nt_slot st) = MVSMF_KVS_SLOTS" using wf by (simp add: nt_wf_def)
  have dist: "j = k" if "j < MVSMF_KVS_SLOTS" "k < MVSMF_KVS_SLOTS" "\<not> name_free (nt_name (nt_slot st ! j))"
    "nt_name (nt_slot st ! j) = nt_name (nt_slot st ! k)" for j k
    using wf that unfolding nt_wf_def by metis
  show wf': "nt_wf st'"
    unfolding nt_wf_def st'_def using wf len i s others others[symmetric]
    by (auto simp: nt_wf_def nth_list_update)
  show "nt_view now st' =
      (let m = (if live now (nt_slot st ! i) then (nt_view now st)(nt_name (nt_slot st ! i) := None) else nt_view now st)
       in if live now s then m(nt_name s \<mapsto> slot_bytes s) else m)" (is "_ = ?m")
  proof
    fix k
    have "nt_view now st' k = Some v \<longleftrightarrow> ?m k = Some v" for v
    proof -
      have "nt_view now st' k = Some v \<longleftrightarrow>
          (live now s \<and> nt_name s = k \<and> v = slot_bytes s) \<or>
          (\<exists>j<MVSMF_KVS_SLOTS. j \<noteq> i \<and> live now (nt_slot st ! j) \<and> nt_name (nt_slot st ! j) = k \<and> v = slot_bytes (nt_slot st ! j))"
        unfolding view_iff[OF wf'] using i len by (auto simp: st'_def nth_list_update)
      also have "(\<exists>j<MVSMF_KVS_SLOTS. j \<noteq> i \<and> live now (nt_slot st ! j) \<and> nt_name (nt_slot st ! j) = k \<and> v = slot_bytes (nt_slot st ! j))
          \<longleftrightarrow> nt_view now st k = Some v \<and> \<not> (live now (nt_slot st ! i) \<and> nt_name (nt_slot st ! i) = k)"
        unfolding view_iff[OF wf] using i dist by (metis live_def)
      finally have a: "nt_view now st' k = Some v \<longleftrightarrow>
          (live now s \<and> nt_name s = k \<and> v = slot_bytes s) \<or>
          (nt_view now st k = Some v \<and> \<not> (live now (nt_slot st ! i) \<and> nt_name (nt_slot st ! i) = k))" .
      have b: "nt_view now st k = Some v \<Longrightarrow> live now s \<Longrightarrow> nt_name s = k \<Longrightarrow> live now (nt_slot st ! i) \<and> nt_name (nt_slot st ! i) = k"
        unfolding view_iff[OF wf] using others by (metis live_def)
      show ?thesis unfolding a using b by (auto simp: Let_def)
    qed
    then show "nt_view now st' k = ?m k" by (metis not_None_eq)
  qed
qed

lemma key_names:
  assumes "nt_wf st" "nt_key k" "j < MVSMF_KVS_SLOTS"
  shows "name_eq (nt_name (nt_slot st ! j)) k \<longleftrightarrow> nt_name (nt_slot st ! j) = k"
  using assms by (simp add: name_eq_def nt_key_def nt_wf_def slot_wf_def)

text \<open>The slot a value is written to.\<close>

lemma pick_slot_cases:
  assumes wf: "nt_wf st" and k: "nt_key k" and i: "i = pick_slot now k st"
  shows "i < MVSMF_KVS_SLOTS \<and> (\<forall>j<MVSMF_KVS_SLOTS. j \<noteq> i \<longrightarrow> nt_name (nt_slot st ! j) \<noteq> k) \<and>
    (nt_name (nt_slot st ! i) = k \<or> \<not> live now (nt_slot st ! i) \<or>
     (\<forall>j<MVSMF_KVS_SLOTS. live now (nt_slot st ! j) \<and> last_access (nt_slot st ! i) \<le> last_access (nt_slot st ! j)))"
proof -
  let ?same = "\<lambda>s. \<not> name_free (nt_name s) \<and> name_eq (nt_name s) k"
  let ?open = "\<lambda>s. name_free (nt_name s) \<or> slot_expired (last_access s) now"
  have len: "length (nt_slot st) = MVSMF_KVS_SLOTS" using wf by (simp add: nt_wf_def)
  have same: "?same (nt_slot st ! j) \<longleftrightarrow> nt_name (nt_slot st ! j) = k" if "j < MVSMF_KVS_SLOTS" for j
    using key_names[OF wf k that] k by (auto simp: nt_key_def)
  show ?thesis
  proof (cases "first_slot ?same 0 (nt_slot st)")
    case (Some n)
    then have "i = n" using wf by (simp add: i pick_slot_def)
    with first_slot_Some[OF Some] len same have n: "i < MVSMF_KVS_SLOTS" "nt_name (nt_slot st ! i) = k" by auto
    with wf k show ?thesis unfolding nt_wf_def nt_key_def by metis
  next
    case None
    then have none: "nt_name (nt_slot st ! j) \<noteq> k" if "j < MVSMF_KVS_SLOTS" for j
      using that same len by (auto simp: first_slot_None)
    show ?thesis
    proof (cases "first_slot ?open 0 (nt_slot st)")
      case (Some n)
      with None have "i = n" using wf by (simp add: i pick_slot_def)
      with first_slot_Some[OF Some] len none show ?thesis by (auto simp: live_def)
    next
      case full: None
      with None have n: "i = lru_loop 1 0 (last_access (nt_slot st ! 0)) (drop 1 (nt_slot st))"
        using wf by (simp add: i pick_slot_def)
      have "0 < length (nt_slot st)" using len by (simp add: MVSMF_KVS_SLOTS_def)
      then have "i < length (nt_slot st) \<and> (\<forall>j<length (nt_slot st). last_access (nt_slot st ! i) \<le> last_access (nt_slot st ! j))"
        unfolding n by (intro lru_loop_min) auto
      moreover have "live now (nt_slot st ! j)" if "j < MVSMF_KVS_SLOTS" for j
        using full that len by (simp add: first_slot_None live_def)
      ultimately show ?thesis using none len by auto
    qed
  qed
qed

lemma all_live_names:
  assumes wf: "nt_wf st"
  shows "card (dom (nt_view now st)) \<le> MVSMF_KVS_SLOTS \<and>
    ((\<forall>j<MVSMF_KVS_SLOTS. live now (nt_slot st ! j)) \<longleftrightarrow> card (dom (nt_view now st)) = MVSMF_KVS_SLOTS)"
proof -
  let ?n = "\<lambda>j. nt_name (nt_slot st ! j)" and ?l = "{j. j < MVSMF_KVS_SLOTS \<and> live now (nt_slot st ! j)}"
  have d: "dom (nt_view now st) = ?n ` ?l" by (auto simp: dom_def view_iff[OF wf])
  have "inj_on ?n ?l" using wf unfolding nt_wf_def inj_on_def live_def by blast
  then have c: "card (dom (nt_view now st)) = card ?l" by (simp add: d card_image)
  have sub: "?l \<subseteq> {..<MVSMF_KVS_SLOTS}" by auto
  then have "card ?l \<le> MVSMF_KVS_SLOTS" using card_mono[OF _ sub] by simp
  moreover have "card ?l = MVSMF_KVS_SLOTS \<longleftrightarrow> ?l = {..<MVSMF_KVS_SLOTS}"
    by (metis card_subset_eq finite_lessThan sub card_lessThan)
  ultimately show ?thesis unfolding c by auto
qed

lemma put_slot_facts:
  assumes "slot_wf s" "nt_key k" "len \<le> length val" "len \<le> MVSMF_KVS_VALMAX"
  shows "slot_wf (put_slot now k val len s)" "nt_name (put_slot now k val len s) = k"
    "slot_bytes (put_slot now k val len s) = take len val"
    "live t (put_slot now k val len s) \<longleftrightarrow> \<not> slot_expired now t"
  using assms by (auto simp: slot_wf_def put_slot_def nt_key_def slot_bytes_def live_def)

lemma not_expired_now: "\<not> slot_expired now now"
  by (simp add: slot_expired_def KVS_TTL_TICKS_def)

text \<open>What a write does to the readable keys, at any time.\<close>

lemma set_view:
  assumes wf: "nt_wf st" and k: "nt_key k" and len: "min len MVSMF_KVS_VALMAX \<le> length val"
    and i: "i = pick_slot now k st"
  shows "\<exists>st'. nt_set now (Some st) (Some k) val len = (0, Some st') \<and> nt_wf st' \<and>
    (\<forall>t. nt_view t st' =
      (let m = (if live t (nt_slot st ! i) then (nt_view t st)(nt_name (nt_slot st ! i) := None) else nt_view t st)
       in if \<not> slot_expired now t then m(k \<mapsto> take (min len MVSMF_KVS_VALMAX) val) else m))"
proof -
  let ?len = "min len MVSMF_KVS_VALMAX" and ?s = "put_slot now k val (min len MVSMF_KVS_VALMAX) (nt_slot st ! i)"
  note pick = pick_slot_cases[OF wf k i]
  have "slot_wf (nt_slot st ! i)" using wf pick by (simp add: nt_wf_def)
  note s = put_slot_facts[OF this k len min.cobounded2, where now = now]
  have others: "j < MVSMF_KVS_SLOTS \<Longrightarrow> j \<noteq> i \<Longrightarrow> \<not> name_free (nt_name ?s) \<Longrightarrow> nt_name (nt_slot st ! j) \<noteq> nt_name ?s" for j
    using pick s(2) by simp
  have i32: "i < MVSMF_KVS_SLOTS" using pick by blast
  note upd = view_update[OF wf i32 s(1) others]
  have m: "(if len > MVSMF_KVS_VALMAX then MVSMF_KVS_VALMAX else len) = ?len" by auto
  have "nt_set now (Some st) (Some k) val len = (0, Some (st\<lparr>nt_slot := (nt_slot st)[i := ?s]\<rparr>))"
    by (simp add: nt_set_def m Let_def i)
  with upd s(2-4) show ?thesis by (intro exI[of _ "st\<lparr>nt_slot := (nt_slot st)[i := ?s]\<rparr>"]) (simp add: Let_def)
qed

text \<open>
  C26: Setting a key is the update of a map of at most 32 readable keys: the key gets the value, cut at
  192 bytes, and every other readable key keeps its own, unless the map is full and the key is new;
  then exactly one key goes, one that no other was used before.
\<close>
theorem set_refines:
  assumes "nt_wf st" "nt_key k" "min len 192 \<le> length val"
  shows "\<exists>st'. nt_set now (Some st) (Some k) val len = (0, Some st') \<and> nt_wf st' \<and>
    (if k \<in> dom (nt_view now st) \<or> card (dom (nt_view now st)) < 32
     then nt_view now st' = (nt_view now st)(k \<mapsto> take (min len 192) val)
     else \<exists>old\<in>dom (nt_view now st).
       (\<forall>j\<in>dom (nt_view now st). the (nt_access now st old) \<le> the (nt_access now st j)) \<and>
       nt_view now st' = (nt_view now st)(old := None, k \<mapsto> take (min len 192) val))"
proof -
  have c: "MVSMF_KVS_VALMAX = 192" "MVSMF_KVS_SLOTS = 32" by (simp_all add: MVSMF_KVS_VALMAX_def MVSMF_KVS_SLOTS_def)
  define i where "i = pick_slot now k st"
  note wf = assms(1)
  note pick = pick_slot_cases[OF assms(1,2) i_def]
  have "min len MVSMF_KVS_VALMAX \<le> length val" using assms(3) by (simp add: c)
  from set_view[OF assms(1,2) this i_def] obtain st' where st': "nt_set now (Some st) (Some k) val len = (0, Some st')"
    "nt_wf st'" "nt_view now st' =
      (if live now (nt_slot st ! i) then (nt_view now st)(nt_name (nt_slot st ! i) := None) else nt_view now st)
         (k \<mapsto> take (min len 192) val)"
    by (auto simp: c not_expired_now Let_def)
  note cards = all_live_names[OF wf, of now]
  show ?thesis
  proof (cases "k \<in> dom (nt_view now st) \<or> card (dom (nt_view now st)) < 32")
    case True
    have "nt_name (nt_slot st ! i) = k \<or> \<not> live now (nt_slot st ! i)"
    proof (rule ccontr)
      assume n: "\<not> ?thesis"
      with pick have all: "\<forall>j<MVSMF_KVS_SLOTS. live now (nt_slot st ! j)" by blast
      from n pick have "k \<notin> dom (nt_view now st)" by (auto simp: dom_def view_iff[OF wf])
      with True cards all show False by (simp add: c)
    qed
    with True st' show ?thesis by (intro exI[of _ st']) auto
  next
    case False
    then have all: "\<forall>j<MVSMF_KVS_SLOTS. live now (nt_slot st ! j)" using cards by (auto simp: c)
    have nk: "nt_name (nt_slot st ! i) \<noteq> k" using False all pick by (auto simp: dom_def view_iff[OF wf])
    then have min: "\<forall>j<MVSMF_KVS_SLOTS. last_access (nt_slot st ! i) \<le> last_access (nt_slot st ! j)" using pick all by blast
    let ?old = "nt_name (nt_slot st ! i)"
    have acc: "\<exists>m<MVSMF_KVS_SLOTS. nt_name (nt_slot st ! m) = j \<and> nt_access now st j = Some (last_access (nt_slot st ! m))"
      if "j \<in> dom (nt_view now st)" for j
      using that by (auto simp: dom_def view_iff[OF wf] access_iff[OF wf])
    have old: "nt_access now st ?old = Some (last_access (nt_slot st ! i))" "?old \<in> dom (nt_view now st)"
      using pick all by (auto simp: access_iff[OF wf] dom_def view_iff[OF wf])
    have "\<forall>j\<in>dom (nt_view now st). the (nt_access now st ?old) \<le> the (nt_access now st j)"
      using acc old(1) min by fastforce
    moreover have "nt_view now st' = (nt_view now st)(?old := None, k \<mapsto> take (min len 192) val)"
      using st' pick all by simp
    ultimately show ?thesis using False st' old(2) by (intro exI[of _ st']) (simp, blast)
  qed
qed

definition sample_key :: cstr where "sample_key = ''DB1'' @ replicate 13 nul"

lemma sample_key: "nt_key sample_key"
  by (simp add: nt_key_def sample_key_def MVSMF_KVS_NAMELEN_def name_free_def)

lemma init_wf: "nt_wf (nt_store_init n)" "nt_view now (nt_store_init n) = Map.empty"
proof -
  have z: "slot_wf zero_slot" "name_free (nt_name zero_slot)"
    by (simp_all add: slot_wf_def zero_slot_def name_free_def list_all_iff)
  then show wf: "nt_wf (nt_store_init n)" by (simp add: nt_wf_def nt_store_init_def)
  show "nt_view now (nt_store_init n) = Map.empty"
  proof
    fix k
    have "nt_view now (nt_store_init n) k \<noteq> Some v" for v
      unfolding view_iff[OF wf] using z(2) by (auto simp: nt_store_init_def live_def)
    then show "nt_view now (nt_store_init n) k = Map.empty k" by (metis not_None_eq)
  qed
qed

theorem set_refines_witness:
  "\<exists>st'. nt_set 7 (Some (nt_store_init 7000)) (Some sample_key) (replicate 200 1) 200 = (0, Some st') \<and>
    nt_view 7 st' = [sample_key \<mapsto> replicate 192 1]"
  using set_refines[OF init_wf(1) sample_key, of 200 "replicate 200 1" 7 7000] by (auto simp: init_wf(2))

lemma get_view:
  assumes wf: "nt_wf st" and k: "nt_key k"
  shows "\<exists>st'. nt_get now (Some st) (Some k) m = (map_option (take m) (nt_view now st k), Some st') \<and> nt_wf st' \<and>
    nt_view now st' = nt_view now st \<and>
    (\<forall>t. nt_view now st k \<noteq> None \<and> \<not> slot_expired now t \<longrightarrow> nt_view t st' k = nt_view now st k) \<and>
    (nt_view now st k = None \<longrightarrow> st' = st)"
proof -
  let ?p = "\<lambda>s. \<not> name_free (nt_name s) \<and> \<not> slot_expired (last_access s) now \<and> name_eq (nt_name s) k"
  have len: "length (nt_slot st) = MVSMF_KVS_SLOTS" using wf by (simp add: nt_wf_def)
  have p: "?p (nt_slot st ! j) \<longleftrightarrow> live now (nt_slot st ! j) \<and> nt_name (nt_slot st ! j) = k" if "j < MVSMF_KVS_SLOTS" for j
    using key_names[OF wf k that] by (auto simp: live_def)
  show ?thesis
  proof (cases "first_slot ?p 0 (nt_slot st)")
    case None
    then have "\<not> (live now (nt_slot st ! j) \<and> nt_name (nt_slot st ! j) = k)" if "j < MVSMF_KVS_SLOTS" for j
      using that p len by (auto simp: first_slot_None)
    then have "nt_view now st k = None" using view_iff[OF wf, of now k] by (metis not_None_eq)
    with None wf show ?thesis by (simp add: nt_get_def)
  next
    case (Some i)
    from first_slot_Some[OF Some] have i: "i < MVSMF_KVS_SLOTS" "?p (nt_slot st ! i)" by (simp_all add: len)
    with p[of i] have l: "live now (nt_slot st ! i)" "nt_name (nt_slot st ! i) = k" by blast+
    let ?s = "(nt_slot st ! i)\<lparr>last_access := now\<rparr>"
    have v: "nt_view now st k = Some (slot_bytes (nt_slot st ! i))" using l i(1) by (auto simp: view_iff[OF wf])
    have s: "slot_wf ?s" "nt_name ?s = k" "slot_bytes ?s = slot_bytes (nt_slot st ! i)"
      "live t ?s \<longleftrightarrow> \<not> slot_expired now t" for t
      using wf i(1) l k by (auto simp: nt_wf_def slot_wf_def slot_bytes_def live_def nt_key_def)
    have others: "j < MVSMF_KVS_SLOTS \<Longrightarrow> j \<noteq> i \<Longrightarrow> \<not> name_free (nt_name ?s) \<Longrightarrow> nt_name (nt_slot st ! j) \<noteq> nt_name ?s" for j
      using wf i(1) l unfolding nt_wf_def live_def by (metis s(2))
    note upd = view_update[OF wf i(1) s(1) others]
    have "min (val_len (nt_slot st ! i)) m = (if val_len (nt_slot st ! i) > m then m else val_len (nt_slot st ! i))" by auto
    then have g: "nt_get now (Some st) (Some k) m = (Some (take m (slot_bytes (nt_slot st ! i))),
        Some (st\<lparr>nt_slot := (nt_slot st)[i := ?s]\<rparr>))"
      using Some wf by (simp add: nt_get_def Let_def slot_bytes_def min.commute)
    show ?thesis
      using g upd s l v not_expired_now by (intro exI[of _ "st\<lparr>nt_slot := (nt_slot st)[i := ?s]\<rparr>"]) auto
  qed
qed

lemma del_view:
  assumes wf: "nt_wf st" and k: "nt_key k"
  shows "\<exists>r st'. nt_del (Some st) (Some k) = (r, Some st') \<and> nt_wf st' \<and> (\<forall>t. nt_view t st' = (nt_view t st)(k := None)) \<and>
    (r = 4 \<longrightarrow> st' = st)"
proof -
  let ?p = "\<lambda>s. \<not> name_free (nt_name s) \<and> name_eq (nt_name s) k"
  have len: "length (nt_slot st) = MVSMF_KVS_SLOTS" using wf by (simp add: nt_wf_def)
  have p: "?p (nt_slot st ! j) \<longleftrightarrow> nt_name (nt_slot st ! j) = k" if "j < MVSMF_KVS_SLOTS" for j
    using key_names[OF wf k that] k by (auto simp: nt_key_def)
  have z: "slot_wf zero_slot" "name_free (nt_name zero_slot)" "\<not> live t zero_slot" for t
    by (simp_all add: slot_wf_def zero_slot_def name_free_def live_def list_all_iff)
  show ?thesis
  proof (cases "first_slot ?p 0 (nt_slot st)")
    case None
    then have "nt_name (nt_slot st ! j) \<noteq> k" if "j < MVSMF_KVS_SLOTS" for j
      using that p len by (auto simp: first_slot_None)
    then have "nt_view t st k = None" for t using view_iff[OF wf, of t k] by (metis not_None_eq)
    then have "nt_view t st = (nt_view t st)(k := None)" for t by (intro ext) simp
    with None wf show ?thesis by (intro exI[of _ 4] exI[of _ st]) (simp add: nt_del_def)
  next
    case (Some i)
    from first_slot_Some[OF Some] have i: "i < MVSMF_KVS_SLOTS" "?p (nt_slot st ! i)" by (simp_all add: len)
    with p[of i] have n: "nt_name (nt_slot st ! i) = k" by blast
    note upd = view_update[OF wf i(1) z(1)]
    have "\<not> live t (nt_slot st ! i) \<Longrightarrow> nt_view t st k = None" for t
    proof -
      assume "\<not> live t (nt_slot st ! i)"
      moreover have "j = i" if "j < MVSMF_KVS_SLOTS" "nt_name (nt_slot st ! j) = k" for j
        using wf i n that k unfolding nt_wf_def nt_key_def by metis
      ultimately show "nt_view t st k = None" using view_iff[OF wf, of t k] by (metis not_None_eq)
    qed
    then have keep: "\<not> live t (nt_slot st ! i) \<Longrightarrow> nt_view t st = (nt_view t st)(k := None)" for t
      by (intro ext) simp
    have "nt_view t (st\<lparr>nt_slot := (nt_slot st)[i := zero_slot]\<rparr>) =
        (if live t (nt_slot st ! i) then (nt_view t st)(k := None) else nt_view t st)" for t
      using upd(2)[of t] z n by (simp add: Let_def)
    with keep have "nt_view t (st\<lparr>nt_slot := (nt_slot st)[i := zero_slot]\<rparr>) = (nt_view t st)(k := None)" for t
      by metis
    moreover have "nt_del (Some st) (Some k) = (0, Some (st\<lparr>nt_slot := (nt_slot st)[i := zero_slot]\<rparr>))"
      using Some wf by (simp add: nt_del_def)
    ultimately show ?thesis using upd(1) z
      by (intro exI[of _ 0] exI[of _ "st\<lparr>nt_slot := (nt_slot st)[i := zero_slot]\<rparr>"]) simp
  qed
qed

section \<open>The interface on the store\<close>

definition kv_put :: "u64 \<Rightarrow> cstr \<Rightarrow> byte list \<Rightarrow> NT_STORE \<Rightarrow> NT_STORE" where
  "kv_put now k v st = (case nt_set now (Some st) (Some k) v (length v) of (_, Some st') \<Rightarrow> st' | _ \<Rightarrow> st)"

definition kv_get :: "u64 \<Rightarrow> cstr \<Rightarrow> NT_STORE \<Rightarrow> byte list option \<times> NT_STORE" where
  "kv_get now k st =
     (case nt_get now (Some st) (Some k) MVSMF_KVS_VALMAX of (r, Some st') \<Rightarrow> (r, st') | (r, None) \<Rightarrow> (r, st))"

lemma kv_put_facts:
  assumes "nt_wf st" "nt_key k" "length v \<le> MVSMF_KVS_VALMAX"
  shows "nt_wf (kv_put now k v st)"
    and "\<not> slot_expired now t \<Longrightarrow> nt_view t (kv_put now k v st) k = Some v"
    and "j \<noteq> k \<Longrightarrow> nt_view t (kv_put now k v st) j = Some w \<Longrightarrow> nt_view t st j = Some w"
proof -
  define i where "i = pick_slot now k st"
  have l: "min (length v) MVSMF_KVS_VALMAX \<le> length v" by simp
  from set_view[OF assms(1,2) l i_def] obtain st' where st':
    "nt_set now (Some st) (Some k) v (length v) = (0, Some st')" "nt_wf st'"
    "\<And>t. nt_view t st' = (let m = (if live t (nt_slot st ! i) then (nt_view t st)(nt_name (nt_slot st ! i) := None) else nt_view t st)
       in if \<not> slot_expired now t then m(k \<mapsto> take (min (length v) MVSMF_KVS_VALMAX) v) else m)" by blast
  then have p: "kv_put now k v st = st'" by (simp add: kv_put_def)
  show "nt_wf (kv_put now k v st)" by (simp add: p st')
  show "\<not> slot_expired now t \<Longrightarrow> nt_view t (kv_put now k v st) k = Some v"
    using assms(3) by (simp add: p st' Let_def)
  show "j \<noteq> k \<Longrightarrow> nt_view t (kv_put now k v st) j = Some w \<Longrightarrow> nt_view t st j = Some w"
    by (simp add: p st' Let_def split: if_splits)
qed

lemma kv_get_facts:
  assumes "nt_wf st"
  shows "nt_wf (snd (kv_get now k st))"
    and "nt_key k \<Longrightarrow> fst (kv_get now k st) = nt_view now st k"
    and "nt_key k \<Longrightarrow> nt_view now st k = Some v \<Longrightarrow> \<not> slot_expired now t \<Longrightarrow> nt_view t (snd (kv_get now k st)) k = Some v"
proof -
  have short: "map_option (take MVSMF_KVS_VALMAX) (nt_view now st k) = nt_view now st k"
  proof (cases "nt_view now st k")
    case (Some w)
    then obtain i where "i < MVSMF_KVS_SLOTS" "w = slot_bytes (nt_slot st ! i)" using view_iff[OF assms] by blast
    with assms Some show ?thesis by (simp add: slot_bytes_def nt_wf_def slot_wf_def)
  qed simp
  {
    assume k: "nt_key k"
    from get_view[OF assms k, where now = now and m = MVSMF_KVS_VALMAX] short
    obtain st' where st': "nt_get now (Some st) (Some k) MVSMF_KVS_VALMAX = (nt_view now st k, Some st')" "nt_wf st'"
      "\<And>t. nt_view now st k \<noteq> None \<Longrightarrow> \<not> slot_expired now t \<Longrightarrow> nt_view t st' k = nt_view now st k" by auto
    then show "fst (kv_get now k st) = nt_view now st k" by (simp add: kv_get_def)
    from st' show "nt_view now st k = Some v \<Longrightarrow> \<not> slot_expired now t \<Longrightarrow> nt_view t (snd (kv_get now k st)) k = Some v"
      by (simp add: kv_get_def)
  }
  show "nt_wf (snd (kv_get now k st))"
  proof -
    have upd: "nt_wf (st\<lparr>nt_slot := (nt_slot st)[i := (nt_slot st ! i)\<lparr>last_access := now\<rparr>]\<rparr>)" for i
      using assms by (cases "i < MVSMF_KVS_SLOTS") (auto simp: nt_wf_def nth_list_update slot_wf_def)
    then show ?thesis using assms by (auto simp: kv_get_def nt_get_def Let_def split: option.splits)
  qed
qed

interpretation kvs: kv_store nt_wf nt_key "\<lambda>v. length v \<le> MVSMF_KVS_VALMAX" "\<lambda>t t'. \<not> slot_expired t t'" nt_view kv_put kv_get
  by unfold_locales (fact kv_put_facts kv_get_facts)+

text \<open>
  A value under a key that is read and written again before each five minutes are over, with
  nothing else going on, is never lost and holds the whole history of its changes, however long it
  is kept and whatever else the store holds.
\<close>
theorem cursor_survives:
  assumes "nt_wf st" "nt_key k" "\<And>n. length ((f ^^ n) v) \<le> 192" and "kvs.unbroken t ts t'"
  shows "nt_view t' (kvs.steps_key f k ts (kv_put t k v st)) k = Some ((f ^^ length ts) v)"
proof -
  have f: "length ((f ^^ n) v) \<le> MVSMF_KVS_VALMAX" for n using assms(3) by (simp add: MVSMF_KVS_VALMAX_def)
  have "nt_wf (kv_put t k v st)" using kv_put_facts(1)[OF assms(1,2)] f[of 0] by simp
  from kvs.steps_key_view[OF this assms(2) f _ assms(4)] show ?thesis
    using kv_put_facts(2)[OF assms(1,2)] f[of 0] by simp
qed

theorem cursor_survives_witness:
  "nt_view (push_bit 32 600) (kvs.steps_key (map (\<lambda>b. b + 1)) sample_key
     [(push_bit 32 200, push_bit 32 201), (push_bit 32 400, push_bit 32 401)]
     (kv_put 0 sample_key [0] (nt_store_init 7000))) sample_key = Some [2]"
proof -
  have f: "(map (\<lambda>b. b + 1) ^^ n) [0 :: byte] = [of_nat n]" for n by (induction n) simp_all
  have u: "kvs.unbroken 0 [(push_bit 32 200, push_bit 32 201), (push_bit 32 400, push_bit 32 401)] (push_bit 32 600)"
    by (simp add: kvs.unbroken.simps) (simp add: slot_expired_def KVS_TTL_TICKS_def)
  from cursor_survives[OF init_wf(1) sample_key _ u, of "map (\<lambda>b. b + 1)" "[0]" 7000] show ?thesis
    by (simp add: f)
qed

text \<open>
  The clock is read before the latch is taken.  An operation whose time is one tick behind that of
  the last use of a slot takes the slot for expired: 0xFFFFFFFF ticks old.
\<close>

lemma stale_clock_expires: "slot_expired 0x500000000 0x4FFFFFFFF"
  by (simp add: slot_expired_def KVS_TTL_TICKS_def)

lemma stale_read_misses:
  assumes "nt_wf st" "nt_key k" "length v \<le> MVSMF_KVS_VALMAX"
  shows "fst (kv_get 0x4FFFFFFFF k (kv_put 0x500000000 k v st)) = None"
proof -
  note wf = kv_put_facts(1)[OF assms]
  have "nt_view 0x4FFFFFFFF (kv_put 0x500000000 k v st) k = None"
  proof -
    define i where "i = pick_slot 0x500000000 k st"
    have l: "min (length v) MVSMF_KVS_VALMAX \<le> length v" by simp
    note pick = pick_slot_cases[OF assms(1,2) i_def]
    from set_view[OF assms(1,2) l i_def] have p: "nt_view 0x4FFFFFFFF (kv_put 0x500000000 k v st) =
      (if live 0x4FFFFFFFF (nt_slot st ! i) then (nt_view 0x4FFFFFFFF st)(nt_name (nt_slot st ! i) := None) else nt_view 0x4FFFFFFFF st)"
      by (auto simp: kv_put_def stale_clock_expires Let_def)
    have "nt_view 0x4FFFFFFFF st k = Some w \<Longrightarrow> live 0x4FFFFFFFF (nt_slot st ! i) \<and> nt_name (nt_slot st ! i) = k" for w
      using pick view_iff[OF assms(1)] by metis
    then show ?thesis by (cases "nt_view 0x4FFFFFFFF st k") (auto simp: p)
  qed
  with kv_get_facts(2)[OF wf assms(2)] show ?thesis by simp
qed

end
