(* ===== verification/MttSnap.thy ===== *)
theory MttSnap
  imports Prelude
begin

text \<open>
  Snapshots of the Master Trace Table and the detection of new messages in it, \<^verbatim>\<open>src/mttsnap.c\<close>.

  An entry is its signed length field and the storage at its data; a place in the array may be
  empty.  What \<^verbatim>\<open>cmtt_new\<close> and \<^verbatim>\<open>cmtt_get_array\<close> answer for one snapshot is the parameter \<open>snap\<close>.
  The text of an entry is what its clamped length covers, so every function that the code gives
  \<^verbatim>\<open>dat\<close> and \<^verbatim>\<open>len\<close> takes that text here.
\<close>

definition MTT_SRC_OFF :: nat where "MTT_SRC_OFF = 14"
definition MTT_SRC_LEN :: nat where "MTT_SRC_LEN = 8"
definition MTT_MSG_OFF :: nat where "MTT_MSG_OFF = 24"
definition MTT_ENTRY_MAX :: int where "MTT_ENTRY_MAX = 256"

record MTENTRY =
  mtentlen :: int
  mtentdat :: cstr

datatype snap = NoCopy | NoArray | Table "MTENTRY option list"

definition mtt_len :: "MTENTRY option \<Rightarrow> int" where
  "mtt_len e =
     (case e of None \<Rightarrow> 0
      | Some e \<Rightarrow> if mtentlen e < 0 then 0 else if mtentlen e > MTT_ENTRY_MAX then MTT_ENTRY_MAX else mtentlen e)"

definition rstrip_len :: "cstr \<Rightarrow> nat" where
  "rstrip_len s = length (rstrip s)"

definition mtt_text :: "MTENTRY \<Rightarrow> cstr" where
  "mtt_text e = take (nat (mtt_len (Some e))) (mtentdat e)"

text \<open>\<open>None\<close> is \<^verbatim>\<open>MTT_SNAP_FAILED\<close>.\<close>

definition mtt_snap_open :: "snap \<Rightarrow> MTENTRY option list option" where
  "mtt_snap_open sn = (case sn of NoCopy \<Rightarrow> None | NoArray \<Rightarrow> None | Table arr \<Rightarrow> Some arr)"

definition two_digits :: "char \<Rightarrow> char \<Rightarrow> int" where
  "two_digits a b = int (digit_val a) * 10 + int (digit_val b)"

definition mtt_secs_of_day :: "cstr \<Rightarrow> int" where
  "mtt_secs_of_day dat =
     (let p = lstrip (drop 4 dat); ds = takeWhile is_digit p; q = dropWhile is_digit p;
          h = foldl (\<lambda>h c. h * 10 + int (digit_val c)) 0 ds in
      if ds = [] \<or> length ds > 2 \<or> length q \<le> 5 then -1
      else if q ! 0 \<noteq> CHR ''.'' \<or> q ! 3 \<noteq> CHR ''.'' then -1
      else if \<not> is_digit (q ! 1) \<or> \<not> is_digit (q ! 2) then -1
      else if \<not> is_digit (q ! 4) \<or> \<not> is_digit (q ! 5) then -1
      else
        let m = two_digits (q ! 1) (q ! 2); s = two_digits (q ! 4) (q ! 5) in
        if h > 23 \<or> m > 59 \<or> s > 59 then -1 else h * 3600 + m * 60 + s)"

text \<open>The upper-cased copy is a C string in 200 bytes.\<close>

definition mtt_entry_has :: "cstr \<Rightarrow> MTENTRY \<Rightarrow> bool" where
  "mtt_entry_has keyword_upper e =
     (c_strstr keyword_upper (takeWhile (\<lambda>c. c \<noteq> nul) (map toupper (take 199 (mtt_text e)))) \<noteq> None)"

record MTT_ANCHOR =
  an_secs :: int
  an_same :: nat

definition entry_secs :: "MTENTRY \<Rightarrow> int" where
  "entry_secs e = mtt_secs_of_day (mtt_text e)"

fun anchor_loop :: "cstr \<Rightarrow> int \<Rightarrow> nat \<Rightarrow> MTENTRY option list \<Rightarrow> int \<times> nat" where
  "anchor_loop key cur same [] = (cur, same)"
| "anchor_loop key cur same (None # es) = anchor_loop key cur same es"
| "anchor_loop key cur same (Some e # es) =
     (let s = entry_secs e;
          (cur, same) = (if s \<ge> 0 \<and> s \<noteq> cur then (s, 0) else (cur, same));
          same = (if cur \<ge> 0 \<and> mtt_entry_has key e then same + 1 else same)
      in anchor_loop key cur same es)"

definition mtt_detect_anchor :: "snap \<Rightarrow> cstr \<Rightarrow> MTT_ANCHOR option" where
  "mtt_detect_anchor sn keyword_upper =
     (case mtt_snap_open sn of
        None \<Rightarrow> None
      | Some arr \<Rightarrow> (case anchor_loop keyword_upper (-1) 0 arr of (cur, same) \<Rightarrow> Some \<lparr>an_secs = cur, an_same = same\<rparr>))"

text \<open>The message text of an entry, for a buffer of \<open>lsz\<close> bytes.\<close>

definition message_text :: "nat \<Rightarrow> cstr \<Rightarrow> cstr" where
  "message_text lsz text =
     (let off = (if length text > MTT_MSG_OFF then MTT_MSG_OFF else 0);
          body = lstrip (drop off text)
      in take (min (rstrip_len body) (lsz - 1)) body)"

fun since_loop :: "cstr \<Rightarrow> MTT_ANCHOR \<Rightarrow> nat \<Rightarrow> int \<Rightarrow> nat \<Rightarrow> nat \<Rightarrow> cstr \<Rightarrow> MTENTRY option list \<Rightarrow> nat \<times> cstr" where
  "since_loop key anchor lsz cur same count latest [] = (count, latest)"
| "since_loop key anchor lsz cur same count latest (None # es) = since_loop key anchor lsz cur same count latest es"
| "since_loop key anchor lsz cur same count latest (Some e # es) =
     (let s = entry_secs e; cur = (if s \<ge> 0 then s else cur) in
      if cur < 0 then since_loop key anchor lsz cur same count latest es
      else if \<not> mtt_entry_has key e then since_loop key anchor lsz cur same count latest es
      else
        let delta = (cur - an_secs anchor + 86400) mod 86400;
            (same, fresh) = (if an_secs anchor < 0 then (same, True)
                             else if delta = 0 then (same + 1, same + 1 > an_same anchor)
                             else (same, delta < 43200))
        in if \<not> fresh then since_loop key anchor lsz cur same count latest es
           else since_loop key anchor lsz cur same (count + 1)
                  (if lsz = 0 then latest else message_text lsz (mtt_text e)) es)"

text \<open>The count with the newest text, or nothing when there is no snapshot.\<close>

definition mtt_detect_since :: "snap \<Rightarrow> cstr \<Rightarrow> MTT_ANCHOR \<Rightarrow> nat \<Rightarrow> (nat \<times> cstr) option" where
  "mtt_detect_since sn keyword_upper anchor lsz =
     (case mtt_snap_open sn of
        None \<Rightarrow> None
      | Some arr \<Rightarrow> Some (since_loop keyword_upper anchor lsz (-1) 0 0 [] arr))"

section \<open>Time of day\<close>

lemma foldl_digits: "0 \<le> a \<Longrightarrow> 0 \<le> foldl (\<lambda>h c. h * 10 + int (digit_val c)) a ds"
  by (induction ds arbitrary: a) simp_all

lemma secs_of_day_bounds: "-1 \<le> mtt_secs_of_day dat" "mtt_secs_of_day dat < 86400"
  using foldl_digits[of 0 "takeWhile is_digit (lstrip (drop 4 dat))"]
  by (auto simp: mtt_secs_of_day_def Let_def two_digits_def not_less not_le)

section \<open>Detection\<close>

text \<open>How an entry stands to the second of an anchor: before it, in it, or behind it.\<close>

definition age :: "int \<Rightarrow> MTENTRY \<Rightarrow> int" where
  "age a e = (entry_secs e - a) mod 86400"

definition hits :: "cstr \<Rightarrow> MTENTRY option list \<Rightarrow> MTENTRY list" where
  "hits key es = filter (mtt_entry_has key) (List.map_filter id es)"

definition stamped :: "(MTENTRY \<Rightarrow> bool) \<Rightarrow> MTENTRY option list \<Rightarrow> bool" where
  "stamped p es \<longleftrightarrow> (\<forall>e. Some e \<in> set es \<longrightarrow> entry_secs e \<ge> 0 \<longrightarrow> p e)"

lemma hits_simps [simp]:
  "hits key [] = []" "hits key (None # es) = hits key es"
  "hits key (Some e # es) = (if mtt_entry_has key e then e # hits key es else hits key es)"
  "hits key (xs @ ys) = hits key xs @ hits key ys"
  by (simp_all add: hits_def List.map_filter_def)

lemma stamped_simps [simp]:
  "stamped p []" "stamped p (None # es) \<longleftrightarrow> stamped p es"
  "stamped p (Some e # es) \<longleftrightarrow> (entry_secs e \<ge> 0 \<longrightarrow> p e) \<and> stamped p es"
  by (auto simp: stamped_def)

lemma stamped_drop: "stamped p es \<Longrightarrow> stamped p (drop k es)"
  by (auto simp: stamped_def dest: in_set_dropD)

fun time_at :: "int \<Rightarrow> MTENTRY option list \<Rightarrow> int" where
  "time_at cur [] = cur"
| "time_at cur (None # es) = time_at cur es"
| "time_at cur (Some e # es) = time_at (if entry_secs e \<ge> 0 then entry_secs e else cur) es"

lemma entry_secs_bounds: "-1 \<le> entry_secs e" "entry_secs e < 86400"
  by (simp_all add: entry_secs_def secs_of_day_bounds)

lemma delta_age: "(s - a + 86400) mod 86400 = (s - a) mod (86400 :: int)"
  by simp

lemma anchor_loop_append:
  "anchor_loop key cur same (xs @ ys) = (case anchor_loop key cur same xs of (c, m) \<Rightarrow> anchor_loop key c m ys)"
proof (induction xs arbitrary: cur same)
  case (Cons a xs)
  then show ?case by (cases a) (simp_all add: Let_def)
qed simp

lemma anchor_loop_time: "fst (anchor_loop key cur same es) = time_at cur es"
proof (induction key cur same es rule: anchor_loop.induct)
  case (3 key cur same e es)
  then show ?case by (cases "entry_secs e \<ge> 0 \<and> entry_secs e \<noteq> cur") (auto simp: Let_def)
qed simp_all

text \<open>Within one second the anchor counts the matches.\<close>

lemma anchor_loop_run:
  "0 \<le> cur \<Longrightarrow> stamped (\<lambda>e. entry_secs e = cur) es \<Longrightarrow> anchor_loop key cur same es = (cur, same + length (hits key es))"
proof (induction key cur same es rule: anchor_loop.induct)
  case (3 key cur same e es)
  then show ?case by (cases "entry_secs e \<ge> 0") (auto simp: Let_def)
qed simp_all

text \<open>Entries before the anchor's second are never new.\<close>

lemma since_old:
  "0 \<le> an_secs anchor \<Longrightarrow> stamped (\<lambda>e. 43200 \<le> age (an_secs anchor) e) es \<Longrightarrow>
   cur < 0 \<or> 43200 \<le> (cur - an_secs anchor) mod 86400 \<Longrightarrow>
   since_loop key anchor lsz cur same count latest (es @ ys) =
     since_loop key anchor lsz (time_at cur es) same count latest ys \<and>
   (time_at cur es < 0 \<or> 43200 \<le> (time_at cur es - an_secs anchor) mod 86400)"
proof (induction cur es rule: time_at.induct)
  case (3 cur e es)
  define c where "c = (if entry_secs e \<ge> 0 then entry_secs e else cur)"
  have c: "c < 0 \<or> 43200 \<le> (c - an_secs anchor) mod 86400" using 3 by (auto simp: c_def age_def)
  have st: "stamped (\<lambda>e. 43200 \<le> age (an_secs anchor) e) es" using 3 by simp
  have step: "since_loop key anchor lsz cur same count latest (Some e # es @ ys) =
      since_loop key anchor lsz c same count latest (es @ ys)"
    using c 3(2) by (auto simp: Let_def c_def[symmetric])
  show ?case using 3(1)[OF 3(2) st, folded c_def] c step by (simp add: c_def[symmetric])
qed simp_all

text \<open>In the anchor's second only the matches beyond those of the anchor are new.\<close>

lemma since_run:
  "0 \<le> an_secs anchor \<Longrightarrow> stamped (\<lambda>e. entry_secs e = an_secs anchor) es \<Longrightarrow>
   cur = an_secs anchor \<or> (\<exists>e es'. es = Some e # es' \<and> entry_secs e = an_secs anchor) \<Longrightarrow>
   same + length (hits key es) \<le> an_same anchor \<Longrightarrow>
   since_loop key anchor lsz cur same count latest (es @ ys) =
     since_loop key anchor lsz (if es = [] then cur else an_secs anchor) (same + length (hits key es)) count latest ys"
proof (induction es arbitrary: cur same)
  case (Cons a es)
  show ?case
  proof (cases a)
    case None
    with Cons show ?thesis by auto
  next
    case (Some e)
    have c: "(if entry_secs e \<ge> 0 then entry_secs e else cur) = an_secs anchor" using Cons.prems Some by auto
    have st: "stamped (\<lambda>e. entry_secs e = an_secs anchor) es" using Cons.prems Some by simp
    define same' where "same' = (if mtt_entry_has key e then same + 1 else same)"
    have le: "same' + length (hits key es) \<le> an_same anchor" using Cons.prems Some by (auto simp: same'_def)
    then have "\<not> (mtt_entry_has key e \<and> same + 1 > an_same anchor)" by (auto simp: same'_def)
    then have step: "since_loop key anchor lsz cur same count latest (Some e # es @ ys) =
        since_loop key anchor lsz (an_secs anchor) same' count latest (es @ ys)"
      using Cons.prems(1) by (simp add: Let_def c same'_def)
    have n: "same + length (hits key (a # es)) = same' + length (hits key es)" by (simp add: Some same'_def)
    show ?thesis unfolding n using step Cons.IH[OF Cons.prems(1) st _ le] by (simp add: Some del: since_loop.simps)
  qed
qed simp

text \<open>Behind it every match is new.\<close>

definition latest_of :: "nat \<Rightarrow> cstr \<Rightarrow> MTENTRY list \<Rightarrow> cstr" where
  "latest_of lsz latest hs = (if hs = [] \<or> lsz = 0 then latest else message_text lsz (mtt_text (last hs)))"

lemma since_new:
  "0 \<le> an_secs anchor \<Longrightarrow> stamped (\<lambda>e. age (an_secs anchor) e < 43200) es \<Longrightarrow>
   0 \<le> cur \<Longrightarrow> (cur - an_secs anchor) mod 86400 < 43200 \<Longrightarrow> an_same anchor \<le> same \<Longrightarrow>
   since_loop key anchor lsz cur same count latest es =
     (count + length (hits key es), latest_of lsz latest (hits key es))"
proof (induction es arbitrary: cur same count latest)
  case (Cons a es)
  show ?case
  proof (cases a)
    case None
    with Cons show ?thesis by simp
  next
    case (Some e)
    define c where "c = (if entry_secs e \<ge> 0 then entry_secs e else cur)"
    have c: "0 \<le> c" "(c - an_secs anchor) mod 86400 < 43200" using Cons.prems Some by (auto simp: c_def age_def)
    have st: "stamped (\<lambda>e. age (an_secs anchor) e < 43200) es" using Cons.prems Some by simp
    note IH = Cons.IH[OF Cons.prems(1) st c]
    show ?thesis
    proof (cases "mtt_entry_has key e")
      case False
      then show ?thesis using IH[of same] Cons.prems c by (simp add: Some c_def[symmetric] Let_def)
    next
      case True
      define same' where "same' = (if (c - an_secs anchor) mod 86400 = 0 then same + 1 else same)"
      have same': "an_same anchor \<le> same'" using Cons.prems by (simp add: same'_def)
      have step: "since_loop key anchor lsz cur same count latest (Some e # es) =
          since_loop key anchor lsz c same' (count + 1) (if lsz = 0 then latest else message_text lsz (mtt_text e)) es"
        using True Cons.prems c by (simp add: c_def[symmetric] Let_def same'_def)
      show ?thesis using True by (simp only: Some step IH[OF same']) (simp add: latest_of_def)
    qed
  qed
qed (simp add: latest_of_def)

lemma time_at_old:
  "stamped (\<lambda>e. 43200 \<le> age t e) es \<Longrightarrow> cur < 0 \<or> 43200 \<le> (cur - t) mod 86400 \<Longrightarrow>
   time_at cur es < 0 \<or> 43200 \<le> (time_at cur es - t) mod 86400"
  by (induction cur es rule: time_at.induct) (auto simp: age_def)

lemma anchor_of_table:
  assumes "stamped (\<lambda>e. 43200 \<le> age t e) old" "entry_secs e = t" "0 \<le> t" "stamped (\<lambda>e. entry_secs e = t) run"
  shows "mtt_detect_anchor (Table (old @ Some e # run)) key = Some \<lparr>an_secs = t, an_same = length (hits key (Some e # run))\<rparr>"
proof -
  obtain c m where l: "anchor_loop key (-1) 0 old = (c, m)" by force
  with anchor_loop_time[of key "-1" 0 old] have "c = time_at (-1) old" by simp
  with time_at_old[OF assms(1), of "-1"] have "t \<noteq> c" using assms(3) by auto
  with assms l show ?thesis
    by (simp add: mtt_detect_anchor_def mtt_snap_open_def anchor_loop_append Let_def anchor_loop_run)
qed


definition sample_entry :: "cstr \<Rightarrow> MTENTRY" where
  "sample_entry t = \<lparr>mtentlen = int (length t), mtentdat = t\<rparr>"

definition line_old :: MTENTRY where "line_old = sample_entry ''0000  9.24.37 STC  320  IEE136I LOCAL''"
definition line_now :: MTENTRY where "line_now = sample_entry ''0000  9.24.38 STC  320  IEE136I TIME''"
definition line_new :: MTENTRY where "line_new = sample_entry ''0000  9.24.38 STC  320  IEE136I AGAIN''"

lemma sample_lines:
  "entry_secs line_old = 33877" "entry_secs line_now = 33878" "entry_secs line_new = 33878"
  "message_text 200 (mtt_text line_new) = ''IEE136I AGAIN''"
  by code_simp+

lemma sample_hit: "mtt_entry_has ''IEE136I'' line_new"
proof -
  have "takeWhile (\<lambda>c. c \<noteq> nul) (map toupper (take 199 (mtt_text line_new))) =
      ''0000  9.24.38 STC  320  '' @ ''IEE136I'' @ '' AGAIN''"
    by (simp add: mtt_text_def mtt_len_def line_new_def sample_entry_def MTT_ENTRY_MAX_def toupper_def less_eq_char_def)
  then show ?thesis unfolding mtt_entry_has_def by (simp only: c_strstr_None_iff sublist_appendI not_not)
qed


end
