(* ===== verification/Correlate.thy ===== *)
theory Correlate
  imports MttSnap KeyStore
begin

text \<open>
  Finding the response of a command in the Master Trace Table, the correlation half of
  \<^verbatim>\<open>src/consapi.c\<close>, and one collect poll, \<^verbatim>\<open>src/collpoll.c\<close>.

  The walk over a block keeps what the code keeps between lines: the source of the block, whether
  it was adopted, the number of a multi-line message and the count of lines.  The cursor is stored
  as the bytes of its structure.
\<close>

unbundle bit_operations_syntax

section \<open>Lines\<close>

definition is_echo_line :: "cstr \<Rightarrow> cstr \<Rightarrow> bool" where
  "is_echo_line text cmd_upper =
     (if length text \<le> MTT_MSG_OFF then False
      else let msg = rstrip (drop MTT_MSG_OFF text); cmd = rstrip cmd_upper in msg \<noteq> [] \<and> msg = cmd)"

definition is_command_shaped :: "cstr \<Rightarrow> bool" where
  "is_command_shaped msg \<longleftrightarrow> msg \<noteq> [] \<and> list_all (\<lambda>c. \<not> is_digit c) (takeWhile (\<lambda>c. c \<noteq> blank) msg)"

definition mlwto_num :: "cstr \<Rightarrow> nat \<Rightarrow> cstr option" where
  "mlwto_num line numsz =
     (let token = rev (takeWhile (\<lambda>c. c \<noteq> blank) (rev (rstrip line))) in
      if token = [] \<or> length token \<ge> numsz then None
      else if list_all is_digit token then Some token
      else None)"

text \<open>The source field, when the line is long enough to have one.\<close>

definition src_field :: "cstr \<Rightarrow> cstr option" where
  "src_field text =
     (if length text \<ge> MTT_SRC_OFF + MTT_SRC_LEN then Some (take MTT_SRC_LEN (drop MTT_SRC_OFF text)) else None)"

section \<open>The walk over a block\<close>

record walk =
  wk_src :: cstr
  wk_adopted :: bool
  wk_num :: "cstr option"
  wk_idx :: nat

datatype line_action = Skip | Stop | Line cstr

definition NUM_SIZE :: nat where "NUM_SIZE = 12"

definition is_cont :: "walk \<Rightarrow> cstr \<Rightarrow> bool" where
  "is_cont w text = (case wk_num w of None \<Rightarrow> False | Some num \<Rightarrow> c_prefix num (lstrip text))"

definition blank_src :: "cstr \<Rightarrow> bool" where
  "blank_src text = (case src_field text of None \<Rightarrow> False | Some f \<Rightarrow> list_all (\<lambda>c. c = blank) f)"

text \<open>The first source that is not the issuer's, within a second of the echo, becomes the source of the block.\<close>

definition adopts :: "int \<Rightarrow> walk \<Rightarrow> cstr \<Rightarrow> bool" where
  "adopts echo_secs w text =
     (if wk_idx w = 0 \<and> \<not> wk_adopted w \<and> echo_secs \<ge> 0 \<and> src_field text \<noteq> None then
        let s = mtt_secs_of_day text in
        if s \<ge> 0 then let d = s - echo_secs; d = (if d < 0 then d + 86400 else d) in d \<le> 1 else False
      else False)"

definition classify :: "cstr \<Rightarrow> int \<Rightarrow> walk \<Rightarrow> cstr \<Rightarrow> line_action \<times> walk" where
  "classify isrc echo_secs w text =
     (let has_src = (src_field text = Some (wk_src w));
          is_issuer = (src_field text = Some isrc);
          blank_s = blank_src text;
          cont = is_cont w text in
      if \<not> cont \<and> (is_issuer \<or> blank_s) \<and> length text > MTT_MSG_OFF \<and>
         is_command_shaped (rstrip (drop MTT_MSG_OFF text))
      then (if is_issuer then Stop else Skip, w)
      else
        let take_over = (\<not> has_src \<and> \<not> blank_s \<and> \<not> cont \<and> adopts echo_secs w text);
            w = (if take_over then w\<lparr>wk_src := the (src_field text), wk_adopted := True\<rparr> else w);
            has_src = (has_src \<or> take_over) in
        if \<not> has_src \<and> \<not> blank_s \<and> \<not> cont then (if wk_idx w > 0 then Stop else Skip, w)
        else if cont \<and> \<not> has_src \<and> \<not> blank_s then
          (Line (rstrip (lstrip (drop (length (the (wk_num w))) (lstrip text)))), w)
        else if length text \<le> MTT_MSG_OFF then (Skip, w)
        else
          let msg = rstrip (drop MTT_MSG_OFF text) in
          (Line msg, case mlwto_num msg NUM_SIZE of None \<Rightarrow> w | Some n \<Rightarrow> w\<lparr>wk_num := Some n\<rparr>))"

text \<open>What has been put out so far: the text and the number of lines in it.\<close>

definition emit_line :: "nat \<Rightarrow> nat \<Rightarrow> nat \<Rightarrow> cstr \<Rightarrow> cstr \<times> nat \<Rightarrow> cstr \<times> nat" where
  "emit_line skip outsz idx msg acc =
     (case acc of (out, appended) \<Rightarrow>
        if idx \<ge> skip \<and> msg \<noteq> [] \<and> length out + length msg + 1 < outsz
        then (out @ msg @ [CHR 0x0D], appended + 1) else (out, appended))"

fun walk_loop :: "cstr \<Rightarrow> int \<Rightarrow> nat \<Rightarrow> nat \<Rightarrow> walk \<Rightarrow> cstr \<times> nat \<Rightarrow> MTENTRY option list \<Rightarrow> nat \<times> cstr \<times> nat" where
  "walk_loop isrc echo skip outsz w acc [] = (wk_idx w, acc)"
| "walk_loop isrc echo skip outsz w acc (None # es) = walk_loop isrc echo skip outsz w acc es"
| "walk_loop isrc echo skip outsz w acc (Some e # es) =
     (case classify isrc echo w (mtt_text e) of
        (Stop, w) \<Rightarrow> (wk_idx w, acc)
      | (Skip, w) \<Rightarrow> walk_loop isrc echo skip outsz w acc es
      | (Line msg, w) \<Rightarrow>
          walk_loop isrc echo skip outsz (w\<lparr>wk_idx := wk_idx w + 1\<rparr>) (emit_line skip outsz (wk_idx w) msg acc) es)"

section \<open>The echo\<close>

text \<open>Downwards from the end; the second list is what lies behind the place looked at.\<close>

fun newest_loop :: "cstr \<Rightarrow> MTENTRY option list \<Rightarrow> MTENTRY option list \<Rightarrow> (MTENTRY \<times> MTENTRY option list) option" where
  "newest_loop cmd [] behind = None"
| "newest_loop cmd (None # es) behind = newest_loop cmd es (None # behind)"
| "newest_loop cmd (Some e # es) behind =
     (if is_echo_line (mtt_text e) cmd then Some (e, behind) else newest_loop cmd es (Some e # behind))"

fun oldest_loop :: "cstr \<Rightarrow> int \<Rightarrow> MTENTRY option list \<Rightarrow> (MTENTRY \<times> MTENTRY option list) option" where
  "oldest_loop cmd want [] = None"
| "oldest_loop cmd want (None # es) = oldest_loop cmd want es"
| "oldest_loop cmd want (Some e # es) =
     (if \<not> is_echo_line (mtt_text e) cmd then oldest_loop cmd want es
      else if entry_secs e \<noteq> want then oldest_loop cmd want es
      else Some (e, es))"

definition find_echo :: "cstr \<Rightarrow> int \<Rightarrow> MTENTRY option list \<Rightarrow> (MTENTRY \<times> MTENTRY option list) option" where
  "find_echo cmd want arr = (if want < 0 then newest_loop cmd (rev arr) [] else oldest_loop cmd want arr)"

record corr =
  co_out :: cstr
  co_appended :: nat
  co_total :: nat
  co_echo :: int

definition echo_src :: "cstr \<Rightarrow> cstr" where
  "echo_src text = (case src_field text of None \<Rightarrow> replicate MTT_SRC_LEN blank | Some f \<Rightarrow> f)"

definition start_walk :: "MTENTRY \<Rightarrow> walk" where
  "start_walk ee = \<lparr>wk_src = echo_src (mtt_text ee), wk_adopted = False, wk_num = None, wk_idx = 0\<rparr>"

definition correlate_once :: "snap \<Rightarrow> cstr \<Rightarrow> nat \<Rightarrow> nat \<Rightarrow> int \<Rightarrow> corr option" where
  "correlate_once sn cmd_upper outsz skip want_secs =
     (case mtt_snap_open sn of
        None \<Rightarrow> None
      | Some arr \<Rightarrow>
          (case find_echo cmd_upper want_secs arr of
             None \<Rightarrow> Some \<lparr>co_out = [], co_appended = 0, co_total = 0, co_echo = -1\<rparr>
           | Some (ee, es) \<Rightarrow>
               (case walk_loop (echo_src (mtt_text ee)) (entry_secs ee) skip outsz (start_walk ee) ([], 0) es of
                  (line_idx, out, appended) \<Rightarrow>
                    Some \<lparr>co_out = out, co_appended = appended, co_total = line_idx, co_echo = entry_secs ee\<rparr>)))"

section \<open>One poll\<close>

text \<open>
  \<^verbatim>\<open>collect_poll\<close>: \<open>alloc\<close> says whether its buffer is had; the result is the new count with the text,
  or nothing when the poll could not be made.
\<close>

definition collect_poll ::
  "bool \<Rightarrow> (cstr \<Rightarrow> nat \<Rightarrow> nat \<Rightarrow> int \<Rightarrow> corr option) \<Rightarrow> cstr \<Rightarrow> int \<Rightarrow> nat \<Rightarrow> nat \<Rightarrow> (nat \<times> cstr) option" where
  "collect_poll alloc corr cmd_upper echo_secs cap delivered =
     (if \<not> alloc then None
      else case corr cmd_upper cap delivered echo_secs of
        None \<Rightarrow> None
      | Some c \<Rightarrow> Some (if co_total c > delivered then co_total c else delivered, co_out c))"

section \<open>The block\<close>

text \<open>The lines of a block, whatever buffer they are put into.\<close>

fun block_lines :: "cstr \<Rightarrow> int \<Rightarrow> walk \<Rightarrow> MTENTRY option list \<Rightarrow> cstr list" where
  "block_lines isrc echo w [] = []"
| "block_lines isrc echo w (None # es) = block_lines isrc echo w es"
| "block_lines isrc echo w (Some e # es) =
     (case classify isrc echo w (mtt_text e) of
        (Stop, w) \<Rightarrow> []
      | (Skip, w) \<Rightarrow> block_lines isrc echo w es
      | (Line msg, w) \<Rightarrow> msg # block_lines isrc echo (w\<lparr>wk_idx := wk_idx w + 1\<rparr>) es)"

definition block_of :: "MTENTRY \<Rightarrow> MTENTRY option list \<Rightarrow> cstr list" where
  "block_of ee es = block_lines (echo_src (mtt_text ee)) (entry_secs ee) (start_walk ee) es"

definition line_text :: "cstr \<Rightarrow> cstr" where
  "line_text msg = (if msg = [] then [] else msg @ [CHR 0x0D])"

definition lines_text :: "cstr list \<Rightarrow> cstr" where
  "lines_text ls = concat (map line_text ls)"

lemma lines_text_simps [simp]:
  "lines_text [] = []" "lines_text (l # ls) = line_text l @ lines_text ls"
  "lines_text (xs @ ys) = lines_text xs @ lines_text ys"
  by (simp_all add: lines_text_def)

lemma classify_idx: "wk_idx (snd (classify isrc echo w text)) = wk_idx w"
  by (auto simp: classify_def Let_def split: option.splits)

lemma walk_total:
  "fst (walk_loop isrc echo skip outsz w acc es) = wk_idx w + length (block_lines isrc echo w es)"
proof (induction isrc echo w es arbitrary: acc rule: block_lines.induct)
  case (3 isrc echo w e es)
  obtain a w' where c: "classify isrc echo w (mtt_text e) = (a, w')" by force
  then have "wk_idx w' = wk_idx w" using classify_idx[of isrc echo w "mtt_text e"] by simp
  with 3 c show ?case by (cases a) simp_all
qed simp_all

text \<open>Lines that fit are put out from the first one that is not to be skipped.\<close>

lemma walk_text:
  "length out + length (lines_text (drop (skip - wk_idx w) (block_lines isrc echo w es))) < outsz \<Longrightarrow>
   fst (snd (walk_loop isrc echo skip outsz w (out, n) es)) =
     out @ lines_text (drop (skip - wk_idx w) (block_lines isrc echo w es))"
proof (induction isrc echo w es arbitrary: out n rule: block_lines.induct)
  case (3 isrc echo w e es)
  obtain a w' where c: "classify isrc echo w (mtt_text e) = (a, w')" by force
  then have i: "wk_idx w' = wk_idx w" using classify_idx[of isrc echo w "mtt_text e"] by simp
  show ?case
  proof (cases a)
    case (Line msg)
    let ?w = "w'\<lparr>wk_idx := wk_idx w + 1\<rparr>"
    obtain out' n' where o: "emit_line skip outsz (wk_idx w) msg (out, n) = (out', n')" by force
    have IH: "length out' + length (lines_text (drop (skip - (wk_idx w + 1)) (block_lines isrc echo ?w es))) < outsz \<Longrightarrow>
      fst (snd (walk_loop isrc echo skip outsz ?w (out', n') es)) =
        out' @ lines_text (drop (skip - (wk_idx w + 1)) (block_lines isrc echo ?w es))"
      using 3(2)[of a w' msg out' n'] c Line i by simp
    have out': "out' = out @ (if skip \<le> wk_idx w then line_text msg else [])"
      using o 3(3) c Line i by (auto simp: emit_line_def line_text_def split: if_splits)
    show ?thesis
    proof (cases "skip \<le> wk_idx w")
      case True
      then have "skip - wk_idx w = 0" "skip - (wk_idx w + 1) = 0" by simp_all
      with IH 3(3) c Line i o out' True show ?thesis by simp
    next
      case False
      then obtain m where m: "skip - wk_idx w = Suc m" "skip - (wk_idx w + 1) = m" by (metis Suc_diff_Suc Suc_eq_plus1 not_le)
      with IH 3(3) c Line i o out' False show ?thesis by simp
    qed
  qed (use 3 c i in simp_all)
qed simp_all

text \<open>A table that has grown has a block that has grown.\<close>

lemma block_grows: "prefix (block_lines isrc echo w es) (block_lines isrc echo w (es @ fs))"
proof (induction isrc echo w es rule: block_lines.induct)
  case (3 isrc echo w e es)
  obtain a w' where c: "classify isrc echo w (mtt_text e) = (a, w')" by force
  with 3 show ?case by (cases a) simp_all
qed simp_all

lemma oldest_loop_pre:
  "(\<forall>e. Some e \<in> set pre \<longrightarrow> is_echo_line (mtt_text e) cmd \<longrightarrow> entry_secs e \<noteq> want) \<Longrightarrow>
   oldest_loop cmd want (pre @ es) = oldest_loop cmd want es"
  by (induction cmd want pre rule: oldest_loop.induct) auto

lemma newest_loop_none:
  "(\<forall>e. Some e \<in> set es \<longrightarrow> \<not> is_echo_line (mtt_text e) cmd) \<Longrightarrow>
   newest_loop cmd (es @ fs) behind = newest_loop cmd fs (rev es @ behind)"
  by (induction cmd es behind rule: newest_loop.induct) auto

lemma correlate_at:
  assumes "find_echo cmd want arr = Some (ee, es)" and "length (lines_text (drop skip (block_of ee es))) < outsz"
  shows "\<exists>c. correlate_once (Table arr) cmd outsz skip want = Some c \<and>
    co_out c = lines_text (drop skip (block_of ee es)) \<and> co_total c = length (block_of ee es) \<and> co_echo c = entry_secs ee"
proof -
  let ?isrc = "echo_src (mtt_text ee)" and ?w = "start_walk ee"
  obtain k out n where w: "walk_loop ?isrc (entry_secs ee) skip outsz ?w ([], 0) es = (k, out, n)" by (metis prod_cases3)
  have z: "wk_idx ?w = 0" by (simp add: start_walk_def)
  from walk_total[of ?isrc "entry_secs ee" skip outsz ?w "([], 0)" es] w z have "k = length (block_of ee es)"
    by (simp add: block_of_def)
  moreover from walk_text[of "[]" skip ?w ?isrc "entry_secs ee" es outsz 0] assms(2) w z
  have "out = lines_text (drop skip (block_of ee es))" by (simp add: block_of_def)
  ultimately show ?thesis using assms(1) w by (simp add: correlate_once_def mtt_snap_open_def)
qed

end
