(* ===== verification/Console.thy ===== *)
theory Console
  imports Correlate Dispatch Jwn ReqBody
begin

text \<open>
  The state of a console request and the pieces its handlers share: \<^verbatim>\<open>src/consauth.c\<close> and the first
  half of \<^verbatim>\<open>src/consapi.c\<close>.

  A request sees a world that changes under it: the flags of the server, the ENQ, the Master Trace
  Table, the clock and the storage.  Each look at it takes what the environment has at the next tick
  of \<open>cs_tick\<close>.  Between two requests the context block of httpd stays: \<open>cs_ctx\<close>.
\<close>

unbundle bit_operations_syntax

section \<open>The world of a request\<close>

record console_env =
  ce_racf :: "nat option \<Rightarrow> cstr \<Rightarrow> cstr \<Rightarrow> bool \<Rightarrow> int"
  ce_acee :: "nat option"
  ce_ctx_size :: nat
  ce_store_size :: nat
  ce_anchor :: nat
  ce_storage :: "nat \<Rightarrow> bool"
  ce_quiescing :: "nat \<Rightarrow> bool"
  ce_trylock :: "nat \<Rightarrow> bool"
  ce_snap :: "nat \<Rightarrow> snap"
  ce_tod :: "nat \<Rightarrow> u64"

record csession = rsession +
  cs_ctx :: "MVSMF_CTX option"
  cs_tick :: nat

definition ask :: "(nat \<Rightarrow> 'v) \<Rightarrow> csession \<Rightarrow> 'v \<times> csession" where
  "ask f s = (f (cs_tick s), s\<lparr>cs_tick := cs_tick s + 1\<rparr>)"

definition tod_hi :: "console_env \<Rightarrow> csession \<Rightarrow> u32 \<times> csession" where
  "tod_hi env s = (let (t, s) = ask (ce_tod env) s in (ucast (drop_bit 32 t), s))"

section \<open>Authorization\<close>

definition ERR_MSG_CONSOLE_DENIED :: cstr where
  "ERR_MSG_CONSOLE_DENIED = ''Authorization failed - You may not use this service.''"

definition consauth_racf :: "console_env \<Rightarrow> int" where
  "consauth_racf env = ce_racf env (ce_acee env) ''FACILITY'' ''MVSMF.CONSOLE'' False"

definition console_authorize :: "httpd \<Rightarrow> console_env \<Rightarrow> csession \<Rightarrow> int \<times> csession" where
  "console_authorize srv env s =
     (case authdec_gate (ce_acee env \<noteq> None) (Some (\<lambda>_. consauth_racf env)) of
        AUTHDEC_ALLOW \<Rightarrow> (0, s)
      | AUTHDEC_NOACEE \<Rightarrow>
          (-1, snd (sendErrorResponse srv HTTP_STATUS_UNAUTHORIZED CATEGORY_AUTHORIZATION RC_ERROR
                 REASON_NOT_AUTHORIZED (Some ERR_MSG_NOT_AUTHORIZED) [] s))
      | AUTHDEC_DENY \<Rightarrow> (-1, snd (send_not_authorized srv (Some ERR_MSG_CONSOLE_DENIED) s)))"

section \<open>The correlation lock\<close>

definition CONS_LOCK_TRIES :: nat where "CONS_LOCK_TRIES = 50"
definition CONS_LOCK_BUSY :: int where "CONS_LOCK_BUSY = -1"
definition CONS_LOCK_QUIESCED :: int where "CONS_LOCK_QUIESCED = -2"

definition console_lock_anchor :: "console_env \<Rightarrow> csession \<Rightarrow> nat option" where
  "console_lock_anchor env s =
     (case mvsmf_ctx_get True (cs_ctx s) of None \<Rightarrow> None | Some _ \<Rightarrow> Some (ce_anchor env))"

fun acquire_loop :: "console_env \<Rightarrow> nat \<Rightarrow> nat \<Rightarrow> csession \<Rightarrow> int \<times> csession" where
  "acquire_loop env anchor 0 s = (CONS_LOCK_BUSY, s)"
| "acquire_loop env anchor (Suc n) s =
     (let (got, s) = ask (ce_trylock env) s in
      if got then (0, (do_call (LockConsole anchor) s)\<lparr>rs_console_lock := Some anchor\<rparr>)
      else
        let (q, s) = ask (ce_quiescing env) s in
        if q then (CONS_LOCK_QUIESCED, s) else acquire_loop env anchor n s)"

definition console_lock_acquire :: "console_env \<Rightarrow> csession \<Rightarrow> int \<times> csession" where
  "console_lock_acquire env s =
     (case console_lock_anchor env s of None \<Rightarrow> (0, s) | Some a \<Rightarrow> acquire_loop env a CONS_LOCK_TRIES s)"

definition console_lock_release :: "csession \<Rightarrow> csession" where
  "console_lock_release s =
     (case rs_console_lock s of None \<Rightarrow> s
      | Some a \<Rightarrow> do_call (UnlockConsole a) (s\<lparr>rs_console_lock := None\<rparr>))"

section \<open>Fields of a request\<close>

definition JSON_PAT_SIZE :: nat where "JSON_PAT_SIZE = 40"

definition json_get_str :: "cstr \<Rightarrow> cstr \<Rightarrow> nat \<Rightarrow> cstr option" where
  "json_get_str body key outsz =
     (if length key + 3 > JSON_PAT_SIZE then None
      else case c_strstr (dquote # key @ [dquote]) body of
        None \<Rightarrow> None
      | Some p \<Rightarrow>
          (case dropWhile (\<lambda>c. c \<noteq> CHR '':'') (drop (length key + 2) p) of
             [] \<Rightarrow> None
           | _ # q \<Rightarrow>
               (case dropWhile (\<lambda>c. c = blank \<or> c = tab) q of
                  [] \<Rightarrow> None
                | c # v \<Rightarrow>
                    if c \<noteq> dquote then None
                    else if dquote \<notin> set v then None
                    else Some (take (outsz - 1) (takeWhile (\<lambda>c. c \<noteq> dquote) v)))))"

text \<open>A field that is not there leaves its buffer as it was, empty.\<close>

definition json_field :: "cstr \<Rightarrow> cstr \<Rightarrow> nat \<Rightarrow> cstr" where
  "json_field body key outsz = (case json_get_str body key outsz of None \<Rightarrow> [] | Some v \<Rightarrow> v)"

definition is_yes :: "cstr \<Rightarrow> bool" where
  "is_yes v \<longleftrightarrow> c_at v 0 = CHR ''Y'' \<or> c_at v 0 = CHR ''y''"

definition MGCR_MAX :: nat where "MGCR_MAX = 100"

definition issue_command :: "cstr \<Rightarrow> csession \<Rightarrow> csession" where
  "issue_command cmd s = do_call (Mgcr (take MGCR_MAX cmd)) s"

definition send_console_error :: "httpd \<Rightarrow> int \<Rightarrow> int \<Rightarrow> int \<Rightarrow> cstr \<Rightarrow> csession \<Rightarrow> int \<times> csession" where
  "send_console_error srv status retcode reason_code reason s =
     (case createResponseBuilder srv of
        None \<Rightarrow> (-1, snd (sendDefaultHeaders srv status (Some HTTP_CONTENT_TYPE_NONE) 0 s))
      | Some b \<Rightarrow>
          (case emit_item (hd_alloc srv) (IObj [MNum ''return-code'' (of_int retcode), MNum ''reason-code'' (of_int reason_code),
                   MStr ''reason'' (Some reason)]) b of
             (rc, b) \<Rightarrow> if rc < 0 then (-1, s) else sendJSONResponse srv status (Some b) s))"

section \<open>What is kept between requests\<close>

definition SOL_CMD_SIZE :: nat where "SOL_CMD_SIZE = 126"
definition CURSOR_SIZE :: nat where "CURSOR_SIZE = 144"

record SOL_CURSOR =
  cu_issue_tod :: u64
  cu_delivered :: u32
  cu_echo_secs :: u32
  cu_cmdlen :: byte
  cu_cmd :: cstr

record SOL_DETECTION =
  sd_anchor_hi :: u32
  sd_detect_secs :: u32
  sd_base_secs :: u32
  sd_base_same :: u32
  sd_keylen :: byte
  sd_key :: cstr

definition be32 :: "u32 \<Rightarrow> byte list" where
  "be32 w = [ucast (drop_bit 24 w), ucast (drop_bit 16 w), ucast (drop_bit 8 w), ucast w]"

definition get32 :: "byte list \<Rightarrow> u32" where
  "get32 p = push_bit 24 (ucast (p ! 0)) OR push_bit 16 (ucast (p ! 1)) OR push_bit 8 (ucast (p ! 2)) OR ucast (p ! 3)"

definition be64 :: "u64 \<Rightarrow> byte list" where
  "be64 w = be32 (ucast (drop_bit 32 w)) @ be32 (ucast w)"

definition get64 :: "byte list \<Rightarrow> u64" where
  "get64 p = push_bit 32 (ucast (get32 p)) OR ucast (get32 (drop 4 p))"

text \<open>A string of at most 125 characters in its 126 bytes, and the byte that pads the structure.\<close>

definition text_bytes :: "cstr \<Rightarrow> byte list" where
  "text_bytes t =
     (let t = take (SOL_CMD_SIZE - 1) t in map (\<lambda>c. of_nat (of_char c)) t @ replicate (SOL_CMD_SIZE + 1 - length t) 0)"

definition bytes_text :: "byte list \<Rightarrow> cstr" where
  "bytes_text p = c_str (map (\<lambda>b. char_of (unat b)) (take SOL_CMD_SIZE p))"

definition cursor_bytes :: "SOL_CURSOR \<Rightarrow> byte list" where
  "cursor_bytes c = be64 (cu_issue_tod c) @ be32 (cu_delivered c) @ be32 (cu_echo_secs c) @ [cu_cmdlen c] @ text_bytes (cu_cmd c)"

definition cursor_of :: "byte list \<Rightarrow> SOL_CURSOR" where
  "cursor_of p = \<lparr>cu_issue_tod = get64 p, cu_delivered = get32 (drop 8 p), cu_echo_secs = get32 (drop 12 p),
     cu_cmdlen = p ! 16, cu_cmd = bytes_text (drop 17 p)\<rparr>"

definition detection_bytes :: "SOL_DETECTION \<Rightarrow> byte list" where
  "detection_bytes d = be32 (sd_anchor_hi d) @ be32 (sd_detect_secs d) @ be32 (sd_base_secs d) @ be32 (sd_base_same d) @
     [sd_keylen d] @ text_bytes (sd_key d)"

definition detection_of :: "byte list \<Rightarrow> SOL_DETECTION" where
  "detection_of p = \<lparr>sd_anchor_hi = get32 p, sd_detect_secs = get32 (drop 4 p), sd_base_secs = get32 (drop 8 p),
     sd_base_same = get32 (drop 12 p), sd_keylen = p ! 16, sd_key = bytes_text (drop 17 p)\<rparr>"

definition key_to_name :: "cstr option \<Rightarrow> cstr" where
  "key_to_name key =
     (let k = (case key of None \<Rightarrow> [] | Some k \<Rightarrow> take MVSMF_KVS_NAMELEN k)
      in k @ replicate (MVSMF_KVS_NAMELEN - length k) nul)"

text \<open>The store is used where it is, in the context.\<close>

definition kvstore_of :: "console_env \<Rightarrow> csession \<Rightarrow> NT_STORE option \<times> csession" where
  "kvstore_of env s =
     (let (storage, s) = ask (ce_storage env) s;
          (store, ctx) = mvsmf_kvstore (ce_ctx_size env) (ce_store_size env) storage True (cs_ctx s)
      in (store, s\<lparr>cs_ctx := ctx\<rparr>))"

definition put_back :: "NT_STORE option \<Rightarrow> csession \<Rightarrow> csession" where
  "put_back store s = s\<lparr>cs_ctx := map_option (\<lambda>c. c\<lparr>kvstore := store\<rparr>) (cs_ctx s)\<rparr>"

definition store_set :: "console_env \<Rightarrow> cstr \<Rightarrow> byte list \<Rightarrow> NT_STORE option \<Rightarrow> csession \<Rightarrow> csession" where
  "store_set env name val store s =
     (let (now, s) = ask (ce_tod env) s; (rc, store) = nt_set now store (Some name) val (length val) in put_back store s)"

definition store_get ::
  "console_env \<Rightarrow> cstr \<Rightarrow> NT_STORE option \<Rightarrow> csession \<Rightarrow> byte list option \<times> NT_STORE option \<times> csession" where
  "store_get env name store s =
     (let (now, s) = ask (ce_tod env) s; (v, store) = nt_get now store (Some name) CURSOR_SIZE in (v, store, put_back store s))"

section \<open>Capturing a response\<close>

definition RESP_CAP :: nat where "RESP_CAP = 32768"
definition POLL_SECONDS :: u32 where "POLL_SECONDS = 3"
definition CONS_POLL_INTERRUPTED :: int where "CONS_POLL_INTERRUPTED = -1"
definition CONS_CAPTURE_FAILED :: int where "CONS_CAPTURE_FAILED = -2"

record capture =
  cp_out :: cstr
  cp_total :: nat
  cp_echo :: int
  cp_looked :: bool
  cp_stable :: nat
  cp_prev :: nat

text \<open>One look at the table; the flag says that the block has stood still long enough.\<close>

definition capture_poll :: "snap \<Rightarrow> cstr \<Rightarrow> nat \<Rightarrow> capture \<Rightarrow> bool \<times> capture" where
  "capture_poll sn cmd_upper outsz c =
     (case correlate_once sn cmd_upper outsz 0 (-1) of
        None \<Rightarrow> (False, c)
      | Some r \<Rightarrow>
          let stable = (if co_total r > 0 then if co_total r = cp_prev c then cp_stable c + 1 else 0 else cp_stable c)
          in (co_total r > 0 \<and> co_total r = cp_prev c \<and> stable \<ge> 3,
              c\<lparr>cp_out := co_out r, cp_total := co_total r, cp_echo := co_echo r, cp_looked := True,
                cp_stable := stable, cp_prev := co_total r\<rparr>))"

partial_function (option) capture_loop ::
  "console_env \<Rightarrow> cstr \<Rightarrow> nat \<Rightarrow> u32 \<Rightarrow> capture \<Rightarrow> csession \<Rightarrow> (bool \<times> capture \<times> csession) option" where
  "capture_loop env cmd_upper outsz start c s =
     (let (q, s) = ask (ce_quiescing env) s in
      if q then Some (False, c, s)
      else
        let (sn, s) = ask (ce_snap env) s; (done, c) = capture_poll sn cmd_upper outsz c in
        if done then Some (True, c, s)
        else
          let (now, s) = tod_hi env s in
          if now - start \<ge> POLL_SECONDS then Some (True, c, s) else capture_loop env cmd_upper outsz start c s)"

definition capture_response ::
  "console_env \<Rightarrow> cstr \<Rightarrow> nat \<Rightarrow> csession \<Rightarrow> (int \<times> capture \<times> csession) option" where
  "capture_response env cmd_upper outsz s =
     (let (start, s) = tod_hi env s;
          c = \<lparr>cp_out = [], cp_total = 0, cp_echo = -1, cp_looked = False, cp_stable = 0, cp_prev = 0\<rparr> in
      case capture_loop env cmd_upper outsz start c s of
        None \<Rightarrow> None
      | Some (finished, c, s) \<Rightarrow>
          Some (if \<not> finished then CONS_POLL_INTERRUPTED
                else if \<not> cp_looked c then CONS_CAPTURE_FAILED else int (cp_total c), c, s))"

end
