(* ===== verification/ConsoleApi.thy ===== *)
theory ConsoleApi
  imports Console JobsApi
begin

text \<open>
  The collect and detection handlers of \<^verbatim>\<open>src/consapi.c\<close>.

  What a collect request finds out is separated from how it is answered: \<open>collect_core\<close> is the body
  of the handler up to its answer.
\<close>

unbundle bit_operations_syntax

section \<open>Collect\<close>

datatype collect_answer = NothingMore | PollFailed | NewLines cstr

definition collect_core :: "console_env \<Rightarrow> cstr option \<Rightarrow> csession \<Rightarrow> collect_answer \<times> csession" where
  "collect_core env key s =
     (let (store, s) = kvstore_of env s in
      if key = None \<or> store = None then (NothingMore, s)
      else
        let name = key_to_name key; (v, store, s) = store_get env name store s in
        case v of
          None \<Rightarrow> (NothingMore, s)
        | Some bytes \<Rightarrow>
            if length bytes < CURSOR_SIZE then (NothingMore, s)
            else
              let cur = cursor_of bytes; (alloc, s) = ask (ce_storage env) s; (sn, s) = ask (ce_snap env) s;
                  r = collect_poll alloc (correlate_once sn) (cu_cmd cur) (sint (cu_echo_secs cur)) RESP_CAP
                        (unat (cu_delivered cur));
                  cur = (case r of None \<Rightarrow> cur | Some (d, _) \<Rightarrow> cur\<lparr>cu_delivered := of_nat d\<rparr>);
                  s = store_set env name (cursor_bytes cur) store s
              in (case r of None \<Rightarrow> PollFailed | Some (_, text) \<Rightarrow> NewLines text, s))"

definition send_members :: "httpd \<Rightarrow> json_member list \<Rightarrow> csession \<Rightarrow> int \<times> csession" where
  "send_members srv ms s =
     (case createResponseBuilder srv of
        None \<Rightarrow> (-1, snd (sendDefaultHeaders srv HTTP_STATUS_INTERNAL_SERVER_ERROR (Some HTTP_CONTENT_TYPE_NONE) 0 s))
      | Some b \<Rightarrow>
          (case emit_item (hd_alloc srv) (IObj ms) b of
             (rc, b) \<Rightarrow> if rc < 0 then (-1, s) else sendJSONResponse srv HTTP_STATUS_OK (Some b) s))"

definition send_collect :: "httpd \<Rightarrow> cstr \<Rightarrow> csession \<Rightarrow> int \<times> csession" where
  "send_collect srv text = send_members srv [MStr ''cmd-response'' (Some (c_str text))]"

definition consoleCollectHandler :: "httpd \<Rightarrow> console_env \<Rightarrow> csession \<Rightarrow> int \<times> csession" where
  "consoleCollectHandler srv env s =
     (let (rc, s) = console_authorize srv env s in
      if rc \<noteq> 0 then (-1, s)
      else
        let (a, s) = collect_core env (getPathParam s ''cmd-response-key'') s in
        case a of
          NothingMore \<Rightarrow> send_collect srv [] s
        | PollFailed \<Rightarrow> send_console_error srv HTTP_STATUS_INTERNAL_SERVER_ERROR 8 1
                          ''An error occurred during the retrieval of the command response.'' s
        | NewLines text \<Rightarrow> send_collect srv text s)"

section \<open>Detection\<close>

datatype detect_answer = NoDetection | LookFailed | Detected cstr | Expired | Waiting

definition DETECT_MSG_SIZE :: nat where "DETECT_MSG_SIZE = 200"

definition detect_core :: "console_env \<Rightarrow> cstr option \<Rightarrow> csession \<Rightarrow> detect_answer \<times> csession" where
  "detect_core env dkey s =
     (let (store, s) = kvstore_of env s in
      if dkey = None \<or> store = None then (NoDetection, s)
      else
        let (v, store, s) = store_get env (key_to_name dkey) store s in
        case v of
          None \<Rightarrow> (NoDetection, s)
        | Some bytes \<Rightarrow>
            if length bytes < CURSOR_SIZE then (NoDetection, s)
            else
              let det = detection_of bytes; (sn, s) = ask (ce_snap env) s;
                  base = \<lparr>an_secs = sint (sd_base_secs det), an_same = unat (sd_base_same det)\<rparr> in
              case mtt_detect_since sn (sd_key det) base DETECT_MSG_SIZE of
                None \<Rightarrow> (LookFailed, s)
              | Some (count, msg) \<Rightarrow>
                  if count > 0 then (Detected msg, s)
                  else
                    let (now, s) = tod_hi env s
                    in (if now - sd_anchor_hi det > sd_detect_secs det then Expired else Waiting, s))"

definition detect_members :: "detect_answer \<Rightarrow> json_member list" where
  "detect_members a =
     (let (status, msg) = (case a of Detected m \<Rightarrow> (''detected'', m) | Expired \<Rightarrow> (''expired'', []) | _ \<Rightarrow> (''waiting'', []))
      in [MStr ''status'' (Some status), MStr ''msg'' (Some (c_str msg))])"

definition consoleDetectHandler :: "httpd \<Rightarrow> console_env \<Rightarrow> csession \<Rightarrow> int \<times> csession" where
  "consoleDetectHandler srv env s =
     (let (rc, s) = console_authorize srv env s in
      if rc \<noteq> 0 then (-1, s)
      else
        let (a, s) = detect_core env (getPathParam s ''detection-key'') s in
        case a of
          NoDetection \<Rightarrow> send_console_error srv HTTP_STATUS_INTERNAL_SERVER_ERROR 5 9
                           ''Cannot find the result for the specified detection ID.'' s
        | LookFailed \<Rightarrow> send_console_error srv HTTP_STATUS_INTERNAL_SERVER_ERROR 8 1
                          ''An error occurred during the retrieval of the detection result.'' s
        | _ \<Rightarrow> send_members srv (detect_members a) s)"

section \<open>The cursor as bytes\<close>

lemma be32_get32 [simp]: "get32 (be32 w @ rest) = w"
proof (rule bit_word_eqI)
  fix n assume "n < LENGTH(32)"
  then consider "n < 8" | "8 \<le> n" "n < 16" | "16 \<le> n" "n < 24" | "24 \<le> n" "n < 32" by fastforce
  then show "bit (get32 (be32 w @ rest)) n \<longleftrightarrow> bit w n"
    by cases (auto simp: get32_def be32_def bit_simps)
qed

lemma be32_length [simp]: "length (be32 w) = 4"
  by (simp add: be32_def)

lemma be64_get64 [simp]: "get64 (be64 w @ rest) = w"
proof -
  have d: "drop 4 (be64 w @ rest) = be32 (ucast w) @ rest" by (simp add: be64_def)
  have g: "get32 (be64 w @ rest) = ucast (drop_bit 32 w)" by (simp add: be64_def)
  show ?thesis
  proof (rule bit_word_eqI)
    fix n assume "n < LENGTH(64)"
    then consider "n < 32" | "32 \<le> n" "n < 64" by fastforce
    then show "bit (get64 (be64 w @ rest)) n \<longleftrightarrow> bit w n"
      unfolding get64_def d g by cases (auto simp: bit_simps)
  qed
qed

lemma be64_length [simp]: "length (be64 w) = 8"
  by (simp add: be64_def)

lemma text_bytes_length [simp]: "length (text_bytes t) = 127"
  by (simp add: text_bytes_def Let_def SOL_CMD_SIZE_def)

lemma bytes_text_bytes:
  assumes "nul \<notin> set t"
  shows "bytes_text (text_bytes t) = take 125 t"
proof -
  let ?t = "take 125 t"
  have m: "map (\<lambda>b :: byte. char_of (unat b) :: char) (map (\<lambda>c. of_nat (of_char c)) ?t) = ?t"
    by (simp add: unat_of_nat map_idI)
  have "map (\<lambda>b :: byte. char_of (unat b)) (take 126 (text_bytes t)) = ?t @ replicate (126 - length ?t) nul"
    using m by (simp add: text_bytes_def Let_def SOL_CMD_SIZE_def take_map min_def char_of_def)
  moreover have "takeWhile (\<lambda>c. c \<noteq> nul) (?t @ replicate (126 - length ?t) nul) = ?t"
  proof -
    have "\<forall>c\<in>set ?t. c \<noteq> nul" using assms set_take_subset[of 125 t] by auto
    then show ?thesis by (simp add: takeWhile_append)
  qed
  ultimately show ?thesis by (simp add: bytes_text_def c_str_def SOL_CMD_SIZE_def)
qed

lemma cursor_round_trip:
  assumes "nul \<notin> set (cu_cmd c)" "length (cu_cmd c) \<le> 125"
  shows "cursor_of (cursor_bytes c) = c" "length (cursor_bytes c) = CURSOR_SIZE"
proof -
  have "get32 (drop 8 (cursor_bytes c)) = cu_delivered c" "get32 (drop 12 (cursor_bytes c)) = cu_echo_secs c"
    "cursor_bytes c ! 16 = cu_cmdlen c" "drop 17 (cursor_bytes c) = text_bytes (cu_cmd c)"
    "get64 (cursor_bytes c) = cu_issue_tod c"
    by (simp_all add: cursor_bytes_def nth_append)
  then show "cursor_of (cursor_bytes c) = c"
    using bytes_text_bytes[OF assms(1)] assms(2) by (simp add: cursor_of_def)
  show "length (cursor_bytes c) = CURSOR_SIZE" by (simp add: cursor_bytes_def CURSOR_SIZE_def)
qed

section \<open>One request\<close>

text \<open>A request finds a cursor in a store that is well formed.\<close>

definition has_store :: "csession \<Rightarrow> NT_STORE \<Rightarrow> bool" where
  "has_store s st \<longleftrightarrow> (\<exists>ctx. cs_ctx s = Some ctx \<and> kvstore ctx = Some st) \<and> nt_wf st"

lemma nt_set_kv: "nt_wf st \<Longrightarrow> nt_key k \<Longrightarrow> nt_set now (Some st) (Some k) v (length v) = (0, Some (kv_put now k v st))"
  using set_view[of st k "length v" v "pick_slot now k st" now] by (auto simp: kv_put_def)

lemma kvstore_of_has:
  "has_store s st \<Longrightarrow> kvstore_of env s = (Some st, s\<lparr>cs_tick := cs_tick s + 1\<rparr>)"
  by (auto simp: has_store_def kvstore_of_def ask_def mvsmf_kvstore_def mvsmf_ctx_get_def)

lemma store_get_has:
  assumes "has_store s st" "nt_key name" "nt_view (ce_tod env (cs_tick s)) st name = Some v" "length v = CURSOR_SIZE"
  shows "\<exists>st' s'. store_get env name (Some st) s = (Some v, Some st', s') \<and> has_store s' st' \<and> cs_tick s' = cs_tick s + 1"
proof -
  have wf: "nt_wf st" using assms(1) by (simp add: has_store_def)
  from get_view[OF wf assms(2), where now = "ce_tod env (cs_tick s)" and m = CURSOR_SIZE] assms(3,4) obtain st' where
    g: "nt_get (ce_tod env (cs_tick s)) (Some st) (Some name) CURSOR_SIZE = (Some v, Some st')" "nt_wf st'"
    by auto
  with assms(1) show ?thesis by (auto simp: store_get_def ask_def put_back_def has_store_def)
qed

lemma store_set_has:
  assumes "has_store s st" "nt_key name" "length v \<le> MVSMF_KVS_VALMAX"
  shows "has_store (store_set env name v (Some st) s) (kv_put (ce_tod env (cs_tick s)) name v st)"
  using assms kv_put_facts(1)[of st name v] by (auto simp: store_set_def ask_def put_back_def has_store_def nt_set_kv)

definition good_cursor :: "SOL_CURSOR \<Rightarrow> bool" where
  "good_cursor c \<longleftrightarrow> nul \<notin> set (cu_cmd c) \<and> length (cu_cmd c) \<le> 125"

text \<open>A store holds a cursor from a time on, as long as it is not left alone for too long.\<close>

definition holds :: "u64 \<Rightarrow> cstr \<Rightarrow> SOL_CURSOR \<Rightarrow> NT_STORE \<Rightarrow> bool" where
  "holds t name cur st \<longleftrightarrow> (\<forall>u. \<not> slot_expired t u \<longrightarrow> nt_view u st name = Some (cursor_bytes cur))"

definition poll_of :: "console_env \<Rightarrow> nat \<Rightarrow> SOL_CURSOR \<Rightarrow> (nat \<times> cstr) option" where
  "poll_of env k cur =
     collect_poll (ce_storage env (k + 2)) (correlate_once (ce_snap env (k + 3))) (cu_cmd cur) (sint (cu_echo_secs cur)) RESP_CAP
       (unat (cu_delivered cur))"

lemma poll_of_0: "poll_of env 0 cur =
    collect_poll (ce_storage env 2) (correlate_once (ce_snap env 3)) (cu_cmd cur) (sint (cu_echo_secs cur)) RESP_CAP
      (unat (cu_delivered cur))"
  by (simp add: poll_of_def numeral_2_eq_2 numeral_3_eq_3)

lemma collect_step:
  assumes st: "has_store s st" and key: "nt_key (key_to_name (Some key))" and cur: "good_cursor cur"
    and hold: "holds t (key_to_name (Some key)) cur st" "\<not> slot_expired t (ce_tod env (cs_tick s + 1))"
    and core: "collect_core env (Some key) s = (a, s')"
  shows "a = (case poll_of env (cs_tick s) cur of None \<Rightarrow> PollFailed | Some (_, text) \<Rightarrow> NewLines text) \<and>
    (\<exists>st'. has_store s' st' \<and> holds (ce_tod env (cs_tick s + 4)) (key_to_name (Some key))
       (case poll_of env (cs_tick s) cur of None \<Rightarrow> cur | Some (d, _) \<Rightarrow> cur\<lparr>cu_delivered := of_nat d\<rparr>) st')"
proof -
  let ?n = "key_to_name (Some key)" and ?k = "cs_tick s"
  let ?cur' = "case poll_of env ?k cur of None \<Rightarrow> cur | Some (d, _) \<Rightarrow> cur\<lparr>cu_delivered := of_nat d\<rparr>"
  have rt: "cursor_of (cursor_bytes cur) = cur" "length (cursor_bytes cur) = CURSOR_SIZE"
    using cur cursor_round_trip unfolding good_cursor_def by blast+
  have len': "length (cursor_bytes ?cur') \<le> MVSMF_KVS_VALMAX"
    by (simp add: cursor_bytes_def MVSMF_KVS_VALMAX_def)
  let ?s1 = "s\<lparr>cs_tick := ?k + 1\<rparr>"
  have st1: "has_store ?s1 st" "cs_tick ?s1 = ?k + 1" using st by (simp_all add: has_store_def)
  have v: "nt_view (ce_tod env (cs_tick ?s1)) st ?n = Some (cursor_bytes cur)" using hold st1(2) by (simp add: holds_def)
  obtain st2 s2 where g: "store_get env ?n (Some st) ?s1 = (Some (cursor_bytes cur), Some st2, s2)" "has_store s2 st2"
    "cs_tick s2 = ?k + 2" using store_get_has[OF st1(1) key v rt(2)] st1(2) by auto
  let ?s4 = "s2\<lparr>cs_tick := ?k + 4\<rparr>"
  have st4: "has_store ?s4 st2" using g(2) by (simp add: has_store_def)
  note set = store_set_has[OF st4 key len', of env]
  have wf2: "nt_wf st2" using g(2) by (simp add: has_store_def)
  have "(a, s') = ((case poll_of env ?k cur of None \<Rightarrow> PollFailed | Some (_, text) \<Rightarrow> NewLines text),
      store_set env ?n (cursor_bytes ?cur') (Some st2) ?s4)"
    using core g rt by (simp add: collect_core_def kvstore_of_has[OF st] ask_def Let_def poll_of_def eval_nat_numeral)
  moreover have "holds (ce_tod env (?k + 4)) ?n ?cur' (kv_put (ce_tod env (cs_tick ?s4)) ?n (cursor_bytes ?cur') st2)"
    using kv_put_facts(2)[OF wf2 key len'] by (simp add: holds_def)
  ultimately show ?thesis using set by auto
qed

section \<open>A client that polls\<close>

text \<open>Requests follow one another with only the context in common.\<close>

fun poll_requests :: "csession \<Rightarrow> cstr \<Rightarrow> console_env list \<Rightarrow> MVSMF_CTX option \<Rightarrow> collect_answer list" where
  "poll_requests s key [] ctx = []"
| "poll_requests s key (env # envs) ctx =
     (case collect_core env (Some key) (s\<lparr>cs_ctx := ctx, cs_tick := 0\<rparr>) of
        (a, s') \<Rightarrow> a # poll_requests s key envs (cs_ctx s'))"

fun answer_text :: "collect_answer list \<Rightarrow> cstr" where
  "answer_text [] = []"
| "answer_text (NewLines t # as) = t @ answer_text as"
| "answer_text (_ # as) = answer_text as"

text \<open>
  What the polls of a client may find, each within the life of the entry: no storage, no table, or a
  table in which what stands behind the echo \<open>ee\<close> of the command has grown, and what stands before
  it may have been pushed out.
\<close>

definition no_echo :: "cstr \<Rightarrow> int \<Rightarrow> MTENTRY option list \<Rightarrow> bool" where
  "no_echo cmd want pre \<longleftrightarrow> (\<forall>e. Some e \<in> set pre \<longrightarrow> is_echo_line (mtt_text e) cmd \<longrightarrow> entry_secs e \<noteq> want)"

inductive polling :: "cstr \<Rightarrow> MTENTRY \<Rightarrow> u64 \<Rightarrow> MTENTRY option list \<Rightarrow> console_env list \<Rightarrow> MTENTRY option list \<Rightarrow> bool"
  for cmd :: cstr and ee :: MTENTRY where
  over: "polling cmd ee t es [] es"
| unable: "\<not> slot_expired t (ce_tod env 1) \<Longrightarrow> \<not> ce_storage env 2 \<or> mtt_snap_open (ce_snap env 3) = None \<Longrightarrow>
    polling cmd ee (ce_tod env 4) es envs fs \<Longrightarrow> polling cmd ee t es (env # envs) fs"
| looked: "\<not> slot_expired t (ce_tod env 1) \<Longrightarrow> ce_storage env 2 \<Longrightarrow> ce_snap env 3 = Table (pre @ Some ee # es @ new) \<Longrightarrow>
    no_echo cmd (entry_secs ee) pre \<Longrightarrow> length (lines_text (block_of ee (es @ new))) < RESP_CAP \<Longrightarrow>
    length (block_of ee (es @ new)) < 2 ^ 32 \<Longrightarrow>
    polling cmd ee (ce_tod env 4) (es @ new) envs fs \<Longrightarrow> polling cmd ee t es (env # envs) fs"

lemma polling_grows: "polling cmd ee t es envs fs \<Longrightarrow> prefix es fs"
  by (induction rule: polling.induct) (auto dest: prefix_order.trans[OF prefixI, rotated])

lemma lines_text_drop_length: "length (lines_text (drop k ls)) \<le> length (lines_text ls)"
proof -
  have "lines_text ls = lines_text (take k ls) @ lines_text (drop k ls)"
    by (simp flip: lines_text_simps(3))
  then show ?thesis by simp
qed

lemma poll_looked:
  assumes "ce_storage env 2" "ce_snap env 3 = Table (pre @ Some ee # es)" "no_echo (cu_cmd cur) (entry_secs ee) pre"
    "is_echo_line (mtt_text ee) (cu_cmd cur)" "0 \<le> entry_secs ee" "sint (cu_echo_secs cur) = entry_secs ee"
    "length (lines_text (block_of ee es)) < RESP_CAP" "unat (cu_delivered cur) \<le> length (block_of ee es)"
  shows "poll_of env 0 cur = Some (length (block_of ee es), lines_text (drop (unat (cu_delivered cur)) (block_of ee es)))"
proof -
  have "oldest_loop (cu_cmd cur) (entry_secs ee) (pre @ Some ee # es) = Some (ee, es)"
    using assms(3,4) oldest_loop_pre[of pre "cu_cmd cur" "entry_secs ee" "Some ee # es"] by (simp add: no_echo_def)
  then have f: "find_echo (cu_cmd cur) (entry_secs ee) (pre @ Some ee # es) = Some (ee, es)"
    using assms(5) by (simp add: find_echo_def)
  have "length (lines_text (drop (unat (cu_delivered cur)) (block_of ee es))) < RESP_CAP"
    using lines_text_drop_length assms(7) by (rule le_less_trans)
  from correlate_at[OF f this] assms show ?thesis by (auto simp: poll_of_0 collect_poll_def)
qed

lemma block_of_grows: "prefix es fs \<Longrightarrow> prefix (block_of ee es) (block_of ee fs)"
  using block_grows by (auto simp: block_of_def prefix_def)

lemma polls_deliver:
  assumes "polling cmd ee t es envs fs" "is_echo_line (mtt_text ee) cmd" "0 \<le> entry_secs ee" "nt_key (key_to_name (Some key))"
  shows "good_cursor cur \<Longrightarrow> cu_cmd cur = cmd \<Longrightarrow> sint (cu_echo_secs cur) = entry_secs ee \<Longrightarrow>
    unat (cu_delivered cur) = length (block_of ee es) \<Longrightarrow> ctx = Some c \<Longrightarrow> kvstore c = Some st \<Longrightarrow> nt_wf st \<Longrightarrow>
    holds t (key_to_name (Some key)) cur st \<Longrightarrow>
    NothingMore \<notin> set (poll_requests s key envs ctx) \<and>
    answer_text (poll_requests s key envs ctx) = lines_text (drop (length (block_of ee es)) (block_of ee fs))"
  using assms(1)
proof (induction arbitrary: cur ctx c st rule: polling.induct)
  case (over t es)
  then show ?case by simp
next
  case (unable t env es envs fs)
  let ?s = "s\<lparr>cs_ctx := ctx, cs_tick := 0\<rparr>"
  obtain a s' where core: "collect_core env (Some key) ?s = (a, s')" by force
  have hs: "has_store ?s st" using unable.prems by (simp add: has_store_def)
  have p: "poll_of env 0 cur = None"
    using unable.hyps(2) by (auto simp: poll_of_0 collect_poll_def correlate_once_def)
  from collect_step[OF hs assms(4) unable.prems(1,8) _ core] unable.hyps(1) p obtain st' where
    "a = PollFailed" "has_store s' st'" "holds (ce_tod env 4) (key_to_name (Some key)) cur st'" by auto
  then show ?case using unable.IH[OF unable.prems(1-4), of "cs_ctx s'" _ st'] core
    by (auto simp: has_store_def)
next
  case (looked t env pre es new envs fs)
  let ?s = "s\<lparr>cs_ctx := ctx, cs_tick := 0\<rparr>" and ?b = "block_of ee (es @ new)"
  obtain a s' where core: "collect_core env (Some key) ?s = (a, s')" by force
  have hs: "has_store ?s st" using looked.prems by (simp add: has_store_def)
  have pb: "prefix (block_of ee es) ?b" by (intro block_of_grows) simp
  then have le: "unat (cu_delivered cur) \<le> length ?b" using looked.prems(4) by (simp add: prefix_length_le)
  have p: "poll_of env 0 cur = Some (length ?b, lines_text (drop (length (block_of ee es)) ?b))"
    using poll_looked[OF looked.hyps(2,3) _ _ assms(3) looked.prems(3) looked.hyps(5) le] looked.hyps(4) looked.prems assms(2) by simp
  let ?cur = "cur\<lparr>cu_delivered := of_nat (length ?b)\<rparr>"
  from collect_step[OF hs assms(4) looked.prems(1,8) _ core] looked.hyps(1) p obtain st' where
    a: "a = NewLines (lines_text (drop (length (block_of ee es)) ?b))" "has_store s' st'"
    "holds (ce_tod env 4) (key_to_name (Some key)) ?cur st'" by auto
  have cur: "good_cursor ?cur" "cu_cmd ?cur = cmd" "sint (cu_echo_secs ?cur) = entry_secs ee"
    "unat (cu_delivered ?cur) = length ?b"
    using looked.prems looked.hyps(6) by (simp_all add: good_cursor_def unat_of_nat)
  have "prefix ?b (block_of ee fs)" using polling_grows[OF looked.hyps(7)] by (rule block_of_grows)
  then obtain more where more: "block_of ee fs = ?b @ more" by (auto simp: prefix_def)
  then have "drop (length (block_of ee es)) (block_of ee fs) = drop (length (block_of ee es)) ?b @ drop (length ?b) (block_of ee fs)"
    using pb by (simp add: prefix_length_le)
  then have split: "lines_text (drop (length (block_of ee es)) (block_of ee fs)) =
      lines_text (drop (length (block_of ee es)) ?b) @ lines_text (drop (length ?b) (block_of ee fs))" by simp
  show ?case using looked.IH[OF cur, of "cs_ctx s'" _ st'] a core by (auto simp: has_store_def split)
qed


section \<open>A request for the witnesses\<close>

definition sample_csession :: csession where
  "sample_csession = \<lparr>ss_conn = sample_conn, ss_env = (\<lambda>_. None), ss_prints = [], ss_out = [],
     ss_headers_sent = False, rs_files = [], rs_jes = None, rs_console_lock = None,
     rs_dslist_lock = False, rs_acee = None, rs_old_acee = None, rs_task_acee = None, rs_calls = [],
     cs_ctx = None, cs_tick = 0\<rparr>"

definition line_echo :: MTENTRY where "line_echo = sample_entry ''0000  9.24.38 STC  320  D T''"
definition line_reply :: MTENTRY where "line_reply = sample_entry ''0000  9.24.38 STC  320  IEE136I LOCAL''"

definition sample_console :: "snap \<Rightarrow> console_env" where
  "sample_console sn = \<lparr>ce_racf = (\<lambda>_ _ _ _. 0), ce_acee = Some 1, ce_ctx_size = 32, ce_store_size = 7000, ce_anchor = 64,
     ce_storage = (\<lambda>_. True), ce_quiescing = (\<lambda>_. False), ce_trylock = (\<lambda>_. True), ce_snap = (\<lambda>_. sn),
     ce_tod = (\<lambda>_. 0)\<rparr>"

definition sample_cursor :: SOL_CURSOR where
  "sample_cursor = \<lparr>cu_issue_tod = 0, cu_delivered = 0, cu_echo_secs = 33878, cu_cmdlen = 3, cu_cmd = ''D T''\<rparr>"

lemma sample_block: "block_of line_echo [Some line_reply] = [''IEE136I LOCAL'']"
  by code_simp

lemma sample_echo: "is_echo_line (mtt_text line_echo) ''D T''" "entry_secs line_echo = 33878"
  "\<not> is_echo_line (mtt_text line_old) ''D T''"
  by code_simp+


end
