(* ===== verification/ConsoleIssue.thy ===== *)
theory ConsoleIssue
  imports ConsoleApi
begin

text \<open>
  Issuing a command, \<^verbatim>\<open>consoleIssueHandler\<close> of \<^verbatim>\<open>src/consapi.c\<close>: the checks of the request, the bracket
  of the correlation lock, the capture of the response and what is kept for later requests.

  The handler waits in two loops that end with the clock or with the server.  Its result is
  nothing for a clock that stands still.  \<open>read_content\<close> is \<^verbatim>\<open>read_request_content\<close> and \<open>to_host\<close> the
  translation of \<^verbatim>\<open>http_atoe\<close>, as for the handlers of jobs.
\<close>

unbundle bit_operations_syntax

section \<open>The request\<close>

definition CMD_MAX :: nat where "CMD_MAX = 126"

record issue_request =
  iq_cmd :: cstr
  iq_async :: bool
  iq_solkey :: cstr
  iq_unsolkey :: cstr
  iq_unsol_sync :: bool
  iq_detect_secs :: int
  iq_timeout :: cstr

text \<open>A refusal is a status with the three fields of a console error.\<close>

type_synonym refusal = "int \<times> int \<times> int \<times> cstr"

definition check_names :: "cstr option \<Rightarrow> cstr option \<Rightarrow> refusal option" where
  "check_names ct cn =
     (let cnlen = (case cn of None \<Rightarrow> 0 | Some n \<Rightarrow> length n) in
      if (case ct of None \<Rightarrow> True | Some t \<Rightarrow> c_strstr ''application/json'' t = None) then
        Some (HTTP_STATUS_BAD_REQUEST, 1, 6, ''The Content-Type cannot be handled, '' @ [CHR 0x27] @ ''application/json'' @ [CHR 0x27] @ '' is expected.'')
      else if cnlen < 2 \<or> cnlen > 8 then
        Some (HTTP_STATUS_BAD_REQUEST, 1, 14, ''Incorrect console name. The length must be greater than 1 and less than 9.'')
      else None)"

definition check_body :: "int \<Rightarrow> byte list option \<Rightarrow> refusal option" where
  "check_body rc body =
     (if rc = REQBODY_NOMEM then
        Some (HTTP_STATUS_INTERNAL_SERVER_ERROR, 8, 1, ''Storage for the request body could not be obtained.'')
      else if rc = REQBODY_TOO_LARGE then Some (HTTP_STATUS_PAYLOAD_TOO_LARGE, 1, 12, ''The request body is too large.'')
      else if rc \<noteq> REQBODY_OK \<or> body = None then
        Some (HTTP_STATUS_BAD_REQUEST, 1, 12, ''The body of the request is not in JSON format.'')
      else None)"

definition parse_request :: "cstr \<Rightarrow> refusal + issue_request" where
  "parse_request body =
     (case json_get_str body ''cmd'' (CMD_MAX + 2) of
        None \<Rightarrow> Inl (HTTP_STATUS_BAD_REQUEST, 1, 13, ''Cannot find '' @ [CHR 0x27] @ ''cmd'' @ [CHR 0x27] @ '' in request body, or value of ''
                  @ [CHR 0x27] @ ''cmd'' @ [CHR 0x27] @ '' is empty.'')
      | Some cmd \<Rightarrow>
          if cmd = [] then
            Inl (HTTP_STATUS_BAD_REQUEST, 1, 13, ''Cannot find '' @ [CHR 0x27] @ ''cmd'' @ [CHR 0x27] @ '' in request body, or value of ''
                  @ [CHR 0x27] @ ''cmd'' @ [CHR 0x27] @ '' is empty.'')
          else if length cmd > CMD_MAX then Inl (HTTP_STATUS_BAD_REQUEST, 1, 17, ''Command length must be less than 127.'')
          else
            let async = json_field body ''async'' 4; system = json_field body ''system'' 16;
                solkey = json_field body ''sol-key'' 64; solreg = json_field body ''solKeyReg'' 4;
                unsolkey = json_field body ''unsol-key'' 64; unsolreg = json_field body ''unsolKeyReg'' 4;
                dsync = json_field body ''unsol-detect-sync'' 4; dtime = json_field body ''detect-time'' 8;
                timeout = json_field body ''unsol-detect-timeout'' 8;
                secs = (if dtime \<noteq> [] then c_atoi dtime else 30) in
            if c_at solreg 0 = CHR ''Y'' \<and> solkey \<noteq> [] then
              Inl (HTTP_STATUS_BAD_REQUEST, 1, 25, ''Invalid value for sol-key: regular expressions are not supported.'')
            else if c_at unsolreg 0 = CHR ''Y'' \<and> unsolkey \<noteq> [] then
              Inl (HTTP_STATUS_BAD_REQUEST, 1, 25, ''Invalid value for unsol-key: regular expressions are not supported.'')
            else if system \<noteq> [] then
              Inl (HTTP_STATUS_BAD_REQUEST, 1, 5, ''Routing to another system is not supported.'')
            else Inr \<lparr>iq_cmd = map toupper cmd, iq_async = is_yes async, iq_solkey = solkey, iq_unsolkey = map toupper unsolkey,
                   iq_unsol_sync = is_yes dsync, iq_detect_secs = (if secs \<le> 0 then 30 else secs), iq_timeout = timeout\<rparr>)"

section \<open>Keys\<close>

text \<open>\<^verbatim>\<open>%08X\<close> and \<^verbatim>\<open>%07X\<close> of a value that has that many digits.\<close>

fun hex_n :: "nat \<Rightarrow> nat \<Rightarrow> cstr" where
  "hex_n 0 v = []"
| "hex_n (Suc k) v = hex_n k (v div 16) @ [hex_digit (v mod 16)]"

definition response_key :: "u64 \<Rightarrow> cstr" where
  "response_key tod = hex_n 8 (unat (ucast (drop_bit 32 tod) :: u32)) @ hex_n 8 (unat (ucast tod :: u32))"

definition detection_key :: "u64 \<Rightarrow> cstr" where
  "detection_key tod = CHR ''D'' # hex_n 7 (unat (ucast (drop_bit 12 tod AND 0xFFFFFFF) :: u32))"

definition endpoint_uri :: "nat \<Rightarrow> cstr \<Rightarrow> cstr \<Rightarrow> cstr \<Rightarrow> cstr" where
  "endpoint_uri sz cn what key = c_snprintf sz (''/zosmf/restconsoles/consoles/'' @ cn @ ''/'' @ what @ ''/'' @ key)"

definition endpoint_url :: "cstr \<Rightarrow> cstr option \<Rightarrow> cstr \<Rightarrow> cstr" where
  "endpoint_url scheme host uri =
     c_snprintf 256 (scheme @ ''://'' @ (case host of None \<Rightarrow> ''localhost'' | Some h \<Rightarrow> h) @ uri)"

section \<open>The bracket\<close>

datatype issue_end =
    Refused refusal
  | Answer "json_member list"

definition issued_anchor :: refusal where
  "issued_anchor = (HTTP_STATUS_INTERNAL_SERVER_ERROR, 8, 14,
     ''Command was issued; the Master Trace Table could not be copied, so unsolicited-message detection was not armed. Do not blindly retry -- retry re-issues the command.'')"

definition issued_capture :: refusal where
  "issued_capture = (HTTP_STATUS_INTERNAL_SERVER_ERROR, 8, 14,
     ''Command was issued; the Master Trace Table could not be copied, so the response could not be read. Do not blindly retry -- retry re-issues the command.'')"

definition issued_no_storage :: refusal where
  "issued_no_storage = (HTTP_STATUS_INTERNAL_SERVER_ERROR, 8, 14, ''Cannot get the command response.'')"

definition HTTP_STATUS_SERVICE_UNAVAILABLE :: int where "HTTP_STATUS_SERVICE_UNAVAILABLE = 503"
definition HTTP_STATUS_TOO_MANY_REQUESTS :: int where "HTTP_STATUS_TOO_MANY_REQUESTS = 429"

definition issued_abandoned :: refusal where
  "issued_abandoned = (HTTP_STATUS_SERVICE_UNAVAILABLE, 8, 15,
     ''Command was issued; response capture abandoned (server quiescing). Do not blindly retry -- retry re-issues the command.'')"

definition issued_detect_abandoned :: refusal where
  "issued_detect_abandoned = (HTTP_STATUS_SERVICE_UNAVAILABLE, 8, 15,
     ''Command was issued; unsolicited-message detection abandoned (server quiescing). Do not blindly retry -- retry re-issues the command.'')"

definition issued_detect_failed :: refusal where
  "issued_detect_failed = (HTTP_STATUS_INTERNAL_SERVER_ERROR, 8, 14,
     ''Command was issued; the Master Trace Table could not be copied, so unsolicited-message detection could not finish. Do not blindly retry -- retry re-issues the command.'')"

definition not_issued_quiescing :: refusal where
  "not_issued_quiescing = (HTTP_STATUS_SERVICE_UNAVAILABLE, 8, 17, ''Server is quiescing; the command was NOT issued. Retry later.'')"

definition not_issued_busy :: refusal where
  "not_issued_busy = (HTTP_STATUS_TOO_MANY_REQUESTS, 8, 16, ''Another console command is in progress. Retry the request.'')"

text \<open>The answer of a wait for the unsolicited message: a refusal, or the status with the message.\<close>

partial_function (option) detect_loop ::
  "console_env \<Rightarrow> cstr \<Rightarrow> MTT_ANCHOR \<Rightarrow> u32 \<Rightarrow> u32 \<Rightarrow> csession \<Rightarrow> ((refusal + cstr \<times> cstr) \<times> csession) option" where
  "detect_loop env key base start limit s =
     (let (q, s) = ask (ce_quiescing env) s in
      if q then Some (Inl issued_detect_abandoned, s)
      else
        let (sn, s) = ask (ce_snap env) s; r = mtt_detect_since sn key base DETECT_MSG_SIZE in
        case r of
          Some (Suc n, msg) \<Rightarrow> Some (Inr (''detected'', msg), s)
        | _ \<Rightarrow>
            let (now, s) = tod_hi env s in
            if now - start \<ge> limit
            then Some (if r = None then Inl issued_detect_failed else Inr (''timeout'', []), s)
            else detect_loop env key base start limit s)"

definition detect_limit :: "cstr \<Rightarrow> u32" where
  "detect_limit timeout =
     (let t = (if timeout \<noteq> [] then of_int (c_atoi timeout) else 20) in if t = 0 \<or> t > 60 then 20 else t)"

definition detection_for :: "issue_request \<Rightarrow> MTT_ANCHOR \<Rightarrow> u32 \<Rightarrow> SOL_DETECTION" where
  "detection_for iq base anchor_hi =
     \<lparr>sd_anchor_hi = anchor_hi, sd_detect_secs = of_int (iq_detect_secs iq), sd_base_secs = of_int (an_secs base),
      sd_base_same = of_nat (an_same base), sd_keylen = of_nat (length (iq_unsolkey iq)), sd_key = take 125 (iq_unsolkey iq)\<rparr>"

definition cursor_for :: "issue_request \<Rightarrow> u64 \<Rightarrow> nat \<Rightarrow> int \<Rightarrow> SOL_CURSOR" where
  "cursor_for iq tod delivered echo =
     \<lparr>cu_issue_tod = tod, cu_delivered = of_nat delivered, cu_echo_secs = of_int echo,
      cu_cmdlen = of_nat (length (iq_cmd iq)), cu_cmd = take 125 (iq_cmd iq)\<rparr>"

definition keep :: "console_env \<Rightarrow> cstr \<Rightarrow> byte list \<Rightarrow> csession \<Rightarrow> csession" where
  "keep env key val s =
     (let (store, s) = kvstore_of env s
      in if store = None then s else store_set env (key_to_name (Some key)) val store s)"

text \<open>Behind the capture: the members that say what became of the unsolicited message.\<close>

definition unsol_part ::
  "console_env \<Rightarrow> issue_request \<Rightarrow> MTT_ANCHOR \<Rightarrow> u64 \<Rightarrow> cstr \<Rightarrow> cstr option \<Rightarrow> cstr \<Rightarrow> csession \<Rightarrow>
     ((refusal + json_member list) \<times> csession) option" where
  "unsol_part env iq base tod scheme host cn s =
     (if iq_unsolkey iq = [] then Some (Inr [], s)
      else if iq_unsol_sync iq then
        let (start, s) = tod_hi env s in
        (case detect_loop env (iq_unsolkey iq) base start (detect_limit (iq_timeout iq)) s of
           None \<Rightarrow> None
         | Some (Inl r, s) \<Rightarrow> Some (Inl r, s)
         | Some (Inr (status, msg), s) \<Rightarrow>
             Some (Inr [MStr ''status'' (Some status), MStr ''msg'' (Some (c_str msg))], s))
      else
        let dkey = detection_key tod; duri = endpoint_uri 200 cn ''detections'' dkey; (hi, s) = tod_hi env s;
            s = keep env dkey (detection_bytes (detection_for iq base hi)) s
        in Some (Inr [MStr ''detection-key'' (Some dkey), MStr ''detection-url'' (Some (endpoint_url scheme host duri)),
                      MStr ''detection-uri'' (Some duri)], s))"

text \<open>From the issue of the command to the answer; the lock is held on entry and is let go of behind the capture.\<close>

definition after_issue ::
  "console_env \<Rightarrow> issue_request \<Rightarrow> cstr \<Rightarrow> cstr option \<Rightarrow> cstr \<Rightarrow> csession \<Rightarrow> (issue_end \<times> csession) option" where
  "after_issue env iq scheme host cn s =
     (let (base, s) = (if iq_unsolkey iq = [] then (Some \<lparr>an_secs = -1, an_same = 0\<rparr>, s)
                       else let (sn, s) = ask (ce_snap env) s in (mtt_detect_anchor sn (iq_unsolkey iq), s)) in
      case base of
        None \<Rightarrow> Some (Refused issued_anchor, s)
      | Some base \<Rightarrow>
          let (tod, s) = ask (ce_tod env) s; key = response_key tod; uri = endpoint_uri 160 cn ''solmsgs'' key;
              (storage, s) = ask (ce_storage env) s in
          if \<not> storage then Some (Refused issued_no_storage, s)
          else
            (case capture_response env (iq_cmd iq) RESP_CAP s of
               None \<Rightarrow> None
             | Some (captured, c, s) \<Rightarrow>
                 let s = console_lock_release s in
                 if captured = CONS_CAPTURE_FAILED then Some (Refused issued_capture, s)
                 else if captured = CONS_POLL_INTERRUPTED then Some (Refused issued_abandoned, s)
                 else
                   let resp = (if iq_async iq then [] else c_str (cp_out c));
                       delivered = (if iq_async iq then 0 else nat captured);
                       sol = (\<not> iq_async iq \<and> iq_solkey iq \<noteq> [] \<and> c_strstr (iq_solkey iq) resp \<noteq> None);
                       s = keep env key (cursor_bytes (cursor_for iq tod delivered (cp_echo c))) s in
                   (case unsol_part env iq base tod scheme host cn s of
                      None \<Rightarrow> None
                    | Some (Inl r, s) \<Rightarrow> Some (Refused r, s)
                    | Some (Inr unsol, s) \<Rightarrow>
                        Some (Answer ((if iq_async iq then [] else [MStr ''cmd-response'' (Some resp)]) @
                          [MStr ''cmd-response-key'' (Some key), MStr ''cmd-response-url'' (Some (endpoint_url scheme host uri)),
                           MStr ''cmd-response-uri'' (Some uri)] @
                          (if \<not> iq_async iq \<and> iq_solkey iq \<noteq> [] then [MBool ''sol-key-detected'' sol] else []) @ unsol), s))))"

definition issue_bracket ::
  "console_env \<Rightarrow> issue_request \<Rightarrow> cstr \<Rightarrow> cstr option \<Rightarrow> cstr \<Rightarrow> csession \<Rightarrow> (issue_end \<times> csession) option" where
  "issue_bracket env iq scheme host cn s =
     (let (q, s) = ask (ce_quiescing env) s;
          (lk, s) = (if q then (CONS_LOCK_QUIESCED, s) else console_lock_acquire env s) in
      if lk = CONS_LOCK_QUIESCED then Some (Refused not_issued_quiescing, s)
      else if lk \<noteq> 0 then Some (Refused not_issued_busy, s)
      else after_issue env iq scheme host cn (issue_command (iq_cmd iq) s))"

definition send_issue_end :: "httpd \<Rightarrow> issue_end \<Rightarrow> csession \<Rightarrow> int \<times> csession" where
  "send_issue_end srv e s =
     (case e of
        Refused (status, retcode, code, reason) \<Rightarrow> (-1, snd (send_console_error srv status retcode code reason s))
      | Answer ms \<Rightarrow>
          (case createResponseBuilder srv of
             None \<Rightarrow> (-1, s)
           | Some b \<Rightarrow>
               (case emit_item (hd_alloc srv) (IObj ms) b of
                  (rc, b) \<Rightarrow> if rc < 0 then (-1, s) else sendJSONResponse srv HTTP_STATUS_OK (Some b) s)))"

definition consoleIssueHandler ::
  "httpd \<Rightarrow> console_env \<Rightarrow> (byte list \<Rightarrow> cstr) \<Rightarrow> (csession \<Rightarrow> (int \<times> byte list option) \<times> csession) \<Rightarrow> csession \<Rightarrow>
     (int \<times> csession) option" where
  "consoleIssueHandler srv env to_host read_content s =
     (let cn = getPathParam s ''console-name''; ct = getHeaderParam s ''Content-Type''; host = getHeaderParam s ''Host'';
          scheme = getRequestScheme srv s; (rc, s) = console_authorize srv env s in
      if rc \<noteq> 0 then Some (-1, s)
      else case check_names ct cn of
        Some r \<Rightarrow> Some (send_issue_end srv (Refused r) s)
      | None \<Rightarrow>
          let ((rc, body), s) = read_content s in
          (case check_body rc body of
             Some r \<Rightarrow> Some (send_issue_end srv (Refused r) s)
           | None \<Rightarrow>
               (case parse_request (c_str (to_host (the body))) of
                  Inl r \<Rightarrow> Some (send_issue_end srv (Refused r) s)
                | Inr iq \<Rightarrow>
                    (case issue_bracket env iq scheme host (the cn) s of
                       None \<Rightarrow> None
                     | Some (e, s) \<Rightarrow> (case send_issue_end srv e s of (rc, s) \<Rightarrow> Some (rc, console_lock_release s))))))"

section \<open>Calls and the lock\<close>

text \<open>What is still to be let go of counts as called: steps that keep this sum touch neither command nor lock.\<close>

definition owed :: "csession \<Rightarrow> os_call list" where
  "owed s = (case rs_console_lock s of None \<Rightarrow> [] | Some a \<Rightarrow> [UnlockConsole a])"

definition settled :: "csession \<Rightarrow> os_call list" where
  "settled s = rs_calls s @ owed s"

definition keeps :: "csession \<Rightarrow> csession \<Rightarrow> bool" where
  "keeps s t \<longleftrightarrow> settled t = settled s \<and> (rs_console_lock s = None \<longrightarrow> rs_console_lock t = None) \<and>
     (cs_ctx s = None \<longleftrightarrow> cs_ctx t = None)"

lemma keeps_refl [simp]: "keeps s s"
  by (simp add: keeps_def)

lemma keeps_trans [trans]: "keeps s t \<Longrightarrow> keeps t u \<Longrightarrow> keeps s u"
  by (auto simp: keeps_def)

lemma keeps_tick [simp]: "keeps s (t\<lparr>cs_tick := n\<rparr>) \<longleftrightarrow> keeps s t"
  by (simp add: keeps_def settled_def owed_def)

lemma keeps_release: "keeps s (console_lock_release s)"
  by (auto simp: keeps_def settled_def owed_def console_lock_release_def do_call_def split: option.splits)

lemma released: "rs_console_lock (console_lock_release s) = None"
  by (auto simp: console_lock_release_def do_call_def split: option.splits)

lemma keeps_answers: "answers s t \<Longrightarrow> keeps s t"
  by (auto simp: answers_def keeps_def settled_def owed_def)

lemma keeps_ctx: "keeps s (t\<lparr>cs_tick := n, cs_ctx := map_option f (cs_ctx t)\<rparr>) \<longleftrightarrow> keeps s t"
  by (simp add: keeps_def settled_def owed_def)

lemma keeps_store_set: "keeps s (store_set env name v store s)"
  by (auto simp: store_set_def ask_def put_back_def Let_def keeps_ctx[simplified] split: prod.splits)

lemma kvstore_ctx: "mvsmf_kvstore a b c True ctx = (st, ctx') \<Longrightarrow> ctx' = None \<longleftrightarrow> ctx = None"
  by (cases ctx) (auto simp: mvsmf_kvstore_def mvsmf_ctx_get_def Let_def)

lemma keeps_kvstore_of: "kvstore_of env s = (st, t) \<Longrightarrow> keeps s t"
proof -
  assume k: "kvstore_of env s = (st, t)"
  obtain st' ctx where m: "mvsmf_kvstore (ce_ctx_size env) (ce_store_size env) (ce_storage env (cs_tick s)) True (cs_ctx s) = (st', ctx)"
    by force
  with k have "t = s\<lparr>cs_tick := cs_tick s + 1, cs_ctx := ctx\<rparr>" by (simp add: kvstore_of_def ask_def Let_def)
  with kvstore_ctx[OF m] show ?thesis by (simp add: keeps_def settled_def owed_def)
qed

lemma keeps_keep: "keeps s (keep env key v s)"
proof -
  obtain st t where k: "kvstore_of env s = (st, t)" by force
  with keeps_kvstore_of[OF k] keeps_store_set[of t env] show ?thesis
    by (auto simp: keep_def intro: keeps_trans)
qed

lemma keeps_capture_loop: "capture_loop env cmd outsz start c s = Some r \<Longrightarrow> keeps s (snd (snd r))"
proof (rule capture_loop.raw_induct[where P = "\<lambda>env cmd outsz start c s r. keeps s (snd (snd r))"], goal_cases)
  case (1 loop env cmd outsz start c s r)
  have IH: "loop env cmd outsz start c' t = Some r \<Longrightarrow> keeps t (snd (snd r))" for c' t by (rule 1(2))
  obtain d c' where p: "capture_poll (ce_snap env (Suc (cs_tick s))) cmd outsz c = (d, c')" by force
  from 1(3) p IH[of c' "s\<lparr>cs_tick := Suc (Suc (Suc (cs_tick s)))\<rparr>"] show ?case
    by (auto simp: ask_def tod_hi_def Let_def keeps_def settled_def owed_def split: if_splits)
qed simp

lemma keeps_detect_loop: "detect_loop env key base start limit s = Some r \<Longrightarrow> keeps s (snd r)"
proof (rule detect_loop.raw_induct[where P = "\<lambda>env key base start limit s r. keeps s (snd r)"], goal_cases)
  case (1 loop env key base start limit s r)
  have IH: "loop env key base start limit t = Some r \<Longrightarrow> keeps t (snd r)" for t by (rule 1(2))
  from 1(3) IH[of "s\<lparr>cs_tick := Suc (Suc (Suc (cs_tick s)))\<rparr>"] show ?case
    by (auto simp: ask_def tod_hi_def Let_def keeps_def settled_def owed_def split: if_splits option.splits nat.splits prod.splits)
qed simp

lemma keeps_capture_response:
  assumes "capture_response env cmd outsz s = Some (n, c, t)" shows "keeps s t"
proof -
  obtain start s1 where h: "tod_hi env s = (start, s1)" by force
  then have s1: "keeps s s1" by (auto simp: tod_hi_def ask_def Let_def)
  from assms h obtain f where "capture_loop env cmd outsz start
      \<lparr>cp_out = [], cp_total = 0, cp_echo = -1, cp_looked = False, cp_stable = 0, cp_prev = 0\<rparr> s1 = Some (f, c, t)"
    by (auto simp: capture_response_def split: option.splits)
  from keeps_capture_loop[OF this] s1 show ?thesis by (auto intro: keeps_trans)
qed

lemma keeps_unsol_part:
  assumes "unsol_part env iq base tod scheme host cn s = Some (r, t)" shows "keeps s t"
proof -
  obtain hi s1 where h: "tod_hi env s = (hi, s1)" by force
  then have s1: "keeps s s1" by (auto simp: tod_hi_def ask_def Let_def)
  show ?thesis
  proof (cases "iq_unsolkey iq = []")
    case True
    with assms show ?thesis by (simp add: unsol_part_def)
  next
    case False
    show ?thesis
    proof (cases "iq_unsol_sync iq")
      case True
      with assms h False obtain q where "detect_loop env (iq_unsolkey iq) base hi (detect_limit (iq_timeout iq)) s1 = Some (q, t)"
        by (auto simp: unsol_part_def split: option.splits sum.splits)
      from keeps_detect_loop[OF this] s1 show ?thesis by (auto intro: keeps_trans)
    next
      case async: False
      with assms h False have "t = keep env (detection_key tod) (detection_bytes (detection_for iq base hi)) s1"
        by (simp add: unsol_part_def Let_def)
      with s1 keeps_keep show ?thesis by (auto intro: keeps_trans)
    qed
  qed
qed

definition not_issued :: "issue_end \<Rightarrow> bool" where
  "not_issued e \<longleftrightarrow> e = Refused not_issued_quiescing \<or> e = Refused not_issued_busy"

lemma refusals_differ:
  "not_issued_quiescing \<notin> {issued_anchor, issued_capture, issued_abandoned, issued_detect_abandoned, issued_detect_failed, issued_no_storage}"
  "not_issued_busy \<notin> {issued_anchor, issued_capture, issued_abandoned, issued_detect_abandoned, issued_detect_failed, issued_no_storage}"
  by (simp_all add: not_issued_quiescing_def not_issued_busy_def issued_anchor_def issued_capture_def issued_abandoned_def
      issued_detect_abandoned_def issued_detect_failed_def issued_no_storage_def HTTP_STATUS_INTERNAL_SERVER_ERROR_def
      HTTP_STATUS_SERVICE_UNAVAILABLE_def HTTP_STATUS_TOO_MANY_REQUESTS_def)

lemma detect_loop_refusal:
  "detect_loop env key base start limit s = Some r \<Longrightarrow>
    (\<forall>e. fst r = Inl e \<longrightarrow> e = issued_detect_abandoned \<or> e = issued_detect_failed)"
proof (rule detect_loop.raw_induct[where P = "\<lambda>env key base start limit s r.
    \<forall>e. fst r = Inl e \<longrightarrow> e = issued_detect_abandoned \<or> e = issued_detect_failed"], goal_cases)
  case (1 loop env key base start limit s r)
  have IH: "loop env key base start limit t = Some r \<Longrightarrow>
      \<forall>e. fst r = Inl e \<longrightarrow> e = issued_detect_abandoned \<or> e = issued_detect_failed" for t by (rule 1(2))
  from 1(3) IH[of "s\<lparr>cs_tick := Suc (Suc (Suc (cs_tick s)))\<rparr>"] show ?case
    by (auto simp: ask_def tod_hi_def Let_def split: if_splits option.splits nat.splits prod.splits)
qed simp

lemma unsol_refusal:
  assumes "unsol_part env iq base tod scheme host cn s = Some (Inl e, t)"
  shows "e = issued_detect_abandoned \<or> e = issued_detect_failed"
proof -
  obtain hi s1 where h: "tod_hi env s = (hi, s1)" by force
  with assms have "detect_loop env (iq_unsolkey iq) base hi (detect_limit (iq_timeout iq)) s1 = Some (Inl e, t)"
    by (auto simp: unsol_part_def Let_def split: option.splits sum.splits if_splits)
  from detect_loop_refusal[OF this] show ?thesis by simp
qed

lemma issued_refusals:
  "q \<in> {issued_anchor, issued_capture, issued_abandoned, issued_detect_abandoned, issued_detect_failed, issued_no_storage} \<Longrightarrow>
   \<not> not_issued (Refused q)"
  using refusals_differ unfolding not_issued_def by blast

lemma answer_issued: "\<not> not_issued (Answer ms)"
  by (simp add: not_issued_def)

text \<open>Behind the issue no step issues another command, and no answer says that none was issued.\<close>

lemma after_issue_settles:
  assumes "after_issue env iq scheme host cn s = Some (e, t)" shows "keeps s t \<and> \<not> not_issued e"
proof -
  define b where "b = (if iq_unsolkey iq = [] then (Some \<lparr>an_secs = -1, an_same = 0\<rparr>, s)
                       else let (sn, s) = ask (ce_snap env) s in (mtt_detect_anchor sn (iq_unsolkey iq), s))"
  have bs: "keeps s (snd b)" by (auto simp: b_def ask_def)
  show ?thesis
  proof (cases "fst b")
    case None
    with assms bs show ?thesis
      unfolding after_issue_def b_def[symmetric] by (cases b) (auto simp: issued_refusals)
  next
    case (Some base)
    obtain s1 where b: "b = (Some base, s1)" using Some by (cases b) simp
    let ?s2 = "s1\<lparr>cs_tick := cs_tick s1 + 2\<rparr>"
    have s2: "keeps s ?s2" using bs b by simp
    show ?thesis
    proof (cases "ce_storage env (Suc (cs_tick s1))")
      case False
      with assms s2 show ?thesis unfolding after_issue_def b_def[symmetric] by (auto simp: b ask_def issued_refusals)
    next
      case True
      note st = this
      show ?thesis
      proof (cases "capture_response env (iq_cmd iq) RESP_CAP ?s2")
        case None
        with assms st show ?thesis unfolding after_issue_def b_def[symmetric] by (simp add: b ask_def)
      next
        case (Some x)
        then obtain n c s3 where x: "capture_response env (iq_cmd iq) RESP_CAP ?s2 = Some (n, c, s3)" by (metis prod_cases3)
        define s4 where "s4 = console_lock_release s3"
        have s4: "keeps s s4" unfolding s4_def
          using s2 keeps_capture_response[OF x] keeps_release by (metis keeps_trans)
        define tod where "tod = ce_tod env (cs_tick s1)"
        define s5 where "s5 = keep env (response_key tod)
          (cursor_bytes (cursor_for iq tod (if iq_async iq then 0 else nat n) (cp_echo c))) s4"
        have s5: "keeps s s5" unfolding s5_def using s4 keeps_keep by (rule keeps_trans)
        let ?u = "unsol_part env iq base tod scheme host cn s5"
        have "t = s4 \<and> (e = Refused issued_capture \<or> e = Refused issued_abandoned) \<or>
            (\<exists>q. ?u = Some (Inl q, t) \<and> e = Refused q) \<or> (\<exists>ms. ?u = Some (Inr ms, t) \<and> (\<exists>ns. e = Answer ns))"
          using assms st x unfolding after_issue_def b_def[symmetric]
          by (auto simp: b ask_def Let_def s4_def[symmetric] tod_def[symmetric] s5_def[symmetric]
              split: option.splits sum.splits if_splits)
        then consider "t = s4" "e = Refused issued_capture \<or> e = Refused issued_abandoned"
          | q where "?u = Some (Inl q, t)" "e = Refused q" | ms ns where "?u = Some (Inr ms, t)" "e = Answer ns" by blast
        then show ?thesis
        proof cases
          case 1
          with s4 show ?thesis by (auto simp: issued_refusals)
        next
          case 2
          from unsol_refusal[OF 2(1)] 2(2) have "\<not> not_issued e" by (auto simp: issued_refusals)
          with 2(1) s5 keeps_unsol_part show ?thesis by (blast intro: keeps_trans)
        next
          case 3
          with s5 keeps_unsol_part answer_issued show ?thesis by (blast intro: keeps_trans)
        qed
      qed
    qed
  qed
qed

section \<open>The handler\<close>

lemma acquire_loop_cases:
  "acquire_loop env a n s = (r, t) \<Longrightarrow>
   r = 0 \<and> rs_calls t = rs_calls s @ [LockConsole a] \<and> rs_console_lock t = Some a \<and> cs_ctx t = cs_ctx s \<or>
   (r = CONS_LOCK_BUSY \<or> r = CONS_LOCK_QUIESCED) \<and> rs_calls t = rs_calls s \<and> rs_console_lock t = rs_console_lock s \<and> cs_ctx t = cs_ctx s"
  by (induction env a n s rule: acquire_loop.induct)
    (auto simp: ask_def Let_def do_call_def split: if_splits)

definition bracket :: "console_env \<Rightarrow> MVSMF_CTX option \<Rightarrow> cstr \<Rightarrow> os_call list" where
  "bracket env ctx cmd =
     (case ctx of None \<Rightarrow> [Mgcr (take 100 cmd)] | Some _ \<Rightarrow> [LockConsole (ce_anchor env), Mgcr (take 100 cmd), UnlockConsole (ce_anchor env)])"

lemma bracket_exact:
  assumes "issue_bracket env iq scheme host cn s = Some (e, t)" "rs_console_lock s = None"
  shows "settled t = rs_calls s @ (if not_issued e then [] else bracket env (cs_ctx s) (iq_cmd iq))"
proof -
  let ?s1 = "s\<lparr>cs_tick := Suc (cs_tick s)\<rparr>"
  show ?thesis
  proof (cases "ce_quiescing env (cs_tick s)")
    case True
    with assms show ?thesis
      by (auto simp: issue_bracket_def ask_def not_issued_def settled_def owed_def)
  next
    case False
    obtain lk s2 where l: "console_lock_acquire env ?s1 = (lk, s2)" by force
    show ?thesis
    proof (cases "lk = 0")
      case True
      with l assms(2) have s2: "settled (issue_command (iq_cmd iq) s2) = rs_calls s @ bracket env (cs_ctx s) (iq_cmd iq)"
        using acquire_loop_cases[of env "ce_anchor env" CONS_LOCK_TRIES ?s1 lk s2]
        by (auto simp: console_lock_acquire_def console_lock_anchor_def mvsmf_ctx_get_def bracket_def settled_def owed_def
            issue_command_def do_call_def MGCR_MAX_def CONS_LOCK_BUSY_def CONS_LOCK_QUIESCED_def split: option.splits)
      from assms(1) l False True have a: "after_issue env iq scheme host cn (issue_command (iq_cmd iq) s2) = Some (e, t)"
        by (simp add: issue_bracket_def ask_def CONS_LOCK_QUIESCED_def)
      from after_issue_settles[OF a] s2 show ?thesis by (simp add: keeps_def)
    next
      case failed: False
      then have s2: "settled s2 = rs_calls s"
        using l assms(2) acquire_loop_cases[of env "ce_anchor env" CONS_LOCK_TRIES ?s1 lk s2]
        by (auto simp: console_lock_acquire_def console_lock_anchor_def settled_def owed_def split: option.splits)
      from assms(1) l False failed have "t = s2" "not_issued e"
        by (auto simp: issue_bracket_def ask_def not_issued_def split: if_splits)
      with s2 show ?thesis by simp
    qed
  qed
qed

lemma answers_console_error: "answers s (snd (send_console_error srv a b c d s))"
proof -
  have "answers s (snd (sendJSONResponse srv status b s))" for status b
    by (auto simp: sendJSONResponse_def answers_refl intro: answers_then answers_headers answers_data split: option.splits)
  then show ?thesis
    by (auto simp: send_console_error_def answers_refl answers_headers split: option.splits prod.splits)
qed

lemma answers_issue_end: "answers s (snd (send_issue_end srv e s))"
proof -
  have "answers s (snd (sendJSONResponse srv status b s))" for status b
    by (auto simp: sendJSONResponse_def answers_refl intro: answers_then answers_headers answers_data split: option.splits)
  then show ?thesis
    by (auto simp: send_issue_end_def answers_refl answers_console_error split: issue_end.splits option.splits prod.splits)
qed

lemma authorize_cases:
  assumes "console_authorize srv env s = (r, t)"
  shows "(r = 0 \<and> t = s \<and> ce_acee env \<noteq> None \<and> consauth_racf env = 0 \<or>
     r = -1 \<and> \<not> (ce_acee env \<noteq> None \<and> consauth_racf env = 0)) \<and> answers s t"
  using assms answers_report[of s srv]
  by (auto simp: console_authorize_def authdec_gate_def authdec_decide_def send_not_authorized_def answers_refl
      split: authdec.splits if_splits)

text \<open>What reading the body leaves alone.\<close>

definition only_reads :: "(csession \<Rightarrow> (int \<times> byte list option) \<times> csession) \<Rightarrow> bool" where
  "only_reads rd \<longleftrightarrow> (\<forall>s r t. rd s = (r, t) \<longrightarrow>
     rs_calls t = rs_calls s \<and> rs_console_lock t = rs_console_lock s \<and> cs_ctx t = cs_ctx s)"

definition permitted :: "console_env \<Rightarrow> bool" where
  "permitted env \<longleftrightarrow> ce_acee env \<noteq> None \<and> consauth_racf env = 0"

text \<open>
  C29: A console request leaves the correlation lock free and reaches the operating system in one of two
  ways.  Either with nothing at all, and then it was refused, with 8/16 or 8/17 when a valid command
  could not be issued; or with exactly one command, the first 100 characters of the one in the body,
  of a caller RACF permits, inside the lock when the server has one, taken before and let go of once
  afterwards, whatever happens in between.
\<close>
theorem command_bracketed:
  assumes "consoleIssueHandler srv env to_host rd s = Some (rc, s')" "rs_console_lock s = None" "only_reads rd"
  shows "rs_console_lock s' = None \<and>
    (rs_calls s' = rs_calls s \<and> rc = -1 \<or>
     (\<exists>body iq. permitted env \<and> fst (rd s) = (REQBODY_OK, Some body) \<and> parse_request (c_str (to_host body)) = Inr iq \<and>
        rs_calls s' = rs_calls s @ bracket env (cs_ctx s) (iq_cmd iq)))"
proof -
  obtain r s1 where au: "console_authorize srv env s = (r, s1)" by force
  note au' = authorize_cases[OF au]
  have end_rc: "fst (send_issue_end srv (Refused q) t) = -1" for q t
    by (cases q) (simp add: send_issue_end_def)
  have end_same: "rs_calls (snd (send_issue_end srv e t)) = rs_calls t \<and> rs_console_lock (snd (send_issue_end srv e t)) = rs_console_lock t" for e t
    using answers_issue_end[of t srv e] by (auto simp: answers_def)
  show ?thesis
  proof (cases "r = 0")
    case False
    with au' assms(1,2) au show ?thesis by (auto simp: consoleIssueHandler_def answers_def)
  next
    case True
    with au' have s1: "s1 = s" "permitted env" by (auto simp: permitted_def)
    show ?thesis
    proof (cases "check_names (getHeaderParam s ''Content-Type'') (getPathParam s ''console-name'')")
      case (Some q)
      with assms(1) au True s1 have "(rc, s') = send_issue_end srv (Refused q) s" by (simp add: consoleIssueHandler_def)
      with end_rc[of q s] end_same[of "Refused q" s] assms(2) show ?thesis by (metis fst_conv snd_conv)
    next
      case None
      obtain brc body s2 where rd: "rd s = ((brc, body), s2)" by (metis prod.collapse)
      with assms(3) have s2: "rs_calls s2 = rs_calls s" "rs_console_lock s2 = rs_console_lock s" "cs_ctx s2 = cs_ctx s"
        unfolding only_reads_def by blast+
      show ?thesis
      proof (cases "check_body brc body")
        case (Some q)
        with None assms(1) au True s1 rd have "(rc, s') = send_issue_end srv (Refused q) s2" by (simp add: consoleIssueHandler_def)
        with end_rc[of q s2] end_same[of "Refused q" s2] assms(2) s2 show ?thesis by (metis fst_conv snd_conv)
      next
        case ok: None
        then obtain b where b: "brc = REQBODY_OK" "body = Some b" by (auto simp: check_body_def split: if_splits)
        show ?thesis
        proof (cases "parse_request (c_str (to_host b))")
          case (Inl q)
          with None ok b assms(1) au True s1 rd have "(rc, s') = send_issue_end srv (Refused q) s2" by (simp add: consoleIssueHandler_def)
          with end_rc[of q s2] end_same[of "Refused q" s2] assms(2) s2 show ?thesis by (metis fst_conv snd_conv)
        next
          case (Inr iq)
          with None ok b assms(1) au True s1 rd obtain e s3 where br:
            "issue_bracket env iq (getRequestScheme srv s) (getHeaderParam s ''Host'') (the (getPathParam s ''console-name'')) s2 = Some (e, s3)"
            "rc = fst (send_issue_end srv e s3)" "s' = console_lock_release (snd (send_issue_end srv e s3))"
            by (auto simp: consoleIssueHandler_def split: option.splits prod.splits)
          have "rs_console_lock s2 = None" using s2 assms(2) by simp
          note ex = bracket_exact[OF br(1) this]
          have "settled (snd (send_issue_end srv e s3)) = settled s3" using end_same[of e s3] by (simp add: settled_def owed_def)
          moreover have "rs_calls s' = settled (snd (send_issue_end srv e s3))"
            unfolding br(3) by (auto simp: console_lock_release_def settled_def owed_def do_call_def split: option.splits)
          ultimately have calls: "rs_calls s' = rs_calls s @ (if not_issued e then [] else bracket env (cs_ctx s) (iq_cmd iq))"
            using ex s2 by simp
          have "rc = -1" if "not_issued e"
          proof -
            from that obtain q where "e = Refused q" unfolding not_issued_def by blast
            then show ?thesis using br(2) end_rc by simp
          qed
          with calls rd b Inr s1(2) released br(3) show ?thesis by (cases "not_issued e") auto
        qed
      qed
    qed
  qed
qed

section \<open>Returning\<close>

text \<open>
  A clock that runs: from every tick on there is a place where three looks in a row show at least
  \<open>d\<close> units of about a second since.
\<close>

definition hi_at :: "console_env \<Rightarrow> nat \<Rightarrow> u32" where
  "hi_at env k = ucast (drop_bit 32 (ce_tod env k))"

definition clock_runs :: "console_env \<Rightarrow> bool" where
  "clock_runs env \<longleftrightarrow> (\<forall>n. \<forall>d\<le>60. \<exists>k\<ge>n. \<forall>j\<in>{k, k + 1, k + 2}. d \<le> hi_at env j - hi_at env n)"

lemma capture_loop_returns:
  "\<forall>j\<in>{k, k + 1, k + 2}. POLL_SECONDS \<le> hi_at env j - start \<Longrightarrow> cs_tick s \<le> k \<Longrightarrow>
   \<exists>r. capture_loop env cmd outsz start c s = Some r"
proof (induction "k - cs_tick s" arbitrary: c s rule: less_induct)
  case less
  let ?s = "s\<lparr>cs_tick := cs_tick s + 3\<rparr>"
  obtain d c' where p: "capture_poll (ce_snap env (Suc (cs_tick s))) cmd outsz c = (d, c')" by force
  show ?case
  proof (cases "ce_quiescing env (cs_tick s) \<or> d \<or> POLL_SECONDS \<le> hi_at env (cs_tick s + 2) - start")
    case True
    then show ?thesis
      by (subst capture_loop.simps) (auto simp: ask_def Let_def p tod_hi_def hi_at_def eval_nat_numeral)
  next
    case False
    then have "cs_tick s + 2 \<notin> {k, k + 1, k + 2}" using less.prems(1) by blast
    then have k: "k - cs_tick ?s < k - cs_tick s" "cs_tick ?s \<le> k" using less.prems(2) by auto
    have "capture_loop env cmd outsz start c s = capture_loop env cmd outsz start c' ?s"
      using False by (subst capture_loop.simps) (simp add: ask_def Let_def p tod_hi_def hi_at_def eval_nat_numeral)
    with less.hyps[OF k(1) less.prems(1) k(2)] show ?thesis by simp
  qed
qed

lemma detect_loop_returns:
  "\<forall>j\<in>{k, k + 1, k + 2}. limit \<le> hi_at env j - start \<Longrightarrow> cs_tick s \<le> k \<Longrightarrow>
   \<exists>r. detect_loop env key base start limit s = Some r"
proof (induction "k - cs_tick s" arbitrary: s rule: less_induct)
  case less
  let ?s = "s\<lparr>cs_tick := cs_tick s + 3\<rparr>"
  let ?r = "mtt_detect_since (ce_snap env (Suc (cs_tick s))) key base DETECT_MSG_SIZE"
  have hi: "tod_hi env (s\<lparr>cs_tick := Suc (Suc (cs_tick s))\<rparr>) = (hi_at env (cs_tick s + 2), ?s)"
    by (simp add: tod_hi_def ask_def hi_at_def eval_nat_numeral)
  show ?case
  proof (cases "ce_quiescing env (cs_tick s) \<or> limit \<le> hi_at env (cs_tick s + 2) - start")
    case True
    then show ?thesis
      by (subst detect_loop.simps) (auto simp: ask_def Let_def hi split: option.splits nat.splits)
  next
    case False
    then have "cs_tick s + 2 \<notin> {k, k + 1, k + 2}" using less.prems(1) by blast
    then have k: "k - cs_tick ?s < k - cs_tick s" "cs_tick ?s \<le> k" using less.prems(2) by auto
    note IH = less.hyps[OF k(1) less.prems(1) k(2)]
    show ?thesis
      using False IH by (subst detect_loop.simps) (auto simp: ask_def Let_def hi split: option.splits nat.splits)
  qed
qed

lemma detect_limit_bound: "detect_limit t \<le> 60"
  by (simp add: detect_limit_def Let_def not_less)

lemma clock_after:
  "clock_runs env \<Longrightarrow> d \<le> 60 \<Longrightarrow> \<exists>k\<ge>n. \<forall>j\<in>{k, k + 1, k + 2}. d \<le> hi_at env j - hi_at env n"
  unfolding clock_runs_def by blast

lemma clock_behind:
  assumes "clock_runs env" "d \<le> 60" "0 < d" shows "\<exists>k\<ge>Suc n. \<forall>j\<in>{k, k + 1, k + 2}. d \<le> hi_at env j - hi_at env n"
proof -
  obtain k where k: "k \<ge> n" "\<forall>j\<in>{k, k + 1, k + 2}. d \<le> hi_at env j - hi_at env n"
    using clock_after[OF assms(1,2)] by blast
  from k(2) assms(3) have "k \<noteq> n" by auto
  with k show ?thesis by (metis Suc_leI le_neq_implies_less)
qed

lemma capture_response_returns: "clock_runs env \<Longrightarrow> \<exists>r. capture_response env cmd outsz s = Some r"
proof -
  assume run: "clock_runs env"
  obtain k where k: "k \<ge> Suc (cs_tick s)" "\<forall>j\<in>{k, k + 1, k + 2}. POLL_SECONDS \<le> hi_at env j - hi_at env (cs_tick s)"
    using clock_behind[OF run, of POLL_SECONDS "cs_tick s"] by (auto simp: POLL_SECONDS_def)
  let ?c = "\<lparr>cp_out = [], cp_total = 0, cp_echo = -1, cp_looked = False, cp_stable = 0, cp_prev = 0\<rparr>"
  have "cs_tick (s\<lparr>cs_tick := Suc (cs_tick s)\<rparr>) \<le> k" using k(1) by simp
  from capture_loop_returns[OF k(2) this, of cmd outsz ?c] obtain f c t where
    "capture_loop env cmd outsz (hi_at env (cs_tick s)) ?c (s\<lparr>cs_tick := Suc (cs_tick s)\<rparr>) = Some (f, c, t)"
    by (metis prod_cases3)
  then show ?thesis by (simp add: capture_response_def tod_hi_def ask_def hi_at_def)
qed

lemma unsol_part_returns: "clock_runs env \<Longrightarrow> \<exists>r. unsol_part env iq base tod scheme host cn s = Some r"
proof -
  assume run: "clock_runs env"
  have "0 < detect_limit (iq_timeout iq)" by (simp add: detect_limit_def Let_def word_gt_0)
  then obtain k where k: "k \<ge> Suc (cs_tick s)"
    "\<forall>j\<in>{k, k + 1, k + 2}. detect_limit (iq_timeout iq) \<le> hi_at env j - hi_at env (cs_tick s)"
    using clock_behind[OF run detect_limit_bound] by blast
  have "cs_tick (s\<lparr>cs_tick := Suc (cs_tick s)\<rparr>) \<le> k" using k(1) by simp
  from detect_loop_returns[OF k(2) this, of "iq_unsolkey iq" base] show ?thesis
    by (auto simp: unsol_part_def tod_hi_def ask_def hi_at_def Let_def split: sum.splits)
qed

lemma after_issue_returns:
  assumes "clock_runs env" shows "\<exists>r. after_issue env iq scheme host cn s = Some r"
proof -
  define b where "b = (if iq_unsolkey iq = [] then (Some \<lparr>an_secs = -1, an_same = 0\<rparr>, s)
                       else let (sn, s) = ask (ce_snap env) s in (mtt_detect_anchor sn (iq_unsolkey iq), s))"
  show ?thesis
  proof (cases "fst b")
    case None
    then show ?thesis unfolding after_issue_def b_def[symmetric] by (cases b) simp
  next
    case (Some base)
    obtain s1 where b: "b = (Some base, s1)" using Some by (cases b) simp
    let ?s2 = "s1\<lparr>cs_tick := cs_tick s1 + 2\<rparr>"
    obtain n c s3 where x: "capture_response env (iq_cmd iq) RESP_CAP ?s2 = Some (n, c, s3)"
      using capture_response_returns[OF assms] by (metis prod_cases3)
    have u: "\<exists>q t. unsol_part env iq base tod scheme host cn v = Some (q, t)" for tod v
      using unsol_part_returns[OF assms] by (metis prod.collapse)
    show ?thesis
    proof (cases "ce_storage env (Suc (cs_tick s1))")
      case False
      then show ?thesis unfolding after_issue_def b_def[symmetric] by (simp add: b ask_def)
    next
      case True
      define s4 where "s4 = console_lock_release s3"
      define tod where "tod = ce_tod env (cs_tick s1)"
      define s5 where "s5 = keep env (response_key tod)
          (cursor_bytes (cursor_for iq tod (if iq_async iq then 0 else nat n) (cp_echo c))) s4"
      obtain q t where q: "unsol_part env iq base tod scheme host cn s5 = Some (q, t)" using u by blast
      show ?thesis
        using True x q unfolding after_issue_def b_def[symmetric]
        by (cases q) (simp_all add: b ask_def Let_def s4_def[symmetric] tod_def[symmetric] s5_def[symmetric])
    qed
  qed
qed

lemma issue_total:
  assumes "clock_runs env"
  shows "\<exists>rc s'. consoleIssueHandler srv env to_host rd s = Some (rc, s')"
proof -
  have br: "\<exists>e t. issue_bracket env iq scheme host cn u = Some (e, t)" for iq scheme host cn u
  proof -
    have a: "\<exists>e t. after_issue env iq scheme host cn v = Some (e, t)" for v
      using after_issue_returns[OF assms] by (metis prod.collapse)
    obtain lk v where "(if ce_quiescing env (cs_tick u) then (CONS_LOCK_QUIESCED, u\<lparr>cs_tick := Suc (cs_tick u)\<rparr>)
        else console_lock_acquire env (u\<lparr>cs_tick := Suc (cs_tick u)\<rparr>)) = (lk, v)" by force
    with a show ?thesis by (simp add: issue_bracket_def ask_def)
  qed
  obtain r s1 where au: "console_authorize srv env s = (r, s1)" by force
  obtain brc body s2 where rd: "rd s1 = ((brc, body), s2)" by (metis prod.collapse)
  show ?thesis
  proof (cases "r = 0 \<and> check_names (getHeaderParam s ''Content-Type'') (getPathParam s ''console-name'') = None \<and>
      check_body brc body = None \<and> (\<exists>iq. parse_request (c_str (to_host (the body))) = Inr iq)")
    case True
    then obtain iq where iq: "parse_request (c_str (to_host (the body))) = Inr iq" by blast
    obtain e t where "issue_bracket env iq (getRequestScheme srv s) (getHeaderParam s ''Host'')
        (the (getPathParam s ''console-name'')) s2 = Some (e, t)" using br by blast
    with True iq au rd show ?thesis by (simp add: consoleIssueHandler_def split: prod.splits)
  next
    case False
    have "\<exists>x. consoleIssueHandler srv env to_host rd s = Some x"
    proof (cases "parse_request (c_str (to_host (the body)))")
      case (Inl q)
      with au rd show ?thesis by (simp add: consoleIssueHandler_def Let_def split: option.splits)
    next
      case (Inr iq)
      with False au rd show ?thesis by (auto simp: consoleIssueHandler_def Let_def split: option.splits)
    qed
    then show ?thesis by (metis prod.collapse)
  qed
qed

section \<open>Witnesses and limits\<close>

definition sample_body :: cstr where
  "sample_body = [CHR ''{'', dquote] @ ''cmd'' @ [dquote, CHR '':'', dquote] @ ''d t'' @ [dquote, CHR ''}'']"

definition sample_issue :: console_env where
  "sample_issue = (sample_console (Table [Some line_echo, Some line_reply]))\<lparr>ce_tod := (\<lambda>k. push_bit 32 (of_nat k))\<rparr>"

lemma sample_clock: "clock_runs sample_issue"
proof -
  have "d \<le> hi_at sample_issue j - hi_at sample_issue n" if "d \<le> 60" "j \<in> {n + 60, n + 61, n + 62}" for d n j
  proof -
    have h: "hi_at sample_issue k = of_nat k" for k
      by (rule bit_word_eqI) (auto simp: hi_at_def sample_issue_def bit_simps)
    have "hi_at sample_issue j - hi_at sample_issue n \<in> {60, 61, 62}" using that(2) by (auto simp: h)
    moreover have "(60 :: u32) \<le> 61" "(60 :: u32) \<le> 62" by simp_all
    ultimately show ?thesis using that(1) by (auto intro: order.trans)
  qed
  note late = this
  show ?thesis
    unfolding clock_runs_def
  proof (intro allI impI)
    fix n :: nat and d :: u32
    assume d: "d \<le> 60"
    have "{n + 60, n + 60 + 1, n + 60 + 2} = {n + 60, n + 61, n + 62}" by (auto simp: add.commute)
    with late[OF d] have "\<forall>j\<in>{n + 60, n + 60 + 1, n + 60 + 2}. d \<le> hi_at sample_issue j - hi_at sample_issue n" by blast
    then show "\<exists>k\<ge>n. \<forall>j\<in>{k, k + 1, k + 2}. d \<le> hi_at sample_issue j - hi_at sample_issue n"
      by (intro exI[of _ "n + 60"]) simp
  qed
qed

definition sample_read :: "csession \<Rightarrow> (int \<times> byte list option) \<times> csession" where
  "sample_read s = ((REQBODY_OK, Some []), s)"

text \<open>
  C30: A console request returns: whatever the table, the lock, the storage and the flags of the server
  show, on a clock that runs neither the wait for the response nor that for the unsolicited message
  goes on for ever.
\<close>
theorem issue_returns: "clock_runs env \<Longrightarrow> \<exists>rc s'. consoleIssueHandler srv env to_host rd s = Some (rc, s')"
  by (rule issue_total)

theorem issue_returns_witness:
  "\<exists>rc s'. consoleIssueHandler sample_httpd sample_issue (\<lambda>_. sample_body) sample_read sample_csession = Some (rc, s')"
  by (rule issue_returns[OF sample_clock])

theorem command_bracketed_witness:
  "\<exists>rc s'. consoleIssueHandler sample_httpd sample_issue (\<lambda>_. sample_body) sample_read sample_csession = Some (rc, s') \<and>
    rs_console_lock s' = None \<and> (rs_calls s' = [] \<and> rc = -1 \<or> (\<exists>cmd. rs_calls s' = [Mgcr (take 100 cmd)]))"
proof -
  obtain rc s' where r: "consoleIssueHandler sample_httpd sample_issue (\<lambda>_. sample_body) sample_read sample_csession = Some (rc, s')"
    using issue_total[OF sample_clock] by blast
  have "rs_console_lock sample_csession = None" "only_reads sample_read"
    by (simp_all add: sample_csession_def only_reads_def sample_read_def)
  from command_bracketed[OF r this] r show ?thesis
    by (auto simp: sample_csession_def bracket_def)
qed

end
