(* ===== verification/Headers.thy ===== *)
theory Headers
  imports Dispatch
begin

text \<open>
  Small parsers of request headers and the information endpoint: \<^verbatim>\<open>src/datatype.c\<close>, \<^verbatim>\<open>src/hostparse.c\<close>
  and \<^verbatim>\<open>src/infoapi.c\<close>.  The version of the build comes out of a generated file and is a parameter.
\<close>

section \<open>X-IBM-Data-Type\<close>

datatype data_type = DATA_TYPE_TEXT | DATA_TYPE_BINARY | DATA_TYPE_RECORD

datatype file_encoding = FILE_ENC_DEFAULT | FILE_ENC_IBM037 | FILE_ENC_IBM1047

text \<open>The \<open>len\<close> bytes at a place are a list here.\<close>

definition token_is :: "cstr \<Rightarrow> cstr \<Rightarrow> bool" where
  "token_is s word \<longleftrightarrow> length s = length word \<and> map toupper s = map toupper word"

definition encoding_of :: "cstr \<Rightarrow> file_encoding option" where
  "encoding_of s =
     (if token_is s ''IBM-037'' \<or> token_is s ''037'' then Some FILE_ENC_IBM037
      else if token_is s ''IBM-1047'' \<or> token_is s ''1047'' then Some FILE_ENC_IBM1047
      else None)"

definition ENCODING_KEY :: cstr where "ENCODING_KEY = ''fileEncoding=''"

text \<open>The loop over the parameters, at a semicolon or at the end; the flag is the return code.\<close>

function encoding_loop :: "cstr \<Rightarrow> bool \<times> file_encoding" where
  "encoding_loop p =
     (if c_at p 0 \<noteq> CHR '';'' then (True, FILE_ENC_DEFAULT)
      else
        let q = drop 1 p; tok = takeWhile (\<lambda>c. c \<noteq> CHR '';'') q; rest = drop (length tok) q in
        if length tok < length ENCODING_KEY \<or> \<not> token_is (take (length ENCODING_KEY) tok) ENCODING_KEY
        then encoding_loop rest
        else if length tok = length ENCODING_KEY then encoding_loop rest
        else case encoding_of (drop (length ENCODING_KEY) tok) of
          None \<Rightarrow> (False, FILE_ENC_DEFAULT)
        | Some e \<Rightarrow> (True, e))"
  by auto
termination
  by (relation "measure length") (auto simp: c_at_def split: if_splits)

declare encoding_loop.simps [simp del]

definition parse_data_type :: "cstr option \<Rightarrow> bool \<times> data_type \<times> file_encoding" where
  "parse_data_type value =
     (case value of
        None \<Rightarrow> (True, DATA_TYPE_TEXT, FILE_ENC_DEFAULT)
      | Some v \<Rightarrow>
          let tok = takeWhile (\<lambda>c. c \<noteq> CHR '';'') v;
              dt = (if token_is tok ''binary'' then DATA_TYPE_BINARY
                    else if token_is tok ''record'' then DATA_TYPE_RECORD else DATA_TYPE_TEXT) in
          if dt \<noteq> DATA_TYPE_TEXT then (True, dt, FILE_ENC_DEFAULT)
          else (case encoding_loop (drop (length tok) v) of (ok, e) \<Rightarrow> (ok, dt, e)))"

section \<open>Host\<close>

definition parse_host_name :: "cstr option \<Rightarrow> nat \<Rightarrow> int + cstr" where
  "parse_host_name value out_size =
     (case value of
        None \<Rightarrow> Inl (-1)
      | Some v \<Rightarrow>
          if out_size = 0 then Inl (-1)
          else
            let host = takeWhile (\<lambda>c. c \<noteq> CHR '':'') v in
            if host = [] then Inl (-3) else if length host \<ge> out_size then Inl (-2) else Inr host)"

definition parse_port_string :: "cstr option \<Rightarrow> nat \<Rightarrow> int + cstr" where
  "parse_port_string value out_size =
     (case value of
        None \<Rightarrow> Inl (-1)
      | Some v \<Rightarrow>
          if out_size = 0 then Inl (-1)
          else (case c_strchr (CHR '':'') v of
              None \<Rightarrow> Inr []
            | Some colon \<Rightarrow>
                let port = drop 1 colon in
                if port = [] then Inr []
                else if length port + 1 > out_size then Inl (-2)
                else Inr (take (out_size - 1) port)))"

definition port_value :: "cstr \<Rightarrow> nat" where
  "port_value p = foldl (\<lambda>n c. n * 10 + digit_val c) 0 p"

definition validate_port :: "cstr option \<Rightarrow> bool" where
  "validate_port port =
     (case port of
        None \<Rightarrow> False
      | Some p \<Rightarrow> p \<noteq> [] \<and> list_all is_digit p \<and> 1 \<le> port_value p \<and> port_value p \<le> 65535)"

section \<open>GET /zosmf/info\<close>

definition MAX_HOST_NAME_LENGTH :: nat where "MAX_HOST_NAME_LENGTH = 256"
definition MAX_PORT_LENGTH :: nat where "MAX_PORT_LENGTH = 6"
definition DEFAULT_HOST :: cstr where "DEFAULT_HOST = ''127.0.0.1''"
definition DEFAULT_PORT :: cstr where "DEFAULT_PORT = ''8080''"

definition default_port :: "httpd \<Rightarrow> rsession \<Rightarrow> nat \<Rightarrow> cstr" where
  "default_port srv s out_size =
     (case getHeaderParam s ''X-Forwarded-Port'' of
        Some p \<Rightarrow>
          if length p < out_size \<and> validate_port (Some p) then p
          else if getRequestScheme srv s = ''https'' then ''443'' else ''80''
      | None \<Rightarrow> if getRequestScheme srv s = ''https'' then ''443'' else ''80'')"

text \<open>The host and the port the document names.\<close>

definition info_address :: "httpd \<Rightarrow> rsession \<Rightarrow> cstr \<times> cstr" where
  "info_address srv s =
     (case getHeaderParam s ''Host'' of
        None \<Rightarrow> (DEFAULT_HOST, DEFAULT_PORT)
      | Some v \<Rightarrow>
          let host = (case parse_host_name (Some v) MAX_HOST_NAME_LENGTH of Inl _ \<Rightarrow> DEFAULT_HOST | Inr h \<Rightarrow> h);
              port = (case parse_port_string (Some v) MAX_PORT_LENGTH of Inl _ \<Rightarrow> [] | Inr p \<Rightarrow> p)
          in (host, if \<not> validate_port (Some port) then default_port srv s MAX_PORT_LENGTH else port))"

definition info_members :: "cstr \<Rightarrow> cstr \<times> cstr \<Rightarrow> json_member list" where
  "info_members version addr =
     [MStr ''zosmf_hostname'' (Some (fst addr)), MStr ''zosmf_port'' (Some (snd addr)), MStr ''zosmf_version'' (Some ''1''),
      MStr ''zosmf_full_version'' (Some version), MRaw ''plugins'' ''[]'', MStr ''zosmf_saf_realm'' (Some ''SAFRealm''),
      MStr ''api_version'' (Some ''1''), MStr ''zos_version'' (Some ''MVS 3.8j'')]"

definition infoHandler :: "httpd \<Rightarrow> cstr \<Rightarrow> rsession \<Rightarrow> int \<times> rsession" where
  "infoHandler srv version s =
     (case createResponseBuilder srv of
        None \<Rightarrow>
          (8, snd (sendDefaultHeaders srv HTTP_STATUS_INTERNAL_SERVER_ERROR (Some HTTP_CONTENT_TYPE_NONE) 0 s))
      | Some b \<Rightarrow>
          (case emit_item (hd_alloc srv) (IObj (info_members version (info_address srv s))) b of
             (rc, b) \<Rightarrow>
               if rc < 0 then (8, s)
               else (case sendJSONResponse srv 200 (Some b) s of
                  (rc, s) \<Rightarrow> (if rc < 0 then 8 else RC_SUCCESS, s))))"

section \<open>Facts\<close>

text \<open>The parameters of a header behind its first token, one by one.\<close>

lemma encoding_loop_end: "encoding_loop [] = (True, FILE_ENC_DEFAULT)"
  by (subst encoding_loop.simps) (simp add: c_at_def)

lemma encoding_loop_param:
  assumes "CHR '';'' \<notin> set tok" "rest = [] \<or> hd rest = CHR '';''"
  shows "encoding_loop (CHR '';'' # tok @ rest) =
    (if length tok \<le> length ENCODING_KEY \<or> \<not> token_is (take (length ENCODING_KEY) tok) ENCODING_KEY
     then encoding_loop rest
     else case encoding_of (drop (length ENCODING_KEY) tok) of None \<Rightarrow> (False, FILE_ENC_DEFAULT) | Some e \<Rightarrow> (True, e))"
proof -
  have "\<forall>c\<in>set tok. c \<noteq> CHR '';''" using assms(1) by auto
  moreover have "takeWhile (\<lambda>c. c \<noteq> CHR '';'') rest = []" using assms(2) by (cases rest) auto
  ultimately have "takeWhile (\<lambda>c. c \<noteq> CHR '';'') (tok @ rest) = tok" by (simp add: takeWhile_append)
  then show ?thesis
    by (subst encoding_loop.simps) (auto simp: c_at_def Let_def)
qed

text \<open>A header as its parts.\<close>

definition semi_join :: "cstr \<Rightarrow> cstr list \<Rightarrow> cstr" where
  "semi_join t ps = t @ concat (map (\<lambda>p. CHR '';'' # p) ps)"

definition names_encoding :: "cstr \<Rightarrow> bool" where
  "names_encoding p \<longleftrightarrow>
     length p > length ENCODING_KEY \<and> token_is (take (length ENCODING_KEY) p) ENCODING_KEY"

definition first_encoding :: "cstr list \<Rightarrow> cstr option" where
  "first_encoding ps = map_option (drop (length ENCODING_KEY)) (find names_encoding ps)"

lemma encoding_loop_params:
  "\<forall>p\<in>set ps. CHR '';'' \<notin> set p \<Longrightarrow>
   encoding_loop (concat (map (\<lambda>p. CHR '';'' # p) ps)) =
     (case first_encoding ps of None \<Rightarrow> (True, FILE_ENC_DEFAULT)
      | Some v \<Rightarrow> (case encoding_of v of None \<Rightarrow> (False, FILE_ENC_DEFAULT) | Some e \<Rightarrow> (True, e)))"
proof (induction ps)
  case Nil
  then show ?case by (simp add: encoding_loop_end first_encoding_def)
next
  case (Cons p ps)
  let ?rest = "concat (map (\<lambda>p. CHR '';'' # p) ps)"
  have n: "\<not> names_encoding p \<longleftrightarrow>
      length p \<le> length ENCODING_KEY \<or> \<not> token_is (take (length ENCODING_KEY) p) ENCODING_KEY"
    by (auto simp: names_encoding_def)
  have "?rest = [] \<or> hd ?rest = CHR '';''" by (cases ps) auto
  with Cons.prems have "encoding_loop (CHR '';'' # p @ ?rest) = (if \<not> names_encoding p then encoding_loop ?rest
      else case encoding_of (drop (length ENCODING_KEY) p) of None \<Rightarrow> (False, FILE_ENC_DEFAULT) | Some e \<Rightarrow> (True, e))"
    using encoding_loop_param[of p ?rest] n by (simp only: list.set simp_thms) blast
  with Cons show ?case by (simp add: first_encoding_def)
qed

text \<open>
  What the header means: the first token says what is transferred, and for text the first parameter
  that names an encoding with a value decides; only an encoding the server does not have is refused.
\<close>

lemma data_type_of_parts:
  assumes "CHR '';'' \<notin> set t" "\<forall>p\<in>set ps. CHR '';'' \<notin> set p"
  shows "parse_data_type (Some (semi_join t ps)) =
    (if token_is t ''binary'' then (True, DATA_TYPE_BINARY, FILE_ENC_DEFAULT)
     else if token_is t ''record'' then (True, DATA_TYPE_RECORD, FILE_ENC_DEFAULT)
     else case first_encoding ps of None \<Rightarrow> (True, DATA_TYPE_TEXT, FILE_ENC_DEFAULT)
     | Some v \<Rightarrow> (case encoding_of v of None \<Rightarrow> (False, DATA_TYPE_TEXT, FILE_ENC_DEFAULT)
          | Some e \<Rightarrow> (True, DATA_TYPE_TEXT, e)))"
proof -
  let ?rest = "concat (map (\<lambda>p. CHR '';'' # p) ps)"
  have "\<forall>c\<in>set t. c \<noteq> CHR '';''" using assms(1) by auto
  moreover have "takeWhile (\<lambda>c. c \<noteq> CHR '';'') ?rest = []" by (cases ps) auto
  ultimately have "takeWhile (\<lambda>c. c \<noteq> CHR '';'') (t @ ?rest) = t" by (simp add: takeWhile_append)
  then show ?thesis
    using encoding_loop_params[OF assms(2)]
    by (auto simp: parse_data_type_def semi_join_def Let_def split: option.splits)
qed

lemma valid_port_80: "validate_port (Some ''80'')" "validate_port (Some ''443'')" "validate_port (Some ''8080'')"
  by (simp_all add: validate_port_def port_value_def is_digit_def digit_val_def less_eq_char_def)

lemma default_port_valid: "validate_port (Some (default_port srv s n))"
  by (auto simp: default_port_def valid_port_80 split: option.splits)

text \<open>
  Whatever Host header a client sends, the information document names a host that is not empty and
  has no port in it, and a port a client can use.
\<close>
lemma info_names_usable_address:
  "validate_port (Some (snd (info_address srv s))) \<and> fst (info_address srv s) \<noteq> [] \<and>
   CHR '':'' \<notin> set (fst (info_address srv s)) \<and> length (fst (info_address srv s)) < 256"
proof (cases "getHeaderParam s ''Host''")
  case None
  then show ?thesis by (simp add: info_address_def DEFAULT_HOST_def DEFAULT_PORT_def valid_port_80)
next
  case (Some v)
  have "CHR '':'' \<notin> set (takeWhile (\<lambda>c. c \<noteq> CHR '':'') v)" by (auto dest: set_takeWhileD)
  with Some default_port_valid show ?thesis
    by (auto simp: info_address_def parse_host_name_def Let_def DEFAULT_HOST_def MAX_HOST_NAME_LENGTH_def not_le)
qed

end
