(* ===== verification/UssFiles.thy ===== *)
theory UssFiles
  imports Headers ETag
begin

text \<open>
  Reading and writing UNIX files: \<^verbatim>\<open>src/ussread.c\<close> and the first half of \<^verbatim>\<open>src/ussapi.c\<close>, up to \<^verbatim>\<open>ussPutHandler\<close>.

  The file system is libufs, which is not in the repository: \<open>libufs\<close> collects its functions over a
  state of its own, which the session carries along.  Its calls that open or change something are
  recorded with the other calls to the operating system.  A loop that reads until the file ends is a
  partial function: nothing is its result on a file that never ends.  \<open>read_content\<close> is
  \<^verbatim>\<open>read_request_content\<close>, as for the handlers of jobs.
\<close>

section \<open>Return codes\<close>

text \<open>The codes the source names, and any other.\<close>

datatype ufsd_rc =
    UFSD_RC_OK | UFSD_RC_NOFILE | UFSD_RC_EXIST | UFSD_RC_NOTDIR | UFSD_RC_ISDIR | UFSD_RC_NOSPACE
  | UFSD_RC_NOINODES | UFSD_RC_IO | UFSD_RC_BADFD | UFSD_RC_NOTEMPTY | UFSD_RC_NAMETOOLONG | UFSD_RC_ROFS
  | UFSD_RC_other int

definition ufsd_rc_to_http :: "ufsd_rc \<Rightarrow> int" where
  "ufsd_rc_to_http rc =
     (case rc of
        UFSD_RC_OK \<Rightarrow> 200 | UFSD_RC_NOFILE \<Rightarrow> 404 | UFSD_RC_EXIST \<Rightarrow> 400 | UFSD_RC_NOTDIR \<Rightarrow> 400
      | UFSD_RC_ISDIR \<Rightarrow> 400 | UFSD_RC_NOSPACE \<Rightarrow> 500 | UFSD_RC_NOINODES \<Rightarrow> 500 | UFSD_RC_IO \<Rightarrow> 500
      | UFSD_RC_BADFD \<Rightarrow> 500 | UFSD_RC_NOTEMPTY \<Rightarrow> 400 | UFSD_RC_NAMETOOLONG \<Rightarrow> 400 | UFSD_RC_ROFS \<Rightarrow> 400
      | UFSD_RC_other _ \<Rightarrow> 500)"

definition ufsd_rc_to_category :: "ufsd_rc \<Rightarrow> u32" where
  "ufsd_rc_to_category rc =
     (case rc of
        UFSD_RC_NOFILE \<Rightarrow> 6 | UFSD_RC_EXIST \<Rightarrow> 4 | UFSD_RC_NOTDIR \<Rightarrow> 2 | UFSD_RC_ISDIR \<Rightarrow> 2
      | UFSD_RC_NOSPACE \<Rightarrow> 8 | UFSD_RC_NOINODES \<Rightarrow> 8 | UFSD_RC_IO \<Rightarrow> 10 | UFSD_RC_BADFD \<Rightarrow> 10
      | UFSD_RC_NOTEMPTY \<Rightarrow> 4 | UFSD_RC_NAMETOOLONG \<Rightarrow> 2 | UFSD_RC_ROFS \<Rightarrow> 4 | _ \<Rightarrow> 10)"

definition ufsd_rc_message :: "ufsd_rc \<Rightarrow> cstr" where
  "ufsd_rc_message rc =
     (case rc of
        UFSD_RC_OK \<Rightarrow> ''Success''
      | UFSD_RC_NOFILE \<Rightarrow> ''File or directory not found''
      | UFSD_RC_EXIST \<Rightarrow> ''File or directory already exists''
      | UFSD_RC_NOTDIR \<Rightarrow> ''Not a directory''
      | UFSD_RC_ISDIR \<Rightarrow> ''Is a directory''
      | UFSD_RC_NOSPACE \<Rightarrow> ''No space left on device''
      | UFSD_RC_NOINODES \<Rightarrow> ''No inodes available''
      | UFSD_RC_IO \<Rightarrow> ''I/O error''
      | UFSD_RC_BADFD \<Rightarrow> ''Bad file descriptor''
      | UFSD_RC_NOTEMPTY \<Rightarrow> ''Directory not empty''
      | UFSD_RC_NAMETOOLONG \<Rightarrow> ''Path name too long''
      | UFSD_RC_ROFS \<Rightarrow> ''Read-only file system''
      | UFSD_RC_other _ \<Rightarrow> ''Unknown UFSD error'')"

section \<open>The file system\<close>

text \<open>An entry of a directory; its time is what \<^verbatim>\<open>mgmtime64\<close> makes of it: year, month, day, hour,
  minute and second.\<close>

record UFSDLIST =
  ul_name :: cstr
  ul_attr :: cstr
  ul_filesize :: nat
  ul_owner :: cstr
  ul_group :: cstr
  ul_nlink :: nat
  ul_mtime :: "(nat \<times> nat \<times> nat \<times> nat \<times> nat \<times> nat) option"
  ul_inode :: nat

text \<open>A return code other than \<open>UFSD_RC_OK\<close> is not zero.\<close>

record 'u libufs =
  lu_path_max :: nat
  lu_last_rc :: "'u \<Rightarrow> ufsd_rc"
  lu_setuser :: "cstr \<Rightarrow> cstr \<Rightarrow> 'u \<Rightarrow> 'u"
  lu_fopen :: "cstr \<Rightarrow> cstr \<Rightarrow> 'u \<Rightarrow> nat option \<times> 'u"
  lu_error :: "nat \<Rightarrow> 'u \<Rightarrow> ufsd_rc"
  lu_ferror :: "nat \<Rightarrow> 'u \<Rightarrow> bool"
  lu_feof :: "nat \<Rightarrow> 'u \<Rightarrow> bool"
  lu_fread :: "nat \<Rightarrow> nat \<Rightarrow> 'u \<Rightarrow> byte list \<times> 'u"
  lu_fwrite :: "nat \<Rightarrow> byte list \<Rightarrow> 'u \<Rightarrow> nat \<times> 'u"
  lu_fclose :: "nat \<Rightarrow> 'u \<Rightarrow> 'u"
  lu_stat :: "cstr \<Rightarrow> 'u \<Rightarrow> (ufsd_rc \<times> UFSDLIST) \<times> 'u"
  lu_diropen :: "cstr \<Rightarrow> 'u \<Rightarrow> nat option \<times> 'u"
  lu_dirread :: "nat \<Rightarrow> 'u \<Rightarrow> UFSDLIST option \<times> 'u"
  lu_dirclose :: "nat \<Rightarrow> 'u \<Rightarrow> 'u"
  lu_mkdir :: "cstr \<Rightarrow> 'u \<Rightarrow> ufsd_rc \<times> 'u"
  lu_rmdir :: "cstr \<Rightarrow> 'u \<Rightarrow> ufsd_rc \<times> 'u"
  lu_remove :: "cstr \<Rightarrow> 'u \<Rightarrow> ufsd_rc \<times> 'u"
  lu_set_create_perm :: "nat \<Rightarrow> 'u \<Rightarrow> nat \<times> 'u"

record HTTPCP =
  cp_etoa :: "byte \<Rightarrow> byte"
  cp_atoe :: "byte \<Rightarrow> byte"

text \<open>\<^verbatim>\<open>aceeuser\<close> and \<^verbatim>\<open>aceegrp\<close> are a length byte with eight characters behind it.\<close>

record 'u uss_env =
  ue_lib :: "'u libufs"
  ue_available :: bool
  ue_aceeuser :: "nat \<Rightarrow> byte \<times> cstr"
  ue_aceegrp :: "nat \<Rightarrow> byte \<times> cstr"
  ue_cp037 :: HTTPCP
  ue_1047 :: HTTPCP

record 'u usession = rsession +
  us_ufs :: 'u

definition on_ufs :: "('u \<Rightarrow> 'r \<times> 'u) \<Rightarrow> 'u usession \<Rightarrow> 'r \<times> 'u usession" where
  "on_ufs f s = (case f (us_ufs s) of (r, u) \<Rightarrow> (r, s\<lparr>us_ufs := u\<rparr>))"

definition ufs_fopen :: "'u uss_env \<Rightarrow> cstr \<Rightarrow> cstr \<Rightarrow> 'u usession \<Rightarrow> nat option \<times> 'u usession" where
  "ufs_fopen env path mode s = on_ufs (lu_fopen (ue_lib env) path mode) (do_call (UfsOpen path mode) s)"

definition ufs_fread :: "'u uss_env \<Rightarrow> nat \<Rightarrow> nat \<Rightarrow> 'u usession \<Rightarrow> byte list \<times> 'u usession" where
  "ufs_fread env fp n = on_ufs (lu_fread (ue_lib env) fp n)"

definition ufs_fwrite :: "'u uss_env \<Rightarrow> nat \<Rightarrow> byte list \<Rightarrow> 'u usession \<Rightarrow> nat \<times> 'u usession" where
  "ufs_fwrite env fp data s =
     (case on_ufs (lu_fwrite (ue_lib env) fp data) s of (n, s) \<Rightarrow> (n, do_call (UfsWrite n data) s))"

definition ufs_fclose :: "'u uss_env \<Rightarrow> nat \<Rightarrow> 'u usession \<Rightarrow> 'u usession" where
  "ufs_fclose env fp s = s\<lparr>us_ufs := lu_fclose (ue_lib env) fp (us_ufs s)\<rparr>"

definition fp_error :: "'u uss_env \<Rightarrow> nat \<Rightarrow> 'u usession \<Rightarrow> ufsd_rc" where
  "fp_error env fp s = lu_error (ue_lib env) fp (us_ufs s)"

section \<open>What the handlers share\<close>

definition uss_bad_request :: "httpd \<Rightarrow> cstr \<Rightarrow> 'a session_scheme \<Rightarrow> int \<times> 'a session_scheme" where
  "uss_bad_request srv msg = sendErrorResponse srv 400 2 8 1 (Some msg) []"

definition uss_failure :: "httpd \<Rightarrow> ufsd_rc \<Rightarrow> 'a session_scheme \<Rightarrow> int \<times> 'a session_scheme" where
  "uss_failure srv urc =
     sendErrorResponse srv (ufsd_rc_to_http urc) (ufsd_rc_to_category urc) 8 1 (Some (ufsd_rc_message urc)) []"

definition uss_open_rc :: "'u uss_env \<Rightarrow> 'u usession \<Rightarrow> ufsd_rc" where
  "uss_open_rc env s =
     (let urc = lu_last_rc (ue_lib env) (us_ufs s) in if urc = UFSD_RC_OK then UFSD_RC_NOFILE else urc)"

definition acee_name :: "byte \<times> cstr \<Rightarrow> cstr" where
  "acee_name f = c_str (take (if unat (fst f) > 8 then 8 else unat (fst f)) (snd f))"

text \<open>Whether there is a session of the file system.\<close>

definition uss_get_ufs :: "httpd \<Rightarrow> 'u uss_env \<Rightarrow> 'u usession \<Rightarrow> bool \<times> 'u usession" where
  "uss_get_ufs srv env s =
     (if \<not> ue_available env then
        (False, snd (sendErrorResponse srv 503 1 8 1 (Some ''UFSD subsystem not available'') [] s))
      else case rs_acee s of
        None \<Rightarrow> (True, s)
      | Some a \<Rightarrow>
          (True, s\<lparr>us_ufs := lu_setuser (ue_lib env) (acee_name (ue_aceeuser env a)) (acee_name (ue_aceegrp env a)) (us_ufs s)\<rparr>))"

definition CATEGORY_DATA_TYPE :: u32 where "CATEGORY_DATA_TYPE = 1"
definition REASON_DATA_TYPE :: u32 where "REASON_DATA_TYPE = 12"
definition ERR_MSG_DATA_TYPE :: cstr where "ERR_MSG_DATA_TYPE = ''X-IBM-Data-Type''"
definition USS_MSG_ETAG_MISMATCH :: cstr where
  "USS_MSG_ETAG_MISMATCH = ''The resource was modified since the supplied ETag was created''"

text \<open>\<open>Inl\<close> when the request has been answered.\<close>

definition uss_data_type ::
  "httpd \<Rightarrow> 'u uss_env \<Rightarrow> 'u usession \<Rightarrow> (int + data_type \<times> HTTPCP) \<times> 'u usession" where
  "uss_data_type srv env s =
     (let dt = ss_env s ''HTTP_X-IBM-Data-Type'' in
      case parse_data_type dt of (ok, data_type, encoding) \<Rightarrow>
        if \<not> ok then
          (case send_bad_encoding srv dt s of (rc, s) \<Rightarrow> (Inl (if rc < 0 then rc else 1), s))
        else if data_type = DATA_TYPE_RECORD then
          (case sendErrorResponse srv HTTP_STATUS_BAD_REQUEST CATEGORY_DATA_TYPE RC_WARNING REASON_DATA_TYPE
                  (Some ERR_MSG_DATA_TYPE) [Some ''record''] s of (rc, s) \<Rightarrow> (Inl (if rc < 0 then rc else 1), s))
        else (Inr (data_type, if encoding = FILE_ENC_IBM037 then ue_cp037 env else ue_1047 env), s))"

definition uss_build_path :: "nat \<Rightarrow> cstr \<Rightarrow> cstr option" where
  "uss_build_path bufsz captured =
     (if length captured + 2 > bufsz then None else Some (CHR ''/'' # captured))"

text \<open>The path of a request, or the message of its refusal.\<close>

definition uss_path :: "'u uss_env \<Rightarrow> 'u usession \<Rightarrow> cstr + cstr" where
  "uss_path env s =
     (case getPathParam s ''filepath'' of
        None \<Rightarrow> Inl ''Missing file path''
      | Some raw \<Rightarrow>
          if raw = [] then Inl ''Missing file path''
          else case uss_build_path (lu_path_max (ue_lib env)) raw of
            None \<Rightarrow> Inl ''Path name too long'' | Some p \<Rightarrow> Inr p)"

section \<open>Stamps\<close>

definition USS_ETAG_BUFSZ :: nat where "USS_ETAG_BUFSZ = 1024"

partial_function (option) etag_loop ::
  "'u uss_env \<Rightarrow> nat \<Rightarrow> etagctx \<Rightarrow> 'u usession \<Rightarrow> (etagctx \<times> 'u usession) option" where
  "etag_loop env fp ctx s =
     (let (buf, s) = ufs_fread env fp USS_ETAG_BUFSZ s in
      if buf = [] then Some (ctx, s) else etag_loop env fp (etag_update_raw ctx buf) s)"

text \<open>The stamp, or the diagnosis.\<close>

definition uss_etag :: "'u uss_env \<Rightarrow> cstr \<Rightarrow> 'u usession \<Rightarrow> ((ufsd_rc + cstr) \<times> 'u usession) option" where
  "uss_etag env path s =
     (case ufs_fopen env path ''r'' s of
        (None, s) \<Rightarrow> Some (Inl UFSD_RC_NOFILE, s)
      | (Some fp, s) \<Rightarrow>
          if fp_error env fp s \<noteq> UFSD_RC_OK then Some (Inl (fp_error env fp s), ufs_fclose env fp s)
          else case etag_loop env fp etag_init s of
            None \<Rightarrow> None
          | Some (ctx, s) \<Rightarrow>
              if lu_ferror (ue_lib env) fp (us_ufs s) then
                Some (Inl (if fp_error env fp s \<noteq> UFSD_RC_OK then fp_error env fp s else UFSD_RC_IO), ufs_fclose env fp s)
              else
                Some (case etag_final ctx ETAG_SIZE of None \<Rightarrow> Inl UFSD_RC_OK | Some t \<Rightarrow> Inr t, ufs_fclose env fp s))"

definition ufs_stat :: "'u uss_env \<Rightarrow> cstr \<Rightarrow> 'u usession \<Rightarrow> (ufsd_rc \<times> UFSDLIST) \<times> 'u usession" where
  "ufs_stat env path = on_ufs (lu_stat (ue_lib env) path)"

text \<open>Whether the write may proceed; if not, the request has been answered.\<close>

definition uss_check_if_match :: "httpd \<Rightarrow> 'u uss_env \<Rightarrow> cstr \<Rightarrow> 'u usession \<Rightarrow> (bool \<times> 'u usession) option" where
  "uss_check_if_match srv env path s =
     (let mismatch = (\<lambda>s. Some (False, snd (sendErrorResponse srv 412 4 8 1 (Some USS_MSG_ETAG_MISMATCH) [] s))) in
      case getHeaderParam s ''If-Match'' of
        None \<Rightarrow> Some (True, s)
      | Some if_match \<Rightarrow>
          (case uss_etag env path s of
             None \<Rightarrow> None
           | Some (Inl _, s) \<Rightarrow>
               (case ufs_stat env path s of ((rc, st), s) \<Rightarrow>
                  if rc = UFSD_RC_OK \<and> c_at (ul_attr st) 0 = CHR ''d'' then Some (True, s) else mismatch s)
           | Some (Inr current, s) \<Rightarrow>
               if \<not> etag_matches (Some if_match) current then mismatch s else Some (True, s)))"

section \<open>The loop of a read\<close>

record 's USS_READ_OPS =
  uo_read :: "nat \<Rightarrow> 's \<Rightarrow> byte list \<times> 's"
  uo_send :: "byte list \<Rightarrow> 's \<Rightarrow> int \<times> 's"
  uo_xlate :: "(byte list \<Rightarrow> byte list) option"
  uo_failed :: "'s \<Rightarrow> ufsd_rc"

text \<open>The return code and \<open>read_rc\<close>.\<close>

partial_function (option) uss_stream_file ::
  "'s USS_READ_OPS \<Rightarrow> nat \<Rightarrow> 's \<Rightarrow> ((int \<times> ufsd_rc) \<times> 's) option" where
  "uss_stream_file ops bufsz s =
     (let (buf, s) = uo_read ops bufsz s in
      if buf = [] then
        let read_rc = uo_failed ops s in Some ((if read_rc \<noteq> UFSD_RC_OK then -1 else 0, read_rc), s)
      else
        let buf = (case uo_xlate ops of None \<Rightarrow> buf | Some x \<Rightarrow> x buf); (rc, s) = uo_send ops buf s in
        if rc < 0 then Some ((-1, UFSD_RC_OK), s) else uss_stream_file ops bufsz s)"

definition uss_get_failed :: "'u uss_env \<Rightarrow> nat \<Rightarrow> 'u usession \<Rightarrow> ufsd_rc" where
  "uss_get_failed env fp s =
     (if \<not> lu_ferror (ue_lib env) fp (us_ufs s) \<and> lu_feof (ue_lib env) fp (us_ufs s) then UFSD_RC_OK
      else if fp_error env fp s \<noteq> UFSD_RC_OK then fp_error env fp s else UFSD_RC_IO)"

definition uss_get_read :: "'u uss_env \<Rightarrow> nat \<Rightarrow> nat \<Rightarrow> 'u usession \<Rightarrow> byte list \<times> 'u usession" where
  "uss_get_read env fp len = ufs_fread env fp len"

definition uss_get_send :: "httpd \<Rightarrow> byte list \<Rightarrow> 'u usession \<Rightarrow> int \<times> 'u usession" where
  "uss_get_send srv buf = session_send_all srv buf"

definition uss_get_xlate :: "HTTPCP \<Rightarrow> byte list \<Rightarrow> byte list" where
  "uss_get_xlate cp buf = map (cp_etoa cp) buf"

definition uss_get_ops :: "httpd \<Rightarrow> 'u uss_env \<Rightarrow> nat \<Rightarrow> HTTPCP \<Rightarrow> 'u usession USS_READ_OPS" where
  "uss_get_ops srv env fp cp =
     \<lparr>uo_read = uss_get_read env fp, uo_send = uss_get_send srv, uo_xlate = Some (uss_get_xlate cp),
      uo_failed = uss_get_failed env fp\<rparr>"

definition uss_get_ops_binary :: "httpd \<Rightarrow> 'u uss_env \<Rightarrow> nat \<Rightarrow> 'u usession USS_READ_OPS" where
  "uss_get_ops_binary srv env fp =
     \<lparr>uo_read = uss_get_read env fp, uo_send = uss_get_send srv, uo_xlate = None,
      uo_failed = uss_get_failed env fp\<rparr>"

section \<open>GET of a file\<close>

definition USS_READ_BUFSZ :: nat where "USS_READ_BUFSZ = 4096"

text \<open>The stamp of a response, or the 304 that answers the request.\<close>

definition uss_get_stamp ::
  "httpd \<Rightarrow> 'u uss_env \<Rightarrow> cstr \<Rightarrow> 'u usession \<Rightarrow> ((int + cstr option) \<times> 'u usession) option" where
  "uss_get_stamp srv env abspath s =
     (let if_none_match = getHeaderParam s ''If-None-Match'';
          want_etag = etag_requested (getHeaderParam s ''X-IBM-Return-Etag'') in
      if if_none_match = None \<and> \<not> want_etag then Some (Inr None, s)
      else case uss_etag env abspath s of
        None \<Rightarrow> None
      | Some (Inl _, s) \<Rightarrow> Some (Inr None, s)
      | Some (Inr etag, s) \<Rightarrow>
          if if_none_match \<noteq> None \<and> etag_matches if_none_match etag
          then (case send_not_modified srv etag s of (rc, s) \<Rightarrow> Some (Inl rc, s))
          else Some (Inr (Some etag), s))"

definition etag_line :: "httpd \<Rightarrow> cstr option \<Rightarrow> 'a session_scheme \<Rightarrow> int \<times> 'a session_scheme" where
  "etag_line srv etag_hdr s =
     (case etag_hdr of None \<Rightarrow> (0, s) | Some t \<Rightarrow> http_printf srv (''ETag: '' @ t) s)"

definition uss_get_headers ::
  "httpd \<Rightarrow> data_type \<Rightarrow> cstr option \<Rightarrow> 'a session_scheme \<Rightarrow> int \<times> 'a session_scheme" where
  "uss_get_headers srv data_type etag_hdr s =
     and_then (http_resp srv 200)
       (and_then (send_common_headers srv)
          (and_then (http_printf srv (''Content-Type: '' @
               (if data_type = DATA_TYPE_BINARY then ''application/octet-stream'' else ''text/plain'')))
             (and_then (etag_line srv etag_hdr) (http_printf srv []))))
       (s\<lparr>ss_headers_sent := True\<rparr>)"

text \<open>From the headers to the end, with the file open.\<close>

definition uss_get_body ::
  "httpd \<Rightarrow> 'u uss_env \<Rightarrow> cstr \<Rightarrow> data_type \<Rightarrow> HTTPCP \<Rightarrow> cstr option \<Rightarrow> nat \<Rightarrow> 'u usession \<Rightarrow>
     (int \<times> 'u usession) option" where
  "uss_get_body srv env abspath data_type cp etag_hdr fp s =
     (case uss_get_headers srv data_type etag_hdr s of (rc, s) \<Rightarrow>
        if rc < 0 then Some (rc, ufs_fclose env fp s)
        else case uss_stream_file
               (if data_type = DATA_TYPE_TEXT then uss_get_ops srv env fp cp else uss_get_ops_binary srv env fp)
               USS_READ_BUFSZ s of
          None \<Rightarrow> None
        | Some ((rc, read_rc), s) \<Rightarrow>
            if read_rc \<noteq> UFSD_RC_OK then
              let s = do_call (Wto (UssReadError abspath)) s
              in Some (-1, ufs_fclose env fp (s\<lparr>ss_conn := abort_response (hd_cstate_done srv) (ss_conn s)\<rparr>))
            else Some (rc, ufs_fclose env fp s))"

text \<open>A failed open carries its diagnosis in the session of the file system.\<close>

definition uss_open ::
  "httpd \<Rightarrow> 'u uss_env \<Rightarrow> cstr \<Rightarrow> cstr \<Rightarrow> 'u usession \<Rightarrow> (int + nat) \<times> 'u usession" where
  "uss_open srv env abspath mode s =
     (case ufs_fopen env abspath mode s of
        (None, s) \<Rightarrow> (case uss_failure srv (uss_open_rc env s) s of (rc, s) \<Rightarrow> (Inl rc, s))
      | (Some fp, s) \<Rightarrow>
          if fp_error env fp s \<noteq> UFSD_RC_OK then
            (case uss_failure srv (fp_error env fp s) (ufs_fclose env fp s) of (rc, s) \<Rightarrow> (Inl rc, s))
          else (Inr fp, s))"

definition ussGetHandler :: "httpd \<Rightarrow> 'u uss_env \<Rightarrow> 'u usession \<Rightarrow> (int \<times> 'u usession) option" where
  "ussGetHandler srv env s =
     (case uss_path env s of
        Inl msg \<Rightarrow> Some (uss_bad_request srv msg s)
      | Inr abspath \<Rightarrow>
          (case uss_data_type srv env s of
             (Inl rc, s) \<Rightarrow> Some (if rc < 0 then rc else 0, s)
           | (Inr (data_type, cp), s) \<Rightarrow>
               (case uss_get_ufs srv env s of (ok, s) \<Rightarrow>
                  if \<not> ok then Some (-1, s)
                  else case uss_get_stamp srv env abspath s of
                    None \<Rightarrow> None
                  | Some (Inl rc, s) \<Rightarrow> Some (rc, s)
                  | Some (Inr etag_hdr, s) \<Rightarrow>
                      (case uss_open srv env abspath ''r'' s of
                         (Inl rc, s) \<Rightarrow> Some (rc, s)
                       | (Inr fp, s) \<Rightarrow> uss_get_body srv env abspath data_type cp etag_hdr fp s))))"

section \<open>JSON of a request\<close>

definition JSON_SEARCH_SIZE :: nat where "JSON_SEARCH_SIZE = 64"

definition is_lwsp :: "char \<Rightarrow> bool" where
  "is_lwsp c \<longleftrightarrow> c = blank \<or> c = tab"

definition uss_extract_json_string :: "cstr \<Rightarrow> cstr \<Rightarrow> nat \<Rightarrow> cstr option" where
  "uss_extract_json_string json key outlen =
     (let search = c_snprintf JSON_SEARCH_SIZE ([dquote] @ key @ [dquote]) in
      case c_strstr search json of
        None \<Rightarrow> None
      | Some p \<Rightarrow>
          let pos = dropWhile is_lwsp (drop (length search) p) in
          if c_at pos 0 \<noteq> CHR '':'' then None
          else
            let pos = dropWhile is_lwsp (drop 1 pos) in
            if c_at pos 0 \<noteq> dquote then None
            else
              let v = drop 1 pos in
              if dquote \<notin> set v then None
              else Some (take (outlen - 1) (takeWhile (\<lambda>c. c \<noteq> dquote) v)))"

section \<open>Utilities\<close>

definition uss_handle_chtag :: "httpd \<Rightarrow> cstr \<Rightarrow> cstr \<Rightarrow> 'a session_scheme \<Rightarrow> int \<times> 'a session_scheme" where
  "uss_handle_chtag srv filepath body s =
     (case uss_extract_json_string body ''action'' 16 of
        None \<Rightarrow> uss_bad_request srv (''Missing or invalid '' @ [CHR 0x27] @ ''action'' @ [CHR 0x27] @ '' in chtag request'') s
      | Some action \<Rightarrow>
          if action = ''list'' then
            let tagline = c_snprintf 300 (''- untagged    T=off '' @ filepath);
                (rc, s) = and_then (http_resp srv 200)
                  (and_then (http_printf srv ''Content-Type: application/json'')
                     (and_then (send_common_headers srv)
                        (and_then (http_printf srv [])
                           (http_print srv (OutText (''{'' @ [dquote] @ ''stdout'' @ [dquote] @ '':['' @ [dquote] @ tagline @ [dquote] @ '']}'' @ [newline]))))))
                  (s\<lparr>ss_headers_sent := True\<rparr>)
            in (if rc < 0 then -1 else 0, s)
          else if action = ''set'' \<or> action = ''remove'' then
            sendDefaultHeaders srv 200 (Some HTTP_CONTENT_TYPE_NONE) 0 s
          else uss_bad_request srv ''Invalid chtag action'' s)"

text \<open>The body as the server read it already, or read here: a refusal answers the request.\<close>

type_synonym 'u body_reader = "'u usession \<Rightarrow> (int \<times> byte list option) \<times> 'u usession"

definition uss_json_body ::
  "httpd \<Rightarrow> (byte list \<Rightarrow> cstr) \<Rightarrow> 'u body_reader \<Rightarrow> 'u usession \<Rightarrow> (int + cstr) \<times> 'u usession" where
  "uss_json_body srv to_host read_content s =
     (case ss_env s ''POST_STRING'' of
        Some (c # cs) \<Rightarrow> (Inr (c # cs), s)
      | _ \<Rightarrow>
          (case read_content s of ((rc, body), s) \<Rightarrow>
             if rc \<noteq> REQBODY_OK \<and> rc \<noteq> REQBODY_BAD then
               (case send_body_error srv rc s of (rc, s) \<Rightarrow> (Inl rc, s))
             else case body of
               Some (b # bs) \<Rightarrow>
                 if rc = REQBODY_OK then (Inr (c_str (to_host (b # bs))), s)
                 else (case uss_bad_request srv ''Failed to read request body'' s of (rc, s) \<Rightarrow> (Inl rc, s))
             | _ \<Rightarrow> (case uss_bad_request srv ''Failed to read request body'' s of (rc, s) \<Rightarrow> (Inl rc, s))))"

definition uss_handle_utilities ::
  "httpd \<Rightarrow> (byte list \<Rightarrow> cstr) \<Rightarrow> 'u body_reader \<Rightarrow> cstr \<Rightarrow> 'u usession \<Rightarrow> int \<times> 'u usession" where
  "uss_handle_utilities srv to_host read_content filepath s =
     (case uss_json_body srv to_host read_content s of
        (Inl rc, s) \<Rightarrow> (rc, s)
      | (Inr body, s) \<Rightarrow>
          (case uss_extract_json_string body ''request'' 32 of
             None \<Rightarrow> uss_bad_request srv (''Missing or invalid '' @ [CHR 0x27] @ ''request'' @ [CHR 0x27] @ '' in JSON body'') s
           | Some request \<Rightarrow>
               if request = ''chtag'' then uss_handle_chtag srv filepath body s
               else uss_bad_request srv ''Unsupported utility request'' s))"

section \<open>PUT of a file\<close>

text \<open>The refusal of a body, or what is written.\<close>

definition uss_put_body ::
  "httpd \<Rightarrow> data_type \<Rightarrow> HTTPCP \<Rightarrow> 'u body_reader \<Rightarrow> 'u usession \<Rightarrow> byte list option \<times> 'u usession" where
  "uss_put_body srv data_type cp read_content s =
     (case read_content s of ((rc, body), s) \<Rightarrow>
        if rc \<noteq> REQBODY_OK \<and> rc \<noteq> REQBODY_BAD then (None, snd (send_body_error srv rc s))
        else if rc \<noteq> REQBODY_OK then (None, snd (uss_bad_request srv ''Failed to read request body'' s))
        else
          let b = (case body of None \<Rightarrow> [] | Some b \<Rightarrow> b)
          in (Some (if data_type = DATA_TYPE_TEXT then map (cp_atoe cp) b else b), s))"

text \<open>The 204, with a stamp of the file as it is now.\<close>

definition uss_put_answer :: "httpd \<Rightarrow> 'u uss_env \<Rightarrow> cstr \<Rightarrow> 'u usession \<Rightarrow> (int \<times> 'u usession) option" where
  "uss_put_answer srv env abspath s =
     (case (if etag_requested (getHeaderParam s ''X-IBM-Return-Etag'')
            then case uss_etag env abspath s of
                None \<Rightarrow> None | Some (Inl _, s) \<Rightarrow> Some (None, s) | Some (Inr t, s) \<Rightarrow> Some (Some t, s)
            else Some (None, s)) of
        None \<Rightarrow> None
      | Some (etag_hdr, s) \<Rightarrow>
          Some (and_then (http_resp srv 204)
            (and_then (send_common_headers srv) (and_then (etag_line srv etag_hdr) (http_printf srv [])))
            (s\<lparr>ss_headers_sent := True\<rparr>)))"

text \<open>Behind the precondition: open, write, close.\<close>

definition uss_put_write ::
  "httpd \<Rightarrow> 'u uss_env \<Rightarrow> cstr \<Rightarrow> byte list \<Rightarrow> 'u usession \<Rightarrow> (int \<times> 'u usession) option" where
  "uss_put_write srv env abspath body s =
     (case uss_open srv env abspath ''w'' s of
        (Inl rc, s) \<Rightarrow> Some (rc, s)
      | (Inr fp, s) \<Rightarrow>
          (case (if body \<noteq> [] then ufs_fwrite env fp body s else (0, s)) of (written, s) \<Rightarrow>
             if written \<noteq> length body then
               let urc = fp_error env fp s; s = ufs_fclose env fp s
               in Some (if urc \<noteq> UFSD_RC_OK then uss_failure srv urc s
                        else sendErrorResponse srv 500 10 8 1 (Some ''Incomplete write to file'') [] s)
             else uss_put_answer srv env abspath (ufs_fclose env fp s)))"

definition ussPutHandler ::
  "httpd \<Rightarrow> 'u uss_env \<Rightarrow> (byte list \<Rightarrow> cstr) \<Rightarrow> 'u body_reader \<Rightarrow> 'u usession \<Rightarrow> (int \<times> 'u usession) option" where
  "ussPutHandler srv env to_host read_content s =
     (case uss_path env s of
        Inl msg \<Rightarrow> Some (uss_bad_request srv msg s)
      | Inr abspath \<Rightarrow>
          if (case getHeaderParam s ''Content-Type'' of
                None \<Rightarrow> False | Some t \<Rightarrow> c_strstr ''application/json'' t \<noteq> None)
          then Some (uss_handle_utilities srv to_host read_content abspath s)
          else case uss_data_type srv env s of
            (Inl rc, s) \<Rightarrow> Some (if rc < 0 then rc else 0, s)
          | (Inr (data_type, cp), s) \<Rightarrow>
              (case uss_put_body srv data_type cp read_content s of
                 (None, s) \<Rightarrow> Some (-1, s)
               | (Some body, s) \<Rightarrow>
                   (case uss_get_ufs srv env s of (ok, s) \<Rightarrow>
                      if \<not> ok then Some (-1, s)
                      else case uss_check_if_match srv env abspath s of
                        None \<Rightarrow> None
                      | Some (ok, s) \<Rightarrow>
                          if \<not> ok then Some (0, s) else uss_put_write srv env abspath body s)))"

section \<open>What a read of a file gives\<close>

inductive file_reads :: "(nat \<Rightarrow> 'u \<Rightarrow> byte list \<times> 'u) \<Rightarrow> nat \<Rightarrow> 'u \<Rightarrow> byte list list \<Rightarrow> 'u \<Rightarrow> bool"
  for rd n where
  at_end: "rd n u = ([], v) \<Longrightarrow> file_reads rd n u [] v"
| piece: "rd n u = (b, u1) \<Longrightarrow> b \<noteq> [] \<Longrightarrow> file_reads rd n u1 bs v \<Longrightarrow> file_reads rd n u (b # bs) v"

inductive_cases file_reads_NilE: "file_reads rd n u [] v"
inductive_cases file_reads_ConsE: "file_reads rd n u (b # bs) v"

text \<open>A file has one content.\<close>

lemma file_reads_unique: "file_reads rd n u bs v \<Longrightarrow> file_reads rd n u bs' v' \<Longrightarrow> bs' = bs \<and> v' = v"
proof (induction arbitrary: bs' v' rule: file_reads.induct)
  case (at_end u v)
  from at_end(2) show ?case by cases (use at_end(1) in auto)
next
  case (piece u b u1 bs v)
  from piece(5) show ?case
  proof cases
    case (piece c w cs)
    with \<open>rd n u = (b, u1)\<close> have "c = b" "w = u1" by auto
    with piece \<open>\<And>bs' v'. file_reads rd n u1 bs' v' \<Longrightarrow> bs' = bs \<and> v' = v\<close> show ?thesis by blast
  qed (use piece(1,2) in auto)
qed

text \<open>
  The services of the loop: reads come from a file system the sends leave alone, and a send takes
  all of a piece or leaves a response that nobody takes for a complete one.
\<close>

locale read_service =
  fixes ops :: "'s USS_READ_OPS" and fsys :: "'s \<Rightarrow> 'u" and rd :: "nat \<Rightarrow> 'u \<Rightarrow> byte list \<times> 'u"
    and failed :: "'u \<Rightarrow> ufsd_rc" and wire :: "'s \<Rightarrow> byte list" and torn :: "'s \<Rightarrow> bool" and rest :: "'s \<Rightarrow> 'r"
  assumes read_file: "uo_read ops n s = (b, t) \<Longrightarrow> rd n (fsys s) = (b, fsys t) \<and> wire t = wire s \<and> rest t = rest s"
    and send_file: "uo_send ops b s = (rc, t) \<Longrightarrow> fsys t = fsys s \<and> rest t = rest s"
    and send_all_or_torn: "uo_send ops b s = (rc, t) \<Longrightarrow> rc \<ge> 0 \<and> wire t = wire s @ b \<or> rc < 0 \<and> torn t"
    and failed_file: "uo_failed ops s = failed (fsys s)"
begin

definition xl :: "byte list \<Rightarrow> byte list" where
  "xl b = (case uo_xlate ops of None \<Rightarrow> b | Some x \<Rightarrow> x b)"

definition outcome :: "nat \<Rightarrow> 's \<Rightarrow> (int \<times> ufsd_rc) \<times> 's \<Rightarrow> bool" where
  "outcome n s r \<longleftrightarrow> (case r of ((rc, read_rc), t) \<Rightarrow>
     rest t = rest s \<and>
     ((\<exists>bs. file_reads rd n (fsys s) bs (fsys t) \<and> read_rc = failed (fsys t) \<and>
         rc = (if read_rc = UFSD_RC_OK then 0 else -1) \<and> wire t = wire s @ concat (map xl bs)) \<or>
      (rc = -1 \<and> read_rc = UFSD_RC_OK \<and> torn t)))"

lemma stream_outcome: "uss_stream_file ops n s = Some r \<Longrightarrow> outcome n s r"
proof (rule uss_stream_file.raw_induct[where P = "\<lambda>o' n s r. o' = ops \<longrightarrow> outcome n s r", THEN mp], goal_cases)
  case (1 loop o' n s r)
  show ?case
  proof
    assume o: "o' = ops"
    obtain b t where b: "uo_read ops n s = (b, t)" by force
    note r = read_file[OF b]
    show "outcome n s r"
    proof (cases "b = []")
      case True
      with 1(3) b o r show ?thesis
        by (auto simp: outcome_def Let_def failed_file intro!: exI[of _ "[]"] file_reads.at_end)
    next
      case False
      obtain rc u where u: "uo_send ops (xl b) t = (rc, u)" by force
      note s = send_file[OF u] send_all_or_torn[OF u]
      show ?thesis
      proof (cases "rc < 0")
        case True
        with 1(3) b o r s u False show ?thesis by (auto simp: outcome_def xl_def Let_def)
      next
        case ok: False
        with 1(3) b o u False have "loop ops n u = Some r" by (simp add: xl_def Let_def)
        with 1(2) have "outcome n u r" by simp
        with r s ok False show ?thesis
          by (auto simp: outcome_def split: prod.splits intro: file_reads.piece
              intro!: exI[of _ "b # bs" for bs])
      qed
    qed
  qed
qed simp_all

lemma stream_returns: "file_reads rd n u bs v \<Longrightarrow> fsys s = u \<Longrightarrow> \<exists>r. uss_stream_file ops n s = Some r"
proof (induction arbitrary: s rule: file_reads.induct)
  case (at_end u v)
  obtain b t where b: "uo_read ops n s = (b, t)" by force
  from read_file[OF b] at_end show ?case by (simp add: b uss_stream_file.simps Let_def)
next
  case (piece u b u1 bs v)
  obtain c t where c: "uo_read ops n s = (c, t)" by force
  from read_file[OF c] piece.hyps(1) piece.prems have t: "c = b" "fsys t = u1" by auto
  obtain rc w where w: "uo_send ops (xl b) t = (rc, w)" by force
  from send_file[OF w] t(2) have "fsys w = u1" by simp
  from piece.IH[OF this] c t(1) w piece.hyps(2) show ?case
    by (auto simp: uss_stream_file.simps[of ops n s] xl_def[symmetric] Let_def)
qed

end

end
