(* ===== verification/UssTransfer.thy ===== *)
theory UssTransfer
  imports UssFiles
begin

text \<open>
  What the transfers of UNIX files show: a download is the whole file or a response that is torn
  down, an upload opens the file only when its precondition holds.
\<close>

section \<open>The status line of an answer\<close>

text \<open>What was printed between two states has no status line but one of this status.\<close>

definition status_only :: "int \<Rightarrow> 'a session_scheme \<Rightarrow> 'a session_scheme \<Rightarrow> bool" where
  "status_only n s t \<longleftrightarrow>
     (\<exists>items. ss_out t = ss_out s @ items \<and> (\<forall>m. OutStatus m \<in> set items \<longrightarrow> m = n))"

lemma status_refl: "ss_out t = ss_out s \<Longrightarrow> status_only n s t"
  by (auto simp: status_only_def intro!: exI[of _ "[]"])

lemma status_trans: "status_only n s t \<Longrightarrow> status_only n t u \<Longrightarrow> status_only n s u"
  by (fastforce simp: status_only_def)

lemma status_print: "(\<forall>m. item = OutStatus m \<longrightarrow> m = n) \<Longrightarrow> status_only n s (snd (http_print srv item s))"
  by (auto simp: http_print_def status_only_def split: list.splits)

lemma status_lines: "status_only n s (snd (http_printf srv l s))" "status_only n s (snd (http_resp srv n s))"
  by (simp_all add: http_printf_def http_resp_def status_print)

lemma status_then:
  assumes "\<And>s. status_only n s (snd (f s))" "\<And>s. status_only n s (snd (g s))"
  shows "status_only n s (snd (and_then f g s))"
proof -
  obtain r t where t: "f s = (r, t)" by force
  with assms(1)[of s] assms(2)[of t] show ?thesis
    by (auto simp: and_then_def intro: status_trans)
qed

lemma status_parts:
  "status_only n s (snd (send_plain_headers srv s))"
  "status_only n s (snd (send_session_cookie srv s))"
  "status_only n s (snd (send_auth_challenge srv status s))"
  "status_only n s (snd (content_length_header srv ct k s))"
  "status_only n s (snd (etag_line srv tag s))"
  unfolding send_plain_headers_def
  by (intro status_then status_lines)
    (auto simp: send_session_cookie_def send_auth_challenge_def content_length_header_def etag_line_def Let_def
      status_lines status_refl split: option.splits)

lemma status_common: "status_only n s (snd (send_common_headers srv s))"
  unfolding send_common_headers_def by (intro status_then status_parts)

lemma status_headers: "status_only n s (snd (sendDefaultHeaders srv n ct k s))"
proof -
  have "status_only n (s\<lparr>ss_headers_sent := True\<rparr>) (snd (sendDefaultHeaders srv n ct k s))"
    unfolding sendDefaultHeaders_def
    by (intro status_then status_lines status_parts status_common)
      (auto simp: status_lines status_refl split: option.splits)
  then show ?thesis by (simp add: status_only_def)
qed

lemma status_data: "status_only n s (snd (send_data srv buf s))"
proof -
  obtain r t where t: "session_send_all srv (wire_bytes (hd_etoa srv) buf) s = (r, t)" by force
  from session_send_all_cases [OF t] have "ss_out t = ss_out s" by auto
  with t show ?thesis by (simp add: send_data_def status_refl)
qed

lemma status_report: "status_only n s (snd (sendErrorResponse srv n category rc reason message details s))"
proof -
  have "status_only n s (snd (sendJSONResponse srv n b s))" for b
    by (auto simp: sendJSONResponse_def status_refl intro: status_then status_headers status_data
        split: option.splits)
  then show ?thesis
    by (auto simp: sendErrorResponse_def status_refl split: option.splits prod.splits)
qed

lemma status_not_modified: "status_only 304 s (snd (send_not_modified srv etag s))"
proof -
  have "status_only 304 (s\<lparr>ss_headers_sent := True\<rparr>) (snd (send_not_modified srv etag s))"
    unfolding send_not_modified_def HTTP_STATUS_NOT_MODIFIED_def
    by (intro status_then status_lines status_parts status_common)
  then show ?thesis by (simp add: status_only_def)
qed

text \<open>The statuses printed between two states.\<close>

definition statuses :: "'a session_scheme \<Rightarrow> 'a session_scheme \<Rightarrow> int set" where
  "statuses s t = {n. OutStatus n \<in> set (drop (length (ss_out s)) (ss_out t))}"

lemma status_only_statuses: "status_only n s t \<Longrightarrow> statuses s t \<subseteq> {n}"
  by (auto simp: status_only_def statuses_def)

lemma statuses_out: "ss_out s' = ss_out s \<Longrightarrow> statuses s' t = statuses s t"
  by (simp add: statuses_def)

lemma failure_status: "rc \<noteq> UFSD_RC_OK \<Longrightarrow> ufsd_rc_to_http rc \<in> {400, 404, 500}"
  by (cases rc) (simp_all add: ufsd_rc_to_http_def)

section \<open>What the parts of a transfer touch\<close>

text \<open>Work on the file system only: nothing is answered; what is opened is opened for reading.\<close>

definition only_opens :: "cstr \<Rightarrow> os_call list \<Rightarrow> bool" where
  "only_opens path cs \<longleftrightarrow> set cs \<subseteq> {UfsOpen path ''r''}"

definition quiet :: "cstr \<Rightarrow> 'u usession \<Rightarrow> 'u usession \<Rightarrow> bool" where
  "quiet path s t \<longleftrightarrow> (\<exists>u cs. t = s\<lparr>rs_calls := rs_calls s @ cs, us_ufs := u\<rparr> \<and> only_opens path cs)"

lemma quietI: "only_opens path cs \<Longrightarrow> quiet path s (s\<lparr>rs_calls := rs_calls s @ cs, us_ufs := u\<rparr>)"
  by (auto simp: quiet_def)

lemma quiet_ufs: "quiet path s (s\<lparr>us_ufs := u\<rparr>)"
  using quietI[where cs = "[]" and s = s and u = u] by (simp add: only_opens_def)

lemma quiet_refl: "quiet path s s"
  using quiet_ufs[where u = "us_ufs s" and s = s] by simp

lemma quiet_trans: "quiet path s t \<Longrightarrow> quiet path t v \<Longrightarrow> quiet path s v"
  unfolding quiet_def only_opens_def by fastforce

lemma quiet_read: "ufs_fread env fp n s = (b, t) \<Longrightarrow> quiet path s t"
  by (auto simp: ufs_fread_def on_ufs_def quiet_ufs split: prod.splits)

lemma quiet_close: "quiet path s (ufs_fclose env fp s)"
  by (simp add: ufs_fclose_def quiet_ufs)

lemma quiet_open: "ufs_fopen env path ''r'' s = (r, t) \<Longrightarrow> quiet path s t"
  using quietI[where cs = "[UfsOpen path ''r'']" and s = s]
  by (auto simp: ufs_fopen_def on_ufs_def do_call_def only_opens_def split: prod.splits)

lemma quiet_etag_loop: "etag_loop env fp ctx s = Some r \<Longrightarrow> quiet path s (snd r)"
proof (rule etag_loop.raw_induct[where P = "\<lambda>env fp ctx s r. quiet path s (snd r)"], goal_cases)
  case (1 loop env fp ctx s r)
  obtain b t where b: "ufs_fread env fp USS_ETAG_BUFSZ s = (b, t)" by force
  from 1(3) b 1(2)[of env fp "etag_update_raw ctx b" t r] quiet_read[OF b, of path] show ?case
    by (auto simp: Let_def intro: quiet_trans split: if_splits)
qed simp

lemma quiet_etag:
  assumes "uss_etag env path s = Some (r, t)" shows "quiet path s t"
proof -
  obtain o' s1 where o: "ufs_fopen env path ''r'' s = (o', s1)" by force
  note q = quiet_open[OF o]
  show ?thesis
  proof (cases o')
    case None
    with assms o q show ?thesis by (auto simp: uss_etag_def)
  next
    case (Some fp)
    show ?thesis
    proof (cases "fp_error env fp s1 = UFSD_RC_OK")
      case False
      with assms o Some q show ?thesis by (auto simp: uss_etag_def intro: quiet_trans quiet_close)
    next
      case True
      with assms o Some obtain ctx s2 where l: "etag_loop env fp etag_init s1 = Some (ctx, s2)"
        by (auto simp: uss_etag_def split: option.splits)
      with assms o Some True have "t = ufs_fclose env fp s2"
        by (auto simp: uss_etag_def split: if_splits)
      with q quiet_etag_loop[OF l, of path] show ?thesis
        by (auto intro: quiet_trans quiet_close)
    qed
  qed
qed

lemma quiet_stat: "ufs_stat env p s = (r, t) \<Longrightarrow> quiet path s t"
  by (auto simp: ufs_stat_def on_ufs_def quiet_ufs split: prod.splits)

lemma quiet_keeps:
  assumes "quiet path s t"
  shows "ss_conn t = ss_conn s" "ss_env t = ss_env s" "ss_prints t = ss_prints s" "ss_out t = ss_out s"
    "open_client srv t \<longleftrightarrow> open_client srv s" "getHeaderParam t n = getHeaderParam s n"
    "\<exists>cs. rs_calls t = rs_calls s @ cs \<and> only_opens path cs"
  using assms by (auto simp: quiet_def open_client_def getHeaderParam_def get_env_param_def)

section \<open>Downloads\<close>

definition get_failed :: "'u uss_env \<Rightarrow> nat \<Rightarrow> 'u \<Rightarrow> ufsd_rc" where
  "get_failed env fp u =
     (if \<not> lu_ferror (ue_lib env) fp u \<and> lu_feof (ue_lib env) fp u then UFSD_RC_OK
      else if lu_error (ue_lib env) fp u \<noteq> UFSD_RC_OK then lu_error (ue_lib env) fp u else UFSD_RC_IO)"

definition get_ops :: "httpd \<Rightarrow> 'u uss_env \<Rightarrow> nat \<Rightarrow> HTTPCP \<Rightarrow> data_type \<Rightarrow> 'u usession USS_READ_OPS" where
  "get_ops srv env fp cp dt = (if dt = DATA_TYPE_TEXT then uss_get_ops srv env fp cp else uss_get_ops_binary srv env fp)"

lemmas get_ops_defs = get_ops_def uss_get_ops_def uss_get_ops_binary_def uss_get_read_def uss_get_send_def
  uss_get_failed_def fp_error_def ufs_fread_def on_ufs_def

text \<open>What the session keeps while a file is streamed.\<close>

definition stream_rest :: "'u usession \<Rightarrow> out_item list \<times> os_call list" where
  "stream_rest s = (ss_out s, rs_calls s)"

interpretation download: read_service "get_ops srv env fp cp dt" us_ufs "lu_fread (ue_lib env) fp"
  "get_failed env fp" "\<lambda>s. hc_wire (ss_conn s)" "\<lambda>s. torn_down (hd_cstate_done srv) (ss_conn s)" stream_rest
  for srv env fp cp dt
proof (unfold_locales, goal_cases)
  case (1 n s b t)
  then show ?case by (auto simp: get_ops_defs stream_rest_def split: prod.splits if_splits)
next
  case (2 b s rc t)
  then have "session_send_all srv b s = (rc, t)" by (simp add: get_ops_defs split: if_splits)
  from session_send_all_cases[OF this] show ?case by (auto simp: stream_rest_def)
next
  case (3 b s rc t)
  then have "session_send_all srv b s = (rc, t)" by (simp add: get_ops_defs split: if_splits)
  from session_send_all_cases[OF this] show ?case by auto
next
  case (4 s)
  then show ?case by (simp add: get_ops_defs get_failed_def)
qed

lemma download_xl:
  "concat (map (read_service.xl (get_ops srv env fp cp dt)) bs) = (if dt = DATA_TYPE_TEXT then map (cp_etoa cp) (concat bs) else concat bs)"
proof -
  have "read_service.xl (get_ops srv env fp cp dt) b = (if dt = DATA_TYPE_TEXT then map (cp_etoa cp) b else b)" for b
    by (subst download.xl_def) (simp add: get_ops_def uss_get_ops_def uss_get_ops_binary_def uss_get_xlate_def)
  then show ?thesis by (induction bs) auto
qed

lemma get_headers_open:
  assumes "open_client srv s"
  shows "\<exists>items. uss_get_headers srv dt tag s =
    (0, s\<lparr>ss_headers_sent := True, ss_out := ss_out s @ OutStatus 200 # items\<rparr>)"
proof -
  let ?t = "s\<lparr>ss_headers_sent := True\<rparr>"
  have e: "prints srv (etag_line srv tag) (\<lambda>_. case tag of None \<Rightarrow> [] | Some t \<Rightarrow> [OutHeader (''ETag: '' @ t)])"
    using prints_line(1)[of srv] by (auto simp: prints_def etag_line_def split: option.splits)
  have "prints srv (and_then (http_resp srv 200) (and_then (send_common_headers srv)
      (and_then (http_printf srv (''Content-Type: '' @
               (if dt = DATA_TYPE_BINARY then ''application/octet-stream'' else ''text/plain'')))
        (and_then (etag_line srv tag) (http_printf srv [])))))
      (\<lambda>s. [OutStatus 200] @ map OutHeader (fixed_headers @ cookie_headers srv s) @
         [OutHeader (''Content-Type: '' @ (if dt = DATA_TYPE_BINARY then ''application/octet-stream'' else ''text/plain''))] @
         (case tag of None \<Rightarrow> [] | Some t \<Rightarrow> [OutHeader (''ETag: '' @ t)]) @ [OutHeader []])"
    by (intro prints_then prints_line prints_common e) simp_all
  moreover have "open_client srv ?t" using assms by (simp add: open_client_def)
  ultimately show ?thesis unfolding uss_get_headers_def prints_def by fastforce
qed

text \<open>Where a request for a file gets to: answered before the file is open, or its body.\<close>

lemma data_type_cases:
  assumes "uss_data_type srv env s = (r, t)"
  shows "case r of Inl rc \<Rightarrow> status_only 500 s t \<or> status_only 400 s t
    | Inr (dt, cp) \<Rightarrow> t = s \<and> dt \<in> {DATA_TYPE_TEXT, DATA_TYPE_BINARY} \<and>
        (\<exists>e. parse_data_type (ss_env s ''HTTP_X-IBM-Data-Type'') = (True, dt, e) \<and>
          cp = (if e = FILE_ENC_IBM037 then ue_cp037 env else ue_1047 env))"
proof -
  obtain ok dt e where p: "parse_data_type (ss_env s ''HTTP_X-IBM-Data-Type'') = (ok, dt, e)" by (metis prod_cases3)
  have "status_only 500 s (snd (send_bad_encoding srv (ss_env s ''HTTP_X-IBM-Data-Type'') s))"
    by (simp add: send_bad_encoding_def HTTP_STATUS_INTERNAL_SERVER_ERROR_def status_report)
  moreover have "status_only 400 s (snd (sendErrorResponse srv HTTP_STATUS_BAD_REQUEST CATEGORY_DATA_TYPE RC_WARNING
      REASON_DATA_TYPE (Some ERR_MSG_DATA_TYPE) [Some ''record''] s))"
    by (simp add: HTTP_STATUS_BAD_REQUEST_def status_report)
  ultimately show ?thesis
    using assms p by (cases dt) (auto simp: uss_data_type_def Let_def split: prod.splits if_splits)
qed

lemma get_ufs_cases:
  assumes "uss_get_ufs srv env s = (ok, t)"
  shows "if ok then quiet path s t else status_only 503 s t"
  using assms status_report[of 503 s srv 1 8 1 "Some ''UFSD subsystem not available''" "[]"]
  by (auto simp: uss_get_ufs_def quiet_refl quiet_ufs split: if_splits option.splits)

lemma get_stamp_cases:
  assumes "uss_get_stamp srv env path s = Some (r, t)"
  shows "case r of Inl rc \<Rightarrow> (\<exists>u. quiet path s u \<and> status_only 304 u t) | Inr tag \<Rightarrow> quiet path s t"
proof (cases "getHeaderParam s ''If-None-Match'' = None \<and> \<not> etag_requested (getHeaderParam s ''X-IBM-Return-Etag'')")
  case True
  with assms show ?thesis by (auto simp: uss_get_stamp_def quiet_refl)
next
  case False
  with assms obtain r1 u where e: "uss_etag env path s = Some (r1, u)"
    by (auto simp: uss_get_stamp_def Let_def split: option.splits if_splits)
  have "status_only 304 u v" if "send_not_modified srv etag u = (rc, v)" for etag rc v
    using status_not_modified[of u srv etag] that by simp
  with assms e False quiet_etag[OF e] show ?thesis
    by (fastforce simp: uss_get_stamp_def Let_def split: sum.splits if_splits prod.splits)
qed

lemma open_cases:
  assumes "uss_open srv env path ''r'' s = (r, t)"
  shows "case r of Inl rc \<Rightarrow> \<exists>u n. quiet path s u \<and> n \<in> {400, 404, 500} \<and> status_only n u t
    | Inr fp \<Rightarrow> lu_fopen (ue_lib env) path ''r'' (us_ufs s) = (Some fp, us_ufs t) \<and> quiet path s t"
proof -
  obtain o' s1 where o: "ufs_fopen env path ''r'' s = (o', s1)" by force
  note q = quiet_open[OF o]
  have f: "status_only (ufsd_rc_to_http urc) u (snd (uss_failure srv urc u))" for urc u
    by (simp add: uss_failure_def status_report)
  have rc: "uss_open_rc env s1 \<noteq> UFSD_RC_OK" by (simp add: uss_open_rc_def Let_def)
  show ?thesis
  proof (cases o')
    case None
    with assms o f[of "uss_open_rc env s1" s1] q failure_status[OF rc] show ?thesis
      by (fastforce simp: uss_open_def split: prod.splits)
  next
    case (Some fp)
    show ?thesis
    proof (cases "fp_error env fp s1 = UFSD_RC_OK")
      case True
      with assms o Some q show ?thesis
        by (auto simp: uss_open_def ufs_fopen_def on_ufs_def do_call_def split: prod.splits)
    next
      case False
      let ?u = "ufs_fclose env fp s1"
      have "quiet path s ?u" using q by (auto intro: quiet_trans quiet_close)
      with assms o Some False f[of "fp_error env fp s1" ?u] failure_status[OF False] show ?thesis
        by (fastforce simp: uss_open_def split: prod.splits)
    qed
  qed
qed

lemma get_body_cases:
  assumes o: "open_client srv s" and b: "uss_get_body srv env path dt cp tag fp s = Some (rc, t)"
  shows "rc = -1 \<and> torn_down (hd_cstate_done srv) (ss_conn t) \<or>
    rc = 0 \<and> (\<exists>bs v. file_reads (lu_fread (ue_lib env) fp) USS_READ_BUFSZ (us_ufs s) bs v \<and>
      lu_feof (ue_lib env) fp v \<and> \<not> lu_ferror (ue_lib env) fp v \<and>
      hc_wire (ss_conn t) = hc_wire (ss_conn s) @ (if dt = DATA_TYPE_TEXT then map (cp_etoa cp) (concat bs) else concat bs))"
proof -
  from get_headers_open[OF o] obtain out where
    h: "uss_get_headers srv dt tag s = (0, s\<lparr>ss_headers_sent := True, ss_out := out\<rparr>)" by metis
  let ?s = "s\<lparr>ss_headers_sent := True, ss_out := out\<rparr>"
  from b obtain rc1 rr u where st: "uss_stream_file (get_ops srv env fp cp dt) USS_READ_BUFSZ ?s = Some ((rc1, rr), u)"
    unfolding uss_get_body_def h get_ops_def by (auto split: option.splits)
  show ?thesis
  proof (cases "rr = UFSD_RC_OK")
    case False
    with b h st show ?thesis by (auto simp: uss_get_body_def get_ops_def Let_def ufs_fclose_def do_call_def)
  next
    case True
    with b h st have t: "rc = rc1" "t = ufs_fclose env fp u"
      by (auto simp: uss_get_body_def get_ops_def)
    from download.stream_outcome[OF st] True consider
        (whole) bs where "file_reads (lu_fread (ue_lib env) fp) USS_READ_BUFSZ (us_ufs s) bs (us_ufs u)"
          "get_failed env fp (us_ufs u) = UFSD_RC_OK" "rc1 = 0"
          "hc_wire (ss_conn u) = hc_wire (ss_conn s) @ concat (map (read_service.xl (get_ops srv env fp cp dt)) bs)"
      | (torn) "rc1 = -1" "torn_down (hd_cstate_done srv) (ss_conn u)"
      by (auto simp: download.outcome_def)
    then show ?thesis
    proof cases
      case whole
      from whole(2) have "lu_feof (ue_lib env) fp (us_ufs u)" "\<not> lu_ferror (ue_lib env) fp (us_ufs u)"
        by (auto simp: get_failed_def split: if_splits)
      with whole t show ?thesis unfolding download_xl by (auto simp: ufs_fclose_def)
    next
      case torn
      with t show ?thesis by (simp add: ufs_fclose_def)
    qed
  qed
qed

lemma status_quiet: "quiet path s u \<Longrightarrow> status_only n u t \<Longrightarrow> statuses s t \<subseteq> {n}"
  by (metis status_only_statuses statuses_out quiet_keeps(4))

text \<open>
  C31: A download that was answered 200 is the whole file or is torn down: either the connection ends
  in a state nobody takes for a complete response, or every piece the file system has for the path
  went out, in order, up to the end it reported without an error, translated in the code page the
  request asks for when it is text.
\<close>
theorem download_whole_or_torn_down:
  assumes "open_client srv s" "ussGetHandler srv env s = Some (rc, s')" "200 \<in> statuses s s'"
  shows "rc = -1 \<and> torn_down (hd_cstate_done srv) (ss_conn s') \<or>
    rc = 0 \<and> (\<exists>raw dt e u fp u1 bs v. getPathParam s ''filepath'' = Some raw \<and> raw \<noteq> [] \<and>
      parse_data_type (ss_env s ''HTTP_X-IBM-Data-Type'') = (True, dt, e) \<and>
      lu_fopen (ue_lib env) (CHR ''/'' # raw) ''r'' u = (Some fp, u1) \<and>
      file_reads (lu_fread (ue_lib env) fp) USS_READ_BUFSZ u1 bs v \<and>
      lu_feof (ue_lib env) fp v \<and> \<not> lu_ferror (ue_lib env) fp v \<and>
      hc_wire (ss_conn s') = hc_wire (ss_conn s) @
        (if dt = DATA_TYPE_TEXT
         then map (cp_etoa (if e = FILE_ENC_IBM037 then ue_cp037 env else ue_1047 env)) (concat bs)
         else concat bs))"
proof -
  have no200: "\<not> status_only n s s'" if "n \<noteq> 200" for n using assms(3) status_only_statuses[of n s s'] that by auto
  have no200q: "\<not> (quiet path s u \<and> status_only n u s')" if "n \<noteq> 200" for n path u
    using assms(3) status_quiet[of path s u n s'] that by auto
  show ?thesis
  proof (cases "uss_path env s")
    case (Inl msg)
    with assms(2) status_report[of 400 s srv 2 8 1 "Some msg" "[]"] no200[of 400] show ?thesis
      by (simp add: ussGetHandler_def uss_bad_request_def)
  next
    case (Inr path)
    then obtain raw where raw: "getPathParam s ''filepath'' = Some raw" "raw \<noteq> []" "path = CHR ''/'' # raw"
      by (auto simp: uss_path_def uss_build_path_def split: option.splits if_splits)
    obtain r1 s1 where d: "uss_data_type srv env s = (r1, s1)" by force
    note dc = data_type_cases[OF d]
    show ?thesis
    proof (cases r1)
      case (Inl x)
      with assms(2) Inr d dc no200[of 400] no200[of 500] show ?thesis by (simp add: ussGetHandler_def)
    next
      case (Inr dtcp)
      obtain dt cp where dtcp: "dtcp = (dt, cp)" by force
      from dc Inr dtcp have s1: "s1 = s" and dt: "\<exists>e. parse_data_type (ss_env s ''HTTP_X-IBM-Data-Type'') = (True, dt, e) \<and>
          cp = (if e = FILE_ENC_IBM037 then ue_cp037 env else ue_1047 env)" by auto
      obtain ok s2 where g: "uss_get_ufs srv env s = (ok, s2)" by force
      note gc = get_ufs_cases[OF g, of path]
      show ?thesis
      proof (cases ok)
        case False
        with assms(2) \<open>uss_path env s = Inr path\<close> d Inr dtcp s1 g gc no200[of 503] show ?thesis
          by (simp add: ussGetHandler_def)
      next
        case True
        with gc have q2: "quiet path s s2" by simp
        from assms(2) \<open>uss_path env s = Inr path\<close> d Inr dtcp s1 g True obtain r3 s3 where
          e: "uss_get_stamp srv env path s2 = Some (r3, s3)"
          by (auto simp: ussGetHandler_def split: option.splits)
        note ec = get_stamp_cases[OF e]
        note run = assms(2) \<open>uss_path env s = Inr path\<close> d Inr dtcp s1 g True e
        show ?thesis
        proof (cases r3)
          case Inl
          with run ec q2 no200q[of 304 path] show ?thesis by (auto simp: ussGetHandler_def intro: quiet_trans)
        next
          case Inr
          with ec q2 have q3: "quiet path s s3" by (auto intro: quiet_trans)
          obtain r4 s4 where op: "uss_open srv env path ''r'' s3 = (r4, s4)" by force
          note oc = open_cases[OF op]
          show ?thesis
          proof (cases r4)
            case (Inl y)
            with run \<open>r3 = Inr _\<close> op have "s4 = s'" by (simp add: ussGetHandler_def)
            with oc Inl obtain u n where "quiet path s3 u" "n \<in> {400, 404, 500}" "status_only n u s'" by auto
            with q3 no200q[of n path u] show ?thesis by (auto intro: quiet_trans)
          next
            case (Inr fp)
            with oc have f: "lu_fopen (ue_lib env) path ''r'' (us_ufs s3) = (Some fp, us_ufs s4)" and q4: "quiet path s s4"
              using q3 by (auto intro: quiet_trans)
            from run \<open>r3 = Inr _\<close> op Inr have b: "\<exists>tag. uss_get_body srv env path dt cp tag fp s4 = Some (rc, s')"
              by (auto simp: ussGetHandler_def)
            then obtain tag where b: "uss_get_body srv env path dt cp tag fp s4 = Some (rc, s')" by blast
            from dt obtain e where e: "parse_data_type (ss_env s ''HTTP_X-IBM-Data-Type'') = (True, dt, e)"
                "cp = (if e = FILE_ENC_IBM037 then ue_cp037 env else ue_1047 env)" by blast
            have "open_client srv s4" using quiet_keeps(5)[OF q4] assms(1) by simp
            from get_body_cases[OF this b] show ?thesis
              unfolding quiet_keeps(1)[OF q4] e(2) using raw(1,2) f[unfolded raw(3)] e(1) by blast
          qed
        qed
      qed
    qed
  qed
qed

section \<open>Uploads\<close>

lemma answers_keeps:
  fixes s :: "'u usession"
  assumes "answers s t" shows "rs_calls t = rs_calls s" "us_ufs t = us_ufs s" "ss_env t = ss_env s"
  using assms by (auto simp: answers_def)

text \<open>Reading a body asks the socket and nothing else.\<close>

definition reads_body :: "'u body_reader \<Rightarrow> bool" where
  "reads_body rd \<longleftrightarrow> (\<forall>s r t. rd s = (r, t) \<longrightarrow>
     rs_calls t = rs_calls s \<and> us_ufs t = us_ufs s \<and> ss_env t = ss_env s \<and> ss_out t = ss_out s)"

lemma status_body_error: "\<exists>n. n \<noteq> 204 \<and> status_only n s (snd (send_body_error srv rc s))"
proof (cases "rc = REQBODY_TOO_LARGE")
  case True
  then show ?thesis
    by (intro exI[of _ 413]) (simp add: send_body_error_def HTTP_STATUS_PAYLOAD_TOO_LARGE_def status_report)
next
  case False
  then show ?thesis
    by (intro exI[of _ 500]) (simp add: send_body_error_def HTTP_STATUS_INTERNAL_SERVER_ERROR_def status_report)
qed

lemma answers_body_error: "answers s (snd (send_body_error srv rc s))"
  by (simp add: send_body_error_def answers_report)

text \<open>Only answered, and not with 204.\<close>

definition refused :: "'u usession \<Rightarrow> 'u usession \<Rightarrow> bool" where
  "refused s t \<longleftrightarrow> rs_calls t = rs_calls s \<and> (\<exists>n. n \<noteq> 204 \<and> status_only n s t)"

lemma refusedI:
  fixes s :: "'u usession"
  shows "answers s t \<Longrightarrow> status_only n s t \<Longrightarrow> n \<noteq> 204 \<Longrightarrow> refused s t"
  using answers_keeps(1)[of s t] by (auto simp: refused_def)

lemma refused_error:
  "n \<noteq> 204 \<Longrightarrow> sendErrorResponse srv n c r q m d s = (rc, t) \<Longrightarrow> refused s t"
  using answers_keeps(1)[OF answers_report[of s srv n c r q m d]] status_report[of n s srv c r q m d]
  by (auto simp: refused_def)

lemma refused_read:
  "reads_body rd \<Longrightarrow> rd s = (x, u) \<Longrightarrow> refused u t \<Longrightarrow> refused s t"
proof -
  assume "reads_body rd" "rd s = (x, u)" "refused u t"
  moreover from this(1,2) have "rs_calls u = rs_calls s" "ss_out u = ss_out s" unfolding reads_body_def by blast+
  ultimately show ?thesis by (simp add: refused_def status_only_def)
qed

lemma refused_statuses: "refused s t \<Longrightarrow> 204 \<notin> statuses s t"
  using status_only_statuses by (fastforce simp: refused_def)

lemma put_body_cases:
  assumes "reads_body rd" "uss_put_body srv dt cp rd s = (x, t)"
  shows "case x of None \<Rightarrow> refused s t
    | Some data \<Rightarrow> (\<exists>b. fst (rd s) = (REQBODY_OK, b) \<and>
          data = (if dt = DATA_TYPE_TEXT then map (cp_atoe cp) (case b of None \<Rightarrow> [] | Some b \<Rightarrow> b)
            else case b of None \<Rightarrow> [] | Some b \<Rightarrow> b)) \<and>
        rs_calls t = rs_calls s \<and> ss_env t = ss_env s \<and> ss_out t = ss_out s"
proof -
  obtain rc b u where r: "rd s = ((rc, b), u)" by (metis prod_cases3 surj_pair)
  have e: "refused u (snd (send_body_error srv rc u))"
    using answers_keeps(1)[OF answers_body_error[of u srv rc]] status_body_error[of u srv rc] by (simp add: refused_def)
  have f: "refused u (snd (uss_bad_request srv m u))" for m
    unfolding uss_bad_request_def by (rule refused_error[of 400]) (simp, rule prod.collapse[symmetric])
  from assms r refused_read[OF assms(1) r] e f show ?thesis
    by (auto simp: uss_put_body_def Let_def reads_body_def split: if_splits)
qed

text \<open>The precondition of a write, on the state the write finds.\<close>

definition if_match_holds :: "'u uss_env \<Rightarrow> cstr \<Rightarrow> cstr option \<Rightarrow> 'u usession \<Rightarrow> bool" where
  "if_match_holds env path header v \<longleftrightarrow>
     (case header of None \<Rightarrow> True
      | Some h \<Rightarrow> \<exists>u.
          (\<exists>t. uss_etag env path u = Some (Inr t, v) \<and> etag_matches (Some h) t) \<or>
          (\<exists>d w st. uss_etag env path u = Some (Inl d, w) \<and> ufs_stat env path w = ((UFSD_RC_OK, st), v) \<and>
             c_at (ul_attr st) 0 = CHR ''d''))"

lemma check_if_match_cases:
  assumes "uss_check_if_match srv env path s = Some (ok, t)"
  shows "if ok then quiet path s t \<and> if_match_holds env path (getHeaderParam s ''If-Match'') t
    else \<exists>u. quiet path s u \<and> refused u t"
proof (cases "getHeaderParam s ''If-Match''")
  case None
  with assms show ?thesis by (simp add: uss_check_if_match_def if_match_holds_def quiet_refl)
next
  case (Some h)
  have m: "refused u (snd (sendErrorResponse srv 412 4 8 1 (Some USS_MSG_ETAG_MISMATCH) [] u))" for u
    by (rule refused_error[of 412]) (simp, rule prod.collapse[symmetric])
  from assms Some obtain r u where e: "uss_etag env path s = Some (r, u)"
    by (auto simp: uss_check_if_match_def Let_def split: option.splits)
  note q = quiet_etag[OF e]
  show ?thesis
  proof (cases r)
    case (Inr c)
    with assms Some e q m[of u] show ?thesis
      by (auto simp: uss_check_if_match_def if_match_holds_def Let_def split: if_splits)
  next
    case (Inl d)
    obtain src st w where f: "ufs_stat env path u = ((src, st), w)" by (metis prod_cases3 surj_pair)
    note q2 = quiet_trans[OF q quiet_stat[OF f]]
    show ?thesis
    proof (cases "src = UFSD_RC_OK \<and> c_at (ul_attr st) 0 = CHR ''d''")
      case True
      with assms Some e Inl f have "ok" "t = w" by (auto simp: uss_check_if_match_def Let_def)
      moreover have "if_match_holds env path (Some h) w"
        unfolding if_match_holds_def option.case using e Inl f True by blast
      ultimately show ?thesis using q2 Some by simp
    next
      case False
      with assms Some e Inl f q2 m[of w] show ?thesis
        by (auto simp: uss_check_if_match_def Let_def)
    qed
  qed
qed

lemma put_answer_cases:
  fixes s :: "'u usession"
  assumes "uss_put_answer srv env path s = Some (rc, t)"
  shows "\<exists>ds. rs_calls t = rs_calls s @ ds \<and> only_opens path ds"
proof -
  let ?send = "\<lambda>tag s. and_then (http_resp srv 204) (and_then (send_common_headers srv)
      (and_then (etag_line srv tag) (http_printf srv []))) (s\<lparr>ss_headers_sent := True\<rparr>)"
  have e: "answers s (snd (etag_line srv tag s))" for tag and s :: "'u usession"
    by (simp add: etag_line_def answers_refl answers_lines split: option.splits)
  have c: "rs_calls (snd (?send tag u)) = rs_calls u" for tag and u :: "'u usession"
    using answers_keeps(1)[of "u\<lparr>ss_headers_sent := True\<rparr>" "snd (?send tag u)"]
    by (simp add: answers_then answers_lines answers_parts e send_common_headers_def)
  show ?thesis
  proof (cases "etag_requested (getHeaderParam s ''X-IBM-Return-Etag'')")
    case False
    with assms c[of None s] show ?thesis
      by (intro exI[of _ "[]"]) (simp add: uss_put_answer_def only_opens_def)
  next
    case True
    with assms obtain r u where u: "uss_etag env path s = Some (r, u)"
      by (auto simp: uss_put_answer_def split: option.splits)
    have "t = snd (?send (case r of Inl _ \<Rightarrow> None | Inr tag \<Rightarrow> Some tag) u)"
      using assms u True by (cases r) (auto simp: uss_put_answer_def)
    with quiet_keeps(7)[OF quiet_etag[OF u]] c show ?thesis by auto
  qed
qed

lemma put_write_cases:
  fixes s :: "'u usession"
  assumes w: "uss_put_write srv env path data s = Some (rc, t)"
  shows "\<exists>ws ds. rs_calls t = rs_calls s @ UfsOpen path ''w'' # ws @ ds \<and> only_opens path ds \<and>
    (ws = [] \<or> (\<exists>n. ws = [UfsWrite n data])) \<and>
    (204 \<in> statuses s t \<longrightarrow> ws = (if data = [] then [] else [UfsWrite (length data) data]))"
proof -
  obtain o' s1 where o: "ufs_fopen env path ''w'' s = (o', s1)" by force
  then have s1: "rs_calls s1 = rs_calls s @ [UfsOpen path ''w'']" "ss_out s1 = ss_out s"
    by (auto simp: ufs_fopen_def on_ufs_def do_call_def split: prod.splits)
  have close: "rs_calls (ufs_fclose env fp u) = rs_calls u" "ss_out (ufs_fclose env fp u) = ss_out u" for fp u
    by (simp_all add: ufs_fclose_def)
  have fail: "rs_calls v = rs_calls u \<and> 204 \<notin> statuses u v" if "uss_failure srv urc u = (x, v)" "urc \<noteq> UFSD_RC_OK"
    for urc x and u v :: "'u usession"
    using refused_error[of "ufsd_rc_to_http urc" srv "ufsd_rc_to_category urc" 8 1 "Some (ufsd_rc_message urc)" "[]" u x v]
      that failure_status[OF that(2)] refused_statuses[of u v]
    by (auto simp: uss_failure_def refused_def)
  have rc: "uss_open_rc env s1 \<noteq> UFSD_RC_OK" by (simp add: uss_open_rc_def Let_def)
  consider (none) "o' = None" | (err) fp where "o' = Some fp" "fp_error env fp s1 \<noteq> UFSD_RC_OK"
    | (ok) fp where "o' = Some fp" "fp_error env fp s1 = UFSD_RC_OK" by (cases o') auto
  then show ?thesis
  proof cases
    case none
    obtain x v where v: "uss_failure srv (uss_open_rc env s1) s1 = (x, v)" by force
    with none w o have "t = v" by (simp add: uss_put_write_def uss_open_def)
    with fail[OF v rc] s1 show ?thesis
      by (intro exI[of _ "[]"]) (simp add: only_opens_def statuses_out[of s1 s])
  next
    case err
    obtain x v where v: "uss_failure srv (fp_error env fp s1) (ufs_fclose env fp s1) = (x, v)" by force
    with err w o have "t = v" by (simp add: uss_put_write_def uss_open_def)
    with fail[OF v err(2)] s1 show ?thesis
      by (intro exI[of _ "[]"]) (simp add: only_opens_def statuses_out[of s1 s] close statuses_out[of "ufs_fclose env fp s1" s1])
  next
    case ok
    define ws where "ws = (if data = [] then [] else [UfsWrite (fst (lu_fwrite (ue_lib env) fp data (us_ufs s1))) data])"
    obtain n s2 where n: "(if data \<noteq> [] then ufs_fwrite env fp data s1 else (0, s1)) = (n, s2)" by force
    then have s2: "rs_calls s2 = rs_calls s1 @ ws" "ss_out s2 = ss_out s1"
      "data \<noteq> [] \<Longrightarrow> n = fst (lu_fwrite (ue_lib env) fp data (us_ufs s1))"
      by (auto simp: ufs_fwrite_def on_ufs_def do_call_def ws_def split: prod.splits if_splits)
    let ?u = "ufs_fclose env fp s2"
    from w o ok n have run: "(if n \<noteq> length data
         then Some (if fp_error env fp s2 \<noteq> UFSD_RC_OK then uss_failure srv (fp_error env fp s2) ?u
                    else sendErrorResponse srv 500 10 8 1 (Some ''Incomplete write to file'') [] ?u)
         else uss_put_answer srv env path ?u) = Some (rc, t)"
      by (auto simp: uss_put_write_def uss_open_def Let_def split: if_splits)
    have out: "ss_out ?u = ss_out s" "rs_calls ?u = rs_calls s @ UfsOpen path ''w'' # ws" using s1 s2 close by simp_all
    show ?thesis
    proof (cases "n = length data")
      case True
      with run have "uss_put_answer srv env path ?u = Some (rc, t)" by simp
      from put_answer_cases[OF this] obtain ds where "rs_calls t = rs_calls ?u @ ds" "only_opens path ds" by auto
      moreover have "ws = (if data = [] then [] else [UfsWrite (length data) data])"
        using True s2(3) by (auto simp: ws_def)
      ultimately show ?thesis using out by (intro exI[of _ ws] exI[of _ ds]) simp
    next
      case False
      have "rs_calls t = rs_calls ?u \<and> 204 \<notin> statuses ?u t"
      proof (cases "fp_error env fp s2 = UFSD_RC_OK")
        case True
        with run False have e: "sendErrorResponse srv 500 10 8 1 (Some ''Incomplete write to file'') [] ?u = (rc, t)" by simp
        have "refused ?u t" by (rule refused_error[OF _ e]) simp
        then show ?thesis using refused_statuses by (auto simp: refused_def)
      next
        case err: False
        with run False fail[of "fp_error env fp s2" ?u rc t] show ?thesis by simp
      qed
      with out show ?thesis
        by (intro exI[of _ ws] exI[of _ "[]"]) (auto simp: only_opens_def ws_def statuses_out[of ?u s])
    qed
  qed
qed

lemma refused_report: "n \<noteq> 204 \<Longrightarrow> refused s (snd (sendErrorResponse srv n c r q m d s))"
  by (rule refused_error[where n = n]) (assumption, rule prod.collapse[symmetric])

lemma refused_from:
  "rs_calls u = rs_calls s \<Longrightarrow> ss_out u = ss_out s \<Longrightarrow> refused u t \<Longrightarrow> refused s t"
  by (simp add: refused_def status_only_def)

lemma json_body_cases:
  assumes rd: "reads_body rd" and b: "uss_json_body srv to_host rd s = (r, u)"
  shows "case r of Inl _ \<Rightarrow> refused s u | Inr _ \<Rightarrow> rs_calls u = rs_calls s \<and> ss_out u = ss_out s"
proof (cases "\<exists>c cs. ss_env s ''POST_STRING'' = Some (c # cs)")
  case True
  with b show ?thesis by (auto simp: uss_json_body_def)
next
  case False
  obtain rc body v where r: "rd s = ((rc, body), v)" by (metis prod_cases3 surj_pair)
  have v: "rs_calls v = rs_calls s" "ss_out v = ss_out s"
    using rd r unfolding reads_body_def by blast+
  have bad: "refused s (snd (uss_bad_request srv m v))" for m
    using refused_from[OF v] by (simp add: uss_bad_request_def refused_report)
  have err: "refused s (snd (send_body_error srv rc v))"
    using refused_from[OF v] answers_keeps(1)[OF answers_body_error[of v srv rc]] status_body_error[of v srv rc]
    by (simp add: refused_def)
  have "uss_json_body srv to_host rd s =
    (if rc \<noteq> REQBODY_OK \<and> rc \<noteq> REQBODY_BAD then
       (case send_body_error srv rc v of (rc, s) \<Rightarrow> (Inl rc, s))
     else case body of
       Some (b # bs) \<Rightarrow>
         if rc = REQBODY_OK then (Inr (c_str (to_host (b # bs))), v)
         else (case uss_bad_request srv ''Failed to read request body'' v of (rc, s) \<Rightarrow> (Inl rc, s))
     | _ \<Rightarrow> (case uss_bad_request srv ''Failed to read request body'' v of (rc, s) \<Rightarrow> (Inl rc, s)))"
    using False r by (auto simp: uss_json_body_def split: option.splits list.splits)
  with b bad err v show ?thesis
    by (auto simp: split_beta split: option.splits list.splits if_splits)
qed

lemma refused_utilities:
  assumes rd: "reads_body rd" shows "refused s (snd (uss_handle_utilities srv to_host rd path s))"
proof -
  have bad: "refused u (snd (uss_bad_request srv m u))" for m and u :: "'a usession"
    by (simp add: uss_bad_request_def refused_report)
  have hdr: "refused u (snd (sendDefaultHeaders srv 200 ct k u))" for ct k and u :: "'a usession"
    unfolding refused_def
    using answers_keeps(1)[OF answers_headers[of u srv 200 ct k]] status_headers[of 200 u srv ct k]
    by (intro conjI exI[of _ 200]) simp_all
  let ?list = "\<lambda>l. and_then (http_resp srv 200) (and_then (http_printf srv ''Content-Type: application/json'')
      (and_then (send_common_headers srv) (and_then (http_printf srv []) (http_print srv (OutText l)))))"
  have list: "refused u (snd (?list l (u\<lparr>ss_headers_sent := True\<rparr>)))" for l and u :: "'a usession"
  proof -
    let ?u = "u\<lparr>ss_headers_sent := True\<rparr>"
    have "status_only 200 ?u (snd (?list l ?u))"
      by (intro status_then status_lines status_common status_print) simp
    moreover have "answers ?u (snd (?list l ?u))"
      unfolding send_common_headers_def by (intro answers_then answers_lines answers_parts answers_print)
    ultimately have "refused ?u (snd (?list l ?u))"
      by (intro refusedI[where n = 200]) simp_all
    then show ?thesis by (rule refused_from[rotated 2]) simp_all
  qed
  have chtag: "refused u (snd (uss_handle_chtag srv p b u))" for p b and u :: "'a usession"
    using list bad hdr by (auto simp: uss_handle_chtag_def Let_def split_beta split: option.splits)
  obtain r u where b: "uss_json_body srv to_host rd s = (r, u)" by force
  from json_body_cases[OF rd b] show ?thesis
    using b bad chtag refused_from[of u s]
    by (auto simp: uss_handle_utilities_def split: sum.splits option.splits)
qed

text \<open>Nothing is opened for writing, and the answer is not 204.\<close>

definition untouched :: "cstr \<Rightarrow> 'u usession \<Rightarrow> 'u usession \<Rightarrow> bool" where
  "untouched path s t \<longleftrightarrow> (\<exists>cs. rs_calls t = rs_calls s @ cs \<and> only_opens path cs \<and> 204 \<notin> statuses s t)"

lemma untouched_refused: "refused s t \<Longrightarrow> untouched path s t"
  using refused_statuses[of s t] by (auto simp: untouched_def refused_def only_opens_def intro!: exI[of _ "[]"])

lemma untouched_quiet: "quiet path s u \<Longrightarrow> refused u t \<Longrightarrow> untouched path s t"
  using quiet_keeps(4,7)[of path s u] refused_statuses[of u t] statuses_out[of u s t]
  by (auto simp: untouched_def refused_def)

lemma get_ufs_refused:
  assumes "uss_get_ufs srv env s = (False, t)" shows "refused s t"
  using assms refused_report[of 503 s srv 1 8 1 "Some ''UFSD subsystem not available''" "[]"]
  by (auto simp: uss_get_ufs_def split: if_splits option.splits)

lemma data_type_refused:
  assumes "uss_data_type srv env s = (Inl x, t)" shows "refused s t"
proof -
  have "refused s (snd (send_bad_encoding srv v s))" for v
    by (simp add: send_bad_encoding_def HTTP_STATUS_INTERNAL_SERVER_ERROR_def refused_report)
  moreover have "refused s (snd (sendErrorResponse srv HTTP_STATUS_BAD_REQUEST c r q m d s))" for c r q m d
    by (simp add: HTTP_STATUS_BAD_REQUEST_def refused_report)
  ultimately show ?thesis
    using assms by (auto simp: uss_data_type_def Let_def split_beta split: if_splits)
qed

text \<open>A write that was let through.\<close>

definition written :: "'u uss_env \<Rightarrow> cstr \<Rightarrow> cstr option \<Rightarrow> byte list \<Rightarrow> 'u usession \<Rightarrow> 'u usession \<Rightarrow> bool" where
  "written env path header data s t \<longleftrightarrow>
     (\<exists>v cs ws ds. rs_calls v = rs_calls s @ cs \<and> only_opens path cs \<and> if_match_holds env path header v \<and>
       rs_calls t = rs_calls v @ UfsOpen path ''w'' # ws @ ds \<and> only_opens path ds \<and>
       (ws = [] \<or> (\<exists>n. ws = [UfsWrite n data])) \<and>
       (204 \<in> statuses s t \<longrightarrow> ws = (if data = [] then [] else [UfsWrite (length data) data])))"

definition put_file ::
  "httpd \<Rightarrow> 'u uss_env \<Rightarrow> cstr \<Rightarrow> byte list \<Rightarrow> 'u usession \<Rightarrow> (int \<times> 'u usession) option" where
  "put_file srv env path data s =
     (case uss_get_ufs srv env s of (ok, s) \<Rightarrow>
        if \<not> ok then Some (-1, s)
        else case uss_check_if_match srv env path s of
          None \<Rightarrow> None
        | Some (ok, s) \<Rightarrow> if \<not> ok then Some (0, s) else uss_put_write srv env path data s)"

lemma put_file_cases:
  assumes "put_file srv env path data s = Some (rc, t)"
  shows "untouched path s t \<or> written env path (getHeaderParam s ''If-Match'') data s t"
proof -
  obtain ok s1 where g: "uss_get_ufs srv env s = (ok, s1)" by force
  show ?thesis
  proof (cases ok)
    case False
    with assms g have "uss_get_ufs srv env s = (False, t)" by (simp add: put_file_def)
    from untouched_refused[OF get_ufs_refused[OF this]] show ?thesis by blast
  next
    case True
    with get_ufs_cases[OF g, of path] have q: "quiet path s s1" by simp
    from assms g True obtain ok2 s2 where c: "uss_check_if_match srv env path s1 = Some (ok2, s2)"
      by (auto simp: put_file_def split: option.splits)
    note cc = check_if_match_cases[OF c]
    show ?thesis
    proof (cases ok2)
      case False
      with assms g True c have "t = s2" by (simp add: put_file_def)
      with cc False obtain u where "quiet path s1 u" "refused u t" by auto
      with untouched_quiet[OF quiet_trans[OF q]] show ?thesis by blast
    next
      case ok2: True
      with assms g True c have w: "uss_put_write srv env path data s2 = Some (rc, t)" by (simp add: put_file_def)
      from cc ok2 q have q2: "quiet path s s2" by (auto intro: quiet_trans)
      have h: "if_match_holds env path (getHeaderParam s ''If-Match'') s2"
        using cc ok2 quiet_keeps(6)[OF q, of "''If-Match''"] by simp
      have "statuses s t = statuses s2 t" using quiet_keeps(4)[OF q2] by (metis statuses_out)
      with put_write_cases[OF w] quiet_keeps(7)[OF q2] h show ?thesis unfolding written_def by metis
    qed
  qed
qed

text \<open>
  C32: An upload opens the file for writing at most once, and only when the precondition of the
  request holds for the file as that open finds it: a stamp the If-Match header has, or a directory,
  which the open then refuses.  What it writes is the body the client sent, translated for text, and
  204 is answered only when the file system took all of it.  A request that fails earlier leaves the
  file as it was.
\<close>
theorem upload_guarded:
  assumes "ussPutHandler srv env to_host rd s = Some (rc, s')" "reads_body rd"
  shows "(\<exists>path. untouched path s s') \<or>
    (\<exists>path dt e b data. uss_path env s = Inr path \<and>
       parse_data_type (ss_env s ''HTTP_X-IBM-Data-Type'') = (True, dt, e) \<and> fst (rd s) = (REQBODY_OK, b) \<and>
       data = (let b = (case b of None \<Rightarrow> [] | Some b \<Rightarrow> b) in
         if dt = DATA_TYPE_TEXT then map (cp_atoe (if e = FILE_ENC_IBM037 then ue_cp037 env else ue_1047 env)) b else b) \<and>
       written env path (getHeaderParam s ''If-Match'') data s s')"
proof (cases "uss_path env s")
  case (Inl m)
  have "refused s s'"
    using assms(1) Inl refused_report[of 400 s srv 2 8 1 "Some m" "[]"] by (simp add: ussPutHandler_def uss_bad_request_def)
  then show ?thesis using untouched_refused by blast
next
  case (Inr path)
  let ?json = "case getHeaderParam s ''Content-Type'' of None \<Rightarrow> False | Some t \<Rightarrow> c_strstr ''application/json'' t \<noteq> None"
  show ?thesis
  proof (cases ?json)
    case True
    with assms Inr refused_utilities[OF assms(2), of s srv to_host path] have "refused s s'"
      by (simp add: ussPutHandler_def)
    then show ?thesis using untouched_refused by blast
  next
    case False
    obtain r1 s1 where d: "uss_data_type srv env s = (r1, s1)" by force
    show ?thesis
    proof (cases r1)
      case (Inl x)
      with assms(1) \<open>uss_path env s = Inr path\<close> False d have "s' = s1" by (simp add: ussPutHandler_def)
      with data_type_refused[of srv env s x] d Inl untouched_refused show ?thesis by blast
    next
      case (Inr dtcp)
      obtain dt cp where dtcp: "dtcp = (dt, cp)" by force
      from data_type_cases[OF d] Inr dtcp obtain e where s1: "s1 = s" and
        e: "parse_data_type (ss_env s ''HTTP_X-IBM-Data-Type'') = (True, dt, e)"
          "cp = (if e = FILE_ENC_IBM037 then ue_cp037 env else ue_1047 env)" by auto
      obtain x s2 where pb: "uss_put_body srv dt cp rd s = (x, s2)" by force
      note run = assms(1) \<open>uss_path env s = Inr path\<close> False d Inr dtcp s1 pb
      show ?thesis
      proof (cases x)
        case None
        with run have "s' = s2" by (simp add: ussPutHandler_def)
        with put_body_cases[OF assms(2) pb] None untouched_refused show ?thesis by simp blast
      next
        case (Some data)
        with put_body_cases[OF assms(2) pb] obtain b where b: "fst (rd s) = (REQBODY_OK, b)"
            "data = (let b = (case b of None \<Rightarrow> [] | Some b \<Rightarrow> b) in if dt = DATA_TYPE_TEXT then map (cp_atoe cp) b else b)"
          and s2: "rs_calls s2 = rs_calls s" "ss_env s2 = ss_env s" "ss_out s2 = ss_out s"
          by (auto simp: Let_def)
        have f: "put_file srv env path data s2 = Some (rc, s')"
          using run Some by (simp add: ussPutHandler_def put_file_def)
        have h: "getHeaderParam s2 ''If-Match'' = getHeaderParam s ''If-Match''"
          using s2(2) by (simp add: getHeaderParam_def get_env_param_def)
        have "untouched path s s' \<or> written env path (getHeaderParam s ''If-Match'') data s s'"
          using put_file_cases[OF f] s2(1) statuses_out[OF s2(3)] h
          by (simp add: untouched_def written_def)
        with \<open>uss_path env s = Inr path\<close> e b show ?thesis by blast
      qed
    qed
  qed
qed

section \<open>The handlers return\<close>

text \<open>Every file ends, however it is read.\<close>

definition files_end :: "'u uss_env \<Rightarrow> bool" where
  "files_end env \<longleftrightarrow> (\<forall>fp n u. n > 0 \<longrightarrow> (\<exists>bs v. file_reads (lu_fread (ue_lib env) fp) n u bs v))"

lemma etag_loop_returns:
  "file_reads (lu_fread (ue_lib env) fp) USS_ETAG_BUFSZ u bs v \<Longrightarrow> us_ufs s = u \<Longrightarrow> \<exists>r. etag_loop env fp ctx s = Some r"
proof (induction arbitrary: s ctx rule: file_reads.induct)
  case (at_end u v)
  then show ?case by (simp add: etag_loop.simps ufs_fread_def on_ufs_def)
next
  case (piece u b u1 bs v)
  from piece.IH[of "s\<lparr>us_ufs := u1\<rparr>"] piece.hyps(1,2) piece.prems show ?case
    by (simp add: etag_loop.simps[of env fp ctx s] ufs_fread_def on_ufs_def)
qed

lemma etag_returns: "files_end env \<Longrightarrow> \<exists>r t. uss_etag env path s = Some (r, t)"
proof -
  assume f: "files_end env"
  obtain o' s1 where o: "ufs_fopen env path ''r'' s = (o', s1)" by force
  show ?thesis
  proof (cases o')
    case None
    with o show ?thesis by (simp add: uss_etag_def)
  next
    case (Some fp)
    from f have "\<exists>bs v. file_reads (lu_fread (ue_lib env) fp) USS_ETAG_BUFSZ (us_ufs s1) bs v"
      by (simp add: files_end_def USS_ETAG_BUFSZ_def)
    then obtain ctx s2 where "etag_loop env fp etag_init s1 = Some (ctx, s2)"
      using etag_loop_returns[of env fp "us_ufs s1" _ _ s1 etag_init] by fastforce
    with o Some show ?thesis by (simp add: uss_etag_def)
  qed
qed

lemma get_body_returns:
  assumes "files_end env" shows "\<exists>rc t. uss_get_body srv env path dt cp tag fp s = Some (rc, t)"
proof -
  obtain rc u where h: "uss_get_headers srv dt tag s = (rc, u)" by force
  from assms have "\<exists>bs v. file_reads (lu_fread (ue_lib env) fp) USS_READ_BUFSZ (us_ufs u) bs v"
    by (simp add: files_end_def USS_READ_BUFSZ_def)
  then obtain x y v where "uss_stream_file (get_ops srv env fp cp dt) USS_READ_BUFSZ u = Some ((x, y), v)"
    using download.stream_returns[of env fp USS_READ_BUFSZ "us_ufs u" _ _ u srv cp dt] by fastforce
  with h show ?thesis by (simp add: uss_get_body_def get_ops_def Let_def)
qed

lemma put_write_returns:
  assumes "files_end env" shows "\<exists>rc t. uss_put_write srv env path data s = Some (rc, t)"
proof -
  have a: "\<exists>rc t. uss_put_answer srv env path u = Some (rc, t)" for u
  proof -
    obtain r t where "uss_etag env path u = Some (r, t)" using etag_returns[OF assms] by blast
    then show ?thesis by (cases r) (simp_all add: uss_put_answer_def surj_pair)
  qed
  obtain r u where "uss_open srv env path ''w'' s = (r, u)" by force
  with a show ?thesis
    by (auto simp: uss_put_write_def Let_def split: sum.splits prod.splits)
qed

lemma handlers_return:
  assumes "files_end env"
  shows "(\<exists>rc t. ussGetHandler srv env s = Some (rc, t)) \<and>
    (\<exists>rc t. ussPutHandler srv env to_host rd s = Some (rc, t))"
proof
  have stamp: "\<exists>r t. uss_get_stamp srv env path u = Some (r, t)" for path u
  proof -
    obtain r t where "uss_etag env path u = Some (r, t)" using etag_returns[OF assms] by blast
    then show ?thesis
      by (cases r) (auto simp: uss_get_stamp_def Let_def split: prod.splits)
  qed
  have "\<exists>y. ussGetHandler srv env s = Some y"
    unfolding ussGetHandler_def
    using stamp get_body_returns[OF assms]
    by (auto split: sum.splits prod.splits option.splits) (metis option.distinct(1))+
  then show "\<exists>rc t. ussGetHandler srv env s = Some (rc, t)" by auto
  have check: "\<exists>ok t. uss_check_if_match srv env path u = Some (ok, t)" for path u
  proof -
    obtain r t where "uss_etag env path u = Some (r, t)" using etag_returns[OF assms] by blast
    then show ?thesis
      by (cases r; cases "ufs_stat env path t")
        (auto simp: uss_check_if_match_def Let_def split: prod.splits option.splits)
  qed
  have "\<exists>y. ussPutHandler srv env to_host rd s = Some y"
    unfolding ussPutHandler_def
    using check put_write_returns[OF assms]
    by (auto split: sum.splits prod.splits option.splits) (metis option.distinct(1))+
  then show "\<exists>rc t. ussPutHandler srv env to_host rd s = Some (rc, t)" by auto
qed

section \<open>A file system with one file\<close>

text \<open>The content, and what is left to read.\<close>

definition sample_lib :: "(byte list \<times> byte list) libufs" where
  "sample_lib = \<lparr>lu_path_max = 256, lu_last_rc = (\<lambda>_. UFSD_RC_OK), lu_setuser = (\<lambda>_ _ u. u),
     lu_fopen = (\<lambda>p m (c, r). (Some 1, if m = ''r'' then (c, c) else ([], []))),
     lu_error = (\<lambda>_ _. UFSD_RC_OK), lu_ferror = (\<lambda>_ _. False), lu_feof = (\<lambda>_ (c, r). r = []),
     lu_fread = (\<lambda>_ n (c, r). (take n r, (c, drop n r))), lu_fwrite = (\<lambda>_ d (c, r). (length d, (c @ d, r))),
     lu_fclose = (\<lambda>_ u. u), lu_stat = (\<lambda>_ u. ((UFSD_RC_NOFILE, \<lparr>ul_name = [], ul_attr = [], ul_filesize = 0,
       ul_owner = [], ul_group = [], ul_nlink = 0, ul_mtime = None, ul_inode = 0\<rparr>), u)),
     lu_diropen = (\<lambda>_ u. (None, u)), lu_dirread = (\<lambda>_ u. (None, u)), lu_dirclose = (\<lambda>_ u. u),
     lu_mkdir = (\<lambda>_ u. (UFSD_RC_OK, u)), lu_rmdir = (\<lambda>_ u. (UFSD_RC_OK, u)), lu_remove = (\<lambda>_ u. (UFSD_RC_OK, u)),
     lu_set_create_perm = (\<lambda>_ u. (0, u))\<rparr>"

definition sample_env :: "(byte list \<times> byte list) uss_env" where
  "sample_env = \<lparr>ue_lib = sample_lib, ue_available = True, ue_aceeuser = (\<lambda>_. (0, [])), ue_aceegrp = (\<lambda>_. (0, [])),
     ue_cp037 = \<lparr>cp_etoa = (\<lambda>b. b), cp_atoe = (\<lambda>b. b)\<rparr>, ue_1047 = \<lparr>cp_etoa = (\<lambda>b. b + 1), cp_atoe = (\<lambda>b. b - 1)\<rparr>\<rparr>"

definition sample_us :: "(byte list \<times> byte list) usession" where
  "sample_us = \<lparr>ss_conn = sample_conn, ss_env = [''HTTP_filepath'' \<mapsto> ''f''], ss_prints = [], ss_out = [],
     ss_headers_sent = False, rs_files = [], rs_jes = None, rs_console_lock = None, rs_dslist_lock = False,
     rs_acee = None, rs_old_acee = None, rs_task_acee = None, rs_calls = [], us_ufs = ([7, 8], [])\<rparr>"

definition sample_body :: "(byte list \<times> byte list) body_reader" where
  "sample_body s = ((REQBODY_OK, Some [9]), s)"

lemma sample_reads: "n > 0 \<Longrightarrow> \<exists>bs v. file_reads (lu_fread sample_lib fp) n (c, r) bs v"
proof (induction r rule: length_induct)
  case (1 r)
  show ?case
  proof (cases r)
    case Nil
    then have "file_reads (lu_fread sample_lib fp) n (c, r) [] (c, [])"
      by (intro file_reads.at_end) (simp add: sample_lib_def)
    then show ?thesis by blast
  next
    case (Cons x xs)
    with 1 have "\<exists>bs v. file_reads (lu_fread sample_lib fp) n (c, drop n r) bs v" by simp
    then obtain bs v where "file_reads (lu_fread sample_lib fp) n (c, drop n r) bs v" by blast
    then have "file_reads (lu_fread sample_lib fp) n (c, r) (take n r # bs) v"
      using Cons 1(2) by (intro file_reads.piece[where ?u1.0 = "(c, drop n r)"]) (simp_all add: sample_lib_def)
    then show ?thesis by blast
  qed
qed

lemma sample_files_end: "files_end sample_env"
  using sample_reads by (simp add: files_end_def sample_env_def split_paired_all)

lemma sample_params:
  "getPathParam sample_us ''filepath'' = Some ''f''" "getHeaderParam sample_us ''If-Match'' = None"
  "getHeaderParam sample_us ''If-None-Match'' = None" "getHeaderParam sample_us ''X-IBM-Return-Etag'' = None"
  "getHeaderParam sample_us ''Content-Type'' = None" "uss_path sample_env sample_us = Inr ''/f''"
  "open_client sample_httpd sample_us"
  by (simp_all add: getPathParam_def getHeaderParam_def get_env_param_def c_snprintf_def ENV_NAME_SIZE_def sample_us_def
      uss_path_def uss_build_path_def sample_env_def sample_lib_def open_client_def sample_httpd_def sample_conn_def)

lemma sample_data_type: "uss_data_type sample_httpd sample_env sample_us = (Inr (DATA_TYPE_TEXT, ue_1047 sample_env), sample_us)"
  by (simp add: uss_data_type_def sample_us_def parse_data_type_def)

text \<open>
  On a file system whose files end, every download and every upload returns, whatever the request,
  the socket and the errors of the file system are.
\<close>
theorem transfers_return:
  assumes "files_end env"
  shows "(\<exists>rc t. ussGetHandler srv env s = Some (rc, t)) \<and>
    (\<exists>rc t. ussPutHandler srv env to_host rd s = Some (rc, t))"
  using handlers_return[OF assms] .

theorem transfers_return_witness: "\<exists>rc t. ussGetHandler sample_httpd sample_env sample_us = Some (rc, t)"
  using transfers_return[OF sample_files_end] by blast

lemma get_body_200:
  assumes "open_client srv s" "uss_get_body srv env path dt cp tag fp s = Some (rc, t)"
  shows "200 \<in> statuses s t"
proof -
  from get_headers_open[OF assms(1)] obtain items where
    h: "uss_get_headers srv dt tag s = (0, s\<lparr>ss_headers_sent := True, ss_out := ss_out s @ OutStatus 200 # items\<rparr>)" by blast
  from assms(2) obtain x y u where st: "uss_stream_file (get_ops srv env fp cp dt) USS_READ_BUFSZ
      (s\<lparr>ss_headers_sent := True, ss_out := ss_out s @ OutStatus 200 # items\<rparr>) = Some ((x, y), u)"
    unfolding uss_get_body_def h get_ops_def by (auto split: option.splits)
  from download.stream_outcome[OF st] have "ss_out u = ss_out s @ OutStatus 200 # items"
    by (simp add: download.outcome_def stream_rest_def)
  moreover have "ss_out t = ss_out u"
    using assms(2) h st by (auto simp: uss_get_body_def get_ops_def Let_def ufs_fclose_def do_call_def split: if_splits)
  ultimately show ?thesis by (simp add: statuses_def)
qed

lemma sample_get:
  "ussGetHandler sample_httpd sample_env sample_us = uss_get_body sample_httpd sample_env ''/f'' DATA_TYPE_TEXT
     (ue_1047 sample_env) None 1 (do_call (UfsOpen ''/f'' ''r'') (sample_us\<lparr>us_ufs := ([7, 8], [7, 8])\<rparr>))"
proof -
  have u: "uss_get_ufs sample_httpd sample_env sample_us = (True, sample_us)"
    by (simp add: uss_get_ufs_def sample_env_def sample_us_def)
  have t: "uss_get_stamp sample_httpd sample_env ''/f'' sample_us = Some (Inr None, sample_us)"
    by (simp add: uss_get_stamp_def sample_params etag_requested_def)
  have o: "uss_open sample_httpd sample_env ''/f'' ''r'' sample_us =
      (Inr 1, do_call (UfsOpen ''/f'' ''r'') (sample_us\<lparr>us_ufs := ([7, 8], [7, 8])\<rparr>))"
    by (simp add: uss_open_def ufs_fopen_def on_ufs_def fp_error_def do_call_def sample_env_def sample_lib_def sample_us_def)
  show ?thesis by (simp add: ussGetHandler_def sample_params sample_data_type u t o)
qed

theorem download_whole_or_torn_down_witness:
  "\<exists>rc s' fp u u1 bs v. ussGetHandler sample_httpd sample_env sample_us = Some (rc, s') \<and>
     (rc = -1 \<or> lu_fopen sample_lib ''/f'' ''r'' u = (Some fp, u1) \<and> file_reads (lu_fread sample_lib fp) USS_READ_BUFSZ u1 bs v \<and>
        hc_wire (ss_conn s') = map (\<lambda>b. b + 1) (concat bs))"
proof -
  let ?s = "do_call (UfsOpen ''/f'' ''r'') (sample_us\<lparr>us_ufs := ([7, 8], [7, 8])\<rparr>)"
  obtain rc s' where r: "ussGetHandler sample_httpd sample_env sample_us = Some (rc, s')"
    using handlers_return[OF sample_files_end] by blast
  have o: "open_client sample_httpd ?s" using sample_params(7) by (simp add: open_client_def do_call_def)
  have "200 \<in> statuses ?s s'" using get_body_200[OF o] r sample_get by metis
  then have "200 \<in> statuses sample_us s'" by (simp add: statuses_def do_call_def)
  from download_whole_or_torn_down[OF sample_params(7) r this] r sample_params(1) show ?thesis
    by (auto simp: sample_us_def parse_data_type_def sample_env_def sample_conn_def Let_def) blast
qed

theorem upload_guarded_witness:
  "\<exists>rc s'. ussPutHandler sample_httpd sample_env (\<lambda>_. []) sample_body sample_us = Some (rc, s') \<and>
     ((\<exists>path. untouched path sample_us s') \<or> written sample_env ''/f'' None [8] sample_us s')"
proof -
  have rd: "reads_body sample_body" by (simp add: reads_body_def sample_body_def)
  obtain rc s' where "ussPutHandler sample_httpd sample_env (\<lambda>_. []) sample_body sample_us = Some (rc, s')"
    using handlers_return[OF sample_files_end] by blast
  with upload_guarded[OF this rd] sample_params(2,6) show ?thesis
    by (auto simp: sample_body_def parse_data_type_def sample_us_def sample_env_def Let_def)
qed

end
