(* ===== verification/UssDirs.thy ===== *)
theory UssDirs
  imports UssTransfer
begin

text \<open>
  Directories of the UNIX file system: the second half of \<^verbatim>\<open>src/ussapi.c\<close>, listing, creating and
  deleting.  A walk through a directory ends when the file system has no more entries for it; the
  walks are partial functions, nothing is the result of one that never ends.
\<close>

section \<open>Calls\<close>

definition ufs_diropen :: "'u uss_env \<Rightarrow> cstr \<Rightarrow> 'u usession \<Rightarrow> nat option \<times> 'u usession" where
  "ufs_diropen env path = on_ufs (lu_diropen (ue_lib env) path)"

definition ufs_dirread :: "'u uss_env \<Rightarrow> nat \<Rightarrow> 'u usession \<Rightarrow> UFSDLIST option \<times> 'u usession" where
  "ufs_dirread env dd = on_ufs (lu_dirread (ue_lib env) dd)"

definition ufs_dirclose :: "'u uss_env \<Rightarrow> nat \<Rightarrow> 'u usession \<Rightarrow> 'u usession" where
  "ufs_dirclose env dd s = s\<lparr>us_ufs := lu_dirclose (ue_lib env) dd (us_ufs s)\<rparr>"

definition ufs_mkdir :: "'u uss_env \<Rightarrow> cstr \<Rightarrow> 'u usession \<Rightarrow> ufsd_rc \<times> 'u usession" where
  "ufs_mkdir env path s = on_ufs (lu_mkdir (ue_lib env) path) (do_call (UfsMkdir path) s)"

definition ufs_rmdir :: "'u uss_env \<Rightarrow> cstr \<Rightarrow> 'u usession \<Rightarrow> ufsd_rc \<times> 'u usession" where
  "ufs_rmdir env path s = on_ufs (lu_rmdir (ue_lib env) path) (do_call (UfsRmdir path) s)"

definition ufs_remove :: "'u uss_env \<Rightarrow> cstr \<Rightarrow> 'u usession \<Rightarrow> ufsd_rc \<times> 'u usession" where
  "ufs_remove env path s = on_ufs (lu_remove (ue_lib env) path) (do_call (UfsRemove path) s)"

definition ufs_set_create_perm :: "'u uss_env \<Rightarrow> nat \<Rightarrow> 'u usession \<Rightarrow> nat \<times> 'u usession" where
  "ufs_set_create_perm env perm s = on_ufs (lu_set_create_perm (ue_lib env) perm) (do_call (UfsPerm perm) s)"

definition ufs_last_rc :: "'u uss_env \<Rightarrow> 'u usession \<Rightarrow> ufsd_rc" where
  "ufs_last_rc env s = lu_last_rc (ue_lib env) (us_ufs s)"

section \<open>Lines of an answer\<close>

fun print_lines :: "httpd \<Rightarrow> cstr list \<Rightarrow> 'a session_scheme \<Rightarrow> int \<times> 'a session_scheme" where
  "print_lines srv [] s = (0, s)"
| "print_lines srv (l # ls) s = and_then (http_print srv (OutText (l @ [newline]))) (print_lines srv ls) s"

definition quoted :: "cstr \<Rightarrow> cstr" where
  "quoted t = [dquote] @ t @ [dquote]"

definition json_line :: "nat \<Rightarrow> cstr \<Rightarrow> cstr \<Rightarrow> cstr" where
  "json_line indent key v = replicate indent blank @ quoted key @ '': '' @ v"

definition zpad :: "nat \<Rightarrow> nat \<Rightarrow> cstr" where
  "zpad w n = replicate (w - length (show_nat n)) (CHR ''0'') @ show_nat n"

definition mtime_text :: "UFSDLIST \<Rightarrow> cstr" where
  "mtime_text e =
     (case ul_mtime e of
        None \<Rightarrow> c_snprintf 32 ''1970-01-01T00:00:00Z''
      | Some (y, mo, d, h, mi, sec) \<Rightarrow>
          c_snprintf 32 (zpad 4 y @ ''-'' @ zpad 2 mo @ ''-'' @ zpad 2 d @ ''T'' @ zpad 2 h @ '':'' @ zpad 2 mi @ '':''
            @ zpad 2 sec @ ''Z''))"

text \<open>The fields of an entry, under a name.\<close>

definition entry_lines :: "cstr \<Rightarrow> UFSDLIST \<Rightarrow> cstr list" where
  "entry_lines name e =
     [json_line 6 ''name'' (quoted name @ '',''), json_line 6 ''mode'' (quoted (ul_attr e) @ '',''),
      json_line 6 ''size'' (show_nat (ul_filesize e) @ '',''), json_line 6 ''user'' (quoted (ul_owner e) @ '',''),
      json_line 6 ''group'' (quoted (ul_group e) @ '',''), json_line 6 ''links'' (show_nat (ul_nlink e) @ '',''),
      json_line 6 ''mtime'' (quoted (mtime_text e) @ '',''), json_line 6 ''inode'' (show_nat (ul_inode e)),
      ''    }'']"

text \<open>The headers of a listing; its body is streamed.\<close>

definition uss_list_headers :: "httpd \<Rightarrow> 'a session_scheme \<Rightarrow> int \<times> 'a session_scheme" where
  "uss_list_headers srv s =
     and_then (http_resp srv 200)
       (and_then (send_common_headers srv)
          (and_then (http_printf srv ''Content-Type: application/json'') (http_printf srv [])))
       (s\<lparr>ss_headers_sent := True\<rparr>)"

section \<open>One file\<close>

partial_function (option) dir_find ::
  "'u uss_env \<Rightarrow> nat \<Rightarrow> cstr \<Rightarrow> 'u usession \<Rightarrow> (UFSDLIST option \<times> 'u usession) option" where
  "dir_find env dd filename s =
     (let (e, s) = ufs_dirread env dd s in
      case e of
        None \<Rightarrow> Some (None, s)
      | Some e \<Rightarrow> if ul_name e = filename then Some (Some e, s) else dir_find env dd filename s)"

text \<open>The name behind the last slash and the parent before it.\<close>

definition last_name :: "cstr \<Rightarrow> cstr" where
  "last_name path = rev (takeWhile (\<lambda>c. c \<noteq> CHR ''/'') (rev path))"

definition stat_lines :: "cstr \<Rightarrow> UFSDLIST \<Rightarrow> cstr list" where
  "stat_lines path e =
     [''{'', json_line 2 ''items'' ''['', ''    {''] @ entry_lines path e @
     [''  ],'', json_line 2 ''returnedRows'' ''1,'', json_line 2 ''totalRows'' ''1,'', json_line 2 ''JSONversion'' ''1'', ''}'']"

definition uss_stat_file :: "httpd \<Rightarrow> 'u uss_env \<Rightarrow> cstr \<Rightarrow> 'u usession \<Rightarrow> (int \<times> 'u usession) option" where
  "uss_stat_file srv env path s =
     (let not_found = (\<lambda>msg s. Some (sendErrorResponse srv 404 6 8 1 (Some msg) [] s));
          name = last_name path; plen = length path - length name - 1 in
      if CHR ''/'' \<notin> set path \<or> name = [] then not_found ''Path not found'' s
      else if plen \<noteq> 0 \<and> plen \<ge> lu_path_max (ue_lib env) then Some (uss_bad_request srv ''Path too long'' s)
      else if length name \<ge> 60 then Some (uss_bad_request srv ''Filename too long'' s)
      else
        let parent = (if plen = 0 then ''/'' else take plen path) in
        (case ufs_diropen env parent s of
           (None, s) \<Rightarrow> not_found ''Path not found'' s
         | (Some dd, s) \<Rightarrow>
             (case dir_find env dd name s of
                None \<Rightarrow> None
              | Some (None, s) \<Rightarrow> not_found ''File not found'' (ufs_dirclose env dd s)
              | Some (Some e, s) \<Rightarrow>
                  (case and_then (uss_list_headers srv)
                          (http_print srv (OutText (concat (map (\<lambda>l. l @ [newline]) (stat_lines path e))))) s of
                     (rc, s) \<Rightarrow> Some (rc, ufs_dirclose env dd s)))))"

section \<open>Listing\<close>

definition USS_LIST_DEFAULT_MAX_ITEMS :: u32 where "USS_LIST_DEFAULT_MAX_ITEMS = 1000"

definition dot_entry :: "UFSDLIST \<Rightarrow> bool" where
  "dot_entry e \<longleftrightarrow> ul_name e = ''.'' \<or> ul_name e = ''..''"

text \<open>The return code, \<open>emitted\<close> and \<open>total\<close>.\<close>

partial_function (option) list_entries ::
  "httpd \<Rightarrow> 'u uss_env \<Rightarrow> nat \<Rightarrow> nat \<Rightarrow> nat \<Rightarrow> nat \<Rightarrow> 'u usession \<Rightarrow> ((int \<times> nat \<times> nat) \<times> 'u usession) option" where
  "list_entries srv env dd maxitems n_emitted n_total s =
     (let (e, s) = ufs_dirread env dd s in
      case e of
        None \<Rightarrow> Some ((0, n_emitted, n_total), s)
      | Some e \<Rightarrow>
          if dot_entry e then list_entries srv env dd maxitems n_emitted n_total s
          else if maxitems > 0 \<and> n_emitted \<ge> maxitems then list_entries srv env dd maxitems n_emitted (n_total + 1) s
          else
            let (rc, s) = print_lines srv ((if n_emitted = 0 then ''    {'' else ''   ,{'') # entry_lines (ul_name e) e) s in
            if rc < 0 then Some ((rc, n_emitted, n_total + 1), s)
            else list_entries srv env dd maxitems (n_emitted + 1) (n_total + 1) s)"

definition list_tail :: "nat \<Rightarrow> nat \<Rightarrow> nat \<Rightarrow> cstr list" where
  "list_tail maxitems n_emitted n_total =
     [''  ],'', json_line 2 ''returnedRows'' (show_nat n_emitted @ '',''),
      json_line 2 ''totalRows'' (show_nat n_total @ '','')] @
     (if maxitems > 0 \<and> n_emitted < n_total then [json_line 2 ''moreRows'' ''true,''] else []) @
     [json_line 2 ''JSONversion'' ''1'', ''}'']"

definition list_limit :: "cstr option \<Rightarrow> u32" where
  "list_limit header =
     (case header of None \<Rightarrow> USS_LIST_DEFAULT_MAX_ITEMS | Some v \<Rightarrow> of_int (c_atoi v))"

definition uss_list_dir ::
  "httpd \<Rightarrow> 'u uss_env \<Rightarrow> nat \<Rightarrow> nat \<Rightarrow> 'u usession \<Rightarrow> (int \<times> 'u usession) option" where
  "uss_list_dir srv env maxitems dd s =
     (case and_then (uss_list_headers srv) (print_lines srv [''{'', json_line 2 ''items'' ''['']) s of
        (rc, s) \<Rightarrow>
          if rc < 0 then Some (rc, ufs_dirclose env dd s)
          else case list_entries srv env dd maxitems 0 0 s of
            None \<Rightarrow> None
          | Some ((rc, n_emitted, n_total), s) \<Rightarrow>
              if rc < 0 then Some (rc, ufs_dirclose env dd s)
              else (case print_lines srv (list_tail maxitems n_emitted n_total) s of
                      (rc, s) \<Rightarrow> Some (rc, ufs_dirclose env dd s)))"

definition ussListHandler :: "httpd \<Rightarrow> 'u uss_env \<Rightarrow> 'u usession \<Rightarrow> (int \<times> 'u usession) option" where
  "ussListHandler srv env s =
     (case getQueryParam s ''path'' of
        Some (c # cs) \<Rightarrow>
          let maxitems = list_limit (getHeaderParam s ''X-IBM-Max-Items'') in
          (case uss_get_ufs srv env s of (ok, s) \<Rightarrow>
             if \<not> ok then Some (-1, s)
             else case ufs_diropen env (c # cs) s of
               (None, s) \<Rightarrow> uss_stat_file srv env (c # cs) s
             | (Some dd, s) \<Rightarrow> uss_list_dir srv env (unat maxitems) dd s)
      | _ \<Rightarrow> Some (uss_bad_request srv (''Missing required query parameter '' @ [CHR 0x27] @ ''path'' @ [CHR 0x27]) s))"

section \<open>Creating\<close>

definition uss_parse_mode :: "cstr option \<Rightarrow> nat" where
  "uss_parse_mode mode_str =
     (case mode_str of
        None \<Rightarrow> 0
      | Some m \<Rightarrow> if length m \<noteq> 9 then 0 else foldl (\<lambda>perm c. 2 * perm + (if c \<noteq> CHR ''-'' then 1 else 0)) 0 m)"

definition create_refused ::
  "httpd \<Rightarrow> 'u uss_env \<Rightarrow> nat \<Rightarrow> ('u usession \<Rightarrow> int \<times> 'u usession) \<Rightarrow> 'u usession \<Rightarrow> int \<times> 'u usession" where
  "create_refused srv env old_perm report s = report (snd (ufs_set_create_perm env old_perm s))"

definition already_exists :: "httpd \<Rightarrow> 'a session_scheme \<Rightarrow> int \<times> 'a session_scheme" where
  "already_exists srv = sendErrorResponse srv 400 4 8 1 (Some ''File or directory already exists'') []"

text \<open>\<open>Inl\<close> is the return code of a refusal.\<close>

definition uss_create_file ::
  "httpd \<Rightarrow> 'u uss_env \<Rightarrow> cstr \<Rightarrow> nat \<Rightarrow> 'u usession \<Rightarrow> (int + unit) \<times> 'u usession" where
  "uss_create_file srv env abspath old_perm s =
     (let refuse = (\<lambda>report s. case create_refused srv env old_perm report s of (rc, s) \<Rightarrow> (Inl rc, s)) in
      case ufs_fopen env abspath ''r'' s of
        (Some fp, s) \<Rightarrow> refuse (already_exists srv) (ufs_fclose env fp s)
      | (None, s) \<Rightarrow>
          (case ufs_fopen env abspath ''w'' s of
             (None, s) \<Rightarrow> refuse (uss_failure srv (ufs_last_rc env s)) s
           | (Some fp, s) \<Rightarrow>
               if fp_error env fp s \<noteq> UFSD_RC_OK then
                 refuse (uss_failure srv (fp_error env fp s)) (ufs_fclose env fp s)
               else (Inr (), ufs_fclose env fp s)))"

definition uss_create_dir ::
  "httpd \<Rightarrow> 'u uss_env \<Rightarrow> cstr \<Rightarrow> nat \<Rightarrow> 'u usession \<Rightarrow> (int + unit) \<times> 'u usession" where
  "uss_create_dir srv env abspath old_perm s =
     (let refuse = (\<lambda>report s. case create_refused srv env old_perm report s of (rc, s) \<Rightarrow> (Inl rc, s)) in
      case ufs_diropen env abspath s of
        (Some dd, s) \<Rightarrow> refuse (already_exists srv) (ufs_dirclose env dd s)
      | (None, s) \<Rightarrow>
          (case ufs_mkdir env abspath s of (rc, s) \<Rightarrow>
             if rc \<noteq> UFSD_RC_OK then
               let urc = ufs_last_rc env s
               in refuse (uss_failure srv (if urc = UFSD_RC_OK then UFSD_RC_NOFILE else urc)) s
             else (Inr (), s)))"

text \<open>What a body asks to create: whether a file, and its permissions; or the refusal.\<close>

definition create_request :: "cstr \<Rightarrow> cstr + bool \<times> nat" where
  "create_request body =
     (case uss_extract_json_string body ''type'' 16 of
        None \<Rightarrow> Inl (''Missing or invalid '' @ [CHR 0x27] @ ''type'' @ [CHR 0x27] @ '' in request body'')
      | Some type_str \<Rightarrow>
          if type_str \<notin> {''file'', ''directory'', ''dir''} then
            Inl (''Invalid '' @ [CHR 0x27] @ ''type'' @ [CHR 0x27] @ '': must be '' @ [CHR 0x27] @ ''file'' @ [CHR 0x27] @ '', ''
              @ [CHR 0x27] @ ''directory'' @ [CHR 0x27] @ '', or '' @ [CHR 0x27] @ ''dir'' @ [CHR 0x27])
          else
            let parsed = uss_parse_mode (uss_extract_json_string body ''mode'' 16)
            in Inr (type_str = ''file'', if parsed \<noteq> 0 then parsed else 493))"

definition ussCreateHandler ::
  "httpd \<Rightarrow> 'u uss_env \<Rightarrow> (byte list \<Rightarrow> cstr) \<Rightarrow> 'u body_reader \<Rightarrow> 'u usession \<Rightarrow> int \<times> 'u usession" where
  "ussCreateHandler srv env to_host read_content s =
     (case uss_path env s of
        Inl msg \<Rightarrow> uss_bad_request srv msg s
      | Inr abspath \<Rightarrow>
          (case uss_json_body srv to_host read_content s of
             (Inl rc, s) \<Rightarrow> (rc, s)
           | (Inr body, s) \<Rightarrow>
               (case create_request body of
                  Inl msg \<Rightarrow> uss_bad_request srv msg s
                | Inr (is_file, perm) \<Rightarrow>
                    (case uss_get_ufs srv env s of (ok, s) \<Rightarrow>
                       if \<not> ok then (-1, s)
                       else
                         (case ufs_set_create_perm env perm s of (old_perm, s) \<Rightarrow>
                            (case (if is_file then uss_create_file srv env abspath old_perm s
                                   else uss_create_dir srv env abspath old_perm s) of
                               (Inl rc, s) \<Rightarrow> (rc, s)
                             | (Inr _, s) \<Rightarrow>
                                 sendDefaultHeaders srv 201 (Some HTTP_CONTENT_TYPE_NONE) 0
                                   (snd (ufs_set_create_perm env old_perm s))))))))"

section \<open>Deleting\<close>

text \<open>One function for the two levels of the recursion: a directory to delete, and the loop over
  its entries.\<close>

datatype delete_place = Enter cstr | Entries cstr nat

definition entry_path :: "'u uss_env \<Rightarrow> cstr \<Rightarrow> UFSDLIST \<Rightarrow> cstr" where
  "entry_path env path e = c_snprintf (lu_path_max (ue_lib env)) (path @ ''/'' @ ul_name e)"

partial_function (option) delete_walk ::
  "'u uss_env \<Rightarrow> delete_place \<Rightarrow> 'u usession \<Rightarrow> (ufsd_rc \<times> 'u usession) option" where
  "delete_walk env w s =
     (case w of
        Enter path \<Rightarrow>
          (let (dd, s) = ufs_diropen env path s in
           case dd of None \<Rightarrow> Some (UFSD_RC_other (-1), s) | Some dd \<Rightarrow> delete_walk env (Entries path dd) s)
      | Entries path dd \<Rightarrow>
          (let (e, s) = ufs_dirread env dd s in
           case e of
             None \<Rightarrow> Some (ufs_rmdir env path (ufs_dirclose env dd s))
           | Some e \<Rightarrow>
               if dot_entry e then delete_walk env (Entries path dd) s
               else
                 Option.bind
                   (if c_at (ul_attr e) 0 = CHR ''d'' then delete_walk env (Enter (entry_path env path e)) s
                    else Some (ufs_remove env (entry_path env path e) s))
                   (\<lambda>r. if fst r \<noteq> UFSD_RC_OK then Some (fst r, ufs_dirclose env dd (snd r))
                        else delete_walk env (Entries path dd) (snd r))))"

definition uss_recursive_delete :: "'u uss_env \<Rightarrow> cstr \<Rightarrow> 'u usession \<Rightarrow> (ufsd_rc \<times> 'u usession) option" where
  "uss_recursive_delete env path = delete_walk env (Enter path)"

definition ussDeleteHandler :: "httpd \<Rightarrow> 'u uss_env \<Rightarrow> 'u usession \<Rightarrow> (int \<times> 'u usession) option" where
  "ussDeleteHandler srv env s =
     (case uss_path env s of
        Inl msg \<Rightarrow> Some (uss_bad_request srv msg s)
      | Inr abspath \<Rightarrow>
          let is_recursive = (getHeaderParam s ''X-IBM-Option'' = Some ''recursive'') in
          (case uss_get_ufs srv env s of (ok, s) \<Rightarrow>
             if \<not> ok then Some (-1, s)
             else
               (case ufs_remove env abspath s of (rc, s) \<Rightarrow>
                  if rc = UFSD_RC_OK then Some (sendDefaultHeaders srv 204 (Some HTTP_CONTENT_TYPE_NONE) 0 s)
                  else if ufs_last_rc env s \<noteq> UFSD_RC_ISDIR then Some (uss_failure srv (ufs_last_rc env s) s)
                  else case (if is_recursive then uss_recursive_delete env abspath s
                             else Some (ufs_rmdir env abspath s)) of
                    None \<Rightarrow> None
                  | Some (rc, s) \<Rightarrow>
                      if rc = UFSD_RC_OK then Some (sendDefaultHeaders srv 204 (Some HTTP_CONTENT_TYPE_NONE) 0 s)
                      else Some (uss_failure srv (ufs_last_rc env s) s))))"

end
