(* ===== verification/UssTree.thy ===== *)
theory UssTree
  imports UssDirs
begin

text \<open>
  What the directory services of the UNIX file system show: a deletion stays below its path, a
  creation never truncates a file and restores the permissions, a listing shows and counts exactly
  the entries of the directory.
\<close>

section \<open>Deleting\<close>

definition below :: "cstr \<Rightarrow> cstr \<Rightarrow> bool" where
  "below path p \<longleftrightarrow> p = path \<or> prefix (path @ ''/'') p"

lemma below_refl [simp]: "below p p"
  by (simp add: below_def)

lemma below_trans: "below p q \<Longrightarrow> below q r \<Longrightarrow> below p r"
  unfolding below_def by (elim disjE) (auto simp: prefix_def)

definition removes_below :: "cstr \<Rightarrow> os_call list \<Rightarrow> bool" where
  "removes_below path cs \<longleftrightarrow> (\<forall>c \<in> set cs. \<exists>p. below path p \<and> (c = UfsRemove p \<or> c = UfsRmdir p))"

lemma removes_below_simps [simp]:
  "removes_below path []" "removes_below path (xs @ ys) \<longleftrightarrow> removes_below path xs \<and> removes_below path ys"
  by (auto simp: removes_below_def)

lemma removes_below_trans: "below p q \<Longrightarrow> removes_below q cs \<Longrightarrow> removes_below p cs"
  unfolding removes_below_def by (meson below_trans)

text \<open>The path of an entry, even one that was cut, is below its directory.\<close>

lemma entry_path_below:
  assumes "length path < lu_path_max (ue_lib env)"
  shows "below path (entry_path env path e)" "length (entry_path env path e) < lu_path_max (ue_lib env)"
proof -
  let ?m = "lu_path_max (ue_lib env) - 1"
  show "length (entry_path env path e) < lu_path_max (ue_lib env)"
    using assms by (simp add: entry_path_def c_snprintf_def)
  show "below path (entry_path env path e)"
  proof (cases "length path = ?m")
    case True
    then show ?thesis by (simp add: entry_path_def c_snprintf_def below_def)
  next
    case False
    with assms have "take ?m (path @ ''/'' @ ul_name e) = (path @ ''/'') @ take (?m - length path - 1) (ul_name e)"
      by (simp add: take_Cons')
    then show ?thesis by (simp add: entry_path_def c_snprintf_def below_def)
  qed
qed

definition walk_path :: "delete_place \<Rightarrow> cstr" where
  "walk_path w = (case w of Enter p \<Rightarrow> p | Entries p _ \<Rightarrow> p)"

text \<open>From \<open>s\<close> to \<open>t\<close> only things below the path were removed; a success removed the path itself.\<close>

definition removed :: "'u uss_env \<Rightarrow> cstr \<Rightarrow> 'u usession \<Rightarrow> ufsd_rc \<times> 'u usession \<Rightarrow> bool" where
  "removed env path s r \<longleftrightarrow> (case r of (rc, t) \<Rightarrow>
     (\<exists>cs u. t = s\<lparr>rs_calls := rs_calls s @ cs, us_ufs := u\<rparr> \<and> removes_below path cs) \<and>
     (rc = UFSD_RC_OK \<longrightarrow> (\<exists>u. lu_rmdir (ue_lib env) path u = (UFSD_RC_OK, us_ufs t))))"

definition removing :: "cstr \<Rightarrow> 'u usession \<Rightarrow> 'u usession \<Rightarrow> bool" where
  "removing path s t \<longleftrightarrow> (\<exists>cs u. t = s\<lparr>rs_calls := rs_calls s @ cs, us_ufs := u\<rparr> \<and> removes_below path cs)"

lemma removingI: "removes_below path cs \<Longrightarrow> removing path s (s\<lparr>rs_calls := rs_calls s @ cs, us_ufs := u\<rparr>)"
  by (auto simp: removing_def)

lemma removing_ufs: "removing path s (s\<lparr>us_ufs := u\<rparr>)"
  using removingI[of path "[]" s u] by simp

lemma removing_trans: "removing path s t \<Longrightarrow> removing path t v \<Longrightarrow> removing path s v"
  unfolding removing_def by fastforce

lemma removing_below: "below p q \<Longrightarrow> removing q s t \<Longrightarrow> removing p s t"
  unfolding removing_def using removes_below_trans by blast

lemma removing_calls:
  "ufs_diropen env p s = (d, t) \<Longrightarrow> removing path s t"
  "ufs_dirread env dd s = (e, t) \<Longrightarrow> removing path s t"
  "removing path s (ufs_dirclose env dd s)"
  by (auto simp: ufs_diropen_def ufs_dirread_def ufs_dirclose_def on_ufs_def removing_ufs split: prod.splits)

lemma removing_rm:
  "below path p \<Longrightarrow> ufs_remove env p s = (rc, t) \<Longrightarrow> removing path s t"
  "below path p \<Longrightarrow> ufs_rmdir env p s = (rc, t) \<Longrightarrow> removing path s t"
  using removingI[where cs = "[UfsRemove p]" and s = s] removingI[where cs = "[UfsRmdir p]" and s = s]
  by (auto simp: ufs_remove_def ufs_rmdir_def on_ufs_def do_call_def removes_below_def split: prod.splits)

lemma removed_iff:
  "removed env path s (rc, t) \<longleftrightarrow> removing path s t \<and>
     (rc = UFSD_RC_OK \<longrightarrow> (\<exists>u. lu_rmdir (ue_lib env) path u = (UFSD_RC_OK, us_ufs t)))"
  by (simp add: removed_def removing_def)

lemma removed_after: "removing path s t \<Longrightarrow> removed env path t r \<Longrightarrow> removed env path s r"
  by (cases r) (auto simp: removed_iff intro: removing_trans)

lemma delete_walk_removed:
  "delete_walk env w s = Some r \<Longrightarrow> length (walk_path w) < lu_path_max (ue_lib env) \<longrightarrow> removed env (walk_path w) s r"
proof (rule delete_walk.raw_induct[where P = "\<lambda>env w s r.
    length (walk_path w) < lu_path_max (ue_lib env) \<longrightarrow> removed env (walk_path w) s r"], goal_cases)
  case (1 walk env w s r)
  show ?case
  proof
    assume len: "length (walk_path w) < lu_path_max (ue_lib env)"
    have IH: "walk env w' s' = Some r' \<Longrightarrow> length (walk_path w') < lu_path_max (ue_lib env) \<Longrightarrow> removed env (walk_path w') s' r'"
      for w' s' r' using 1(2) by blast
    show "removed env (walk_path w) s r"
    proof (cases w)
      case (Enter path)
      obtain d t where d: "ufs_diropen env path s = (d, t)" by force
      note q = removing_calls(1)[OF d, of path]
      show ?thesis
      proof (cases d)
        case None
        with 1(3) Enter d q show ?thesis by (auto simp: removed_iff walk_path_def)
      next
        case (Some dd)
        with 1(3) Enter d have "walk env (Entries path dd) t = Some r" by simp
        from IH[OF this] len Enter removed_after[OF q] show ?thesis by (simp add: walk_path_def)
      qed
    next
      case (Entries path dd)
      obtain e t where e: "ufs_dirread env dd s = (e, t)" by force
      note q = removing_calls(2)[OF e, of path]
      have len': "length path < lu_path_max (ue_lib env)" using len Entries by (simp add: walk_path_def)
      show ?thesis
      proof (cases e)
        case None
        with 1(3) Entries e have r: "r = ufs_rmdir env path (ufs_dirclose env dd t)" by simp
        obtain rc v where v: "ufs_rmdir env path (ufs_dirclose env dd t) = (rc, v)" by force
        have "removing path s v"
          using q removing_calls(3)[of path t env dd] removing_rm(2)[OF below_refl v] by (blast intro: removing_trans)
        moreover have "\<exists>u. lu_rmdir (ue_lib env) path u = (rc, us_ufs v)"
          using v by (auto simp: ufs_rmdir_def on_ufs_def do_call_def split: prod.splits)
        ultimately show ?thesis using r v Entries by (auto simp: removed_iff walk_path_def)
      next
        case (Some x)
        show ?thesis
        proof (cases "dot_entry x")
          case True
          with 1(3) Entries e Some have "walk env (Entries path dd) t = Some r" by simp
          from IH[OF this] len' removed_after[OF q] show ?thesis by (simp add: walk_path_def Entries)
        next
          case False
          let ?p = "entry_path env path x"
          note p = entry_path_below[OF len', of x]
          from 1(3) Entries e Some False obtain r1 where
            r1: "(if c_at (ul_attr x) 0 = CHR ''d'' then walk env (Enter ?p) t else Some (ufs_remove env ?p t)) = Some r1"
            and r: "(if fst r1 \<noteq> UFSD_RC_OK then Some (fst r1, ufs_dirclose env dd (snd r1))
              else walk env (Entries path dd) (snd r1)) = Some r"
            by (auto simp: bind_eq_Some_conv)
          have "removing path t (snd r1)"
          proof (cases "c_at (ul_attr x) 0 = CHR ''d''")
            case True
            with r1 have "walk env (Enter ?p) t = Some r1" by simp
            from IH[OF this] p have "removing ?p t (snd r1)" by (cases r1) (simp add: removed_iff walk_path_def)
            with p(1) show ?thesis by (rule removing_below)
          next
            case False
            with r1 have "ufs_remove env ?p t = r1" by simp
            with p(1) show ?thesis by (cases r1) (auto intro: removing_rm(1))
          qed
          with q have q2: "removing path s (snd r1)" by (rule removing_trans)
          show ?thesis
          proof (cases "fst r1 = UFSD_RC_OK")
            case True
            with r have "walk env (Entries path dd) (snd r1) = Some r" by simp
            from IH[OF this] len' removed_after[OF q2] show ?thesis by (simp add: walk_path_def Entries)
          next
            case False
            with r have "r = (fst r1, ufs_dirclose env dd (snd r1))" by simp
            with False removing_trans[OF q2 removing_calls(3)] show ?thesis
              by (simp add: removed_iff walk_path_def Entries)
          qed
        qed
      qed
    qed
  qed
qed simp

lemma removing_keeps:
  assumes "removing path s t"
  shows "\<exists>cs. rs_calls t = rs_calls s @ cs \<and> removes_below path cs" "ss_out t = ss_out s"
  using assms by (auto simp: removing_def)

text \<open>The answer to a deletion: 204 and nothing else is a success.\<close>

lemma answered_204:
  fixes s :: "'u usession"
  assumes "sendDefaultHeaders srv 204 ct n s = (rc, t)"
  shows "rs_calls t = rs_calls s" "us_ufs t = us_ufs s"
  using answers_headers[of s srv 204 ct n] answers_keeps[of s t] assms by simp_all

lemma failure_refused:
  fixes s :: "'u usession"
  assumes "uss_failure srv urc s = (rc, t)" shows "refused s t"
proof -
  have "ufsd_rc_to_http urc \<noteq> 204" by (cases urc) (simp_all add: ufsd_rc_to_http_def)
  from refused_report[OF this, of s srv "ufsd_rc_to_category urc" 8 1 "Some (ufsd_rc_message urc)" "[]"] assms
  show ?thesis by (simp add: uss_failure_def)
qed

text \<open>
  C33: A deletion removes nothing but the path of the request and what lies below it, even where the
  path of an entry had to be cut to fit; without the recursive option it removes or tries the path
  itself only.  It is answered 204 only when the path itself was removed.
\<close>
theorem delete_stays_below:
  assumes "ussDeleteHandler srv env s = Some (rc, t)"
  shows "(rs_calls t = rs_calls s \<and> 204 \<notin> statuses s t) \<or>
    (\<exists>path cs. uss_path env s = Inr path \<and> rs_calls t = rs_calls s @ UfsRemove path # cs \<and> removes_below path cs \<and>
       (getHeaderParam s ''X-IBM-Option'' \<noteq> Some ''recursive'' \<longrightarrow> cs = [] \<or> cs = [UfsRmdir path]) \<and>
       (204 \<in> statuses s t \<longrightarrow>
          (\<exists>u. lu_remove (ue_lib env) path u = (UFSD_RC_OK, us_ufs t)) \<or>
          (\<exists>u. lu_rmdir (ue_lib env) path u = (UFSD_RC_OK, us_ufs t))))"
proof (cases "uss_path env s")
  case (Inl m)
  have "refused s t"
    using assms(1) Inl refused_report[of 400 s srv 2 8 1 "Some m" "[]"] by (simp add: ussDeleteHandler_def uss_bad_request_def)
  then show ?thesis using refused_statuses by (simp add: refused_def)
next
  case (Inr path)
  then have len: "length path < lu_path_max (ue_lib env)"
    by (auto simp: uss_path_def uss_build_path_def split: option.splits if_splits)
  obtain ok s1 where g: "uss_get_ufs srv env s = (ok, s1)" by force
  show ?thesis
  proof (cases ok)
    case False
    with assms Inr g have "t = s1" by (simp add: ussDeleteHandler_def)
    with g False have "refused s t" using get_ufs_refused[of srv env s t] by simp
    then show ?thesis using refused_statuses by (auto simp: refused_def)
  next
    case True
    from get_ufs_cases[OF g, of path] True obtain u where s1: "s1 = s\<lparr>us_ufs := u\<rparr>"
      using g by (auto simp: uss_get_ufs_def split: if_splits option.splits) (metis rsession.surjective usession.update_convs(1) usession.surjective)+
    obtain r2 s2 where m: "ufs_remove env path s1 = (r2, s2)" by force
    have s2: "rs_calls s2 = rs_calls s @ [UfsRemove path]" "ss_out s2 = ss_out s"
      "r2 = UFSD_RC_OK \<Longrightarrow> \<exists>u. lu_remove (ue_lib env) path u = (UFSD_RC_OK, us_ufs s2)"
      using m s1 by (auto simp: ufs_remove_def on_ufs_def do_call_def split: prod.splits)
    let ?rec = "getHeaderParam s ''X-IBM-Option'' = Some ''recursive''"
    have no204: "204 \<notin> statuses s t" if "refused v t" "ss_out v = ss_out s" for v
      using refused_statuses[OF that(1)] statuses_out[OF that(2)] by simp
    show ?thesis
    proof (cases "r2 = UFSD_RC_OK \<or> ufs_last_rc env s2 \<noteq> UFSD_RC_ISDIR")
      case True
      show ?thesis
      proof (cases "r2 = UFSD_RC_OK")
        case True
        with assms Inr g \<open>ok\<close> m have "sendDefaultHeaders srv 204 (Some HTTP_CONTENT_TYPE_NONE) 0 s2 = (rc, t)"
          by (simp add: ussDeleteHandler_def)
        from answered_204[OF this] s2 True Inr show ?thesis by simp
      next
        case False
        with assms Inr g \<open>ok\<close> m True have f: "uss_failure srv (ufs_last_rc env s2) s2 = (rc, t)"
          by (simp add: ussDeleteHandler_def)
        from failure_refused[OF f] s2 Inr no204[OF failure_refused[OF f] s2(2)] show ?thesis by (simp add: refused_def)
      qed
    next
      case False
      from assms Inr g \<open>ok\<close> m False obtain r3 s3 where
        d: "(if ?rec then uss_recursive_delete env path s2 else Some (ufs_rmdir env path s2)) = Some (r3, s3)"
        by (auto simp: ussDeleteHandler_def split: option.splits if_splits)
      have rm: "removed env path s2 (r3, s3)"
      proof (cases ?rec)
        case True
        with d delete_walk_removed[of env "Enter path" s2 "(r3, s3)"] len show ?thesis
          by (simp add: uss_recursive_delete_def walk_path_def)
      next
        case no: False
        with d have r: "ufs_rmdir env path s2 = (r3, s3)" by simp
        then have "r3 = UFSD_RC_OK \<longrightarrow> (\<exists>u. lu_rmdir (ue_lib env) path u = (UFSD_RC_OK, us_ufs s3))"
          by (auto simp: ufs_rmdir_def on_ufs_def do_call_def split: prod.splits)
        with removing_rm(2)[OF below_refl r] show ?thesis by (simp add: removed_iff)
      qed
      then obtain cs where cs: "rs_calls s3 = rs_calls s2 @ cs" "removes_below path cs" and o3: "ss_out s3 = ss_out s"
        using removing_keeps[of path s2 s3] s2(2) by (auto simp: removed_iff)
      have one: "\<not> ?rec \<Longrightarrow> cs = [UfsRmdir path]"
        using d cs(1) by (auto simp: ufs_rmdir_def on_ufs_def do_call_def split: prod.splits)
      show ?thesis
      proof (cases "r3 = UFSD_RC_OK")
        case True
        with assms Inr g \<open>ok\<close> m False d have "sendDefaultHeaders srv 204 (Some HTTP_CONTENT_TYPE_NONE) 0 s3 = (rc, t)"
          by (simp add: ussDeleteHandler_def split: if_splits)
        from answered_204[OF this] s2 cs rm True Inr one show ?thesis by (simp add: removed_iff)
      next
        case err: False
        with assms Inr g \<open>ok\<close> m False d have f: "uss_failure srv (ufs_last_rc env s3) s3 = (rc, t)"
          by (simp add: ussDeleteHandler_def split: if_splits)
        from failure_refused[OF f] s2 cs Inr one no204[OF failure_refused[OF f] o3] show ?thesis by (simp add: refused_def)
      qed
    qed
  qed
qed

section \<open>Creating\<close>

text \<open>
  The calls of a creation, between setting the permissions and restoring them; \<open>ok\<close> when the thing
  was created.
\<close>

definition create_calls :: "'u uss_env \<Rightarrow> cstr \<Rightarrow> os_call list \<Rightarrow> bool \<Rightarrow> bool" where
  "create_calls env path mid ok \<longleftrightarrow>
     \<not> ok \<and> (mid = [] \<or> mid = [UfsOpen path ''r''] \<or> mid = [UfsMkdir path]) \<or>
     mid = [UfsOpen path ''r'', UfsOpen path ''w''] \<and>
       (\<exists>u u1. lu_fopen (ue_lib env) path ''r'' u = (None, u1) \<and>
          (ok \<longrightarrow> fst (lu_fopen (ue_lib env) path ''w'' u1) \<noteq> None)) \<or>
     ok \<and> mid = [UfsMkdir path] \<and> (\<exists>u. fst (lu_mkdir (ue_lib env) path u) = UFSD_RC_OK)"

definition calls_from :: "'u usession \<Rightarrow> os_call list \<Rightarrow> 'u usession \<Rightarrow> bool" where
  "calls_from s cs t \<longleftrightarrow> rs_calls t = rs_calls s @ cs \<and> ss_out t = ss_out s"

lemma calls_fclose [simp]: "calls_from s cs (ufs_fclose env fp t) = calls_from s cs t"
  and calls_dirclose [simp]: "calls_from s cs (ufs_dirclose env dd t) = calls_from s cs t"
  by (simp_all add: calls_from_def ufs_fclose_def ufs_dirclose_def)

lemma calls_open: "calls_from s cs t \<Longrightarrow> ufs_fopen env path m t = (r, u) \<Longrightarrow> calls_from s (cs @ [UfsOpen path m]) u"
  by (auto simp: calls_from_def ufs_fopen_def on_ufs_def do_call_def split: prod.splits)

lemma calls_mkdir: "calls_from s cs t \<Longrightarrow> ufs_mkdir env path t = (r, u) \<Longrightarrow> calls_from s (cs @ [UfsMkdir path]) u"
  by (auto simp: calls_from_def ufs_mkdir_def on_ufs_def do_call_def split: prod.splits)

lemma calls_diropen: "calls_from s cs t \<Longrightarrow> ufs_diropen env path t = (r, u) \<Longrightarrow> calls_from s cs u"
  by (auto simp: calls_from_def ufs_diropen_def on_ufs_def split: prod.splits)

lemma calls_perm: "calls_from s cs t \<Longrightarrow> calls_from s (cs @ [UfsPerm p]) (snd (ufs_set_create_perm env p t))"
  by (auto simp: calls_from_def ufs_set_create_perm_def on_ufs_def do_call_def split: prod.splits)

lemma calls_refl: "calls_from s [] s"
  by (simp add: calls_from_def)

text \<open>A refusal restores the permissions and reports.\<close>

definition refusal_from :: "'u usession \<Rightarrow> os_call list \<Rightarrow> 'u usession \<Rightarrow> bool" where
  "refusal_from s cs t \<longleftrightarrow> rs_calls t = rs_calls s @ cs \<and> 201 \<notin> statuses s t"

lemma refused_from_calls:
  assumes c: "calls_from s cs t" and n: "n \<noteq> 201"
    and r: "create_refused srv env old (sendErrorResponse srv n cat rc rsn msg det) t = (x, u)"
  shows "refusal_from s (cs @ [UfsPerm old]) u"
proof -
  let ?v = "snd (ufs_set_create_perm env old t)"
  note c2 = calls_perm[OF c, of old env]
  from r have u: "u = snd (sendErrorResponse srv n cat rc rsn msg det ?v)"
    by (simp add: create_refused_def)
  have "rs_calls u = rs_calls ?v" unfolding u by (rule answers_keeps(1)[OF answers_report])
  moreover have "201 \<notin> statuses s u"
    using status_only_statuses[of n ?v u] n c2 statuses_out[of ?v s u]
    by (auto simp: u status_report calls_from_def)
  ultimately show ?thesis using c2 by (simp add: refusal_from_def calls_from_def)
qed

lemma failure_not_201: "ufsd_rc_to_http urc \<noteq> 201"
  by (cases urc) (simp_all add: ufsd_rc_to_http_def)

lemma refusals:
  "calls_from s cs t \<Longrightarrow> create_refused srv env old (uss_failure srv urc) t = (x, u) \<Longrightarrow> refusal_from s (cs @ [UfsPerm old]) u"
  "calls_from s cs t \<Longrightarrow> create_refused srv env old (already_exists srv) t = (x, u) \<Longrightarrow> refusal_from s (cs @ [UfsPerm old]) u"
  unfolding uss_failure_def already_exists_def
  by (rule refused_from_calls, assumption, rule failure_not_201, assumption) (rule refused_from_calls[where n = 400]; simp)

lemma create_file_cases:
  assumes "uss_create_file srv env path old s = (r, t)"
  shows "\<exists>mid ok. create_calls env path mid ok \<and>
    (case r of Inl _ \<Rightarrow> \<not> ok \<and> refusal_from s (mid @ [UfsPerm old]) t | Inr _ \<Rightarrow> ok \<and> calls_from s mid t)"
proof -
  obtain o1 s1 where o1: "ufs_fopen env path ''r'' s = (o1, s1)" by force
  from calls_open[OF calls_refl o1] have c1: "calls_from s [UfsOpen path ''r''] s1" by simp
  show ?thesis
  proof (cases o1)
    case (Some fp)
    with assms o1 refusals(2)[of s "[UfsOpen path ''r'']" "ufs_fclose env fp s1" srv env old] c1 show ?thesis
      by (intro exI[of _ "[UfsOpen path ''r'']"] exI[of _ False])
        (auto simp: uss_create_file_def create_calls_def Let_def split: prod.splits)
  next
    case None
    obtain o2 s2 where o2: "ufs_fopen env path ''w'' s1 = (o2, s2)" by force
    from calls_open[OF c1 o2] have c2: "calls_from s [UfsOpen path ''r'', UfsOpen path ''w''] s2" by simp
    let ?mid = "[UfsOpen path ''r'', UfsOpen path ''w'']"
    have cc: "create_calls env path ?mid ok" if "ok \<longrightarrow> o2 \<noteq> None" for ok
      using o1 o2 None that
      by (auto simp: create_calls_def ufs_fopen_def on_ufs_def do_call_def split: prod.splits) fastforce+
    show ?thesis
    proof (cases o2)
      case None
      with assms o1 \<open>o1 = None\<close> o2 c2 refusals(1)[of s ?mid s2 srv env old] cc[of False] show ?thesis
        by (intro exI[of _ ?mid] exI[of _ False]) (auto simp: uss_create_file_def Let_def split: prod.splits)
    next
      case (Some fp)
      show ?thesis
      proof (cases "fp_error env fp s2 = UFSD_RC_OK")
        case True
        with assms o1 None o2 Some c2 cc[of True] show ?thesis
          by (intro exI[of _ ?mid] exI[of _ True]) (auto simp: uss_create_file_def Let_def)
      next
        case False
        with assms o1 None o2 Some c2 refusals(1)[of s ?mid "ufs_fclose env fp s2" srv env old] cc[of False] show ?thesis
          by (intro exI[of _ ?mid] exI[of _ False]) (auto simp: uss_create_file_def Let_def split: prod.splits)
      qed
    qed
  qed
qed

lemma create_dir_cases:
  assumes "uss_create_dir srv env path old s = (r, t)"
  shows "\<exists>mid ok. create_calls env path mid ok \<and>
    (case r of Inl _ \<Rightarrow> \<not> ok \<and> refusal_from s (mid @ [UfsPerm old]) t | Inr _ \<Rightarrow> ok \<and> calls_from s mid t)"
proof -
  obtain o1 s1 where o1: "ufs_diropen env path s = (o1, s1)" by force
  note c1 = calls_diropen[OF calls_refl o1]
  show ?thesis
  proof (cases o1)
    case (Some dd)
    with assms o1 refusals(2)[of s "[]" "ufs_dirclose env dd s1" srv env old] c1 show ?thesis
      by (intro exI[of _ "[]"] exI[of _ False])
        (auto simp: uss_create_dir_def create_calls_def Let_def split: prod.splits)
  next
    case None
    obtain rc s2 where m: "ufs_mkdir env path s1 = (rc, s2)" by force
    from calls_mkdir[OF c1 m] have c2: "calls_from s [UfsMkdir path] s2" by simp
    show ?thesis
    proof (cases "rc = UFSD_RC_OK")
      case True
      with m have "fst (lu_mkdir (ue_lib env) path (us_ufs s1)) = UFSD_RC_OK"
        by (auto simp: ufs_mkdir_def on_ufs_def do_call_def split: prod.splits)
      with assms o1 None m True c2 show ?thesis
        by (intro exI[of _ "[UfsMkdir path]"] exI[of _ True])
          (auto simp: uss_create_dir_def create_calls_def Let_def)
    next
      case False
      with assms o1 None m c2 refusals(1)[of s "[UfsMkdir path]" s2 srv env old] show ?thesis
        by (intro exI[of _ "[UfsMkdir path]"] exI[of _ False])
          (auto simp: uss_create_dir_def create_calls_def Let_def split: prod.splits)
    qed
  qed
qed

text \<open>Answered before the file system is asked for anything.\<close>

definition create_nothing :: "'u usession \<Rightarrow> 'u usession \<Rightarrow> bool" where
  "create_nothing s t \<longleftrightarrow> rs_calls t = rs_calls s \<and> 201 \<notin> statuses s t"

lemma nothing_report:
  assumes "n \<noteq> 201" "ss_out u = ss_out s" "rs_calls u = rs_calls s"
  shows "create_nothing s (snd (sendErrorResponse srv n c r q m d u))"
  using status_only_statuses[OF status_report[of n u srv c r q m d]] assms statuses_out[of u s]
    answers_keeps(1)[OF answers_report[of u srv n c r q m d]]
  by (auto simp: create_nothing_def)

lemma nothing_body:
  assumes rd: "reads_body rd" and b: "uss_json_body srv to_host rd s = (Inl rc, u)"
  shows "create_nothing s u"
proof -
  have p: "\<not> (\<exists>c cs. ss_env s ''POST_STRING'' = Some (c # cs))" using b by (auto simp: uss_json_body_def)
  obtain rc body v where r: "rd s = ((rc, body), v)" by (metis prod_cases3 surj_pair)
  have v: "rs_calls v = rs_calls s" "ss_out v = ss_out s" using rd r unfolding reads_body_def by blast+
  have n: "create_nothing s (snd (send_body_error srv rc v))" "create_nothing s (snd (uss_bad_request srv m v))" for m
    by (simp_all add: nothing_report[OF _ v(2) v(1)] send_body_error_def uss_bad_request_def HTTP_STATUS_PAYLOAD_TOO_LARGE_def HTTP_STATUS_INTERNAL_SERVER_ERROR_def)
  from b r p n show ?thesis
    by (auto simp: uss_json_body_def split_beta split: option.splits list.splits if_splits)
qed

text \<open>
  A creation sets the permissions once and restores what they were, whatever happens in between;
  it opens a path for writing, which truncates, only when it could not be opened for reading, makes
  one directory at most, and is answered 201 only when the file or the directory was made.
\<close>
theorem create_bracketed:
  assumes "ussCreateHandler srv env to_host rd s = (rc, t)" "reads_body rd"
  shows "(rs_calls t = rs_calls s \<and> 201 \<notin> statuses s t) \<or>
    (\<exists>path perm old u mid ok. uss_path env s = Inr path \<and> fst (lu_set_create_perm (ue_lib env) perm u) = old \<and>
       rs_calls t = rs_calls s @ UfsPerm perm # mid @ [UfsPerm old] \<and> create_calls env path mid ok \<and>
       (201 \<in> statuses s t \<longrightarrow> ok))"
proof (cases "uss_path env s")
  case (Inl m)
  with assms(1) nothing_report[of 400 s s srv 2 8 1 "Some m" "[]"] show ?thesis
    by (simp add: ussCreateHandler_def uss_bad_request_def create_nothing_def)
next
  case (Inr path)
  obtain b s1 where b: "uss_json_body srv to_host rd s = (b, s1)" by force
  show ?thesis
  proof (cases b)
    case Inl
    with assms Inr b nothing_body[OF assms(2)] show ?thesis by (fastforce simp: ussCreateHandler_def create_nothing_def)
  next
    case (Inr body)
    from json_body_cases[OF assms(2) b] Inr have s1: "rs_calls s1 = rs_calls s" "ss_out s1 = ss_out s" by simp_all
    note run = assms(1) \<open>uss_path env s = Inr path\<close> b Inr
    show ?thesis
    proof (cases "create_request body")
      case (Inl m)
      with run nothing_report[of 400 s1 s srv 2 8 1 "Some m" "[]"] s1 show ?thesis
        by (simp add: ussCreateHandler_def uss_bad_request_def create_nothing_def)
    next
      case (Inr fp)
      obtain is_file perm where fp: "fp = (is_file, perm)" by force
      obtain ok s2 where g: "uss_get_ufs srv env s1 = (ok, s2)" by force
      show ?thesis
      proof (cases ok)
        case False
        with g have "s2 = snd (sendErrorResponse srv 503 1 8 1 (Some ''UFSD subsystem not available'') [] s1)"
          by (auto simp: uss_get_ufs_def split: if_splits option.splits)
        with run Inr fp g False nothing_report[of 503 s1 s srv 1 8 1 "Some ''UFSD subsystem not available''" "[]"] s1
        show ?thesis by (simp add: ussCreateHandler_def create_nothing_def)
      next
        case True
        with g have c2: "calls_from s [] s2"
          using s1 by (auto simp: uss_get_ufs_def calls_from_def split: if_splits option.splits)
        obtain old s3 where p: "ufs_set_create_perm env perm s2 = (old, s3)" by force
        from calls_perm[OF c2, of perm env] p have c3: "calls_from s [UfsPerm perm] s3" by simp
        from p have old: "fst (lu_set_create_perm (ue_lib env) perm (us_ufs s2)) = old"
          by (auto simp: ufs_set_create_perm_def on_ufs_def do_call_def split: prod.splits)
        obtain r s4 where c: "(if is_file then uss_create_file srv env path old s3 else uss_create_dir srv env path old s3) = (r, s4)"
          by force
        then obtain mid fin where mid: "create_calls env path mid fin" and
          rc: "case r of Inl _ \<Rightarrow> \<not> fin \<and> refusal_from s3 (mid @ [UfsPerm old]) s4 | Inr _ \<Rightarrow> fin \<and> calls_from s3 mid s4"
          using create_file_cases[of srv env path old s3 r s4] create_dir_cases[of srv env path old s3 r s4]
          by (cases is_file) auto
        have out3: "statuses s v = statuses s3 v" for v
          using c3 statuses_out[of s3 s] by (simp add: calls_from_def)
        have "rs_calls t = rs_calls s @ UfsPerm perm # mid @ [UfsPerm old] \<and> (201 \<in> statuses s t \<longrightarrow> fin)"
        proof (cases r)
          case (Inl x)
          with run Inr fp g True p c have "t = s4" by (simp add: ussCreateHandler_def split: if_splits)
          with rc Inl c3 out3 show ?thesis by (simp add: refusal_from_def calls_from_def)
        next
          case (Inr x)
          let ?v = "snd (ufs_set_create_perm env old s4)"
          from run \<open>create_request body = Inr fp\<close> fp g True p c Inr have
            "t = snd (sendDefaultHeaders srv 201 (Some HTTP_CONTENT_TYPE_NONE) 0 ?v)"
            by (simp add: ussCreateHandler_def split: if_splits)
          then have "rs_calls t = rs_calls ?v" using answers_keeps(1)[OF answers_headers] by simp
          moreover from rc Inr have "calls_from s3 mid s4" fin by simp_all
          ultimately show ?thesis using calls_perm[of s3 mid s4 old env] c3 by (simp add: calls_from_def)
        qed
        with mid old \<open>uss_path env s = Inr path\<close> show ?thesis by blast
      qed
    qed
  qed
qed

section \<open>Listing\<close>

text \<open>What a walk through a directory gives.\<close>

inductive dir_reads :: "('u \<Rightarrow> UFSDLIST option \<times> 'u) \<Rightarrow> 'u \<Rightarrow> UFSDLIST list \<Rightarrow> 'u \<Rightarrow> bool" for rd where
  no_more: "rd u = (None, v) \<Longrightarrow> dir_reads rd u [] v"
| entry: "rd u = (Some e, u1) \<Longrightarrow> dir_reads rd u1 es v \<Longrightarrow> dir_reads rd u (e # es) v"

definition text_items :: "cstr list \<Rightarrow> out_item list" where
  "text_items ls = map (\<lambda>l. OutText (l @ [newline])) ls"

text \<open>The objects of a page, with the separators between them.\<close>

fun page_lines :: "nat \<Rightarrow> UFSDLIST list \<Rightarrow> cstr list" where
  "page_lines k [] = []"
| "page_lines k (e # es) =
     ((if k = 0 then ''    {'' else ''   ,{'') # entry_lines (ul_name e) e) @ page_lines (Suc k) es"

definition page :: "nat \<Rightarrow> 'a list \<Rightarrow> 'a list" where
  "page maxitems es = (if maxitems = 0 then es else take maxitems es)"

lemma text_items_append [simp]: "text_items (xs @ ys) = text_items xs @ text_items ys"
  by (simp add: text_items_def)

lemma print_lines_open:
  "open_client srv s \<Longrightarrow> print_lines srv ls s = (0, s\<lparr>ss_out := ss_out s @ text_items ls\<rparr>)"
proof (induction ls arbitrary: s)
  case (Cons l ls)
  let ?t = "s\<lparr>ss_out := ss_out s @ [OutText (l @ [newline])]\<rparr>"
  have "open_client srv ?t" using Cons.prems by (simp add: open_client_def)
  from Cons.IH[OF this] Cons.prems show ?case
    by (simp add: and_then_def http_print_def open_client_def text_items_def)
qed (simp add: text_items_def)

lemma list_entries_page:
  assumes "dir_reads (lu_dirread (ue_lib env) dd) u es v" "us_ufs s = u" "open_client srv s"
  shows "list_entries srv env dd m k n s =
    (let live = filter (\<lambda>e. \<not> dot_entry e) es; shown = (if m = 0 then live else take (m - k) live) in
     Some ((0, k + length shown, n + length live),
       s\<lparr>ss_out := ss_out s @ text_items (page_lines k shown), us_ufs := v\<rparr>))"
  using assms
proof (induction arbitrary: s k n rule: dir_reads.induct)
  case (no_more u v)
  then show ?case
    by (simp add: list_entries.simps[of srv env dd m k n s] ufs_dirread_def on_ufs_def text_items_def)
next
  case (entry u e u1 es v)
  let ?s = "s\<lparr>us_ufs := u1\<rparr>"
  have rd: "ufs_dirread env dd s = (Some e, ?s)" using entry.hyps(1) entry.prems(1) by (simp add: ufs_dirread_def on_ufs_def)
  have o: "open_client srv ?s" using entry.prems(2) by (simp add: open_client_def)
  note step = list_entries.simps[of srv env dd m k n s]
  consider (dot) "dot_entry e" | (full) "\<not> dot_entry e" "m > 0 \<and> k \<ge> m" | (room) "\<not> dot_entry e" "m = 0 \<or> k < m"
    by linarith
  then show ?case
  proof cases
    case dot
    with step rd entry.IH[of ?s k n] o show ?thesis by simp
  next
    case full
    with step rd entry.IH[of ?s k "n + 1"] o show ?thesis by (simp add: Let_def)
  next
    case room
    let ?ls = "(if k = 0 then ''    {'' else ''   ,{'') # entry_lines (ul_name e) e"
    let ?t = "?s\<lparr>ss_out := ss_out s @ text_items ?ls\<rparr>"
    have p: "print_lines srv ?ls ?s = (0, ?t)" using print_lines_open[OF o, of ?ls] by simp
    have ot: "open_client srv ?t" using o by (simp add: open_client_def)
    have "list_entries srv env dd m k n s = list_entries srv env dd m (k + 1) (n + 1) ?t"
      using room by (subst step) (auto simp: rd p simp del: print_lines.simps)
    moreover have "m \<noteq> 0 \<Longrightarrow> m - k = Suc (m - Suc k)" using room by simp
    ultimately show ?thesis
      using entry.IH[of ?t "k + 1" "n + 1"] ot room by (auto simp: Let_def text_items_def)
  qed
qed

lemma list_headers_open:
  fixes s :: "'a session_scheme"
  assumes "open_client srv s"
  shows "uss_list_headers srv s = (0, s\<lparr>ss_headers_sent := True, ss_out := ss_out s @
    OutStatus 200 # map OutHeader (fixed_headers @ cookie_headers srv s @ [''Content-Type: application/json'', []])\<rparr>)"
proof -
  let ?t = "s\<lparr>ss_headers_sent := True\<rparr>"
  have "prints srv (and_then (http_resp srv 200) (and_then (send_common_headers srv)
      (and_then (http_printf srv ''Content-Type: application/json'') (http_printf srv []))))
      (\<lambda>s :: 'a session_scheme. [OutStatus 200] @ map OutHeader (fixed_headers @ cookie_headers srv s) @
         [OutHeader ''Content-Type: application/json''] @ [OutHeader []])"
    by (intro prints_then prints_line prints_common) simp_all
  moreover have "open_client srv ?t" using assms by (simp add: open_client_def)
  ultimately show ?thesis by (simp add: uss_list_headers_def prints_def)
qed

definition listing_lines :: "nat \<Rightarrow> UFSDLIST list \<Rightarrow> cstr list" where
  "listing_lines m live =
     [''{'', json_line 2 ''items'' ''[''] @ page_lines 0 (page m live) @
     list_tail m (length (page m live)) (length live)"

text \<open>
  C34: The listing of a directory is complete: its items are the entries the file system has for the
  path, without the two dot entries, in order and at most as many as the limit allows; the two
  counts are those of the page and of the whole directory, and moreRows stands there exactly when
  the page is shorter.
\<close>
theorem listing_exact:
  assumes "open_client srv s" "getQueryParam s ''path'' = Some path" "path \<noteq> []"
    and "uss_get_ufs srv env s = (True, s1)"
    and "lu_diropen (ue_lib env) path (us_ufs s1) = (Some dd, u1)"
    and "dir_reads (lu_dirread (ue_lib env) dd) u1 es v"
  shows "\<exists>t. ussListHandler srv env s = Some (0, t) \<and>
    (let live = filter (\<lambda>e. \<not> dot_entry e) es; m = unat (list_limit (getHeaderParam s ''X-IBM-Max-Items'')) in
     ss_out t = ss_out s @ OutStatus 200 # map OutHeader (fixed_headers @ cookie_headers srv s @
         [''Content-Type: application/json'', []]) @ text_items (listing_lines m live) \<and>
     ((\<exists>l \<in> set (list_tail m (length (page m live)) (length live)). l = json_line 2 ''moreRows'' ''true,'') \<longleftrightarrow>
       length (page m live) < length live))"
proof -
  let ?live = "filter (\<lambda>e. \<not> dot_entry e) es" and ?m = "unat (list_limit (getHeaderParam s ''X-IBM-Max-Items''))"
  obtain c cs where path: "path = c # cs" using assms(3) by (cases path) auto
  obtain u where s1: "s1 = s\<lparr>us_ufs := u\<rparr>"
    using assms(4) by (auto simp: uss_get_ufs_def split: if_splits option.splits)
      (metis rsession.surjective usession.update_convs(1) usession.surjective)+
  let ?s = "s\<lparr>us_ufs := u1\<rparr>"
  have op: "ufs_diropen env path s1 = (Some dd, ?s)" using assms(5) s1 by (simp add: ufs_diropen_def on_ufs_def)
  have o: "open_client srv ?s" using assms(1) by (simp add: open_client_def)
  let ?h = "OutStatus 200 # map OutHeader (fixed_headers @ cookie_headers srv s @ [''Content-Type: application/json'', []])"
  let ?h1 = "?s\<lparr>ss_headers_sent := True, ss_out := ss_out s @ ?h\<rparr>"
  let ?h2 = "?h1\<lparr>ss_out := ss_out s @ ?h @ text_items [''{'', json_line 2 ''items'' ''['']\<rparr>"
  have ck: "cookie_headers srv ?s = cookie_headers srv s"
    by (simp add: cookie_headers_def getHeaderParam_def get_env_param_def cong: option.case_cong)
  have o1: "open_client srv ?h1" and o2: "open_client srv ?h2" using o by (simp_all add: open_client_def)
  have head: "and_then (uss_list_headers srv) (print_lines srv [''{'', json_line 2 ''items'' ''['']) ?s = (0, ?h2)"
    using list_headers_open[OF o] print_lines_open[OF o1] ck by (simp add: and_then_def del: print_lines.simps)
  note body = list_entries_page[OF assms(6) _ o2, of ?m 0 0]
  let ?p = "page ?m ?live"
  let ?t = "?h2\<lparr>ss_out := ss_out ?h2 @ text_items (page_lines 0 ?p), us_ufs := v\<rparr>"
  have "list_entries srv env dd ?m 0 0 ?h2 = Some ((0, length ?p, length ?live), ?t)"
    using body by (simp add: Let_def page_def)
  moreover have "open_client srv ?t" using o by (simp add: open_client_def)
  note tail = print_lines_open[OF this, of "list_tail ?m (length ?p) (length ?live)"]
  ultimately have "uss_list_dir srv env ?m dd ?s = Some (0, ufs_dirclose env dd
      (?t\<lparr>ss_out := ss_out ?t @ text_items (list_tail ?m (length ?p) (length ?live))\<rparr>))"
    using head by (simp add: uss_list_dir_def del: print_lines.simps)
  moreover have "ussListHandler srv env s = uss_list_dir srv env ?m dd ?s"
    using assms(2,4) op path by (simp add: ussListHandler_def)
  moreover have "(\<exists>l \<in> set (list_tail ?m (length ?p) (length ?live)). l = json_line 2 ''moreRows'' ''true,'') \<longleftrightarrow>
      length ?p < length ?live"
    by (auto simp: list_tail_def json_line_def quoted_def page_def)
  ultimately show ?thesis
    by (simp add: Let_def ufs_dirclose_def listing_lines_def text_items_def)
qed

section \<open>A small file system\<close>

theorem delete_stays_below_witness:
  "\<exists>rc t cs. ussDeleteHandler sample_httpd sample_env sample_us = Some (rc, t) \<and>
     rs_calls t = UfsRemove ''/f'' # cs \<and> removes_below ''/f'' cs"
proof -
  let ?s = "do_call (UfsRemove ''/f'') sample_us"
  obtain rc t where h: "sendDefaultHeaders sample_httpd 204 (Some HTTP_CONTENT_TYPE_NONE) 0 ?s = (rc, t)" by force
  have "ufs_remove sample_env ''/f'' sample_us = (UFSD_RC_OK, ?s)"
    by (simp add: ufs_remove_def on_ufs_def do_call_def sample_env_def sample_lib_def sample_us_def)
  moreover have "uss_get_ufs sample_httpd sample_env sample_us = (True, sample_us)"
    by (simp add: uss_get_ufs_def sample_env_def sample_us_def)
  ultimately have d: "ussDeleteHandler sample_httpd sample_env sample_us = Some (rc, t)"
    using h by (simp add: ussDeleteHandler_def sample_params)
  from answered_204(1)[OF h] have "rs_calls t = [UfsRemove ''/f'']" by (simp add: do_call_def sample_us_def)
  with delete_stays_below[OF d] d sample_params(6) show ?thesis by (auto simp: sample_us_def)
qed

theorem create_bracketed_witness:
  "\<exists>rc t. ussCreateHandler sample_httpd sample_env (\<lambda>_. ''x'') sample_body sample_us = (rc, t) \<and>
     (201 \<in> statuses sample_us t \<longrightarrow> (\<exists>mid. rs_calls t \<noteq> [] \<and> create_calls sample_env ''/f'' mid True))"
proof -
  have rd: "reads_body sample_body" by (simp add: reads_body_def sample_body_def)
  obtain rc t where c: "ussCreateHandler sample_httpd sample_env (\<lambda>_. ''x'') sample_body sample_us = (rc, t)" by force
  from create_bracketed[OF c rd] c sample_params(6) show ?thesis
    by (auto simp del: split_paired_Ex)
qed

definition dir_env :: "(byte list \<times> byte list) uss_env" where
  "dir_env = sample_env\<lparr>ue_lib := sample_lib\<lparr>lu_diropen := (\<lambda>_ u. (Some 1, u)),
     lu_dirread := (\<lambda>_ (c, r). case r of
         [] \<Rightarrow> (None, (c, []))
       | b # bs \<Rightarrow> (Some \<lparr>ul_name = (if b = 0 then ''.'' else ''f''), ul_attr = ''-rw-r--r--'', ul_filesize = 2,
            ul_owner = ''U'', ul_group = ''G'', ul_nlink = 1, ul_mtime = None, ul_inode = 5\<rparr>, (c, bs)))\<rparr>\<rparr>"

definition dir_us :: "(byte list \<times> byte list) usession" where
  "dir_us = sample_us\<lparr>ss_env := [''QUERY_path'' \<mapsto> ''/''], us_ufs := ([], [0, 1])\<rparr>"

theorem listing_exact_witness:
  "\<exists>t. ussListHandler sample_httpd dir_env dir_us = Some (0, t) \<and>
     OutText (json_line 2 ''totalRows'' ''1,'' @ [newline]) \<in> set (ss_out t)"
proof -
  let ?e = "\<lambda>n. \<lparr>ul_name = n, ul_attr = ''-rw-r--r--'', ul_filesize = 2, ul_owner = ''U'', ul_group = ''G'',
     ul_nlink = 1, ul_mtime = None, ul_inode = 5\<rparr>"
  have o: "open_client sample_httpd dir_us" using sample_params(7) by (simp add: open_client_def dir_us_def)
  have q: "getQueryParam dir_us ''path'' = Some ''/''"
    by (simp add: getQueryParam_def get_env_param_def c_snprintf_def ENV_NAME_SIZE_def dir_us_def)
  have g: "uss_get_ufs sample_httpd dir_env dir_us = (True, dir_us)"
    by (simp add: uss_get_ufs_def dir_env_def dir_us_def sample_env_def sample_us_def)
  have d: "lu_diropen (ue_lib dir_env) ''/'' (us_ufs dir_us) = (Some 1, ([], [0, 1]))"
    by (simp add: dir_env_def dir_us_def)
  have r: "dir_reads (lu_dirread (ue_lib dir_env) 1) ([], [0, 1]) [?e ''.'', ?e ''f''] ([], [])"
    by (rule dir_reads.entry[where ?u1.0 = "([], [1])"], simp add: dir_env_def,
        rule dir_reads.entry[where ?u1.0 = "([], [])"], simp add: dir_env_def,
        rule dir_reads.no_more, simp add: dir_env_def)
  have h: "getHeaderParam dir_us ''X-IBM-Max-Items'' = None"
    by (simp add: getHeaderParam_def get_env_param_def c_snprintf_def ENV_NAME_SIZE_def dir_us_def)
  from listing_exact[OF o q _ g d r] obtain t where
    t: "ussListHandler sample_httpd dir_env dir_us = Some (0, t)"
      "\<exists>items. ss_out t = items @ text_items (listing_lines 1000 [?e ''f''])"
    by (auto simp: dot_entry_def h list_limit_def USS_LIST_DEFAULT_MAX_ITEMS_def Let_def)
  have "show_nat 1 = ''1''" by code_simp
  then have "json_line 2 ''totalRows'' ''1,'' \<in> set (listing_lines 1000 [?e ''f''])"
    by (simp add: listing_lines_def list_tail_def page_def)
  with t show ?thesis by (force simp: text_items_def)
qed

text \<open>
  A creation that the file system refuses without a code of its own: both opens give no handle and
  the last code is still zero.  The client is answered 200 and nothing was made.
\<close>

lemma create_failure_reported_200:
  assumes "\<And>m u. lu_fopen (ue_lib env) path m u = (None, u)" "\<And>u. lu_last_rc (ue_lib env) u = UFSD_RC_OK"
    and "open_client srv s" "\<forall>n. hd_alloc srv n"
  shows "\<exists>rc t. uss_create_file srv env path old s = (Inl rc, t) \<and> 200 \<in> statuses s t"
proof -
  let ?s = "do_call (UfsOpen path ''w'') (do_call (UfsOpen path ''r'') s)"
  have o: "ufs_fopen env path ''r'' s = (None, do_call (UfsOpen path ''r'') s)"
    "ufs_fopen env path ''w'' (do_call (UfsOpen path ''r'') s) = (None, ?s)"
    by (simp_all add: ufs_fopen_def on_ufs_def do_call_def assms(1))
  let ?u = "snd (ufs_set_create_perm env old ?s)"
  obtain rc t where t: "uss_failure srv UFSD_RC_OK ?u = (rc, t)" by force
  have u: "open_client srv ?u" "ss_out ?u = ss_out s"
    using assms(3) by (auto simp: ufs_set_create_perm_def on_ufs_def do_call_def open_client_def split: prod.splits)
  from sendErrorResponse_sent[OF u(1) assms(4) t[unfolded uss_failure_def]]
  have "OutStatus 200 \<in> set (drop (length (ss_out ?u)) (ss_out t))"
    by (auto simp: document_sent_def default_items_def ufsd_rc_to_http_def)
  then have "200 \<in> statuses s t" by (simp add: statuses_def u(2))
  with o t show ?thesis
    by (simp add: uss_create_file_def create_refused_def ufs_last_rc_def assms(2))
qed

end
