(* ===== verification/DsNames.thy ===== *)
theory DsNames
  imports IspfStat
begin

text \<open>
  The names of the data set services in \<^verbatim>\<open>src/dsapi.c\<close>: folding a name of a request, the keys of
  \<^verbatim>\<open>start=\<close> and \<^verbatim>\<open>pattern=\<close>, the member pattern, the split of a level into a catalog prefix and a
  filter, and the calendar of the VTOC.

  A position of the code in a string is the rest of the string from there on.
\<close>

section \<open>Folding\<close>

definition MAX_DATASET_NAME :: nat where "MAX_DATASET_NAME = 44"
definition MAX_MEMBER_NAME :: nat where "MAX_MEMBER_NAME = 8"
definition MAX_QUALIFIED_DSN :: nat where "MAX_QUALIFIED_DSN = MAX_DATASET_NAME + 1 + MAX_MEMBER_NAME + 1 + 1"

text \<open>\<open>None\<close> is the return value 0; \<open>outlen\<close> counts the NUL.\<close>

definition normalize_dsn :: "cstr option \<Rightarrow> nat \<Rightarrow> cstr option" where
  "normalize_dsn value outlen =
     (case value of
        None \<Rightarrow> None
      | Some v \<Rightarrow>
          if outlen = 0 then None
          else
            let v = rstrip v in
            if v = [] \<or> length v > outlen - 1 then None else Some (map toupper v))"

definition dsn44_len :: "cstr option \<Rightarrow> nat" where
  "dsn44_len dsname =
     (let len = (case dsname of None \<Rightarrow> 0 | Some d \<Rightarrow> length d)
      in if len > MAX_DATASET_NAME then MAX_DATASET_NAME else len)"

text \<open>The blank-padded name a catalog lookup takes.\<close>

definition dsn44 :: "cstr \<Rightarrow> cstr" where
  "dsn44 dsname =
     (let n = dsn44_len (Some dsname) in take n dsname @ replicate (MAX_DATASET_NAME - n) blank)"

text \<open>The key, and whether the value did not fit.\<close>

definition make_query_key :: "cstr option \<Rightarrow> nat \<Rightarrow> cstr option \<times> bool" where
  "make_query_key value keylen =
     (case value of
        None \<Rightarrow> (None, False)
      | Some v \<Rightarrow>
          let v = rstrip v in
          if v = [] then (None, False)
          else
            let cut = length v > keylen - 1; n = (if cut then keylen - 1 else length v)
            in (Some (map toupper (take n v)), cut))"

section \<open>Member patterns\<close>

abbreviation star :: char where "star \<equiv> CHR ''*''"
abbreviation percent :: char where "percent \<equiv> CHR ''%''"

fun stars :: "cstr \<Rightarrow> nat" where
  "stars [] = 0"
| "stars (c # p) = (if c = star then 1 else 0) + stars p"

text \<open>
  The loop of \<^verbatim>\<open>member_match\<close>: the rest of the name, the rest of the pattern, and behind the last
  star the rest of the pattern and of the name it was matched at.
\<close>

function match_loop :: "cstr \<Rightarrow> cstr \<Rightarrow> (cstr \<times> cstr) option \<Rightarrow> bool" where
  "match_loop name pat saved =
     (case name of
        [] \<Rightarrow> dropWhile (\<lambda>c. c = star) pat = []
      | c # name' \<Rightarrow>
          (case pat of
             p # pat' \<Rightarrow>
               if p = percent \<or> p = c then match_loop name' pat' saved
               else if p = star then match_loop name pat' (Some (pat', name))
               else (case saved of
                       Some (star_p, _ # star_n) \<Rightarrow> match_loop star_n star_p (Some (star_p, star_n))
                     | _ \<Rightarrow> False)
           | [] \<Rightarrow>
               (case saved of
                  Some (star_p, _ # star_n) \<Rightarrow> match_loop star_n star_p (Some (star_p, star_n))
                | _ \<Rightarrow> False)))"
  by pat_completeness auto
termination
proof (relation "measures
    [\<lambda>(name, pat, saved). max (stars pat) (case saved of None \<Rightarrow> 0 | Some (ps, _) \<Rightarrow> stars ps),
     \<lambda>(name, pat, saved). case saved of None \<Rightarrow> 0 | Some (_, ns) \<Rightarrow> length ns,
     \<lambda>(name, pat, saved). length name]", goal_cases)
  case 1
  show ?case by simp
qed (auto split: option.splits)

declare match_loop.simps [simp del]

definition member_match :: "cstr \<Rightarrow> cstr \<Rightarrow> bool" where
  "member_match name pat = match_loop name pat None"

text \<open>The meaning of a pattern: a star stands for any run of characters, a percent sign for one.\<close>

fun matches :: "cstr \<Rightarrow> cstr \<Rightarrow> bool" where
  "matches [] name \<longleftrightarrow> name = []"
| "matches (p # pat) name \<longleftrightarrow>
     (if p = star then list_ex (\<lambda>k. matches pat (drop k name)) [0..<Suc (length name)]
      else case name of [] \<Rightarrow> False | c # name' \<Rightarrow> (p = percent \<or> p = c) \<and> matches pat name')"

lemma matches_star: "matches (star # pat) name \<longleftrightarrow> (\<exists>k\<le>length name. matches pat (drop k name))"
proof -
  have "list_ex P [0..<Suc n] \<longleftrightarrow> (\<exists>k\<le>n. P k)" for P :: "nat \<Rightarrow> bool" and n
    by (auto simp: list_ex_iff less_Suc_eq_le simp del: upt_Suc)
  then show ?thesis by (simp del: upt_Suc)
qed

lemma matches_other:
  "p \<noteq> star \<Longrightarrow> matches (p # pat) name \<longleftrightarrow>
     (case name of [] \<Rightarrow> False | c # name' \<Rightarrow> (p = percent \<or> p = c) \<and> matches pat name')"
  by simp

declare matches.simps(2) [simp del]

lemma matches_star_drop: "matches (star # pat) (drop k name) \<Longrightarrow> matches (star # pat) name"
proof -
  assume "matches (star # pat) (drop k name)"
  then obtain j where j: "j \<le> length name - k" "matches pat (drop (j + k) name)"
    by (auto simp only: matches_star length_drop drop_drop)
  show ?thesis
  proof (cases "j + k \<le> length name")
    case True
    with j(2) show ?thesis by (auto simp only: matches_star)
  next
    case False
    then have "drop (j + k) name = drop (length name) name" by simp
    with j(2) show ?thesis by (auto simp only: matches_star intro!: exI[of _ "length name"])
  qed
qed

lemma matches_empty: "matches pat [] \<longleftrightarrow> dropWhile (\<lambda>c. c = star) pat = []"
proof (induction pat)
  case (Cons p pat)
  then show ?case by (cases "p = star") (simp_all add: matches_star matches_other)
qed simp

text \<open>Characters that are no stars match one character each.\<close>

definition literal :: "char \<Rightarrow> char \<Rightarrow> bool" where
  "literal p c \<longleftrightarrow> p \<noteq> star \<and> (p = percent \<or> p = c)"

lemma matches_literals:
  "list_all2 literal v u \<Longrightarrow> matches (v @ pat) (u @ name) \<longleftrightarrow> matches pat name"
  by (induction v u rule: list_all2_induct) (auto simp: literal_def matches_other)

lemma matches_literal_prefix:
  "star \<notin> set v \<Longrightarrow> matches (v @ pat) name \<Longrightarrow> matches pat (drop (length v) name) \<and> length v \<le> length name"
  by (induction v arbitrary: name) (auto simp: matches_other split: list.splits)

lemma literal_star: "list_all2 literal v u \<Longrightarrow> star \<notin> set v"
  by (induction v u rule: list_all2_induct) (auto simp: literal_def)

text \<open>The saved position lies behind the characters matched since.\<close>

definition behind :: "cstr \<Rightarrow> cstr \<Rightarrow> (cstr \<times> cstr) option \<Rightarrow> bool" where
  "behind name pat saved \<longleftrightarrow>
     (case saved of
        None \<Rightarrow> True
      | Some (ps, ns) \<Rightarrow> \<exists>v u. ps = v @ pat \<and> ns = u @ name \<and> list_all2 literal v u)"

definition later :: "(cstr \<times> cstr) option \<Rightarrow> bool" where
  "later saved \<longleftrightarrow>
     (case saved of None \<Rightarrow> False | Some (ps, ns) \<Rightarrow> \<exists>k. 1 \<le> k \<and> k \<le> length ns \<and> matches ps (drop k ns))"

lemma later_Cons: "later (Some (ps, m # ns)) \<longleftrightarrow> matches ps ns \<or> later (Some (ps, ns))"
proof -
  have "(\<exists>k\<ge>1. k \<le> Suc (length ns) \<and> matches ps (drop k (m # ns))) \<longleftrightarrow> (\<exists>k\<le>length ns. matches ps (drop k ns))"
    by (metis (no_types, lifting) One_nat_def Suc_le_D Suc_le_mono drop_Suc_Cons le0)
  also have "\<dots> \<longleftrightarrow> matches ps ns \<or> (\<exists>k\<ge>1. k \<le> length ns \<and> matches ps (drop k ns))"
    by (metis One_nat_def Suc_leI drop0 le0 not_gr_zero)
  finally show ?thesis by (simp add: later_def)
qed

text \<open>What an earlier star can still do, the star just met can do as well.\<close>

lemma later_absorbed:
  assumes "behind name (star # pat) saved" "later saved"
  shows "matches (star # pat) name"
proof -
  from assms(2) obtain ps ns k where s: "saved = Some (ps, ns)" and k: "k \<le> length ns" "matches ps (drop k ns)"
    by (auto simp: later_def split: option.splits)
  with assms(1) obtain v u where v: "ps = v @ star # pat" "ns = u @ name" "list_all2 literal v u"
    by (auto simp: behind_def)
  have "matches (star # pat) (drop (length v) (drop k ns))"
    using matches_literal_prefix[OF literal_star[OF v(3)], of "star # pat" "drop k ns"] k(2) v(1) by blast
  then have "matches (star # pat) (drop (length v + k) ns)" by simp
  moreover have "drop (length v + k) ns = drop k name"
    using v list_all2_lengthD[OF v(3)] by simp
  ultimately show ?thesis by (metis matches_star_drop)
qed

lemma later_step:
  assumes "\<And>ps m ns. saved = Some (ps, m # ns) \<Longrightarrow>
      match_loop ns ps (Some (ps, ns)) \<longleftrightarrow> matches ps ns \<or> later (Some (ps, ns))"
  shows "(case saved of Some (star_p, _ # star_n) \<Rightarrow> match_loop star_n star_p (Some (star_p, star_n)) | _ \<Rightarrow> False)
      \<longleftrightarrow> later saved"
proof (cases saved)
  case None
  then show ?thesis by (simp add: later_def)
next
  case (Some s)
  obtain ps ns where s: "s = (ps, ns)" by force
  show ?thesis
  proof (cases ns)
    case Nil
    then show ?thesis by (auto simp: Some s later_def)
  next
    case (Cons m ns')
    with assms[of ps m ns'] show ?thesis by (simp add: Some s later_Cons)
  qed
qed

lemma later_exhausted:
  assumes "behind [] pat saved" "later saved"
  shows "matches pat []"
proof -
  from assms(2) obtain ps ns k where s: "saved = Some (ps, ns)" and k: "1 \<le> k" "k \<le> length ns" "matches ps (drop k ns)"
    by (auto simp: later_def split: option.splits)
  with assms(1) obtain v where v: "ps = v @ pat" "list_all2 literal v ns" by (auto simp: behind_def)
  from matches_literal_prefix[OF literal_star[OF v(2)], of pat "drop k ns"] k(3) v(1)
  have "length v \<le> length ns - k" by simp
  with list_all2_lengthD[OF v(2)] k show ?thesis by simp
qed

text \<open>The saved name has no stars.\<close>

definition clean :: "(cstr \<times> cstr) option \<Rightarrow> bool" where
  "clean saved \<longleftrightarrow> (case saved of None \<Rightarrow> True | Some (_, ns) \<Rightarrow> star \<notin> set ns)"

lemma behind_start: "behind name pat (Some (pat, name))"
  by (auto simp: behind_def)

lemma behind_literal:
  assumes "behind (c # name) (p # pat) saved" "literal p c"
  shows "behind name pat saved"
proof (cases saved)
  case (Some s)
  with assms(1) obtain v u where "s = (v @ p # pat, u @ c # name)" "list_all2 literal v u"
    by (auto simp: behind_def)
  with assms(2) have "s = ((v @ [p]) @ pat, (u @ [c]) @ name)" "list_all2 literal (v @ [p]) (u @ [c])"
    by (auto intro: list_all2_appendI)
  with Some show ?thesis by (simp only: behind_def option.case prod.case) blast
qed (simp add: behind_def)

lemma match_loop_matches:
  assumes "behind name pat saved" "star \<notin> set name" "clean saved"
  shows "match_loop name pat saved \<longleftrightarrow> matches pat name \<or> later saved"
  using assms
proof (induction name pat saved rule: match_loop.induct)
  case (1 name pat saved)
  show ?case
  proof (cases name)
    case Nil
    then have "match_loop name pat saved \<longleftrightarrow> matches pat name"
      by (simp add: match_loop.simps[of "[]"] matches_empty)
    with later_exhausted[of pat saved] "1.prems"(1) Nil show ?thesis by auto
  next
    case (Cons c name')
    show ?thesis
    proof (cases pat)
      case Nil
      have "match_loop ns ps (Some (ps, ns)) \<longleftrightarrow> matches ps ns \<or> later (Some (ps, ns))"
        if "saved = Some (ps, m # ns)" for ps m ns
        using "1.IH"(1)[OF Cons Nil that refl refl] "1.prems" that
        by (auto simp: clean_def behind_start)
      then show ?thesis using later_step[of saved]
        by (simp add: match_loop.simps[of "c # name'" "[]" saved] Nil Cons)
    next
      case p: (Cons p pat')
      show ?thesis
      proof (cases "p = percent \<or> p = c")
        case True
        with "1.prems" Cons have l: "literal p c" by (auto simp: literal_def)
        have "match_loop name' pat' saved \<longleftrightarrow> matches pat' name' \<or> later saved"
          using "1.IH"(2)[OF Cons p True] "1.prems" behind_literal[OF _ l] by (auto simp: Cons p)
        moreover have "matches pat name \<longleftrightarrow> matches pat' name'" using l by (auto simp: Cons p literal_def matches_other)
        ultimately show ?thesis using True by (simp add: match_loop.simps[of "c # name'" "p # pat'" saved] Cons p)
      next
        case no: False
        show ?thesis
        proof (cases "p = star")
          case True
          have "match_loop name pat' (Some (pat', name)) \<longleftrightarrow> matches pat' name \<or> later (Some (pat', name))"
            using "1.IH"(3)[OF Cons p no True] "1.prems" by (simp add: behind_start clean_def)
          moreover have "matches pat' name \<or> later (Some (pat', name)) \<longleftrightarrow> matches pat name"
            by (auto simp: True p matches_star later_def Suc_le_eq) (metis drop0 gr0I)
          moreover have "later saved \<longrightarrow> matches pat name"
            using later_absorbed "1.prems"(1) True p by blast
          moreover have "match_loop name pat saved = match_loop name pat' (Some (pat', name))"
            using no True by (simp add: match_loop.simps[of "c # name'" "star # pat'" saved] Cons p)
          ultimately show ?thesis using p True by blast
        next
          case False
          have "match_loop ns ps (Some (ps, ns)) \<longleftrightarrow> matches ps ns \<or> later (Some (ps, ns))"
            if "saved = Some (ps, m # ns)" for ps m ns
            using "1.IH"(4)[OF Cons p no False that refl refl] "1.prems" that
            by (auto simp: clean_def behind_start)
          then show ?thesis using later_step[of saved] no False
            by (simp add: match_loop.simps[of "c # name'" "p # pat'" saved] p Cons matches_other)
        qed
      qed
    qed
  qed
qed

section \<open>Levels\<close>

definition wild :: "char \<Rightarrow> bool" where
  "wild c \<longleftrightarrow> c = star \<or> c = CHR ''?''"

text \<open>
  The scan of the qualifiers: what is in front of the one at \<open>src\<close>, and \<open>prefix_end\<close> as the string up to
  there.  The result is the qualifier it stopped at, with what follows, what is in front of it and the prefix.
\<close>

function level_scan :: "cstr \<Rightarrow> cstr option \<Rightarrow> cstr \<Rightarrow> cstr \<Rightarrow> cstr \<times> cstr \<times> cstr option" where
  "level_scan seg_start prefix_end before src =
     (if src = [] then (seg_start, before, prefix_end)
      else
        let seg = takeWhile (\<lambda>c. c \<noteq> CHR ''.'') src; rest = dropWhile (\<lambda>c. c \<noteq> CHR ''.'') src in
        if list_ex wild seg then (src, before, prefix_end)
        else
          (case rest of
             [] \<Rightarrow> (src, before, Some (before @ seg))
           | d # rest' \<Rightarrow> level_scan src (Some (before @ seg)) (before @ seg @ [d]) rest'))"
  by pat_completeness auto
termination
proof (relation "measure (\<lambda>(_, _, _, src). length src)", goal_cases)
  case 1
  show ?case by simp
next
  case (2 seg_start prefix_end before src seg rest d rest')
  then have "length (d # rest') \<le> length src" using dropWhile_length_le[of _ src] by metis
  then show ?case by simp
qed

declare level_scan.simps [simp del]

text \<open>The level and the filter.\<close>

definition extract_level_prefix :: "cstr option \<Rightarrow> nat \<Rightarrow> cstr \<times> cstr option" where
  "extract_level_prefix dslevel level_size =
     (case dslevel of
        None \<Rightarrow> ([], None)
      | Some l \<Rightarrow>
          if l = [] then ([], None)
          else if \<not> list_ex wild l then (take (level_size - 1) l, None)
          else
            let (seg_start, before, prefix_end) = level_scan l None [] l;
                level = (case prefix_end of
                           Some (c # p) \<Rightarrow> take (level_size - 1) (c # p)
                         | _ \<Rightarrow> take (level_size - 1) l);
                adjacent = (case prefix_end of None \<Rightarrow> False | Some p \<Rightarrow> length p + 1 = length before)
            in (level, if seg_start = ''**'' \<and> adjacent then None else Some l))"

section \<open>Days\<close>

text \<open>Month and day; the arguments are 16-bit.\<close>

definition jday_to_md :: "nat \<Rightarrow> nat \<Rightarrow> byte \<times> byte" where
  "jday_to_md year jday =
     (let (m, d) = month_loop 0 jday (mdays (leap_year year)) in (of_nat (m + 1), of_nat d))"

lemma jday_to_md_ordinal:
  assumes "valid_date (y, m, d)"
  shows "jday_to_md y (ordinal (y, m, d)) = (of_nat m, of_nat d)"
proof -
  from assms have "m - 1 < 12" "1 \<le> m" "1 \<le> d" "d \<le> mdays (leap_year y) ! (m - 1)" by (auto simp: valid_date_def)
  with month_loop_spec[of "m - 1" "mdays (leap_year y)" d 0] show ?thesis
    by (simp add: jday_to_md_def ordinal_def mdays_def)
qed

section \<open>What folding gives\<close>

text \<open>A folded name fits, has no trailing blank, and folding it again leaves it alone.\<close>

lemma toupper_blank [simp]: "toupper c = blank \<longleftrightarrow> c = blank"
proof -
  have "CHR ''a'' \<le> c \<Longrightarrow> c \<le> CHR ''z'' \<Longrightarrow> char_of (of_char c - 32 :: nat) \<noteq> blank"
  proof
    assume a: "CHR ''a'' \<le> c" "c \<le> CHR ''z''" "char_of (of_char c - 32 :: nat) = blank"
    then have "of_char (char_of (of_char c - 32 :: nat)) = (32 :: nat)" by simp
    with a(1,2) show False by (simp add: less_eq_char_def)
  qed
  then show ?thesis by (auto simp: toupper_def less_eq_char_def)
qed

lemma normalize_dsn_fits:
  assumes "normalize_dsn value outlen = Some name"
  shows "name \<noteq> []" "length name < outlen" "last name \<noteq> blank" "normalize_dsn (Some name) outlen = Some name"
proof -
  from assms obtain v where v: "value = Some v" "rstrip v \<noteq> []" "length (rstrip v) \<le> outlen - 1" "outlen \<noteq> 0"
      "name = map toupper (rstrip v)"
    by (auto simp: normalize_dsn_def Let_def split: option.splits if_splits)
  then show n: "name \<noteq> []" "length name < outlen" by auto
  have "last name = toupper (last (rstrip v))" using v(2) by (simp add: v(5) last_map)
  then show l: "last name \<noteq> blank" using rstrip_last[OF v(2)] by simp
  from n(1) l v show "normalize_dsn (Some name) outlen = Some name"
    by (simp add: normalize_dsn_def rstrip_id)
qed

section \<open>Properties\<close>

text \<open>
  C35: The iterative member matcher decides the textbook meaning of a member pattern: a star stands for any
  run of characters, a percent sign for exactly one, every other character for itself.  Forgetting all stars
  but the last one loses no match.  Names have no star in them.
\<close>

theorem member_match_correct:
  assumes "star \<notin> set name"
  shows "member_match name pat \<longleftrightarrow> matches pat name"
  using match_loop_matches[of name pat None] assms
  by (simp add: member_match_def behind_def clean_def later_def)

lemma member_match_correct_witness:
  "member_match ''IEFBR14'' ''*F%R*'' \<and> matches ''*F%R*'' ''IEFBR14''"
proof -
  have "star \<notin> set ''IEFBR14''" by simp
  from member_match_correct[OF this, of "''*F%R*''"] show ?thesis by code_simp
qed

end
