(* ===== verification/DsSpace.thy ===== *)
theory DsSpace
  imports DsMeta DsNames UssFiles
begin

text \<open>
  The data sets behind \<^verbatim>\<open>src/dsapi.c\<close>: the catalog, the volumes and the files as the library calls show
  them, and what is read off a volume - its geometry, the tracks of a data set, the records of a
  fixed-length one.

  The catalog and the files are not in the repository: \<open>ds_env\<close> collects their functions over a state of
  its own, which the session carries along.  A lookup (\<^verbatim>\<open>__locate\<close>, \<^verbatim>\<open>__dscbdv\<close>, \<^verbatim>\<open>__dscbv\<close>, \<^verbatim>\<open>__dscbav\<close>,
  \<^verbatim>\<open>__listpd\<close>, \<^verbatim>\<open>__listds\<close>) leaves that state alone.  The bit values of the DSCB and of the file handle come
  from headers outside the repository.
\<close>

section \<open>Data set control blocks\<close>

record DSCB1 =
  d1_dsorg1 :: byte
  d1_dsorg2 :: byte
  d1_recfm :: byte
  d1_keyl :: byte
  d1_blksz :: "16 word"
  d1_lrecl :: "16 word"
  d1_lstar :: "byte list"
  d1_noepv :: byte
  d1_extent :: "byte list"
  d1_ptrds :: "byte list"
  d1_scal1 :: byte
  d1_scal3 :: "byte list"
  d1_credt :: "byte list"
  d1_refd :: "byte list"

record DSCB4 =
  d4_dstrk :: u32
  d4_devtk :: u32
  d4_devov :: u32
  d4_devk :: u32
  d4_devfg :: u32

record dscb_codes =
  DSGPS :: byte
  DSGPO :: byte
  DSGDA :: byte
  DSGIS :: byte
  ORGAM :: byte
  RECFF :: byte
  RECFV :: byte
  RECFU :: byte
  RECFB :: byte
  RECFS :: byte
  RECFA :: byte
  RECMC :: byte
  CYL :: byte
  FILE_RECFM_TYPE :: byte
  FILE_RECFM_V :: byte
  FILE_RECFM_U :: byte

text \<open>An entry of a data set list.\<close>

record DSLIST =
  dl_dsn :: cstr
  dl_volser :: cstr
  dl_dsorg :: cstr
  dl_recfm :: cstr
  dl_extents :: nat
  dl_lrecl :: nat
  dl_blksize :: nat
  dl_scal1 :: byte
  dl_spacu :: char
  dl_secondary :: u32
  dl_used_trks :: u32
  dl_alloc_trks :: nat
  dl_cryear :: nat
  dl_crjday :: nat
  dl_crmon :: byte
  dl_crday :: byte
  dl_rfyear :: nat
  dl_rfjday :: nat
  dl_rfmon :: byte
  dl_rfday :: byte
  dl_dev :: cstr

text \<open>What a file handle says of its data set.\<close>

record DCB =
  dc_recfm :: byte
  dc_lrecl :: nat
  dc_blksize :: nat

datatype racf_attr = RACF_ATTR_READ | RACF_ATTR_UPDATE | RACF_ATTR_ALTER

section \<open>The environment\<close>

text \<open>A host character and its code; a call that fails leaves its code in \<^verbatim>\<open>errno\<close>.\<close>

record 'd ds_env =
  de_codes :: dscb_codes
  de_check_auth :: "cstr \<Rightarrow> cstr \<Rightarrow> racf_attr \<Rightarrow> int"
  de_locate :: "cstr \<Rightarrow> 'd \<Rightarrow> cstr option"
  de_dscbdv :: "cstr \<Rightarrow> cstr \<Rightarrow> 'd \<Rightarrow> DSCB1 option"
  de_dscbv :: "cstr \<Rightarrow> 'd \<Rightarrow> DSCB4 option"
  de_dscbav :: "byte list \<Rightarrow> cstr \<Rightarrow> 'd \<Rightarrow> byte list option"
  de_listpd :: "cstr \<Rightarrow> cstr \<Rightarrow> 'd \<Rightarrow> unit option \<times> int"
  de_listds :: "cstr \<Rightarrow> cstr option \<Rightarrow> 'd \<Rightarrow> DSLIST option list option \<times> int"
  de_lock_granted :: bool
  de_errno :: "'d \<Rightarrow> int"
  de_enomem :: int
  de_enospc :: int
  de_fopen :: "cstr \<Rightarrow> cstr \<Rightarrow> 'd \<Rightarrow> nat option \<times> 'd"
  de_dcb :: "nat \<Rightarrow> 'd \<Rightarrow> DCB"
  de_fread :: "nat \<Rightarrow> nat \<Rightarrow> 'd \<Rightarrow> byte list \<times> 'd"
  de_fgets :: "nat \<Rightarrow> nat \<Rightarrow> 'd \<Rightarrow> byte list option \<times> 'd"
  de_ferror :: "nat \<Rightarrow> 'd \<Rightarrow> bool"
  de_fwrite :: "nat \<Rightarrow> byte list \<Rightarrow> 'd \<Rightarrow> nat \<times> 'd"
  de_fflush :: "nat \<Rightarrow> 'd \<Rightarrow> int \<times> 'd"
  de_fclose :: "nat \<Rightarrow> 'd \<Rightarrow> int \<times> 'd"
  de_remove :: "cstr \<Rightarrow> 'd \<Rightarrow> int \<times> 'd"
  de_rename :: "cstr \<Rightarrow> cstr \<Rightarrow> 'd \<Rightarrow> int \<times> 'd"
  de_renmem :: "cstr \<Rightarrow> cstr \<Rightarrow> cstr \<Rightarrow> 'd \<Rightarrow> int \<times> 'd"
  de_dsalcf :: "cstr \<Rightarrow> 'd \<Rightarrow> int \<times> 'd"
  de_dsfree :: "'d \<Rightarrow> 'd"
  de_cp037 :: HTTPCP
  de_1047 :: HTTPCP
  de_code :: "char \<Rightarrow> byte"
  de_char :: "byte \<Rightarrow> char"

record 'd dsession = rsession +
  us_ds :: 'd

definition on_ds :: "('d \<Rightarrow> 'r \<times> 'd) \<Rightarrow> 'd dsession \<Rightarrow> 'r \<times> 'd dsession" where
  "on_ds f s = (case f (us_ds s) of (r, u) \<Rightarrow> (r, s\<lparr>us_ds := u\<rparr>))"

section \<open>Volumes\<close>

text \<open>Tracks per cylinder and the capacity of a track.\<close>

definition vol_geom :: "'d ds_env \<Rightarrow> 'd \<Rightarrow> cstr \<Rightarrow> u32 \<times> u32" where
  "vol_geom env u vol =
     (let (tpc, devtk) = (case de_dscbv env vol u of None \<Rightarrow> (0, 0) | Some d \<Rightarrow> (d4_dstrk d, d4_devtk d))
      in (if tpc = 0 then 30 else tpc, devtk))"

definition vol_tpc :: "'d ds_env \<Rightarrow> 'd \<Rightarrow> cstr \<Rightarrow> u32" where
  "vol_tpc env u vol = fst (vol_geom env u vol)"

text \<open>The entry and the volume last read with the name of its device.\<close>

definition fix_dev :: "'d ds_env \<Rightarrow> 'd \<Rightarrow> DSLIST \<Rightarrow> cstr \<times> cstr \<Rightarrow> DSLIST \<times> cstr \<times> cstr" where
  "fix_dev env u ds cache =
     (let (cvol, cdev) =
            (if fst cache \<noteq> dl_volser ds
             then (dl_volser ds, device_name (snd (vol_geom env u (dl_volser ds))))
             else cache)
      in (ds\<lparr>dl_dev := cdev\<rparr>, cvol, cdev))"

definition read_dscb3 :: "'d ds_env \<Rightarrow> 'd \<Rightarrow> cstr \<Rightarrow> byte list \<Rightarrow> byte list option" where
  "read_dscb3 env u vol cchhr = map_option (take DSX_F3_LEN) (de_dscbav env cchhr vol u)"

definition dscb1_trks :: "'d ds_env \<Rightarrow> 'd \<Rightarrow> DSCB1 \<Rightarrow> cstr \<Rightarrow> u32 \<Rightarrow> dsx_error + u32" where
  "dscb1_trks env u d vol tpc =
     dscb_alloc_tracks (d1_extent d) (d1_ptrds d) (unat (d1_noepv d)) tpc (read_dscb3 env u vol)"

definition fix_alloc :: "'d ds_env \<Rightarrow> 'd \<Rightarrow> DSLIST \<Rightarrow> DSLIST" where
  "fix_alloc env u ds =
     (if dl_extents ds \<le> DSX_F1_EXTENTS then ds
      else
        let ds = ds\<lparr>dl_alloc_trks := 0\<rparr> in
        case de_dscbdv env (dsn44 (dl_dsn ds)) (dl_volser ds) u of
          None \<Rightarrow> ds
        | Some d \<Rightarrow>
            (case dscb1_trks env u d (dl_volser ds) (vol_tpc env u (dl_volser ds)) of
               Inl _ \<Rightarrow> ds
             | Inr trks \<Rightarrow> if trks > 0xFFFF then ds else ds\<lparr>dl_alloc_trks := unat trks\<rparr>))"

definition space_unknown :: "DSLIST \<Rightarrow> bool" where
  "space_unknown ds \<longleftrightarrow> dl_extents ds > DSX_F1_EXTENTS \<and> dl_alloc_trks ds = 0"

text \<open>\<^verbatim>\<open>(p[0] << 16) | (p[1] << 8) | p[2]\<close>\<close>

definition be24 :: "byte list \<Rightarrow> u32" where
  "be24 p = push_bit 16 (ucast (p ! 0)) OR push_bit 8 (ucast (p ! 1)) OR ucast (p ! 2)"

text \<open>Primary and secondary quantity, in tracks.\<close>

definition model_alloc :: "'d ds_env \<Rightarrow> 'd \<Rightarrow> cstr \<Rightarrow> (u32 \<times> u32) option" where
  "model_alloc env u dsname =
     (case de_locate env (dsn44 dsname) u of
        None \<Rightarrow> None
      | Some volser \<Rightarrow>
          let vol = take 6 volser in
          (case de_dscbdv env (dsn44 dsname) vol u of
             None \<Rightarrow> None
           | Some d \<Rightarrow>
               let tpc = vol_tpc env u vol in
               (case dscb1_trks env u d vol tpc of
                  Inl _ \<Rightarrow> None
                | Inr trks \<Rightarrow>
                    let sec = be24 (d1_scal3 d);
                        sec = (if d1_scal1 d AND 0xC0 = CYL (de_codes env) then sec * tpc else sec)
                    in Some (if trks \<noteq> 0 then trks else 1, sec))))"

section \<open>Records and organisation\<close>

text \<open>The DSCB of a cataloged name, on the volume of its catalog entry.\<close>

definition cataloged_dscb :: "'d ds_env \<Rightarrow> 'd \<Rightarrow> cstr \<Rightarrow> (cstr \<times> DSCB1) option" where
  "cataloged_dscb env u dsname =
     (case de_locate env (dsn44 dsname) u of
        None \<Rightarrow> None
      | Some volser \<Rightarrow> map_option (Pair volser) (de_dscbdv env (dsn44 dsname) volser u))"

text \<open>\<^verbatim>\<open>long\<close> and \<^verbatim>\<open>unsigned\<close> have 32 bits.\<close>

definition get_fb_record_count :: "'d ds_env \<Rightarrow> 'd \<Rightarrow> cstr \<Rightarrow> int" where
  "get_fb_record_count env u dsname =
     (case cataloged_dscb env u dsname of
        None \<Rightarrow> -1
      | Some (volser, d) \<Rightarrow>
          if d1_recfm d AND RECFF (de_codes env) = 0 then -1
          else if d1_keyl d \<noteq> 0 then -1
          else if d1_blksz d = 0 \<or> d1_lrecl d = 0 then -1
          else case de_dscbv env volser u of
            None \<Rightarrow> -1
          | Some d4 \<Rightarrow>
              let bpt = blocks_per_track (d4_devtk d4) (d4_devov d4) (d4_devk d4) (d4_devfg d4) (ucast (d1_blksz d)) in
              if bpt = 0 then -1
              else
                let tt = be16 (d1_lstar d); r = ucast (d1_lstar d ! 2); total_blocks = tt * bpt + r;
                    recs_per_block = ucast (d1_blksz d div d1_lrecl d)
                in sint (total_blocks * recs_per_block :: u32))"

definition is_pds :: "'d ds_env \<Rightarrow> 'd \<Rightarrow> cstr \<Rightarrow> bool" where
  "is_pds env u dsname =
     (case cataloged_dscb env u dsname of
        None \<Rightarrow> False
      | Some (_, d) \<Rightarrow> d1_dsorg1 d AND DSGPO (de_codes env) \<noteq> 0)"

definition dataset_cataloged :: "'d ds_env \<Rightarrow> 'd \<Rightarrow> cstr option \<Rightarrow> bool" where
  "dataset_cataloged env u dsname =
     (case dsname of None \<Rightarrow> False | Some d \<Rightarrow> de_locate env (dsn44 d) u \<noteq> None)"

end
