(* ===== verification/DsAccess.thy ===== *)
theory DsAccess
  imports DsSpace
begin

text \<open>
  What every data set operation of \<^verbatim>\<open>src/dsapi.c\<close> goes through: the authorization gate, the volume gate,
  the diagnosis of an open that failed, the stamp of a data set and the precondition of a write.

  A loop that reads until the file ends is a partial function: nothing is its result on a file that never
  ends.
\<close>

section \<open>Reports\<close>

definition REASON_PDS_NOT_SEQUENTIAL :: u32 where "REASON_PDS_NOT_SEQUENTIAL = 1"
definition REASON_INVALID_ALLOC_PARAMS :: u32 where "REASON_INVALID_ALLOC_PARAMS = 3"
definition REASON_DATASET_NOT_FOUND :: u32 where "REASON_DATASET_NOT_FOUND = 4"
definition REASON_MEMBER_NOT_FOUND :: u32 where "REASON_MEMBER_NOT_FOUND = 5"
definition REASON_INVALID_RENAME_REQUEST :: u32 where "REASON_INVALID_RENAME_REQUEST = 6"
definition REASON_RENAME_TARGET_EXISTS :: u32 where "REASON_RENAME_TARGET_EXISTS = 7"
definition REASON_RENAME_FAILED :: u32 where "REASON_RENAME_FAILED = 8"
definition REASON_PATTERN_TOO_LONG :: u32 where "REASON_PATTERN_TOO_LONG = 9"
definition REASON_ETAG_MISMATCH :: u32 where "REASON_ETAG_MISMATCH = 10"
definition REASON_DELETE_FAILED :: u32 where "REASON_DELETE_FAILED = 11"
definition REASON_RECORD_MODE_RECFM_V :: u32 where "REASON_RECORD_MODE_RECFM_V = 12"
definition REASON_DATASET_NOT_ON_VOLUME :: u32 where "REASON_DATASET_NOT_ON_VOLUME = 13"
definition CATEGORY_DYNALLOC :: u32 where "CATEGORY_DYNALLOC = 8"
definition RC_DYNALLOC_ERROR :: u32 where "RC_DYNALLOC_ERROR = 900"
definition REASON_DYNALLOC_ERROR :: u32 where "REASON_DYNALLOC_ERROR = 7"

definition ERR_MSG_PDS_NOT_SEQUENTIAL :: cstr where
  "ERR_MSG_PDS_NOT_SEQUENTIAL = ''Dataset is a partitioned dataset (PDS). Use /ds/{dataset-name}({member-name}) to access members''"
definition ERR_MSG_INVALID_ALLOC_PARAMS :: cstr where
  "ERR_MSG_INVALID_ALLOC_PARAMS = ''Invalid or missing allocation parameters''"
definition ERR_MSG_DELETE_FAILED :: cstr where "ERR_MSG_DELETE_FAILED = ''Dataset delete failed''"
definition ERR_MSG_DATASET_NOT_FOUND :: cstr where "ERR_MSG_DATASET_NOT_FOUND = ''Dataset not found''"
definition ERR_MSG_MEMBER_NOT_FOUND :: cstr where "ERR_MSG_MEMBER_NOT_FOUND = ''PDS member not found''"
definition ERR_MSG_INVALID_RENAME_REQUEST :: cstr where
  "ERR_MSG_INVALID_RENAME_REQUEST = ''Unsupported request; only '' @ [CHR 0x27] @ ''rename'' @ [CHR 0x27] @ '' is supported''"
definition ERR_MSG_RENAME_TARGET_EXISTS :: cstr where "ERR_MSG_RENAME_TARGET_EXISTS = ''Rename target already exists''"
definition ERR_MSG_RENAME_FAILED :: cstr where "ERR_MSG_RENAME_FAILED = ''Rename operation failed''"
definition ERR_MSG_PATTERN_TOO_LONG :: cstr where "ERR_MSG_PATTERN_TOO_LONG = ''Member pattern is too long''"
definition ERR_MSG_LIST_NOMEM :: cstr where "ERR_MSG_LIST_NOMEM = ''Storage for the list could not be obtained''"
definition ERR_MSG_RECORD_MODE_RECFM_V :: cstr where
  "ERR_MSG_RECORD_MODE_RECFM_V = ''Record mode (X-IBM-Data-Type: record) is not supported for RECFM=V data sets; use X-IBM-Data-Type: binary or text''"
definition ERR_MSG_DATASET_NOT_ON_VOLUME :: cstr where
  "ERR_MSG_DATASET_NOT_ON_VOLUME = ''Dataset not found on the requested volume''"
definition ERR_MSG_INVALID_VOLSER :: cstr where "ERR_MSG_INVALID_VOLSER = ''Invalid volume serial''"
definition ERR_MSG_ETAG_MISMATCH :: cstr where
  "ERR_MSG_ETAG_MISMATCH = ''The resource was modified since the supplied ETag was created''"
definition ERR_MSG_DYNALLOC_ERROR :: cstr where "ERR_MSG_DYNALLOC_ERROR = ''Dynamic allocation Error''"
definition MSG_NOT_PARTITIONED :: cstr where
  "MSG_NOT_PARTITIONED = ''Dataset is not partitioned (use the dataset endpoint instead)''"

definition ERR_INVALID_PARAM :: int where "ERR_INVALID_PARAM = -1"
definition ERR_MEMORY :: int where "ERR_MEMORY = -2"
definition ERR_IO :: int where "ERR_IO = -3"
definition HTTP_STATUS_PRECONDITION_FAILED :: int where "HTTP_STATUS_PRECONDITION_FAILED = 412"

definition handle_error :: "httpd \<Rightarrow> int \<Rightarrow> cstr \<Rightarrow> 'a session_scheme \<Rightarrow> int \<times> 'a session_scheme" where
  "handle_error srv error_code message =
     sendErrorResponse srv
       (if error_code = ERR_INVALID_PARAM then HTTP_STATUS_BAD_REQUEST else HTTP_STATUS_INTERNAL_SERVER_ERROR)
       CATEGORY_SERVICE RC_ERROR (of_int (- error_code)) (Some message) []"

text \<open>\<^verbatim>\<open>sendErrorResponse(session, status, CATEGORY_SERVICE, RC_ERROR, reason, message, NULL, 0)\<close>\<close>

definition service_error :: "httpd \<Rightarrow> int \<Rightarrow> u32 \<Rightarrow> cstr \<Rightarrow> 'a session_scheme \<Rightarrow> int \<times> 'a session_scheme" where
  "service_error srv status reason message =
     sendErrorResponse srv status CATEGORY_SERVICE RC_ERROR reason (Some message) []"

section \<open>Gates\<close>

text \<open>Whether the request may go on; if not, it has been answered.\<close>

definition require_access ::
  "httpd \<Rightarrow> 'd ds_env \<Rightarrow> cstr \<Rightarrow> racf_attr \<Rightarrow> 'd dsession \<Rightarrow> bool \<times> 'd dsession" where
  "require_access srv env dsname attr s =
     (let rc = de_check_auth env ''DATASET'' dsname attr in
      if rc = 0 then (True, s)
      else if rc < 0 then
        (False, snd (sendErrorResponse srv HTTP_STATUS_UNAUTHORIZED CATEGORY_AUTHORIZATION RC_ERROR
           REASON_NOT_AUTHORIZED (Some ERR_MSG_NOT_AUTHORIZED) [] s))
      else (False, snd (send_not_authorized srv None s)))"

definition volume_gate :: "httpd \<Rightarrow> 'd ds_env \<Rightarrow> cstr \<Rightarrow> 'd dsession \<Rightarrow> bool \<times> 'd dsession" where
  "volume_gate srv env dsname s =
     (case ss_env s ''HTTP_volume-serial'' of
        None \<Rightarrow> (True, s)
      | Some volser \<Rightarrow>
          let cat_volser = de_locate env (dsn44 dsname) (us_ds s) in
          (case volser_verdict (Some volser) (cat_volser \<noteq> None) cat_volser of
             VOLSER_ON_VOLUME \<Rightarrow> (True, s)
           | VOLSER_BAD \<Rightarrow> (False, snd (handle_error srv ERR_INVALID_PARAM ERR_MSG_INVALID_VOLSER s))
           | VOLSER_OTHER_VOLUME \<Rightarrow>
               (False, snd (service_error srv HTTP_STATUS_NOT_FOUND REASON_DATASET_NOT_ON_VOLUME
                  ERR_MSG_DATASET_NOT_ON_VOLUME s))
           | VOLSER_NOT_CATALOGED \<Rightarrow>
               (False, snd (service_error srv HTTP_STATUS_NOT_FOUND REASON_DATASET_NOT_FOUND
                  ERR_MSG_DATASET_NOT_FOUND s))))"

text \<open>Both gates, as every handler asks them.\<close>

definition gates ::
  "httpd \<Rightarrow> 'd ds_env \<Rightarrow> cstr \<Rightarrow> racf_attr \<Rightarrow> 'd dsession \<Rightarrow> bool \<times> 'd dsession" where
  "gates srv env dsname attr s =
     (case require_access srv env dsname attr s of (ok, s) \<Rightarrow>
        if \<not> ok then (False, s) else volume_gate srv env dsname s)"

section \<open>An open that failed\<close>

datatype open_failure = OPEN_FAIL_IO | OPEN_FAIL_NODSN | OPEN_FAIL_NOMEM | OPEN_FAIL_NOTPDS | OPEN_FAIL_NOSTOR

definition diagnose_open_failure ::
  "'d ds_env \<Rightarrow> cstr option \<Rightarrow> cstr option \<Rightarrow> 'd dsession \<Rightarrow> open_failure \<times> 'd dsession" where
  "diagnose_open_failure env dsname member s =
     (case dsname of
        None \<Rightarrow> (OPEN_FAIL_IO, s)
      | Some d \<Rightarrow>
          if \<not> dataset_cataloged env (us_ds s) (Some d) then (OPEN_FAIL_NODSN, s)
          else case member of
            None \<Rightarrow> (OPEN_FAIL_IO, s)
          | Some m \<Rightarrow>
              if \<not> is_pds env (us_ds s) d then (OPEN_FAIL_NOTPDS, s)
              else
                let (pdslist, err) = de_listpd env d m (us_ds s); outcome = list_outcome (de_enomem env) pdslist err in
                if outcome = LIST_NOSTOR then (OPEN_FAIL_NOSTOR, do_call (Wto ListStorage) s)
                else if outcome \<noteq> LIST_FOUND then (OPEN_FAIL_NOMEM, s)
                else (OPEN_FAIL_IO, s))"

definition send_open_failure ::
  "httpd \<Rightarrow> 'd ds_env \<Rightarrow> cstr option \<Rightarrow> cstr option \<Rightarrow> cstr \<Rightarrow> 'd dsession \<Rightarrow> int \<times> 'd dsession" where
  "send_open_failure srv env dsname member io_message s =
     (case diagnose_open_failure env dsname member s of (failure, s) \<Rightarrow>
        (case failure of
           OPEN_FAIL_NODSN \<Rightarrow>
             service_error srv HTTP_STATUS_NOT_FOUND REASON_DATASET_NOT_FOUND ERR_MSG_DATASET_NOT_FOUND s
         | OPEN_FAIL_NOMEM \<Rightarrow>
             service_error srv HTTP_STATUS_NOT_FOUND REASON_MEMBER_NOT_FOUND ERR_MSG_MEMBER_NOT_FOUND s
         | OPEN_FAIL_NOSTOR \<Rightarrow>
             sendErrorResponse srv HTTP_STATUS_INTERNAL_SERVER_ERROR CATEGORY_UNEXPECTED RC_SEVERE
               REASON_SERVER_ERROR (Some ERR_MSG_LIST_NOMEM) [] s
         | OPEN_FAIL_NOTPDS \<Rightarrow> handle_error srv ERR_INVALID_PARAM MSG_NOT_PARTITIONED s
         | OPEN_FAIL_IO \<Rightarrow> handle_error srv ERR_IO io_message s))"

definition require_pds :: "httpd \<Rightarrow> 'd ds_env \<Rightarrow> cstr \<Rightarrow> 'd dsession \<Rightarrow> bool \<times> 'd dsession" where
  "require_pds srv env dsname s =
     (if \<not> dataset_cataloged env (us_ds s) (Some dsname) then
        (False, snd (service_error srv HTTP_STATUS_NOT_FOUND REASON_DATASET_NOT_FOUND ERR_MSG_DATASET_NOT_FOUND s))
      else if \<not> is_pds env (us_ds s) dsname then
        (False, snd (handle_error srv ERR_INVALID_PARAM MSG_NOT_PARTITIONED s))
      else (True, s))"

definition ds_codepage :: "'d ds_env \<Rightarrow> file_encoding \<Rightarrow> HTTPCP" where
  "ds_codepage env encoding = (if encoding = FILE_ENC_IBM1047 then de_1047 env else de_cp037 env)"

section \<open>Files\<close>

definition ds_fopen :: "'d ds_env \<Rightarrow> cstr \<Rightarrow> cstr \<Rightarrow> 'd dsession \<Rightarrow> nat option \<times> 'd dsession" where
  "ds_fopen env name mode s = on_ds (de_fopen env name mode) (do_call (DsOpen name mode) s)"

definition ds_fread :: "'d ds_env \<Rightarrow> nat \<Rightarrow> nat \<Rightarrow> 'd dsession \<Rightarrow> byte list \<times> 'd dsession" where
  "ds_fread env fp n = on_ds (de_fread env fp n)"

definition ds_fgets :: "'d ds_env \<Rightarrow> nat \<Rightarrow> nat \<Rightarrow> 'd dsession \<Rightarrow> byte list option \<times> 'd dsession" where
  "ds_fgets env fp n = on_ds (de_fgets env fp n)"

definition ds_fwrite :: "'d ds_env \<Rightarrow> nat \<Rightarrow> byte list \<Rightarrow> 'd dsession \<Rightarrow> nat \<times> 'd dsession" where
  "ds_fwrite env fp data s = on_ds (de_fwrite env fp data) (do_call (DsWrite fp data) s)"

text \<open>\<^verbatim>\<open>fclose\<close>, and \<^verbatim>\<open>session_fclose\<close> with its return value.\<close>

definition ds_fclose :: "'d ds_env \<Rightarrow> nat \<Rightarrow> 'd dsession \<Rightarrow> int \<times> 'd dsession" where
  "ds_fclose env fp s = on_ds (de_fclose env fp) (do_call (Fclose fp) s)"

definition ds_session_fclose :: "'d ds_env \<Rightarrow> nat option \<Rightarrow> 'd dsession \<Rightarrow> int \<times> 'd dsession" where
  "ds_session_fclose env fp s =
     (case fp of None \<Rightarrow> (0, s) | Some f \<Rightarrow> on_ds (de_fclose env f) (session_fclose s (Some f)))"

definition ds_dcb :: "'d ds_env \<Rightarrow> nat \<Rightarrow> 'd dsession \<Rightarrow> DCB" where
  "ds_dcb env fp s = de_dcb env fp (us_ds s)"

definition ds_ferror :: "'d ds_env \<Rightarrow> nat \<Rightarrow> 'd dsession \<Rightarrow> bool" where
  "ds_ferror env fp s = de_ferror env fp (us_ds s)"

definition dcb_undefined :: "'d ds_env \<Rightarrow> DCB \<Rightarrow> bool" where
  "dcb_undefined env d \<longleftrightarrow> dc_recfm d AND FILE_RECFM_TYPE (de_codes env) = FILE_RECFM_U (de_codes env)"

section \<open>Stamps\<close>

partial_function (option) ds_etag_loop ::
  "'d ds_env \<Rightarrow> nat \<Rightarrow> nat \<Rightarrow> int \<Rightarrow> int \<Rightarrow> etagctx \<Rightarrow> 'd dsession \<Rightarrow> (etagctx \<times> 'd dsession) option" where
  "ds_etag_loop env fp eff_lrecl max_records count ctx s =
     (let (buf, s) = ds_fread env fp eff_lrecl s in
      if buf = [] then Some (ctx, s)
      else if max_records \<ge> 0 \<and> count \<ge> max_records then Some (ctx, s)
      else ds_etag_loop env fp eff_lrecl max_records (count + 1) (etag_update ctx buf) s)"

text \<open>The stamp, if the resource can be read.\<close>

definition dataset_etag ::
  "httpd \<Rightarrow> 'd ds_env \<Rightarrow> cstr \<Rightarrow> int \<Rightarrow> 'd dsession \<Rightarrow> (cstr option \<times> 'd dsession) option" where
  "dataset_etag srv env dataset max_records s =
     (case ds_fopen env dataset ''rb'' s of
        (None, s) \<Rightarrow> Some (None, s)
      | (Some fp, s) \<Rightarrow>
          let s = snd (session_register_file s (Some fp)); d = ds_dcb env fp s;
              eff_lrecl = (if dcb_undefined env d then dc_blksize d else dc_lrecl d);
              close = (\<lambda>s. snd (ds_session_fclose env (Some fp) s)) in
          if eff_lrecl = 0 then Some (None, close s)
          else if \<not> hd_alloc srv eff_lrecl then Some (None, close s)
          else case ds_etag_loop env fp eff_lrecl max_records 0 etag_init s of
            None \<Rightarrow> None
          | Some (ctx, s) \<Rightarrow>
              if ds_ferror env fp s then Some (None, close s)
              else Some (etag_final ctx ETAG_SIZE, close s))"

text \<open>Whether the write may proceed; if not, the request has been answered.\<close>

definition check_if_match ::
  "httpd \<Rightarrow> 'd ds_env \<Rightarrow> cstr \<Rightarrow> int \<Rightarrow> 'd dsession \<Rightarrow> (bool \<times> 'd dsession) option" where
  "check_if_match srv env dataset max_records s =
     (let mismatch = (\<lambda>s. Some (False, snd (service_error srv HTTP_STATUS_PRECONDITION_FAILED REASON_ETAG_MISMATCH
            ERR_MSG_ETAG_MISMATCH s))) in
      case getHeaderParam s ''If-Match'' of
        None \<Rightarrow> Some (True, s)
      | Some if_match \<Rightarrow>
          (case dataset_etag srv env dataset max_records s of
             None \<Rightarrow> None
           | Some (None, s) \<Rightarrow> mismatch s
           | Some (Some current, s) \<Rightarrow>
               if \<not> etag_matches (Some if_match) current then mismatch s else Some (True, s)))"

end
