(* ===== verification/DsRead.thy ===== *)
theory DsRead
  imports DsAccess UssTransfer
begin

text \<open>
  Downloads of data sets and members: \<^verbatim>\<open>read_and_send_dataset\<close>, \<^verbatim>\<open>datasetGetHandler\<close> and
  \<^verbatim>\<open>memberGetHandler\<close> of \<^verbatim>\<open>src/dsapi.c\<close>.  A buffer holds host bytes; \<open>de_code\<close> gives the code of a
  character literal.
\<close>

section \<open>Records on the wire\<close>

definition VARIABLE :: byte where "VARIABLE = 0x0002"

definition send_standard_headers ::
  "httpd \<Rightarrow> cstr \<Rightarrow> cstr option \<Rightarrow> 'a session_scheme \<Rightarrow> int \<times> 'a session_scheme" where
  "send_standard_headers srv content_type etag s =
     and_then (http_resp srv 200)
       (and_then (send_common_headers srv)
          (and_then (http_printf srv (''Content-Type: '' @ content_type))
             (and_then (etag_line srv etag) (http_printf srv []))))
       (s\<lparr>ss_headers_sent := True\<rparr>)"

text \<open>What the text loop makes of a buffer, up to its NUL; \<open>nl\<close> and \<open>bl\<close> are a newline and a blank.\<close>

definition text_line :: "byte \<Rightarrow> byte \<Rightarrow> bool \<Rightarrow> byte list \<Rightarrow> byte list" where
  "text_line nl bl is_fixed buffer =
     (let b = takeWhile (\<lambda>c. c \<noteq> 0) buffer in
      if is_fixed \<and> b \<noteq> [] then
        let e = (if last b = nl then butlast b else b)
        in rev (dropWhile (\<lambda>c. c = bl) (rev e)) @ [nl]
      else b)"

partial_function (option) ds_text_loop ::
  "httpd \<Rightarrow> 'd ds_env \<Rightarrow> nat \<Rightarrow> nat \<Rightarrow> bool \<Rightarrow> HTTPCP \<Rightarrow> int \<Rightarrow> 'd dsession \<Rightarrow> (int \<times> 'd dsession) option" where
  "ds_text_loop srv env fp n is_fixed cp rc s =
     (case ds_fgets env fp n s of
        (None, s) \<Rightarrow> Some (rc, s)
      | (Some buffer, s) \<Rightarrow>
          (case session_send_all srv (map (cp_etoa cp) (text_line (de_code env newline) (de_code env blank) is_fixed buffer)) s of
             (rc, s) \<Rightarrow> if rc < 0 then Some (rc, s) else ds_text_loop srv env fp n is_fixed cp rc s))"

definition len_prefix :: "nat \<Rightarrow> byte list" where
  "len_prefix n = map (\<lambda>k. of_nat (n div 2 ^ k)) [24, 16, 8, 0]"

text \<open>What goes out for one record, send by send.\<close>

definition record_pieces :: "data_type \<Rightarrow> byte list \<Rightarrow> byte list list" where
  "record_pieces data_type buffer =
     (if data_type = DATA_TYPE_RECORD then [len_prefix (length buffer), buffer] else [buffer])"

fun send_pieces :: "httpd \<Rightarrow> int \<Rightarrow> byte list list \<Rightarrow> 'd dsession \<Rightarrow> int \<times> 'd dsession" where
  "send_pieces srv rc [] s = (rc, s)"
| "send_pieces srv rc (p # ps) s =
     (case session_send_all srv p s of (rc, s) \<Rightarrow> if rc < 0 then (rc, s) else send_pieces srv rc ps s)"

partial_function (option) ds_record_loop ::
  "httpd \<Rightarrow> 'd ds_env \<Rightarrow> nat \<Rightarrow> nat \<Rightarrow> data_type \<Rightarrow> int \<Rightarrow> int \<Rightarrow> int \<Rightarrow> 'd dsession \<Rightarrow> (int \<times> 'd dsession) option" where
  "ds_record_loop srv env fp lrecl data_type max_records count rc s =
     (case ds_fread env fp lrecl s of (buffer, s) \<Rightarrow>
        if buffer = [] then Some (rc, s)
        else if max_records \<ge> 0 \<and> count \<ge> max_records then Some (rc, s)
        else
          (case send_pieces srv rc (record_pieces data_type buffer) s of
             (rc, s) \<Rightarrow>
               if rc < 0 then Some (rc, s)
               else ds_record_loop srv env fp lrecl data_type max_records (count + 1) rc s))"

definition ds_is_fixed :: "'d ds_env \<Rightarrow> DCB \<Rightarrow> bool" where
  "ds_is_fixed env d \<longleftrightarrow> \<not> dcb_undefined env d \<and> dc_recfm d AND VARIABLE = 0"

text \<open>Behind the loops: a read that failed leaves no response that could pass for a whole one.\<close>

definition ds_read_end :: "httpd \<Rightarrow> 'd ds_env \<Rightarrow> nat \<Rightarrow> int \<times> 'd dsession \<Rightarrow> int \<times> 'd dsession" where
  "ds_read_end srv env fp r =
     (if ds_ferror env fp (snd r) then
        let s = do_call (Wto DsReadError) (snd r)
        in (-1, s\<lparr>ss_conn := abort_response (hd_cstate_done srv) (ss_conn s)\<rparr>)
      else r)"

definition read_and_send_dataset ::
  "httpd \<Rightarrow> 'd ds_env \<Rightarrow> nat \<Rightarrow> data_type \<Rightarrow> HTTPCP \<Rightarrow> int \<Rightarrow> cstr option \<Rightarrow> 'd dsession \<Rightarrow>
     (int \<times> 'd dsession) option" where
  "read_and_send_dataset srv env fp data_type cp max_records etag s =
     (let d = ds_dcb env fp s; lrecl = dc_lrecl d in
      if data_type = DATA_TYPE_RECORD \<and> dc_recfm d AND FILE_RECFM_TYPE (de_codes env) = FILE_RECFM_V (de_codes env) then
        Some (service_error srv HTTP_STATUS_BAD_REQUEST REASON_RECORD_MODE_RECFM_V ERR_MSG_RECORD_MODE_RECFM_V s)
      else if \<not> hd_alloc srv (lrecl + 2) then Some (handle_error srv ERR_MEMORY ''Memory allocation failed'' s)
      else
        (case send_standard_headers srv
                (if data_type = DATA_TYPE_TEXT then ''text/plain'' else ''application/octet-stream'') etag s of
           (rc, s) \<Rightarrow>
             if rc < 0 then Some (rc, s)
             else
               map_option (ds_read_end srv env fp)
                 (if data_type = DATA_TYPE_TEXT
                  then ds_text_loop srv env fp (lrecl + 2) (ds_is_fixed env d) cp rc s
                  else ds_record_loop srv env fp lrecl data_type max_records 0 rc s)))"

section \<open>The handlers\<close>

text \<open>The folded name of the data set of a request, or the message of its refusal.\<close>

definition ds_dsname :: "'a session_scheme \<Rightarrow> cstr + cstr" where
  "ds_dsname s =
     (case ss_env s ''HTTP_dataset-name'' of
        None \<Rightarrow> Inl ''Dataset name is required''
      | Some v \<Rightarrow>
          (case normalize_dsn (Some v) (MAX_DATASET_NAME + 1) of
             None \<Rightarrow> Inl ''Dataset name is too long'' | Some d \<Rightarrow> Inr d))"

definition ds_member :: "'a session_scheme \<Rightarrow> cstr + cstr \<times> cstr" where
  "ds_member s =
     (case (ss_env s ''HTTP_dataset-name'', ss_env s ''HTTP_member-name'') of
        (Some v, Some w) \<Rightarrow>
          (case normalize_dsn (Some v) (MAX_DATASET_NAME + 1) of
             None \<Rightarrow> Inl ''Dataset name is too long''
           | Some d \<Rightarrow>
               (case normalize_dsn (Some w) (MAX_MEMBER_NAME + 1) of
                  None \<Rightarrow> Inl ''Member name is too long'' | Some m \<Rightarrow> Inr (d, m)))
      | _ \<Rightarrow> Inl ''Dataset and member names are required'')"

definition qualified_dsn :: "cstr \<Rightarrow> cstr \<Rightarrow> cstr" where
  "qualified_dsn dsname member = c_snprintf MAX_QUALIFIED_DSN (dsname @ ''('' @ member @ '')'')"

text \<open>The stamp of a response, or the 304 that answers the request.\<close>

definition ds_stamp ::
  "httpd \<Rightarrow> 'd ds_env \<Rightarrow> cstr \<Rightarrow> int \<Rightarrow> 'd dsession \<Rightarrow> ((int + cstr option) \<times> 'd dsession) option" where
  "ds_stamp srv env dataset max_records s =
     (let if_none_match = getHeaderParam s ''If-None-Match'';
          want_etag = etag_requested (getHeaderParam s ''X-IBM-Return-Etag'') in
      if if_none_match = None \<and> \<not> want_etag then Some (Inr None, s)
      else case dataset_etag srv env dataset max_records s of
        None \<Rightarrow> None
      | Some (None, s) \<Rightarrow> Some (Inr None, s)
      | Some (Some etag, s) \<Rightarrow>
          if if_none_match \<noteq> None \<and> etag_matches if_none_match etag
          then (case send_not_modified srv etag s of (rc, s) \<Rightarrow> Some (Inl rc, s))
          else Some (Inr (Some etag), s))"

text \<open>With the file open.\<close>

definition ds_send_open ::
  "httpd \<Rightarrow> 'd ds_env \<Rightarrow> nat \<Rightarrow> data_type \<Rightarrow> HTTPCP \<Rightarrow> int \<Rightarrow> cstr option \<Rightarrow> 'd dsession \<Rightarrow>
     (int \<times> 'd dsession) option" where
  "ds_send_open srv env fp data_type cp max_records etag s =
     (case read_and_send_dataset srv env fp data_type cp max_records etag (snd (session_register_file s (Some fp))) of
        None \<Rightarrow> None
      | Some (rc, s) \<Rightarrow> Some (rc, snd (ds_session_fclose env (Some fp) s)))"

definition datasetGetHandler :: "httpd \<Rightarrow> 'd ds_env \<Rightarrow> 'd dsession \<Rightarrow> (int \<times> 'd dsession) option" where
  "datasetGetHandler srv env s =
     (case ds_dsname s of
        Inl msg \<Rightarrow> Some (handle_error srv ERR_INVALID_PARAM msg s)
      | Inr dsname \<Rightarrow>
          (case gates srv env dsname RACF_ATTR_READ s of (ok, s) \<Rightarrow>
             if \<not> ok then Some (0, s)
             else if is_pds env (us_ds s) dsname then
               Some (service_error srv HTTP_STATUS_BAD_REQUEST REASON_PDS_NOT_SEQUENTIAL ERR_MSG_PDS_NOT_SEQUENTIAL s)
             else case parse_data_type (ss_env s ''HTTP_X-IBM-Data-Type'') of (valid, data_type, encoding) \<Rightarrow>
               if \<not> valid then Some (send_bad_encoding srv (ss_env s ''HTTP_X-IBM-Data-Type'') s)
               else case ds_stamp srv env dsname (get_fb_record_count env (us_ds s) dsname) s of
                 None \<Rightarrow> None
               | Some (Inl rc, s) \<Rightarrow> Some (rc, s)
               | Some (Inr etag_hdr, s) \<Rightarrow>
                   let max_records = (if data_type = DATA_TYPE_TEXT then -1 else get_fb_record_count env (us_ds s) dsname) in
                   (case ds_fopen env dsname (if data_type = DATA_TYPE_TEXT then ''r'' else ''rb'') s of
                      (None, s) \<Rightarrow> Some (send_open_failure srv env (Some dsname) None ''Cannot open dataset'' s)
                    | (Some fp, s) \<Rightarrow>
                        ds_send_open srv env fp data_type (ds_codepage env encoding) max_records etag_hdr s)))"

definition memberGetHandler :: "httpd \<Rightarrow> 'd ds_env \<Rightarrow> 'd dsession \<Rightarrow> (int \<times> 'd dsession) option" where
  "memberGetHandler srv env s =
     (case ds_member s of
        Inl msg \<Rightarrow> Some (handle_error srv ERR_INVALID_PARAM msg s)
      | Inr (dsname, member) \<Rightarrow>
          let dataset = qualified_dsn dsname member in
          (case gates srv env dsname RACF_ATTR_READ s of (ok, s) \<Rightarrow>
             if \<not> ok then Some (0, s)
             else case parse_data_type (ss_env s ''HTTP_X-IBM-Data-Type'') of (valid, data_type, encoding) \<Rightarrow>
               if \<not> valid then Some (send_bad_encoding srv (ss_env s ''HTTP_X-IBM-Data-Type'') s)
               else case ds_stamp srv env dataset (-1) s of
                 None \<Rightarrow> None
               | Some (Inl rc, s) \<Rightarrow> Some (rc, s)
               | Some (Inr etag_hdr, s) \<Rightarrow>
                   (case ds_fopen env dataset (if data_type = DATA_TYPE_TEXT then ''r'' else ''rb'') s of
                      (None, s) \<Rightarrow> Some (send_open_failure srv env (Some dsname) (Some member) ''Cannot open dataset member'' s)
                    | (Some fp, s) \<Rightarrow>
                        ds_send_open srv env fp data_type (ds_codepage env encoding) (-1) etag_hdr s)))"

end
