(* ===== verification/DsRename.thy ===== *)
theory DsRename
  imports DsRead
begin

text \<open>
  The control request of \<^verbatim>\<open>src/dsapi.c\<close>: \<^verbatim>\<open>extract_json_string\<close>, \<^verbatim>\<open>extract_json_int\<close>, \<^verbatim>\<open>process_rename\<close>; and the
  deletions, \<^verbatim>\<open>datasetDeleteHandler\<close> and \<^verbatim>\<open>memberDeleteHandler\<close>.  \<open>read_content\<close> is
  \<^verbatim>\<open>read_request_content\<close>, as for the handlers of jobs and of UNIX files.
\<close>

section \<open>JSON of a request\<close>

text \<open>The code of \<^verbatim>\<open>uss_extract_json_string\<close> once more.\<close>

definition extract_json_string :: "cstr \<Rightarrow> cstr \<Rightarrow> nat \<Rightarrow> cstr option" where
  "extract_json_string json key outlen =
     (let search = c_snprintf JSON_SEARCH_SIZE ([dquote] @ key @ [dquote]) in
      case c_strstr search json of
        None \<Rightarrow> None
      | Some p \<Rightarrow>
          let pos = dropWhile is_lwsp (drop (length search) p) in
          if c_at pos 0 \<noteq> CHR '':'' then None
          else
            let pos = dropWhile is_lwsp (drop 1 pos) in
            if c_at pos 0 \<noteq> dquote then None
            else
              let v = drop 1 pos in
              if dquote \<notin> set v then None
              else Some (take (outlen - 1) (takeWhile (\<lambda>c. c \<noteq> dquote) v)))"

definition extract_json_int :: "cstr \<Rightarrow> cstr \<Rightarrow> int option" where
  "extract_json_int json key =
     (let search = c_snprintf JSON_SEARCH_SIZE ([dquote] @ key @ [dquote]) in
      case c_strstr search json of
        None \<Rightarrow> None
      | Some p \<Rightarrow>
          let pos = dropWhile is_lwsp (drop (length search) p) in
          if c_at pos 0 \<noteq> CHR '':'' then None
          else
            let pos = dropWhile is_lwsp (drop 1 pos) in
            if \<not> is_digit (c_at pos 0) then None else Some (c_atoi pos))"

text \<open>The characters of bytes from the wire.\<close>

definition ds_host :: "'d ds_env \<Rightarrow> byte list \<Rightarrow> cstr" where
  "ds_host env bs = map (\<lambda>b. de_char env (cp_atoe (de_cp037 env) b)) bs"

section \<open>Rename\<close>

definition invalid_rename :: "httpd \<Rightarrow> 'a session_scheme \<Rightarrow> int \<times> 'a session_scheme" where
  "invalid_rename srv =
     service_error srv HTTP_STATUS_BAD_REQUEST REASON_INVALID_RENAME_REQUEST ERR_MSG_INVALID_RENAME_REQUEST"

definition JSON_VAL_SIZE :: nat where "JSON_VAL_SIZE = 64"

text \<open>A name in the control body, folded like one in the path.\<close>

definition rename_name :: "cstr \<Rightarrow> cstr \<Rightarrow> nat \<Rightarrow> cstr option" where
  "rename_name body key limit =
     (case extract_json_string body key JSON_VAL_SIZE of
        None \<Rightarrow> None | Some v \<Rightarrow> normalize_dsn (Some v) (limit + 1))"

definition ds_renmem :: "'d ds_env \<Rightarrow> cstr \<Rightarrow> cstr \<Rightarrow> cstr \<Rightarrow> 'd dsession \<Rightarrow> int \<times> 'd dsession" where
  "ds_renmem env dsn from_member to_member s =
     on_ds (de_renmem env dsn from_member to_member) (do_call (DsRenmem dsn from_member to_member) s)"

definition ds_rename :: "'d ds_env \<Rightarrow> cstr \<Rightarrow> cstr \<Rightarrow> 'd dsession \<Rightarrow> int \<times> 'd dsession" where
  "ds_rename env from_dsn to_dsn s = on_ds (de_rename env from_dsn to_dsn) (do_call (DsRename from_dsn to_dsn) s)"

definition rename_failed :: "httpd \<Rightarrow> 'a session_scheme \<Rightarrow> int \<times> 'a session_scheme" where
  "rename_failed srv =
     service_error srv HTTP_STATUS_INTERNAL_SERVER_ERROR REASON_RENAME_FAILED ERR_MSG_RENAME_FAILED"

definition rename_member ::
  "httpd \<Rightarrow> 'd ds_env \<Rightarrow> cstr \<Rightarrow> cstr \<Rightarrow> cstr \<Rightarrow> 'd dsession \<Rightarrow> int \<times> 'd dsession" where
  "rename_member srv env body target_dsn target_member s =
     (case rename_name body ''member'' MAX_MEMBER_NAME of
        None \<Rightarrow> invalid_rename srv s
      | Some from_member \<Rightarrow>
          (case gates srv env target_dsn RACF_ATTR_UPDATE s of (ok, s) \<Rightarrow>
             if \<not> ok then (0, s)
             else case ds_renmem env target_dsn from_member target_member s of (rc, s) \<Rightarrow>
               if rc = 0 then sendDefaultHeaders srv 204 (Some ''application/json'') 0 s
               else if rc = 8 \<or> rc = -2 then
                 service_error srv HTTP_STATUS_NOT_FOUND REASON_MEMBER_NOT_FOUND ERR_MSG_MEMBER_NOT_FOUND s
               else if rc = 4 then
                 service_error srv HTTP_STATUS_BAD_REQUEST REASON_RENAME_TARGET_EXISTS ERR_MSG_RENAME_TARGET_EXISTS s
               else rename_failed srv (do_call (Wto (MbrRenameFailed target_dsn from_member target_member)) s)))"

definition rename_dataset ::
  "httpd \<Rightarrow> 'd ds_env \<Rightarrow> cstr \<Rightarrow> cstr \<Rightarrow> 'd dsession \<Rightarrow> int \<times> 'd dsession" where
  "rename_dataset srv env body target_dsn s =
     (case rename_name body ''dsn'' MAX_DATASET_NAME of
        None \<Rightarrow> invalid_rename srv s
      | Some from_dsn \<Rightarrow>
          (case require_access srv env from_dsn RACF_ATTR_ALTER s of (ok, s) \<Rightarrow>
             if \<not> ok then (0, s)
             else
               (case require_access srv env target_dsn RACF_ATTR_ALTER s of (ok, s) \<Rightarrow>
                  if \<not> ok then (0, s)
                  else case volume_gate srv env from_dsn s of (ok, s) \<Rightarrow>
                    if \<not> ok then (0, s)
                    else if de_locate env (dsn44 from_dsn) (us_ds s) = None then
                      service_error srv HTTP_STATUS_NOT_FOUND REASON_DATASET_NOT_FOUND ERR_MSG_DATASET_NOT_FOUND s
                    else case ds_rename env from_dsn target_dsn s of (rc, s) \<Rightarrow>
                      if rc = 0 then sendDefaultHeaders srv 204 (Some ''application/json'') 0 s
                      else rename_failed srv (do_call (Wto (DsRenameFailed from_dsn target_dsn)) s))))"

type_synonym 'd ds_reader = "'d dsession \<Rightarrow> (int \<times> byte list option) \<times> 'd dsession"

definition process_rename ::
  "httpd \<Rightarrow> 'd ds_env \<Rightarrow> 'd ds_reader \<Rightarrow> cstr \<Rightarrow> cstr option \<Rightarrow> 'd dsession \<Rightarrow> int \<times> 'd dsession" where
  "process_rename srv env read_content target_dsn target_member s =
     (case read_content s of ((rc, body), s) \<Rightarrow>
        if rc \<noteq> REQBODY_OK \<and> rc \<noteq> REQBODY_BAD then send_body_error srv rc s
        else if rc \<noteq> REQBODY_OK then invalid_rename srv s
        else
          let body = c_str (ds_host env (case body of None \<Rightarrow> [] | Some b \<Rightarrow> b)) in
          if extract_json_string body ''request'' 16 \<noteq> Some ''rename'' then invalid_rename srv s
          else case target_member of
            Some m \<Rightarrow> rename_member srv env body target_dsn m s
          | None \<Rightarrow> rename_dataset srv env body target_dsn s)"

section \<open>Deletion\<close>

definition ds_remove :: "'d ds_env \<Rightarrow> cstr \<Rightarrow> 'd dsession \<Rightarrow> int \<times> 'd dsession" where
  "ds_remove env name s = on_ds (de_remove env name) (do_call (DsRemove name) s)"

definition delete_answer :: "httpd \<Rightarrow> 'd ds_env \<Rightarrow> cstr \<Rightarrow> 'd dsession \<Rightarrow> int \<times> 'd dsession" where
  "delete_answer srv env name s =
     (case ds_remove env name s of (rc, s) \<Rightarrow>
        if rc \<noteq> 0 then
          service_error srv HTTP_STATUS_INTERNAL_SERVER_ERROR REASON_DELETE_FAILED ERR_MSG_DELETE_FAILED
            (do_call (Wto (DsDeleteFailed name)) s)
        else sendDefaultHeaders srv 204 (Some ''application/json'') 0 s)"

definition datasetDeleteHandler :: "httpd \<Rightarrow> 'd ds_env \<Rightarrow> 'd dsession \<Rightarrow> int \<times> 'd dsession" where
  "datasetDeleteHandler srv env s =
     (case ss_env s ''HTTP_dataset-name'' of
        None \<Rightarrow> service_error srv HTTP_STATUS_BAD_REQUEST REASON_INVALID_ALLOC_PARAMS ERR_MSG_INVALID_ALLOC_PARAMS s
      | Some v \<Rightarrow>
          (case normalize_dsn (Some v) (MAX_DATASET_NAME + 1) of
             None \<Rightarrow> handle_error srv ERR_INVALID_PARAM ''Dataset name is too long'' s
           | Some dsname \<Rightarrow>
               (case gates srv env dsname RACF_ATTR_ALTER s of (ok, s) \<Rightarrow>
                  if \<not> ok then (0, s)
                  else if de_locate env (dsn44 dsname) (us_ds s) = None then
                    service_error srv HTTP_STATUS_NOT_FOUND REASON_DATASET_NOT_FOUND ERR_MSG_DATASET_NOT_FOUND s
                  else delete_answer srv env dsname s)))"

definition memberDeleteHandler :: "httpd \<Rightarrow> 'd ds_env \<Rightarrow> 'd dsession \<Rightarrow> int \<times> 'd dsession" where
  "memberDeleteHandler srv env s =
     (case ds_member s of
        Inl msg \<Rightarrow> handle_error srv ERR_INVALID_PARAM msg s
      | Inr (dsname, member) \<Rightarrow>
          let dataset = qualified_dsn dsname member in
          (case gates srv env dsname RACF_ATTR_UPDATE s of (ok, s) \<Rightarrow>
             if \<not> ok then (0, s)
             else case ds_fopen env dataset ''r'' s of
               (None, s) \<Rightarrow>
                 service_error srv HTTP_STATUS_NOT_FOUND REASON_MEMBER_NOT_FOUND ERR_MSG_MEMBER_NOT_FOUND s
             | (Some fp, s) \<Rightarrow> delete_answer srv env dataset (snd (ds_fclose env fp s))))"

end
