(* ===== verification/DsWrite.thy ===== *)
theory DsWrite
  imports DsRename RecLines
begin

text \<open>
  Uploads of data sets and members: the record writer and the body loops of \<^verbatim>\<open>src/dsapi.c\<close>, and
  \<^verbatim>\<open>datasetPutHandler\<close> and \<^verbatim>\<open>memberPutHandler\<close>.

  The two handlers hold two copies of the body loops; \<open>wt_pad\<close> is where they differ (the padding of the last
  binary record).  The counters \<^verbatim>\<open>total_written\<close> and \<^verbatim>\<open>line_count\<close>, which nothing reads, are left out.  A
  failure inside the loops is the message it is answered with.
\<close>

section \<open>One record\<close>

record write_target =
  wt_name :: cstr
  wt_mode :: cstr
  wt_type :: data_type
  wt_cp :: HTTPCP
  wt_content_max :: nat
  wt_piece :: nat
  wt_pad :: bool

text \<open>\<open>None\<close> is the return value -1.\<close>

definition open_write_target ::
  "'d ds_env \<Rightarrow> nat option \<Rightarrow> cstr \<Rightarrow> cstr \<Rightarrow> 'd dsession \<Rightarrow> nat option \<times> 'd dsession" where
  "open_write_target env fp target mode s =
     (case fp of
        Some f \<Rightarrow> (Some f, s)
      | None \<Rightarrow>
          (case ds_fopen env target mode s of
             (None, s) \<Rightarrow> (None, do_call (Wto (DsOpenWrite target)) s)
           | (Some f, s) \<Rightarrow> (Some f, snd (session_register_file s (Some f)))))"

definition flush_record :: "'d ds_env \<Rightarrow> nat \<Rightarrow> 'd dsession \<Rightarrow> int \<times> 'd dsession" where
  "flush_record env fp s =
     (case on_ds (de_fflush env fp) s of (err, s) \<Rightarrow> (if err = 0 then 0 else if err = 12 then -2 else -1, s))"

text \<open>\<^verbatim>\<open>if (fwrite(data, 1, n, fp) != n) return -1; if ((rc = flush_record(fp)) < 0) return rc;\<close>\<close>

definition put_data :: "'d ds_env \<Rightarrow> nat \<Rightarrow> byte list \<Rightarrow> 'd dsession \<Rightarrow> int \<times> 'd dsession" where
  "put_data env fp data s =
     (case ds_fwrite env fp data s of (n, s) \<Rightarrow> if n \<noteq> length data then (-1, s) else flush_record env fp s)"

text \<open>The record descriptor word of \<open>n\<close> bytes of data.\<close>

definition rdw :: "nat \<Rightarrow> byte list" where
  "rdw n = (let d = of_nat (n + 4) :: 16 word in [ucast (drop_bit 8 d), ucast d, 0, 0])"

definition put_binary :: "'d ds_env \<Rightarrow> nat \<Rightarrow> byte list \<Rightarrow> 'd dsession \<Rightarrow> int \<times> 'd dsession" where
  "put_binary env fp data s =
     (if dc_recfm (ds_dcb env fp s) AND VARIABLE = VARIABLE then
        (case ds_fwrite env fp (rdw (length data)) s of (n, s) \<Rightarrow>
           if n \<noteq> 4 then (-1, s) else put_data env fp data s)
      else put_data env fp data s)"

definition write_record ::
  "'d ds_env \<Rightarrow> nat \<Rightarrow> byte list \<Rightarrow> data_type \<Rightarrow> HTTPCP \<Rightarrow> nat \<Rightarrow> 'd dsession \<Rightarrow> int \<times> 'd dsession" where
  "write_record env fp record_buffer data_type cp content_max s =
     (case data_type of
        DATA_TYPE_BINARY \<Rightarrow> put_binary env fp record_buffer s
      | DATA_TYPE_RECORD \<Rightarrow>
          if length record_buffer < 4 then (-1, s)
          else
            let rec_len = foldl (\<lambda>n b. n * 256 + unat b) 0 (take 4 record_buffer);
                data = drop 4 record_buffer in
            if rec_len > length data then (-1, s) else put_binary env fp (take rec_len data) s
      | DATA_TYPE_TEXT \<Rightarrow>
          let data = (if content_max \<noteq> 0 \<and> length record_buffer > content_max
                      then take content_max record_buffer else record_buffer)
          in put_data env fp (map (cp_atoe cp) data) s)"

text \<open>The return code and the handle.\<close>

definition write_record_open ::
  "'d ds_env \<Rightarrow> write_target \<Rightarrow> nat option \<Rightarrow> byte list \<Rightarrow> 'd dsession \<Rightarrow> (int \<times> nat option) \<times> 'd dsession" where
  "write_record_open env wt fp record_buffer s =
     (case open_write_target env fp (wt_name wt) (wt_mode wt) s of
        (None, s) \<Rightarrow> ((-1, None), s)
      | (Some f, s) \<Rightarrow>
          (case write_record env f record_buffer (wt_type wt) (wt_cp wt) (wt_content_max wt) s of
             (rc, s) \<Rightarrow>
               if rc = -2 then ((-1, Some f), do_call (Wto (DsNoSpace (wt_name wt))) s)
               else ((rc, Some f), s)))"

definition close_write_target :: "'d ds_env \<Rightarrow> nat option \<Rightarrow> cstr \<Rightarrow> 'd dsession \<Rightarrow> int \<times> 'd dsession" where
  "close_write_target env fp target s =
     (case ds_session_fclose env fp s of (rc, s) \<Rightarrow>
        if rc = 0 then (0, s)
        else (-1, if de_errno env (us_ds s) = de_enospc env then do_call (Wto (DsNoSpace target)) s else s))"

section \<open>Reading\<close>

definition recv_data :: "nat \<Rightarrow> 'a session_scheme \<Rightarrow> byte list option \<times> 'a session_scheme" where
  "recv_data n s = (case receive_raw_data (ss_conn s) n of (r, c) \<Rightarrow> (r, s\<lparr>ss_conn := c\<rparr>))"

definition recv_some :: "nat \<Rightarrow> 'a session_scheme \<Rightarrow> byte list option \<times> 'a session_scheme" where
  "recv_some n s = (case receive_raw_some (ss_conn s) n of (r, c) \<Rightarrow> (r, s\<lparr>ss_conn := c\<rparr>))"

text \<open>\<^verbatim>\<open>receive_raw_data(session->httpc, &c, 1) != 1\<close> is \<open>None\<close>.\<close>

definition recv_byte :: "'a session_scheme \<Rightarrow> byte option \<times> 'a session_scheme" where
  "recv_byte s = (case recv_data 1 s of (Some [c], s) \<Rightarrow> (Some c, s) | (_, s) \<Rightarrow> (None, s))"

section \<open>The body loops\<close>

text \<open>The open target, the framing of text and the binary record so far.\<close>

record writer =
  w_fp :: "nat option"
  w_rl :: RECLINE
  w_buf :: "byte list"

type_synonym 'd loop_result = "cstr option \<times> writer \<times> 'd dsession"

definition w_record ::
  "'d ds_env \<Rightarrow> write_target \<Rightarrow> cstr \<Rightarrow> byte list \<Rightarrow> writer \<Rightarrow> 'd dsession \<Rightarrow> 'd loop_result" where
  "w_record env wt msg data w s =
     (case write_record_open env wt (w_fp w) data s of ((rc, fp), s) \<Rightarrow>
        (if rc < 0 then Some msg else None, w\<lparr>w_fp := fp\<rparr>, s))"

text \<open>\<open>n\<close> bytes of text.\<close>

fun text_data ::
  "'d ds_env \<Rightarrow> write_target \<Rightarrow> cstr \<Rightarrow> nat \<Rightarrow> writer \<Rightarrow> 'd dsession \<Rightarrow> 'd loop_result" where
  "text_data env wt msg 0 w s = (None, w, s)"
| "text_data env wt msg (Suc n) w s =
     (case recv_byte s of
        (None, s) \<Rightarrow> (Some msg, w, s)
      | (Some c, s) \<Rightarrow>
          (case recline_put (w_rl w) c of
             (None, rl) \<Rightarrow> text_data env wt msg n (w\<lparr>w_rl := rl\<rparr>) s
           | (Some rec, rl) \<Rightarrow>
               (case w_record env wt ''Error writing record'' rec (w\<lparr>w_rl := rl\<rparr>) s of
                  (Some e, w, s) \<Rightarrow> (Some e, w, s)
                | (None, w, s) \<Rightarrow> text_data env wt msg n w s)))"

text \<open>\<open>n\<close> bytes of binary data, cut into pieces.\<close>

function binary_data ::
  "'d ds_env \<Rightarrow> write_target \<Rightarrow> cstr \<Rightarrow> nat \<Rightarrow> writer \<Rightarrow> 'd dsession \<Rightarrow> 'd loop_result" where
  "binary_data env wt msg n w s =
     (if n = 0 then (None, w, s)
      else
        (case recv_some (min n (wt_piece wt - length (w_buf w))) s of
           (Some (b # bs), s) \<Rightarrow>
             let w = w\<lparr>w_buf := w_buf w @ b # bs\<rparr>; left = n - length (b # bs) in
             if length (w_buf w) \<ge> wt_piece wt then
               (case w_record env wt ''Error writing record'' (w_buf w) w s of
                  (Some e, w, s) \<Rightarrow> (Some e, w, s)
                | (None, w, s) \<Rightarrow> binary_data env wt msg left (w\<lparr>w_buf := []\<rparr>) s)
             else binary_data env wt msg left w s
         | (_, s) \<Rightarrow> (Some msg, w, s)))"
  by pat_completeness auto
termination by (relation "measure (\<lambda>(_, _, _, n, _, _). n)") auto

declare binary_data.simps [simp del]

definition body_data ::
  "'d ds_env \<Rightarrow> write_target \<Rightarrow> cstr \<Rightarrow> nat \<Rightarrow> writer \<Rightarrow> 'd dsession \<Rightarrow> 'd loop_result" where
  "body_data env wt msg n w s =
     (if wt_type wt = DATA_TYPE_BINARY then binary_data env wt msg n w s else text_data env wt msg n w s)"

text \<open>What the end of the body leaves to write.\<close>

definition final_record :: "'d ds_env \<Rightarrow> write_target \<Rightarrow> writer \<Rightarrow> 'd dsession \<Rightarrow> 'd loop_result" where
  "final_record env wt w s =
     (if wt_type wt = DATA_TYPE_BINARY then
        if w_buf w = [] then (None, w, s)
        else
          w_record env wt ''Error writing final record''
            (if wt_pad wt then w_buf w @ replicate (wt_piece wt - length (w_buf w)) 0 else w_buf w) w s
      else
        (case recline_flush (w_rl w) of
           (None, rl) \<Rightarrow> (None, w\<lparr>w_rl := rl\<rparr>, s)
         | (Some rec, rl) \<Rightarrow> w_record env wt ''Error writing final record'' rec (w\<lparr>w_rl := rl\<rparr>) s))"

text \<open>The line of a chunk's size: at most \<open>n\<close> more characters.\<close>

fun size_line :: "nat \<Rightarrow> byte list \<Rightarrow> 'a session_scheme \<Rightarrow> byte list option \<times> 'a session_scheme" where
  "size_line 0 acc s = (Some acc, s)"
| "size_line (Suc n) acc s =
     (case recv_byte s of
        (None, s) \<Rightarrow> (None, s)
      | (Some c, s) \<Rightarrow> if c = 0x0D then (Some acc, snd (recv_byte s)) else size_line n (acc @ [c]) s)"

definition CHUNK_SIZE_STR :: nat where "CHUNK_SIZE_STR = 10"

definition chunk_size :: "'d ds_env \<Rightarrow> byte list \<Rightarrow> nat" where
  "chunk_size env line =
     (case strtoul16 (ds_host env (takeWhile (\<lambda>b. b \<noteq> 0) line)) of None \<Rightarrow> 0 | Some n \<Rightarrow> n)"

text \<open>Behind the last chunk.\<close>

definition last_chunk :: "'d ds_env \<Rightarrow> write_target \<Rightarrow> writer \<Rightarrow> 'd dsession \<Rightarrow> 'd loop_result" where
  "last_chunk env wt w s =
     (case final_record env wt w s of
        (Some e, w, s) \<Rightarrow> (Some e, w, s)
      | (None, w, s) \<Rightarrow>
          (case recv_data 2 s of (crlf, s) \<Rightarrow>
             (case crlf of
                Some [a, b] \<Rightarrow>
                  (if a \<noteq> 0x0D \<or> b \<noteq> 0x0A then Some ''Final line ending not CRLF'' else None, w, s)
              | _ \<Rightarrow> (Some ''Error reading final line ending'', w, s))))"

section \<open>What reading leaves to read\<close>

definition rx_left :: "'a session_scheme \<Rightarrow> nat" where
  "rx_left s = rx_size (hc_rx (ss_conn s))"

lemma receive_some_size: "rx_size (hc_rx (snd (receive_some_loop len k c))) \<le> rx_size (hc_rx c)"
proof (induction len k c rule: receive_some_loop.induct)
  case (1 len k c)
  obtain r ev where r: "sock_recv (hc_rx c) len = (r, ev)" by force
  have le: "rx_size ev \<le> rx_size (hc_rx c)" using sock_recv_size_le[of "hc_rx c" len] r by simp
  show ?case
    using 1 r le
    by (cases r) (auto simp: receive_some_loop.simps[of len k c] Let_def intro: order_trans[OF _ le])
qed

lemma recv_data_left: "rx_left (snd (recv_data n s)) \<le> rx_left s"
  using receive_raw_data_left(1)[of "ss_conn s" n] by (simp add: recv_data_def rx_left_def split_beta)

lemma recv_some_left: "rx_left (snd (recv_some n s)) \<le> rx_left s"
  using receive_some_size[of n 0 "ss_conn s"] by (simp add: recv_some_def receive_raw_some_def rx_left_def split_beta)

lemma recv_byte_left:
  "rx_left (snd (recv_byte s)) \<le> rx_left s"
  "recv_byte s = (Some c, t) \<Longrightarrow> rx_left t < rx_left s"
  using recv_data_left[of 1 s] receive_raw_data_left(2)[of "ss_conn s" 1]
  by (auto simp: recv_byte_def recv_data_def rx_left_def split: prod.splits option.splits list.splits)

text \<open>Writing leaves the connection and the request alone.\<close>

definition writes_only :: "'d dsession \<Rightarrow> 'd dsession \<Rightarrow> bool" where
  "writes_only s t \<longleftrightarrow> (\<exists>cs fs u. t = s\<lparr>rs_files := fs, rs_calls := rs_calls s @ cs, us_ds := u\<rparr>)"

lemma writes_onlyI:
  fixes s :: "'d dsession"
  shows "writes_only s (s\<lparr>rs_files := fs, rs_calls := rs_calls s @ cs, us_ds := u\<rparr>)"
  unfolding writes_only_def by blast

lemma writes_only_refl [simp]:
  fixes s :: "'d dsession"
  shows "writes_only s s"
  using writes_onlyI[where s = s and fs = "rs_files s" and cs = "[]" and u = "us_ds s"] by simp

lemma writes_only_trans: "writes_only s t \<Longrightarrow> writes_only t v \<Longrightarrow> writes_only s v"
  unfolding writes_only_def by (elim exE) (simp, blast)

lemma writes_only_steps [simp]:
  fixes s :: "'d dsession"
  shows "writes_only s (do_call c s)"
  "writes_only s (s\<lparr>us_ds := u\<rparr>)"
  "writes_only s (s\<lparr>rs_files := fs\<rparr>)"
  using writes_onlyI[where s = s and fs = "rs_files s" and cs = "[c]" and u = "us_ds s"]
    writes_onlyI[where s = s and fs = "rs_files s" and cs = "[]" and u = u]
    writes_onlyI[where s = s and fs = fs and cs = "[]" and u = "us_ds s"]
  by (simp_all add: do_call_def)

lemma writes_only_keeps:
  assumes "writes_only s t"
  shows "ss_conn t = ss_conn s" "ss_env t = ss_env s" "ss_prints t = ss_prints s" "ss_out t = ss_out s"
    "ss_headers_sent t = ss_headers_sent s"
  using assms by (auto simp: writes_only_def)

lemma writes_only_ds: "writes_only s (snd (on_ds f s))"
  by (simp add: on_ds_def split_beta)

lemma writes_only_calls:
  "writes_only s (snd (ds_fopen env name mode s))"
  "writes_only s (snd (ds_fwrite env fp data s))"
  "writes_only s (snd (ds_fread env fp n s))"
  "writes_only s (snd (ds_fclose env fp s))"
  unfolding ds_fopen_def ds_fwrite_def ds_fread_def ds_fclose_def
  by (blast intro: writes_only_trans writes_only_ds writes_only_steps)+

lemma writes_only_register: "writes_only s (snd (session_register_file s fp))"
  by (auto simp: session_register_file_def split: option.splits)

lemma writes_only_close: "writes_only s (snd (ds_session_fclose env fp s))"
  unfolding ds_session_fclose_def session_fclose_def session_unregister_file_def
  by (cases fp) (auto intro: writes_only_trans[OF _ writes_only_ds] writes_only_trans[OF writes_only_steps(3) writes_only_steps(1)])

lemma writes_only_flush: "writes_only s (snd (flush_record env fp s))"
  by (simp add: flush_record_def split_beta writes_only_ds)

lemma writes_only_put: "writes_only s (snd (put_data env fp data s))"
  using writes_only_calls(2)[of s env fp data]
  by (auto simp: put_data_def split_beta intro: writes_only_trans writes_only_flush)

lemma writes_only_binary: "writes_only s (snd (put_binary env fp data s))"
  using writes_only_calls(2)[of s env fp "rdw (length data)"]
  by (auto simp: put_binary_def split_beta intro: writes_only_trans writes_only_put)

lemma writes_only_record: "writes_only s (snd (write_record env fp rec dt cp m s))"
  by (auto simp: write_record_def Let_def writes_only_binary writes_only_put split: data_type.splits)

lemma writes_only_open: "writes_only s (snd (open_write_target env fp name mode s))"
proof -
  obtain r t where r: "ds_fopen env name mode s = (r, t)" by force
  with writes_only_calls(1)[of s env name mode] have "writes_only s t" by simp
  with r writes_only_register show ?thesis
    by (auto simp: open_write_target_def intro: writes_only_trans split: option.splits)
qed

lemma writes_only_record_open: "writes_only s (snd (write_record_open env wt fp rec s))"
proof -
  obtain r t where r: "open_write_target env fp (wt_name wt) (wt_mode wt) s = (r, t)" by force
  with writes_only_open[of s env fp "wt_name wt" "wt_mode wt"] have t: "writes_only s t" by simp
  have "writes_only t (snd (write_record env f rec dt cp m t))" for f dt cp m by (rule writes_only_record)
  then have "writes_only s (snd (write_record env f rec dt cp m t))"
      "writes_only s (do_call c (snd (write_record env f rec dt cp m t)))" for f dt cp m c
    using t by (blast intro: writes_only_trans writes_only_steps(1))+
  with r t show ?thesis
    by (auto simp: write_record_open_def split_beta split: option.splits)
qed

lemma writes_only_w_record: "writes_only s (snd (snd (w_record env wt msg data w s)))"
  using writes_only_record_open[of s env wt "w_fp w" data] by (simp add: w_record_def split_beta)

lemma rx_left_writes: "writes_only s t \<Longrightarrow> rx_left t = rx_left s"
  by (simp add: rx_left_def writes_only_keeps)

lemma text_data_left: "rx_left (snd (snd (text_data env wt msg n w s))) \<le> rx_left s"
proof (induction n arbitrary: w s)
  case (Suc n)
  obtain r t where r: "recv_byte s = (r, t)" by force
  with recv_byte_left(1)[of s] have t: "rx_left t \<le> rx_left s" by simp
  show ?case
  proof (cases r)
    case (Some c)
    obtain o' rl where p: "recline_put (w_rl w) c = (o', rl)" by force
    show ?thesis
    proof (cases o')
      case None
      with Suc[of "w\<lparr>w_rl := rl\<rparr>" t] r Some p t show ?thesis by simp
    next
      case s: (Some rec)
      obtain e w' v where v: "w_record env wt ''Error writing record'' rec (w\<lparr>w_rl := rl\<rparr>) t = (e, w', v)"
        by (metis prod_cases3)
      with writes_only_w_record[of t env wt "''Error writing record''" rec "w\<lparr>w_rl := rl\<rparr>"]
      have "rx_left v = rx_left t" by (simp add: rx_left_writes)
      with Suc[of w' v] r Some p s v t show ?thesis by (cases e) simp_all
    qed
  qed (use r t in simp)
qed simp

lemma binary_data_left: "rx_left (snd (snd (binary_data env wt msg n w s))) \<le> rx_left s"
proof (induction env wt msg n w s rule: binary_data.induct)
  case (1 env wt msg n w s)
  let ?m = "min n (wt_piece wt - length (w_buf w))"
  obtain r t where r: "recv_some ?m s = (r, t)" by force
  with recv_some_left[of ?m s] have t: "rx_left t \<le> rx_left s" by simp
  note simps = binary_data.simps[of env wt msg n w s]
  show ?case
  proof (cases "n = 0 \<or> r = None \<or> r = Some []")
    case True
    with r t show ?thesis by (auto simp: simps)
  next
    case False
    then obtain b bs where b: "r = Some (b # bs)" "n \<noteq> 0" by (cases r) (auto simp: neq_Nil_conv)
    let ?w = "w\<lparr>w_buf := w_buf w @ b # bs\<rparr>"
    note ih = "1.IH"[OF b(2) r[symmetric] b(1) refl refl refl]
    obtain e w' v where v: "w_record env wt ''Error writing record'' (w_buf ?w) ?w t = (e, w', v)"
      by (metis prod_cases3)
    with writes_only_w_record[of t env wt "''Error writing record''" "w_buf ?w" ?w]
    have v2: "rx_left v = rx_left t" by (simp add: rx_left_writes)
    show ?thesis
      using ih v v2 r t b by (cases e; cases "length (w_buf ?w) \<ge> wt_piece wt") (auto simp: simps Let_def intro: order_trans[OF _ t])
  qed
qed

lemma body_data_left: "rx_left (snd (snd (body_data env wt msg n w s))) \<le> rx_left s"
  by (simp add: body_data_def binary_data_left text_data_left)

lemma size_line_left:
  "rx_left (snd (size_line n acc s)) \<le> rx_left s"
  "fst (size_line (Suc n) acc s) = Some line \<Longrightarrow> rx_left (snd (size_line (Suc n) acc s)) < rx_left s"
proof -
  show le: "rx_left (snd (size_line n acc s)) \<le> rx_left s" for n acc and s :: "'a session_scheme"
  proof (induction n arbitrary: acc s)
    case (Suc n)
    obtain r t where r: "recv_byte s = (r, t)" by force
    with recv_byte_left(1)[of s] recv_byte_left(1)[of t] Suc[of _ t] show ?case
      by (auto split: option.splits intro: order_trans)
  qed simp
  obtain r t where r: "recv_byte s = (r, t)" by force
  show "fst (size_line (Suc n) acc s) = Some line \<Longrightarrow> rx_left (snd (size_line (Suc n) acc s)) < rx_left s"
  proof (cases r)
    case (Some c)
    with r recv_byte_left(2)[of s c t] have "rx_left t < rx_left s" by simp
    with r Some recv_byte_left(1)[of t] le[of n "acc @ [c]" t] show ?thesis by auto
  qed (use r in simp)
qed

section \<open>Chunks\<close>

function chunk_loop :: "'d ds_env \<Rightarrow> write_target \<Rightarrow> writer \<Rightarrow> 'd dsession \<Rightarrow> 'd loop_result" where
  "chunk_loop env wt w s =
     (case size_line (CHUNK_SIZE_STR - 1) [] s of
        (None, s) \<Rightarrow> (Some ''Error reading chunk size'', w, s)
      | (Some line, s) \<Rightarrow>
          if chunk_size env line = 0 then last_chunk env wt w s
          else
            (case body_data env wt ''Error reading chunk data'' (chunk_size env line) w s of
               (Some e, w, s) \<Rightarrow> (Some e, w, s)
             | (None, w, s) \<Rightarrow>
                 (case recv_data 2 s of
                    (Some [_, _], s) \<Rightarrow> chunk_loop env wt w s
                  | (_, s) \<Rightarrow> (Some ''Error reading chunk trailer'', w, s))))"
  by pat_completeness auto
termination
proof (relation "measure (\<lambda>(_, _, _, s). rx_left s)", goal_cases)
  case 1
  show ?case by simp
next
  case (2 env wt w s r s1 line e s2 w1 s3 x y s4)
  then have l: "size_line (Suc 8) [] s = (Some line, s1)"
    and d: "rx_left s3 \<le> rx_left s1" and y: "rx_left y \<le> rx_left s3"
    using body_data_left[of env wt "''Error reading chunk data''" "chunk_size env line" w s1] recv_data_left[of 2 s3]
    by (auto simp: CHUNK_SIZE_STR_def dest!: sym[of "(None, _)"] sym[of "(Some _, _)"] simp del: size_line.simps)
  from l size_line_left(2)[of 8 "[]" s line] have "rx_left s1 < rx_left s" by (simp del: size_line.simps)
  with d y show ?case by simp
qed

declare chunk_loop.simps [simp del]

text \<open>The whole body into an open or not yet open target.\<close>

definition length_body :: "'d ds_env \<Rightarrow> write_target \<Rightarrow> nat \<Rightarrow> writer \<Rightarrow> 'd dsession \<Rightarrow> 'd loop_result" where
  "length_body env wt n w s =
     (case body_data env wt ''Error reading data'' n w s of
        (Some e, w, s) \<Rightarrow> (Some e, w, s)
      | (None, w, s) \<Rightarrow> final_record env wt w s)"

end
