(* ===== verification/DsPut.thy ===== *)
theory DsPut
  imports DsWrite
begin

text \<open>
  \<^verbatim>\<open>datasetPutHandler\<close> and \<^verbatim>\<open>memberPutHandler\<close> of \<^verbatim>\<open>src/dsapi.c\<close>: the control request, the gates, the checks
  before anything is opened for output, the body and the answer.
\<close>

section \<open>Headers\<close>

text \<open>\<^verbatim>\<open>strtoul(s, NULL, 10)\<close> with a 32-bit \<^verbatim>\<open>unsigned long\<close>.\<close>

definition strtoul10 :: "cstr \<Rightarrow> nat" where
  "strtoul10 s =
     (let s = dropWhile isspace s;
          neg = (c_at s 0 = CHR ''-'');
          s = (if neg \<or> c_at s 0 = CHR ''+'' then drop 1 s else s);
          v = foldl (\<lambda>v c. v * 10 + digit_val c) 0 (takeWhile is_digit s)
      in if v \<ge> 2 ^ 32 then 2 ^ 32 - 1 else if neg then (2 ^ 32 - v) mod 2 ^ 32 else v)"

text \<open>Whether the body is chunked, and its length.\<close>

definition body_framing :: "'a session_scheme \<Rightarrow> bool \<times> nat option" where
  "body_framing s =
     ((case ss_env s ''HTTP_TRANSFER-ENCODING'' of None \<Rightarrow> False | Some v \<Rightarrow> c_strstr ''chunked'' v \<noteq> None),
      map_option strtoul10 (ss_env s ''HTTP_CONTENT-LENGTH''))"

definition is_control_request :: "'a session_scheme \<Rightarrow> bool" where
  "is_control_request s \<longleftrightarrow>
     (case getHeaderParam s ''Content-Type'' of None \<Rightarrow> False | Some ct \<Rightarrow> c_strstr ''application/json'' ct \<noteq> None)"

section \<open>The body\<close>

definition start_writer :: "nat option \<Rightarrow> nat \<Rightarrow> writer" where
  "start_writer fp content_max = \<lparr>w_fp = fp, w_rl = recline_init content_max, w_buf = []\<rparr>"

definition put_body ::
  "'d ds_env \<Rightarrow> write_target \<Rightarrow> bool \<times> nat option \<Rightarrow> nat option \<Rightarrow> 'd dsession \<Rightarrow> 'd loop_result" where
  "put_body env wt framing fp s =
     (let w = start_writer fp (wt_content_max wt) in
      if fst framing then chunk_loop env wt w s
      else length_body env wt (case snd framing of None \<Rightarrow> 0 | Some n \<Rightarrow> n) w s)"

text \<open>The limits of the target, from what its handle says.\<close>

definition make_target ::
  "'d ds_env \<Rightarrow> cstr \<Rightarrow> data_type \<Rightarrow> HTTPCP \<Rightarrow> bool \<Rightarrow> DCB \<Rightarrow> write_target" where
  "make_target env name data_type cp always_pad d =
     (let is_undefined = dcb_undefined env d;
          eff_lrecl = (if is_undefined then dc_blksize d else dc_lrecl d)
      in \<lparr>wt_name = name, wt_mode = (if data_type = DATA_TYPE_TEXT then ''w'' else ''wb''), wt_type = data_type,
          wt_cp = cp, wt_content_max = reclim_content_max (dc_recfm d) eff_lrecl is_undefined,
          wt_piece = reclim_binary_piece (dc_recfm d) eff_lrecl is_undefined,
          wt_pad = (always_pad \<or> \<not> is_undefined)\<rparr>)"

section \<open>The answer\<close>

definition put_headers :: "httpd \<Rightarrow> cstr option \<Rightarrow> 'a session_scheme \<Rightarrow> int \<times> 'a session_scheme" where
  "put_headers srv etag s =
     and_then (http_resp srv 204)
       (and_then (http_printf srv ''Content-Type: application/json'')
          (and_then (send_common_headers srv)
             (and_then (etag_line srv etag) (http_printf srv []))))
       (s\<lparr>ss_headers_sent := True\<rparr>)"

text \<open>\<open>bound\<close> is the bound of the stamp's read.\<close>

definition put_answer ::
  "httpd \<Rightarrow> 'd ds_env \<Rightarrow> cstr \<Rightarrow> ('d \<Rightarrow> int) \<Rightarrow> 'd dsession \<Rightarrow> (int \<times> 'd dsession) option" where
  "put_answer srv env name bound s =
     (if etag_requested (getHeaderParam s ''X-IBM-Return-Etag'') then
        (case dataset_etag srv env name (bound (us_ds s)) s of
           None \<Rightarrow> None | Some (etag, s) \<Rightarrow> Some (put_headers srv etag s))
      else Some (put_headers srv None s))"

text \<open>Behind the body: the target is opened if nothing was written, and closed.\<close>

definition put_finish ::
  "httpd \<Rightarrow> 'd ds_env \<Rightarrow> write_target \<Rightarrow> ('d \<Rightarrow> int) \<Rightarrow> ('d dsession \<Rightarrow> int \<times> 'd dsession) \<Rightarrow> writer \<Rightarrow>
     'd dsession \<Rightarrow> (int \<times> 'd dsession) option" where
  "put_finish srv env wt bound open_failed w s =
     (case open_write_target env (w_fp w) (wt_name wt) (wt_mode wt) s of
        (None, s) \<Rightarrow> Some (open_failed s)
      | (Some fp, s) \<Rightarrow>
          (case close_write_target env (Some fp) (wt_name wt) s of (rc, s) \<Rightarrow>
             if rc < 0 then Some (handle_error srv ERR_IO ''Error writing the last block'' s)
             else if rl_truncated (w_rl w) then
               Some (handle_error srv ERR_IO ''Record truncated to the record length of the data set'' s)
             else put_answer srv env (wt_name wt) bound s))"

text \<open>From the limits on; \<open>fp\<close> is the handle of a member that is being created.\<close>

definition put_write ::
  "httpd \<Rightarrow> 'd ds_env \<Rightarrow> write_target \<Rightarrow> bool \<times> nat option \<Rightarrow> ('d \<Rightarrow> int) \<Rightarrow> ('d dsession \<Rightarrow> int \<times> 'd dsession) \<Rightarrow>
     nat option \<Rightarrow> 'd dsession \<Rightarrow> (int \<times> 'd dsession) option" where
  "put_write srv env wt framing bound open_failed fp s =
     (if wt_piece wt = 0 \<or> wt_content_max wt = 0 then
        Some (handle_error srv ERR_IO ''Dataset has zero record length'' (snd (ds_session_fclose env fp s)))
      else if \<not> hd_alloc srv (wt_piece wt) then
        Some (handle_error srv ERR_MEMORY ''Memory allocation failed'' (snd (ds_session_fclose env fp s)))
      else
        (case put_body env wt framing fp s of
           (Some msg, w, s) \<Rightarrow> Some (handle_error srv ERR_IO msg (snd (ds_session_fclose env (w_fp w) s)))
         | (None, w, s) \<Rightarrow> put_finish srv env wt bound open_failed w s))"

section \<open>The handlers\<close>

definition missing_length :: cstr where
  "missing_length = ''Missing Content-Length or Transfer-Encoding header''"

text \<open>The data set exists and the precondition holds.\<close>

definition dataset_put_checked ::
  "httpd \<Rightarrow> 'd ds_env \<Rightarrow> cstr \<Rightarrow> data_type \<Rightarrow> HTTPCP \<Rightarrow> bool \<times> nat option \<Rightarrow> 'd dsession \<Rightarrow> (int \<times> 'd dsession) option" where
  "dataset_put_checked srv env dsname data_type cp framing s =
     (case ds_fopen env dsname ''r'' s of
        (None, s) \<Rightarrow>
          Some (service_error srv HTTP_STATUS_NOT_FOUND REASON_DATASET_NOT_FOUND ERR_MSG_DATASET_NOT_FOUND s)
      | (Some chk, s) \<Rightarrow>
          let d = ds_dcb env chk s; s = snd (ds_fclose env chk s); bound = (\<lambda>u. get_fb_record_count env u dsname) in
          (case check_if_match srv env dsname (bound (us_ds s)) s of
             None \<Rightarrow> None
           | Some (ok, s) \<Rightarrow>
               if \<not> ok then Some (0, s)
               else
                 put_write srv env (make_target env dsname data_type cp False d) framing bound
                   (handle_error srv ERR_IO ''Cannot open dataset for writing'') None s))"

definition datasetPutHandler ::
  "httpd \<Rightarrow> 'd ds_env \<Rightarrow> 'd ds_reader \<Rightarrow> 'd dsession \<Rightarrow> (int \<times> 'd dsession) option" where
  "datasetPutHandler srv env read_content s =
     (case ds_dsname s of
        Inl msg \<Rightarrow> Some (handle_error srv ERR_INVALID_PARAM msg s)
      | Inr dsname \<Rightarrow>
          if is_control_request s then Some (process_rename srv env read_content dsname None s)
          else
            (case gates srv env dsname RACF_ATTR_UPDATE s of (ok, s) \<Rightarrow>
               if \<not> ok then Some (0, s)
               else if is_pds env (us_ds s) dsname then
                 Some (service_error srv HTTP_STATUS_BAD_REQUEST REASON_PDS_NOT_SEQUENTIAL ERR_MSG_PDS_NOT_SEQUENTIAL s)
               else case parse_data_type (ss_env s ''HTTP_X-IBM-Data-Type'') of (valid, data_type, encoding) \<Rightarrow>
                 if \<not> valid then Some (send_bad_encoding srv (ss_env s ''HTTP_X-IBM-Data-Type'') s)
                 else
                   let framing = body_framing s in
                   if \<not> fst framing \<and> snd framing = None then Some (handle_error srv ERR_INVALID_PARAM missing_length s)
                   else dataset_put_checked srv env dsname data_type (ds_codepage env encoding) framing s))"

text \<open>The handle of a member that is not there yet, opened for output, or none; and the limits.\<close>

definition member_put_checked ::
  "httpd \<Rightarrow> 'd ds_env \<Rightarrow> cstr \<Rightarrow> cstr \<Rightarrow> data_type \<Rightarrow> HTTPCP \<Rightarrow> bool \<times> nat option \<Rightarrow> 'd dsession \<Rightarrow>
     (int \<times> 'd dsession) option" where
  "member_put_checked srv env dsname dataset data_type cp framing s =
     (let failed = send_open_failure srv env (Some dsname) None ''Cannot open dataset member for writing'';
          write = (\<lambda>d. put_write srv env (make_target env dataset data_type cp True d) framing (\<lambda>_. -1) failed)
      in
      if \<not> dataset_cataloged env (us_ds s) (Some dsname) then
        Some (service_error srv HTTP_STATUS_NOT_FOUND REASON_DATASET_NOT_FOUND ERR_MSG_DATASET_NOT_FOUND s)
      else case check_if_match srv env dataset (-1) s of
        None \<Rightarrow> None
      | Some (ok, s) \<Rightarrow>
          if \<not> ok then Some (0, s)
          else case ds_fopen env dataset ''r'' s of
            (Some chk, s) \<Rightarrow> write (ds_dcb env chk s) None (snd (ds_fclose env chk s))
          | (None, s) \<Rightarrow>
              (case open_write_target env None dataset (if data_type = DATA_TYPE_TEXT then ''w'' else ''wb'') s of
                 (None, s) \<Rightarrow> Some (failed s)
               | (Some fp, s) \<Rightarrow> write (ds_dcb env fp s) (Some fp) s))"

definition memberPutHandler ::
  "httpd \<Rightarrow> 'd ds_env \<Rightarrow> 'd ds_reader \<Rightarrow> 'd dsession \<Rightarrow> (int \<times> 'd dsession) option" where
  "memberPutHandler srv env read_content s =
     (case ds_member s of
        Inl msg \<Rightarrow> Some (handle_error srv ERR_INVALID_PARAM msg s)
      | Inr (dsname, member) \<Rightarrow>
          if is_control_request s then Some (process_rename srv env read_content dsname (Some member) s)
          else
            (case gates srv env dsname RACF_ATTR_UPDATE s of (ok, s) \<Rightarrow>
               if \<not> ok then Some (0, s)
               else
                 let framing = body_framing s in
                 if \<not> fst framing \<and> snd framing = None then Some (handle_error srv ERR_INVALID_PARAM missing_length s)
                 else case parse_data_type (ss_env s ''HTTP_X-IBM-Data-Type'') of (valid, data_type, encoding) \<Rightarrow>
                   if \<not> valid then Some (send_bad_encoding srv (ss_env s ''HTTP_X-IBM-Data-Type'') s)
                   else
                     member_put_checked srv env dsname (qualified_dsn dsname member) data_type
                       (ds_codepage env encoding) framing s))"

end
