(* ===== verification/DsUpload.thy ===== *)
theory DsUpload
  imports DsPut
begin

text \<open>
  What uploads of data sets show: what reaches the target is the body's lines, in order, and nothing is opened
  for output before the gates, the precondition and the first record.
\<close>

section \<open>Output\<close>

text \<open>The calls that open a file for output or write to one.\<close>

definition is_output :: "os_call \<Rightarrow> bool" where
  "is_output c \<longleftrightarrow> (case c of DsOpen _ mode \<Rightarrow> mode = ''w'' \<or> mode = ''wb'' | DsWrite _ _ \<Rightarrow> True | _ \<Rightarrow> False)"

text \<open>The output between two states.\<close>

definition outs :: "'a rsession_scheme \<Rightarrow> 'a rsession_scheme \<Rightarrow> os_call list \<Rightarrow> bool" where
  "outs s t os \<longleftrightarrow> (\<exists>cs. rs_calls t = rs_calls s @ cs \<and> filter is_output cs = os)"

lemma outs_refl: "rs_calls t = rs_calls s \<Longrightarrow> outs s t []"
  by (simp add: outs_def)

lemma outs_trans: "outs s t a \<Longrightarrow> outs t v b \<Longrightarrow> outs s v (a @ b)"
  by (auto simp: outs_def)

lemma outs_unique: "outs s t a \<Longrightarrow> outs s t b \<Longrightarrow> a = b"
  by (auto simp: outs_def)

lemma outs_call: "outs s (do_call c s) (if is_output c then [c] else [])"
  by (simp add: outs_def do_call_def)

lemma outs_quiet_trans: "outs s t [] \<Longrightarrow> outs t v b \<Longrightarrow> outs s v b"
  using outs_trans[of s t "[]" v b] by simp

lemma outs_trans_quiet: "outs s t a \<Longrightarrow> outs t v [] \<Longrightarrow> outs s v a"
  using outs_trans[of s t a v "[]"] by simp

lemma outs_on_ds: "outs s (snd (on_ds f s)) []"
  by (simp add: outs_def on_ds_def split_beta)

lemma outs_open: "outs s (snd (ds_fopen env name mode s)) (if mode = ''w'' \<or> mode = ''wb'' then [DsOpen name mode] else [])"
  unfolding ds_fopen_def using outs_trans_quiet[OF outs_call[of s "DsOpen name mode"] outs_on_ds]
  by (simp only: is_output_def os_call.case)

lemma outs_write: "outs s (snd (ds_fwrite env fp data s)) [DsWrite fp data]"
  using outs_trans_quiet[OF outs_call[of s "DsWrite fp data"] outs_on_ds] by (simp add: ds_fwrite_def is_output_def)

lemma outs_fclose: "outs s (snd (ds_fclose env fp s)) []"
  using outs_trans_quiet[OF outs_call[of s "Fclose fp"] outs_on_ds] by (simp add: ds_fclose_def is_output_def)

lemma outs_register: "outs s (snd (session_register_file s fp)) []"
  using outs_call[of s "Wto FilesFull"]
  by (auto simp: session_register_file_def is_output_def outs_refl split: option.splits)

lemma outs_session_fclose: "outs s (snd (ds_session_fclose env fp s)) []"
proof (cases fp)
  case (Some f)
  have "outs s (session_fclose s (Some f)) []"
    by (simp add: session_fclose_def session_unregister_file_def do_call_def outs_def is_output_def)
  with Some outs_trans_quiet[OF _ outs_on_ds] show ?thesis by (simp add: ds_session_fclose_def)
qed (simp add: ds_session_fclose_def outs_refl)

lemma outs_wto: "outs s (do_call (Wto m) s) []"
  using outs_call[of s "Wto m"] by (simp add: is_output_def)

section \<open>One record\<close>

text \<open>The bytes a text record is written as.\<close>

definition record_bytes :: "write_target \<Rightarrow> byte list \<Rightarrow> byte list" where
  "record_bytes wt rec =
     map (cp_atoe (wt_cp wt)) (if wt_content_max wt \<noteq> 0 \<and> length rec > wt_content_max wt
       then take (wt_content_max wt) rec else rec)"

text \<open>The output of a list of records: the open, unless the target is open, and a write for each.\<close>

definition plan :: "write_target \<Rightarrow> nat option \<Rightarrow> nat \<Rightarrow> byte list list \<Rightarrow> os_call list" where
  "plan wt fp f recs =
     (if fp = None \<and> recs \<noteq> [] then [DsOpen (wt_name wt) (wt_mode wt)] else []) @
     map (\<lambda>r. DsWrite f (record_bytes wt r)) recs"

definition out_mode :: "write_target \<Rightarrow> bool" where
  "out_mode wt \<longleftrightarrow> wt_type wt = DATA_TYPE_TEXT \<and> wt_mode wt = ''w''"

lemma open_target_outs:
  assumes "out_mode wt" "open_write_target env fp (wt_name wt) (wt_mode wt) s = (r, t)"
  shows "outs s t (if fp = None then [DsOpen (wt_name wt) (wt_mode wt)] else [])" "fp = Some f \<Longrightarrow> r = Some f"
proof -
  obtain r1 s1 where r1: "ds_fopen env (wt_name wt) (wt_mode wt) s = (r1, s1)" by force
  with outs_open[of s env "wt_name wt" "wt_mode wt"] assms(1)
  have o: "outs s s1 [DsOpen (wt_name wt) (wt_mode wt)]" by (simp add: out_mode_def)
  show "outs s t (if fp = None then [DsOpen (wt_name wt) (wt_mode wt)] else [])"
    using assms(2) r1 outs_trans_quiet[OF o outs_wto] outs_trans_quiet[OF o outs_register]
    by (auto simp: open_write_target_def outs_refl split: option.splits)
  show "fp = Some f \<Longrightarrow> r = Some f" using assms(2) by (simp add: open_write_target_def)
qed

lemma write_text_outs:
  assumes "out_mode wt" "write_record env f rec (wt_type wt) (wt_cp wt) (wt_content_max wt) s = (rc, t)"
  shows "outs s t [DsWrite f (record_bytes wt rec)]"
proof -
  obtain n s1 where n: "ds_fwrite env f (record_bytes wt rec) s = (n, s1)" by force
  with outs_write[of s env f "record_bytes wt rec"] have o: "outs s s1 [DsWrite f (record_bytes wt rec)]" by simp
  have "outs s1 (snd (flush_record env f s1)) []" by (simp add: flush_record_def split_beta outs_on_ds)
  with assms n o outs_trans_quiet[OF o, of "snd (flush_record env f s1)"] show ?thesis
    by (auto simp: write_record_def out_mode_def put_data_def record_bytes_def Let_def split: if_splits)
qed

lemma w_record_outs:
  assumes "out_mode wt" "w_record env wt msg rec w s = (e, w', t)"
  shows "case e of
      None \<Rightarrow> \<exists>f. w' = w\<lparr>w_fp := Some f\<rparr> \<and> (\<forall>g. w_fp w = Some g \<longrightarrow> f = g) \<and> outs s t (plan wt (w_fp w) f [rec])
    | Some m \<Rightarrow> m = msg \<and> (\<exists>f os. (\<forall>g. w_fp w = Some g \<longrightarrow> f = g) \<and> outs s t os \<and> prefix os (plan wt (w_fp w) f [rec]))"
proof -
  obtain r1 s1 where o: "open_write_target env (w_fp w) (wt_name wt) (wt_mode wt) s = (r1, s1)" by force
  note oo = open_target_outs[OF assms(1) o]
  let ?o = "if w_fp w = None then [DsOpen (wt_name wt) (wt_mode wt)] else []"
  have pl: "plan wt (w_fp w) f [rec] = ?o @ [DsWrite f (record_bytes wt rec)]" for f by (simp add: plan_def)
  show ?thesis
  proof (cases r1)
    case None
    with oo(2) have "w_fp w = None" by (cases "w_fp w") auto
    moreover have "prefix ?o (plan wt (w_fp w) 0 [rec])" by (simp only: pl prefix_def) blast
    moreover have "e = Some msg" "t = s1" "outs s s1 ?o"
      using assms(2) o None oo(1) by (auto simp: w_record_def write_record_open_def)
    ultimately show ?thesis
      by (simp only: option.case) (intro conjI exI[of _ 0] exI[of _ ?o], simp_all)
  next
    case (Some f)
    obtain rc s2 where w: "write_record env f rec (wt_type wt) (wt_cp wt) (wt_content_max wt) s1 = (rc, s2)" by force
    have os: "outs s s2 (plan wt (w_fp w) f [rec])"
      using outs_trans[OF oo(1) write_text_outs[OF assms(1) w]] by (simp add: pl)
    note os2 = outs_trans_quiet[OF os outs_wto]
    have g: "\<forall>g. w_fp w = Some g \<longrightarrow> f = g" using oo(2) Some by blast
    have "outs s t (plan wt (w_fp w) f [rec])" "w' = w\<lparr>w_fp := Some f\<rparr>" "e = None \<or> e = Some msg"
      using assms(2) o Some w os os2 by (auto simp: w_record_def write_record_open_def split: if_splits)
    with g show ?thesis
      by (cases e) (simp_all, blast+)
  qed
qed

section \<open>A body of text\<close>

abbreviation stream :: "'a session_scheme \<Rightarrow> byte list" where
  "stream s \<equiv> rx_stream 0 (hc_rx (ss_conn s))"

lemma recv_data_law:
  assumes "recv_data n s = (r, t)"
  shows "if n \<le> length (stream s) then r = Some (take n (stream s)) \<and> stream t = drop n (stream s)
    else r = None \<or> r = Some (stream s)"
    "\<exists>c. t = s\<lparr>ss_conn := c\<rparr>"
  using assms receive_raw_data_law[of "ss_conn s" n r "ss_conn t"]
  by (auto simp: recv_data_def split: prod.splits)

lemma recv_byte_law:
  assumes "recv_byte s = (r, t)"
  shows "case stream s of [] \<Rightarrow> r = None | c # cs \<Rightarrow> r = Some c \<and> stream t = cs" "\<exists>c. t = s\<lparr>ss_conn := c\<rparr>"
proof -
  obtain d t' where d: "recv_data 1 s = (d, t')" by force
  with assms have t: "t' = t" by (auto simp: recv_byte_def split: option.splits list.splits)
  from recv_data_law[OF d] assms d t
  show "case stream s of [] \<Rightarrow> r = None | c # cs \<Rightarrow> r = Some c \<and> stream t = cs" "\<exists>c. t = s\<lparr>ss_conn := c\<rparr>"
    by (auto simp: recv_byte_def split: list.splits)
qed

lemma outs_conn: "t = s\<lparr>ss_conn := c\<rparr> \<Longrightarrow> outs s t []"
  by (rule outs_refl) simp

lemma stream_writes: "writes_only s t \<Longrightarrow> stream t = stream s"
  by (simp add: writes_only_keeps)

lemma plan_append:
  "plan wt fp f (recs @ recs') = plan wt fp f recs @ plan wt (if recs = [] then fp else Some f) f recs'"
  by (auto simp: plan_def)

lemma plan_prefix: "prefix os (plan wt fp f recs) \<Longrightarrow> prefix os (plan wt fp f (recs @ recs'))"
  by (auto simp: plan_append intro: prefix_prefix)

lemma plan_prefix_behind:
  "prefix os (plan wt (if recs = [] then fp else Some f) f recs') \<Longrightarrow>
     prefix (plan wt fp f recs @ os) (plan wt fp f (recs @ recs'))"
  by (simp add: plan_append)

text \<open>
  What a stretch of the body does: \<open>recs\<close> are the records it completes.  Without an error they are all
  written; otherwise what was written is a beginning of that.
\<close>

definition stretch ::
  "write_target \<Rightarrow> writer \<Rightarrow> 'd dsession \<Rightarrow> byte list list \<Rightarrow> RECLINE \<Rightarrow> 'd loop_result \<Rightarrow> bool" where
  "stretch wt w s recs rl r \<longleftrightarrow>
     (case r of (e, w', t) \<Rightarrow>
        \<exists>f os. (\<forall>g. w_fp w = Some g \<longrightarrow> f = g) \<and> outs s t os \<and>
          (if e = None
           then os = plan wt (w_fp w) f recs \<and> w_fp w' = (if recs = [] then w_fp w else Some f) \<and> w_rl w' = rl
           else prefix os (plan wt (w_fp w) f recs)))"

lemma stretchI:
  assumes "\<forall>g. w_fp w = Some g \<longrightarrow> f = g" "outs s t os"
    "e = None \<Longrightarrow> os = plan wt (w_fp w) f recs \<and> w_fp w' = (if recs = [] then w_fp w else Some f) \<and> w_rl w' = rl"
    "e \<noteq> None \<Longrightarrow> prefix os (plan wt (w_fp w) f recs)"
  shows "stretch wt w s recs rl (e, w', t)"
  unfolding stretch_def prod.case
  by (intro exI[of _ f] exI[of _ os] conjI assms(1,2)) (use assms(3,4) in auto)

lemma stretchE:
  assumes "stretch wt w s recs rl (e, w', t)"
  obtains f os where "\<forall>g. w_fp w = Some g \<longrightarrow> f = g" "outs s t os"
    "e = None \<longrightarrow> os = plan wt (w_fp w) f recs \<and> w_fp w' = (if recs = [] then w_fp w else Some f) \<and> w_rl w' = rl"
    "e \<noteq> None \<longrightarrow> prefix os (plan wt (w_fp w) f recs)"
  using assms unfolding stretch_def prod.case by (elim exE conjE) (metis (full_types))

lemma stretch_refl: "rs_calls t = rs_calls s \<Longrightarrow> stretch wt w s [] (w_rl w) (None, w, t)"
  by (rule stretchI[where f = "the (w_fp w)" and os = "[]"]) (simp_all add: plan_def outs_refl)

lemma stretch_error: "rs_calls t = rs_calls s \<Longrightarrow> stretch wt w s recs rl (Some e, w', t)"
  by (rule stretchI[where f = "the (w_fp w)" and os = "[]"]) (simp_all add: outs_refl)

lemma stretch_error_more: "stretch wt w s recs rl (Some e, w', t) \<Longrightarrow> stretch wt w s (recs @ recs') rl' (Some e, w', t)"
  by (erule stretchE) (rule stretchI, auto intro: plan_prefix)

lemma stretch_trans:
  assumes "stretch wt w s recs rl (None, w1, t)" "stretch wt w1 t recs' rl' r"
  shows "stretch wt w s (recs @ recs') rl' r"
proof -
  obtain e w' v where r: "r = (e, w', v)" by (metis prod_cases3)
  from assms(1) obtain f where f: "\<forall>g. w_fp w = Some g \<longrightarrow> f = g" "outs s t (plan wt (w_fp w) f recs)"
    "w_fp w1 = (if recs = [] then w_fp w else Some f)" by (rule stretchE) simp
  from assms(2) obtain f' os where f': "\<forall>g. w_fp w1 = Some g \<longrightarrow> f' = g" "outs t v os"
    "e = None \<longrightarrow> os = plan wt (w_fp w1) f' recs' \<and> w_fp w' = (if recs' = [] then w_fp w1 else Some f') \<and> w_rl w' = rl'"
    "e \<noteq> None \<longrightarrow> prefix os (plan wt (w_fp w1) f' recs')"
    unfolding r by (rule stretchE) blast
  have k: "plan wt (w_fp w) f recs = plan wt (w_fp w) f' recs" "\<forall>g. w_fp w = Some g \<longrightarrow> f' = g"
    using f f' by (cases "recs = []"; auto simp: plan_def)+
  have fp: "w_fp w1 = (if recs = [] then w_fp w else Some f')"
    using f(3) f'(1) by (cases "recs = []") auto
  show ?thesis unfolding r
  proof (rule stretchI[OF k(2)])
    show "outs s v (plan wt (w_fp w) f' recs @ os)" using outs_trans f(2) f'(2) k(1) by metis
  next
    assume "e = None"
    with f'(3) fp show "plan wt (w_fp w) f' recs @ os = plan wt (w_fp w) f' (recs @ recs') \<and>
        w_fp w' = (if recs @ recs' = [] then w_fp w else Some f') \<and> w_rl w' = rl'"
      by (auto simp: plan_append)
  next
    assume "e \<noteq> None"
    with f'(4) fp show "prefix (plan wt (w_fp w) f' recs @ os) (plan wt (w_fp w) f' (recs @ recs'))"
      by (intro plan_prefix_behind) simp
  qed
qed

lemma stretch_record:
  assumes "out_mode wt" "w_record env wt msg rec w s = (e, w', t)"
  shows "stretch wt w s [rec] (w_rl w) (e, w', t)"
proof (cases e)
  case None
  with w_record_outs[OF assms] obtain f where "w' = w\<lparr>w_fp := Some f\<rparr>" "\<forall>g. w_fp w = Some g \<longrightarrow> f = g"
    "outs s t (plan wt (w_fp w) f [rec])" by auto
  then show ?thesis using None by (intro stretchI) auto
next
  case (Some m)
  with w_record_outs[OF assms] obtain f os where "\<forall>g. w_fp w = Some g \<longrightarrow> f = g" "outs s t os"
    "prefix os (plan wt (w_fp w) f [rec])" by auto
  then show ?thesis using Some by (intro stretchI) auto
qed

lemma stretch_start:
  assumes "stretch wt (w\<lparr>w_rl := rl0\<rparr>) t recs rl r" "rs_calls t = rs_calls s"
  shows "stretch wt w s recs rl r"
proof -
  obtain e w' v where r: "r = (e, w', v)" by (metis prod_cases3)
  have "outs t v os \<Longrightarrow> outs s v os" for os using assms(2) by (simp add: outs_def)
  with assms(1) show ?thesis unfolding r by (elim stretchE) (rule stretchI, auto)
qed

text \<open>A stretch that the client sends in full is consumed, unless writing fails.\<close>

lemma text_data_stretch:
  assumes "out_mode wt" "text_data env wt msg n w s = (e, w', t)" "n \<le> length (stream s)"
    "recline_feed (w_rl w) (take n (stream s)) = (recs, rl)"
  shows "stretch wt w s recs rl (e, w', t) \<and> (e = None \<longrightarrow> stream t = drop n (stream s))"
  using assms
proof (induction n arbitrary: w s recs)
  case 0
  then show ?case using stretch_refl[of s s wt w] by auto
next
  case (Suc n)
  then obtain c cs where st: "stream s = c # cs" by (cases "stream s") auto
  obtain r s1 where r: "recv_byte s = (r, s1)" by force
  from recv_byte_law[OF r] st have s1: "r = Some c" "stream s1 = cs" "rs_calls s1 = rs_calls s" by auto
  obtain o' rl1 where p: "recline_put (w_rl w) c = (o', rl1)" by force
  let ?w = "w\<lparr>w_rl := rl1\<rparr>"
  obtain recs1 rl2 where fd: "recline_feed rl1 (take n cs) = (recs1, rl2)" by force
  with Suc.prems(4) st p have rr: "rl2 = rl" "recs = (case o' of None \<Rightarrow> recs1 | Some x \<Rightarrow> x # recs1)" by auto
  show ?case
  proof (cases o')
    case None
    with Suc.prems r s1 p have run: "text_data env wt msg n ?w s1 = (e, w', t)" by simp
    from Suc.IH[OF Suc.prems(1) run, of recs1] fd st Suc.prems(3) s1 rr None
    show ?thesis by (auto intro: stretch_start)
  next
    case (Some x)
    obtain e1 w1 s2 where w1: "w_record env wt ''Error writing record'' x ?w s1 = (e1, w1, s2)" by (metis prod_cases3)
    note sr = stretch_record[OF Suc.prems(1) w1]
    from w1 writes_only_w_record[of s1 env wt "''Error writing record''" x ?w] have s2: "stream s2 = cs"
      by (simp add: stream_writes s1)
    show ?thesis
    proof (cases e1)
      case None
      with sr have rl1: "w_rl w1 = rl1" by (auto elim: stretchE)
      from Suc.prems(2) r s1 p Some w1 None have run: "text_data env wt msg n w1 s2 = (e, w', t)" by simp
      from Suc.IH[OF Suc.prems(1) run, of recs1] fd st Suc.prems(3) s2 rl1 rr Some
      have ih: "stretch wt w1 s2 recs1 rl (e, w', t)" "e = None \<longrightarrow> stream t = drop n cs" by auto
      from stretch_trans[OF sr[unfolded None] ih(1)] have "stretch wt ?w s1 recs rl (e, w', t)" by (simp add: rr Some)
      with ih(2) st s1 show ?thesis by (auto intro: stretch_start)
    next
      case e1: (Some m)
      from Suc.prems(2) r s1 p Some w1 e1 have res: "(e, w', t) = (Some m, w1, s2)" by simp
      from stretch_error_more[OF sr[unfolded e1], of recs1 rl] have "stretch wt ?w s1 recs rl (Some m, w1, s2)"
        by (simp add: rr Some)
      with res s1 show ?thesis by (auto intro: stretch_start)
    qed
  qed
qed

lemma stretch_extend:
  assumes "stretch wt w s recs rl (e, w', t)" "rs_calls t' = rs_calls t"
  shows "stretch wt w s recs rl (e, w', t')"
proof -
  have "outs s t os \<Longrightarrow> outs s t' os" for os using assms(2) by (simp add: outs_def)
  with assms(1) show ?thesis by (elim stretchE) (rule stretchI, auto)
qed

definition last_record :: "byte list option \<Rightarrow> byte list list" where
  "last_record r = (case r of None \<Rightarrow> [] | Some x \<Rightarrow> [x])"

lemma final_record_stretch:
  assumes "out_mode wt" "final_record env wt w s = (e, w', t)" "recline_flush (w_rl w) = (r, rl)"
  shows "stretch wt w s (last_record r) rl (e, w', t) \<and> stream t = stream s"
proof (cases r)
  case None
  with assms have "e = None" "w' = w\<lparr>w_rl := rl\<rparr>" "t = s" by (auto simp: final_record_def out_mode_def)
  with None stretch_refl[of s s wt "w\<lparr>w_rl := rl\<rparr>"] show ?thesis
    by (auto simp: last_record_def intro: stretch_start)
next
  case (Some x)
  let ?w = "w\<lparr>w_rl := rl\<rparr>"
  from assms Some have r: "w_record env wt ''Error writing final record'' x ?w s = (e, w', t)"
    by (simp add: final_record_def out_mode_def)
  from stretch_record[OF assms(1) r] have "stretch wt w s (last_record r) rl (e, w', t)"
    using Some by (auto simp: last_record_def intro: stretch_start)
  moreover have "writes_only s t"
    using writes_only_w_record[of s env wt "''Error writing final record''" x ?w] r by simp
  then have "stream t = stream s" by (rule stream_writes)
  ultimately show ?thesis by simp
qed

section \<open>Chunks\<close>

definition size_text :: "'d ds_env \<Rightarrow> byte list \<Rightarrow> cstr" where
  "size_text env line = ds_host env (takeWhile (\<lambda>b. b \<noteq> 0) line)"

lemma size_line_stream:
  assumes "CR \<notin> set h" "length h < n" "stream s = h @ CR # x # rest"
  shows "\<exists>c. size_line n acc s = (Some (acc @ h), s\<lparr>ss_conn := c\<rparr>) \<and> rx_stream 0 (hc_rx c) = rest"
  using assms
proof (induction h arbitrary: n acc s)
  case Nil
  then obtain k where n: "n = Suc k" by (cases n) auto
  obtain r1 s1 where r1: "recv_byte s = (r1, s1)" by force
  from recv_byte_law[OF r1] Nil obtain c1 where s1: "r1 = Some CR" "stream s1 = x # rest" "s1 = s\<lparr>ss_conn := c1\<rparr>" by auto
  obtain r2 s2 where r2: "recv_byte s1 = (r2, s2)" by force
  from recv_byte_law[OF r2] s1 obtain c2 where "stream s2 = rest" "s2 = s\<lparr>ss_conn := c2\<rparr>" by auto
  with n r1 s1 r2 show ?case by (auto simp: CR_def)
next
  case (Cons b h)
  then obtain k where n: "n = Suc k" "length h < k" by (cases n) auto
  obtain r1 s1 where r1: "recv_byte s = (r1, s1)" by force
  from recv_byte_law[OF r1] Cons.prems obtain c1 where
    s1: "r1 = Some b" "stream s1 = h @ CR # x # rest" "s1 = s\<lparr>ss_conn := c1\<rparr>" by auto
  from Cons.IH[of k s1 "acc @ [b]"] Cons.prems(1) n(2) s1(2) s1(3) obtain c where
    "size_line k (acc @ [b]) s1 = (Some (acc @ [b] @ h), s\<lparr>ss_conn := c\<rparr>)" "rx_stream 0 (hc_rx c) = rest" by auto
  with n(1) r1 s1(1) Cons.prems(1) show ?case by (auto simp: CR_def)
qed

lemma recv_data_conn:
  assumes "stream s = d @ rest" "length d = n"
  shows "\<exists>c. recv_data n s = (Some d, s\<lparr>ss_conn := c\<rparr>) \<and> rx_stream 0 (hc_rx c) = rest"
proof -
  obtain r t where r: "recv_data n s = (r, t)" by force
  from recv_data_law[OF r] assms r show ?thesis by auto
qed

lemma chunk_header_line:
  assumes "chunk_header (size_text env) h n" "stream s = h @ CRLF @ rest"
  shows "\<exists>c. size_line (CHUNK_SIZE_STR - 1) [] s = (Some h, s\<lparr>ss_conn := c\<rparr>) \<and> rx_stream 0 (hc_rx c) = rest"
    "chunk_size env h = n"
proof -
  have "CR \<notin> set h" "length h < CHUNK_SIZE_STR - 1" "stream s = h @ CR # 0x0A # rest"
    using assms by (auto simp: chunk_header_def CHUNK_SIZE_STR_def CHUNK_LINE_MAX_def CRLF_def)
  from size_line_stream[OF this, of "[]"]
  show "\<exists>c. size_line (CHUNK_SIZE_STR - 1) [] s = (Some h, s\<lparr>ss_conn := c\<rparr>) \<and> rx_stream 0 (hc_rx c) = rest" by simp
  show "chunk_size env h = n" using assms(1) by (simp add: chunk_header_def chunk_size_def size_text_def)
qed

lemma last_chunk_stretch:
  assumes "out_mode wt" "last_chunk env wt w s = (e, w', t)" "recline_flush (w_rl w) = (r, rl)"
    "stream s = CRLF @ rest"
  shows "stretch wt w s (last_record r) rl (e, w', t)"
proof -
  obtain e1 w1 s1 where f: "final_record env wt w s = (e1, w1, s1)" by (metis prod_cases3)
  note fs = final_record_stretch[OF assms(1) f assms(3)]
  show ?thesis
  proof (cases e1)
    case (Some m)
    with assms(2) f fs show ?thesis by (simp add: last_chunk_def)
  next
    case None
    from fs assms(4) have "stream s1 = [CR, 0x0A] @ rest" by (simp add: CRLF_def)
    from recv_data_conn[OF this, of 2] obtain c where "recv_data 2 s1 = (Some [CR, 0x0A], s1\<lparr>ss_conn := c\<rparr>)" by auto
    with assms(2) f None have "e = None" "w' = w1" "t = s1\<lparr>ss_conn := c\<rparr>" by (auto simp: last_chunk_def CR_def)
    with fs None show ?thesis by (auto intro: stretch_extend)
  qed
qed

lemma chunk_loop_stretch:
  assumes "out_mode wt" "chunk_loop env wt w s = (e, w', t)" "stream s = wire_chunks cs h0 @ rest"
    "chunks_ok (size_text env) cs h0" "recline_feed (w_rl w) (concat (map snd cs)) = (recs, rl1)"
    "recline_flush rl1 = (r, rl)"
  shows "stretch wt w s (recs @ last_record r) rl (e, w', t)"
  using assms
proof (induction cs arbitrary: w s recs)
  case Nil
  then have hd: "chunk_header (size_text env) h0 0" and st: "stream s = h0 @ CRLF @ CRLF @ rest"
    by (auto simp: chunks_ok_def)
  from chunk_header_line[OF hd st] obtain c where
    sl: "size_line (CHUNK_SIZE_STR - 1) [] s = (Some h0, s\<lparr>ss_conn := c\<rparr>)" "rx_stream 0 (hc_rx c) = CRLF @ rest"
    "chunk_size env h0 = 0" by auto
  let ?s = "s\<lparr>ss_conn := c\<rparr>"
  from Nil.prems(2) sl have lc: "last_chunk env wt w ?s = (e, w', t)" by (subst (asm) chunk_loop.simps) simp
  from Nil.prems(5) have "recs = []" "rl1 = w_rl w" by auto
  with last_chunk_stretch[OF assms(1) lc, of r rl rest] Nil.prems(6) sl(2)
  have "stretch wt (w\<lparr>w_rl := w_rl w\<rparr>) ?s (recs @ last_record r) rl (e, w', t)" by simp
  then show ?case by (rule stretch_start) simp
next
  case (Cons hd cs)
  obtain h d where hd: "hd = (h, d)" by force
  with Cons.prems have ch: "chunk_header (size_text env) h (length d)" "d \<noteq> []" and ok: "chunks_ok (size_text env) cs h0"
    by (auto simp: chunks_ok_def)
  have st: "stream s = h @ CRLF @ d @ CRLF @ wire_chunks cs h0 @ rest" using Cons.prems(3) hd by simp
  from chunk_header_line[OF ch(1) st] obtain c where
    sl: "size_line (CHUNK_SIZE_STR - 1) [] s = (Some h, s\<lparr>ss_conn := c\<rparr>)"
    "rx_stream 0 (hc_rx c) = d @ CRLF @ wire_chunks cs h0 @ rest" "chunk_size env h = length d" by auto
  let ?s = "s\<lparr>ss_conn := c\<rparr>"
  obtain recs1 rl2 where f1: "recline_feed (w_rl w) d = (recs1, rl2)" by force
  obtain recs2 rl3 where f2: "recline_feed rl2 (concat (map snd cs)) = (recs2, rl3)" by force
  from Cons.prems(5) hd f1 f2 have recs: "recs = recs1 @ recs2" "rl3 = rl1" by (auto simp: recline_feed_append)
  obtain e1 w1 s1 where b: "text_data env wt ''Error reading chunk data'' (length d) w ?s = (e1, w1, s1)" by (metis prod_cases3)
  have b': "body_data env wt ''Error reading chunk data'' (length d) w ?s = (e1, w1, s1)"
    using b assms(1) by (simp add: body_data_def out_mode_def)
  from text_data_stretch[OF assms(1) b, of recs1 rl2] sl(2) f1
  have sr: "stretch wt w ?s recs1 rl2 (e1, w1, s1)" "e1 = None \<longrightarrow> stream s1 = CRLF @ wire_chunks cs h0 @ rest" by auto
  show ?case
  proof (cases e1)
    case (Some m)
    from Cons.prems(2) sl ch(2) b' Some have "(e, w', t) = (Some m, w1, s1)"
      by (subst (asm) chunk_loop.simps) simp
    with stretch_error_more[OF sr(1)[unfolded Some], of "recs2 @ last_record r" rl]
    have "stretch wt (w\<lparr>w_rl := w_rl w\<rparr>) ?s (recs @ last_record r) rl (e, w', t)" by (simp add: recs)
    then show ?thesis by (rule stretch_start) simp
  next
    case None
    with sr(2) have "stream s1 = [CR, 0x0A] @ wire_chunks cs h0 @ rest" by (simp add: CRLF_def)
    from recv_data_conn[OF this, of 2] obtain c2 where
      t2: "recv_data 2 s1 = (Some [CR, 0x0A], s1\<lparr>ss_conn := c2\<rparr>)" "rx_stream 0 (hc_rx c2) = wire_chunks cs h0 @ rest" by auto
    let ?s2 = "s1\<lparr>ss_conn := c2\<rparr>"
    from Cons.prems(2) sl ch(2) b' None t2 have run: "chunk_loop env wt w1 ?s2 = (e, w', t)"
      by (subst (asm) chunk_loop.simps) simp
    from sr(1) None have rl: "w_rl w1 = rl2" by (auto elim: stretchE)
    from Cons.IH[OF assms(1) run, of recs2] t2(2) ok f2 rl recs(2) Cons.prems(6)
    have "stretch wt w1 ?s2 (recs2 @ last_record r) rl (e, w', t)" by simp
    moreover from sr(1) None have "stretch wt w ?s recs1 rl2 (None, w1, ?s2)" by (auto intro: stretch_extend)
    ultimately have "stretch wt (w\<lparr>w_rl := w_rl w\<rparr>) ?s (recs @ last_record r) rl (e, w', t)"
      using stretch_trans[of wt w ?s recs1 rl2 w1 ?s2 "recs2 @ last_record r" rl "(e, w', t)"] by (simp add: recs)
    then show ?thesis by (rule stretch_start) simp
  qed
qed

section \<open>Whole bodies\<close>

text \<open>The client sends \<open>body\<close> in the framing its headers announce.\<close>

definition sent_body :: "'d ds_env \<Rightarrow> bool \<times> nat option \<Rightarrow> byte list \<Rightarrow> byte list \<Rightarrow> bool" where
  "sent_body env framing st body \<longleftrightarrow>
     (if fst framing
      then \<exists>cs h0 rest. st = wire_chunks cs h0 @ rest \<and> chunks_ok (size_text env) cs h0 \<and> body = concat (map snd cs)
      else \<exists>n. snd framing = Some n \<and> n \<le> length st \<and> body = take n st)"

lemma put_body_text:
  assumes "out_mode wt" "0 < wt_content_max wt" "put_body env wt framing fp s = (e, w', t)"
    "sent_body env framing (stream s) body"
  shows "\<exists>rl. stretch wt (start_writer fp (wt_content_max wt)) s (map (stored_line (wt_content_max wt)) (body_lines body)) rl (e, w', t) \<and>
    rl_truncated rl = (\<exists>l \<in> set (body_lines body). wt_content_max wt < length l)"
proof -
  let ?m = "wt_content_max wt" and ?w = "start_writer fp (wt_content_max wt)"
  obtain recs rl1 where f: "recline_feed (recline_init ?m) body = (recs, rl1)" by force
  obtain r rl where l: "recline_flush rl1 = (r, rl)" by force
  have "recline_init ?m = rl_state ?m [] False False" by (simp add: recline_init_def rl_state_def)
  with recline_feed_lines[OF assms(2), of False "[]" False body] f l
  have lines: "recs @ last_record r = map (stored_line ?m) (body_lines body)"
    "rl_truncated rl1 = (\<exists>l \<in> set (body_lines body). ?m < length l)"
    by (auto simp: finish_def body_lines_def last_record_def)
  from l have tr: "rl_truncated rl = rl_truncated rl1" by (auto simp: recline_flush_def split: if_splits)
  have rl0: "w_rl ?w = recline_init ?m" by (simp add: start_writer_def)
  have "stretch wt ?w s (recs @ last_record r) rl (e, w', t)"
  proof (cases "fst framing")
    case True
    with assms(4) obtain cs h0 rest where c: "stream s = wire_chunks cs h0 @ rest" "chunks_ok (size_text env) cs h0"
      "body = concat (map snd cs)" by (auto simp: sent_body_def)
    from assms(3) True have "chunk_loop env wt ?w s = (e, w', t)" by (simp add: put_body_def)
    from chunk_loop_stretch[OF assms(1) this c(1,2)] f l c(3) rl0 show ?thesis by simp
  next
    case False
    with assms(4) obtain n where n: "snd framing = Some n" "n \<le> length (stream s)" "body = take n (stream s)"
      by (auto simp: sent_body_def)
    obtain e1 w1 s1 where b: "text_data env wt ''Error reading data'' n ?w s = (e1, w1, s1)" by (metis prod_cases3)
    from text_data_stretch[OF assms(1) b n(2), of recs rl1] f n(3) rl0
    have sr: "stretch wt ?w s recs rl1 (e1, w1, s1)" by simp
    show ?thesis
    proof (cases e1)
      case (Some x)
      from assms(1,3) False n(1) b Some have "(e, w', t) = (Some x, w1, s1)"
        by (simp add: put_body_def length_body_def body_data_def out_mode_def)
      with stretch_error_more[OF sr[unfolded Some]] show ?thesis by simp
    next
      case None
      from assms(1,3) False n(1) b None have fr: "final_record env wt w1 s1 = (e, w', t)"
        by (simp add: put_body_def length_body_def body_data_def out_mode_def)
      from sr None have "w_rl w1 = rl1" by (auto elim: stretchE)
      with final_record_stretch[OF assms(1) fr, of r rl] l have "stretch wt w1 s1 (last_record r) rl (e, w', t)" by simp
      from stretch_trans[OF sr[unfolded None] this] show ?thesis .
    qed
  qed
  with lines tr show ?thesis by auto
qed

section \<open>What the checks leave alone\<close>

text \<open>No output and no answer; no output and an answer that is not a success.\<close>

definition ds_quiet :: "'d dsession \<Rightarrow> 'd dsession \<Rightarrow> bool" where
  "ds_quiet s t \<longleftrightarrow> writes_only s t \<and> outs s t []"

definition ds_refused :: "'d dsession \<Rightarrow> 'd dsession \<Rightarrow> bool" where
  "ds_refused s t \<longleftrightarrow> outs s t [] \<and> 204 \<notin> statuses s t \<and> 200 \<notin> statuses s t"

lemma ds_quiet_refl: "ds_quiet s s"
  by (simp add: ds_quiet_def outs_refl)

lemma ds_quiet_trans: "ds_quiet s t \<Longrightarrow> ds_quiet t v \<Longrightarrow> ds_quiet s v"
  unfolding ds_quiet_def by (blast intro: writes_only_trans outs_quiet_trans)

lemma ds_quiet_keeps:
  assumes "ds_quiet s t"
  shows "stream t = stream s" "ss_out t = ss_out s" "ss_env t = ss_env s" "outs s t []"
  using assms stream_writes[of s t] writes_only_keeps(2,4)[of s t] by (auto simp: ds_quiet_def)

lemma ds_quiet_steps:
  "ds_quiet s (snd (on_ds f s))"
  "mode \<noteq> ''w'' \<Longrightarrow> mode \<noteq> ''wb'' \<Longrightarrow> ds_quiet s (snd (ds_fopen env name mode s))"
  "ds_quiet s (snd (ds_fclose env fp s))"
  "ds_quiet s (snd (ds_session_fclose env o' s))"
  "ds_quiet s (snd (session_register_file s o'))"
  "ds_quiet s (do_call (Wto m) s)"
  using outs_open[of s env name mode]
  by (simp_all add: ds_quiet_def writes_only_ds writes_only_calls writes_only_close writes_only_register
      outs_on_ds outs_fclose outs_session_fclose outs_register outs_wto)

lemma answers_outs: "answers s t \<Longrightarrow> outs s t []"
  by (auto simp: answers_def outs_def)

lemma ds_refused_report:
  "n \<notin> {200, 204} \<Longrightarrow> ds_refused s (snd (sendErrorResponse srv n category rc reason message details s))"
  using status_only_statuses[OF status_report[of n s srv category rc reason message details]]
  by (auto simp: ds_refused_def answers_outs answers_report)

lemma refused_errors:
  "ds_refused s (snd (handle_error srv code message s))"
  "n \<notin> {200, 204} \<Longrightarrow> ds_refused s (snd (service_error srv n reason text s))"
  "ds_refused s (snd (send_not_authorized srv what s))"
  "ds_refused s (snd (send_bad_encoding srv v s))"
  by (simp_all add: handle_error_def service_error_def send_not_authorized_def send_bad_encoding_def ds_refused_report
      HTTP_STATUS_BAD_REQUEST_def HTTP_STATUS_INTERNAL_SERVER_ERROR_def)

lemma quiet_refused:
  assumes "ds_quiet s t" "ds_refused t v" shows "ds_refused s v"
  using assms(2) statuses_out[OF ds_quiet_keeps(2)[OF assms(1)], of v]
    outs_quiet_trans[OF ds_quiet_keeps(4)[OF assms(1)], of v "[]"]
  by (simp add: ds_refused_def)

text \<open>What both gates let through.\<close>

definition admitted :: "'d ds_env \<Rightarrow> cstr \<Rightarrow> racf_attr \<Rightarrow> 'd dsession \<Rightarrow> bool" where
  "admitted env dsname attr s \<longleftrightarrow>
     de_check_auth env ''DATASET'' dsname attr = 0 \<and>
     (case ss_env s ''HTTP_volume-serial'' of
        None \<Rightarrow> True
      | Some v \<Rightarrow>
          let vol = de_locate env (dsn44 dsname) (us_ds s)
          in volser_verdict (Some v) (vol \<noteq> None) vol = VOLSER_ON_VOLUME)"

lemma gates_cases:
  assumes "gates srv env dsname attr s = (ok, t)"
  shows "if ok then t = s \<and> admitted env dsname attr s else ds_refused s t"
proof -
  have r: "ds_refused s (snd (sendErrorResponse srv HTTP_STATUS_UNAUTHORIZED c rc re m d s))" for c rc re m d
    by (simp add: ds_refused_report HTTP_STATUS_UNAUTHORIZED_def)
  have n: "ds_refused s (snd (service_error srv HTTP_STATUS_NOT_FOUND re m s))" for re m
    by (simp add: refused_errors HTTP_STATUS_NOT_FOUND_def)
  show ?thesis
    using assms r n refused_errors(1,3)
    by (auto simp: gates_def require_access_def volume_gate_def admitted_def Let_def
        split: if_splits option.splits volser_answer.splits)
qed

lemma etag_loop_quiet: "ds_etag_loop env fp l b n ctx s = Some r \<Longrightarrow> ds_quiet s (snd r)"
proof (rule ds_etag_loop.raw_induct[where P = "\<lambda>env fp l b n ctx s r. ds_quiet s (snd r)"], goal_cases)
  case (1 loop env fp l b n ctx s r)
  obtain buf u where u: "ds_fread env fp l s = (buf, u)" by force
  with ds_quiet_steps(1)[of s "de_fread env fp l"] have q: "ds_quiet s u" by (simp add: ds_fread_def)
  from 1(3) u q 1(2)[of env fp l b "n + 1" "etag_update ctx buf" u r] show ?case
    by (auto split: if_splits intro: ds_quiet_trans)
qed simp

lemma dataset_etag_quiet: "dataset_etag srv env name b s = Some (r, t) \<Longrightarrow> ds_quiet s t"
proof -
  assume e: "dataset_etag srv env name b s = Some (r, t)"
  obtain o' s1 where o: "ds_fopen env name ''rb'' s = (o', s1)" by force
  with ds_quiet_steps(2)[of "''rb''" s env name] have q: "ds_quiet s s1" by simp
  show ?thesis
  proof (cases o')
    case None
    with e o q show ?thesis by (auto simp: dataset_etag_def)
  next
    case (Some fp)
    let ?s2 = "snd (session_register_file s1 (Some fp))"
    have q2: "ds_quiet s ?s2" using q ds_quiet_steps(5) by (rule ds_quiet_trans)
    have c: "ds_quiet s (snd (ds_session_fclose env x u))" if "ds_quiet s u" for x u
      using that ds_quiet_steps(4) by (rule ds_quiet_trans)
    have l: "ds_etag_loop env fp n b 0 etag_init ?s2 = Some (ctx, u) \<Longrightarrow> ds_quiet s u" for n ctx u
      using ds_quiet_trans[OF q2] etag_loop_quiet by fastforce
    from e o Some q2 c l show ?thesis
      by (auto simp: dataset_etag_def Let_def split: if_splits option.splits)
  qed
qed

text \<open>The precondition: without the header, or with the stamp the header names.\<close>

definition match_holds :: "httpd \<Rightarrow> 'd ds_env \<Rightarrow> cstr \<Rightarrow> int \<Rightarrow> 'd dsession \<Rightarrow> bool" where
  "match_holds srv env name bound s \<longleftrightarrow>
     (case getHeaderParam s ''If-Match'' of
        None \<Rightarrow> True
      | Some if_match \<Rightarrow>
          (case dataset_etag srv env name bound s of
             Some (Some tag, _) \<Rightarrow> etag_matches (Some if_match) tag | _ \<Rightarrow> False))"

lemma ds_match_cases:
  assumes "check_if_match srv env name bound s = Some (ok, t)"
  shows "if ok then ds_quiet s t \<and> match_holds srv env name bound s else ds_refused s t"
proof (cases "getHeaderParam s ''If-Match''")
  case None
  with assms show ?thesis by (simp add: check_if_match_def match_holds_def ds_quiet_refl)
next
  case (Some im)
  with assms obtain e u where e: "dataset_etag srv env name bound s = Some (e, u)"
    by (auto simp: check_if_match_def Let_def split: option.splits)
  note q = dataset_etag_quiet[OF e]
  have "ds_refused s (snd (service_error srv HTTP_STATUS_PRECONDITION_FAILED re m u))" for re m
    using q refused_errors(2) by (rule quiet_refused) (simp add: HTTP_STATUS_PRECONDITION_FAILED_def)
  with assms Some e q show ?thesis
    by (auto simp: check_if_match_def match_holds_def Let_def split: option.splits if_splits)
qed

lemma put_answer_outs: "put_answer srv env name bound s = Some (rc, t) \<Longrightarrow> outs s t []"
proof -
  have h: "outs v (snd (put_headers srv etag v)) []" for etag v
  proof -
    have "answers (v\<lparr>ss_headers_sent := True\<rparr>) (snd (put_headers srv etag v))"
      unfolding put_headers_def send_common_headers_def etag_line_def
      by (intro answers_then answers_lines answers_parts)
        (auto simp: answers_refl split: option.splits intro: answers_lines answers_parts)
    then show ?thesis by (auto simp: answers_def outs_def)
  qed
  assume a: "put_answer srv env name bound s = Some (rc, t)"
  show ?thesis
  proof (cases "etag_requested (getHeaderParam s ''X-IBM-Return-Etag'')")
    case True
    with a obtain e u where e: "dataset_etag srv env name (bound (us_ds s)) s = Some (e, u)" "put_headers srv e u = (rc, t)"
      by (auto simp: put_answer_def split: option.splits)
    with h[of u e] show ?thesis
      using outs_quiet_trans[OF ds_quiet_keeps(4)[OF dataset_etag_quiet[OF e(1)]]] by simp
  next
    case False
    with a h[of s None] show ?thesis by (simp add: put_answer_def)
  qed
qed

section \<open>A whole upload of text\<close>

text \<open>The output that stores \<open>lines\<close>: the open and a write for each line.\<close>

definition stored :: "HTTPCP \<Rightarrow> cstr \<Rightarrow> nat \<Rightarrow> nat \<Rightarrow> byte list list \<Rightarrow> os_call list" where
  "stored cp name f m lines =
     DsOpen name ''w'' # map (\<lambda>l. DsWrite f (map (cp_atoe cp) (stored_line m l))) lines"

text \<open>What is left of it when the target is open already.\<close>

definition todo :: "nat option \<Rightarrow> os_call list \<Rightarrow> os_call list" where
  "todo fp os = (if fp = None then os else drop 1 os)"

text \<open>What is output is a beginning of \<open>stored\<close>, and all of it behind a success; no line is too long then.\<close>

definition stores :: "nat option \<Rightarrow> HTTPCP \<Rightarrow> cstr \<Rightarrow> byte list list \<Rightarrow> 'd dsession \<Rightarrow> 'd dsession \<Rightarrow> bool" where
  "stores fp cp name lines s t \<longleftrightarrow>
     (\<exists>m f os. 0 < m \<and> outs s t os \<and> prefix os (todo fp (stored cp name f m lines)) \<and>
        (204 \<in> statuses s t \<longrightarrow> os = todo fp (stored cp name f m lines) \<and> (\<forall>l \<in> set lines. length l \<le> m)))"

lemma storesI:
  assumes "0 < m" "outs s t os" "prefix os (todo fp (stored cp name f m lines))"
    "204 \<in> statuses s t \<Longrightarrow> os = todo fp (stored cp name f m lines) \<and> (\<forall>l \<in> set lines. length l \<le> m)"
  shows "stores fp cp name lines s t"
  unfolding stores_def using assms by blast

lemma quiet_stores:
  assumes "ds_quiet s t" "stores fp cp name lines t v"
  shows "stores fp cp name lines s v"
  using assms outs_quiet_trans[OF ds_quiet_keeps(4)[OF assms(1)]] statuses_out[OF ds_quiet_keeps(2)[OF assms(1)], of v]
  unfolding stores_def by metis

lemma refused_stores: "ds_refused s t \<Longrightarrow> stores fp cp name lines s t"
  by (rule storesI[where m = 1 and os = "[]" and f = 0]) (auto simp: ds_refused_def)

lemma open_stores:
  assumes "outs s t [DsOpen name ''w'']" "ss_out t = ss_out s" "stores (Some g) cp name lines t v"
  shows "stores None cp name lines s v"
proof -
  from assms(3) obtain m f os where m: "0 < m" "outs t v os" "prefix os (drop 1 (stored cp name f m lines))"
    "204 \<in> statuses t v \<longrightarrow> os = drop 1 (stored cp name f m lines) \<and> (\<forall>l \<in> set lines. length l \<le> m)"
    by (auto simp: stores_def todo_def)
  have o: "outs s v (DsOpen name ''w'' # os)" using outs_trans[OF assms(1) m(2)] by simp
  show ?thesis
    by (rule storesI[OF m(1) o, where f = f])
      (use m(3,4) statuses_out[OF assms(2), of v] in \<open>auto simp: stored_def todo_def\<close>)
qed

lemma plan_stored:
  assumes "out_mode wt" "0 < wt_content_max wt"
  shows "(if fp = None \<and> lines = [] then [DsOpen (wt_name wt) (wt_mode wt)] else []) @
      plan wt fp f (map (stored_line (wt_content_max wt)) lines) =
    todo fp (stored (wt_cp wt) (wt_name wt) f (wt_content_max wt) lines)"
proof -
  have "record_bytes wt (stored_line (wt_content_max wt) l) = map (cp_atoe (wt_cp wt)) (stored_line (wt_content_max wt) l)" for l
    using stored_line_length[OF assms(2), of l] by (auto simp: record_bytes_def)
  with assms(1) show ?thesis by (auto simp: plan_def stored_def todo_def out_mode_def)
qed

lemma close_quiet:
  assumes "close_write_target env fp name s = (rc, t)" shows "ds_quiet s t"
proof -
  obtain rc1 u where c: "ds_session_fclose env fp s = (rc1, u)" by force
  with ds_quiet_steps(4)[of s env fp] have q: "ds_quiet s u" by simp
  from assms c q ds_quiet_trans[OF q ds_quiet_steps(6)] show ?thesis
    by (auto simp: close_write_target_def split: if_splits)
qed

lemma put_finish_outs:
  assumes "out_mode wt" "put_finish srv env wt bound open_failed w s = Some (rc, t)" "\<And>s. ds_refused s (snd (open_failed s))"
  shows "outs s t (if w_fp w = None then [DsOpen (wt_name wt) (wt_mode wt)] else [])"
    "204 \<in> statuses s t \<Longrightarrow> \<not> rl_truncated (w_rl w)"
proof -
  obtain r1 s1 where o: "open_write_target env (w_fp w) (wt_name wt) (wt_mode wt) s = (r1, s1)" by force
  note oo = open_target_outs(1)[OF assms(1) o]
  have "writes_only s s1" using writes_only_open[of s env "w_fp w" "wt_name wt" "wt_mode wt"] o by simp
  then have so: "ss_out s1 = ss_out s" by (rule writes_only_keeps)
  have "outs s1 t [] \<and> (204 \<in> statuses s1 t \<longrightarrow> \<not> rl_truncated (w_rl w))"
  proof (cases r1)
    case None
    with assms(2) o assms(3)[of s1] show ?thesis by (simp add: put_finish_def ds_refused_def)
  next
    case (Some fp)
    obtain rc1 s2 where c: "close_write_target env (Some fp) (wt_name wt) s1 = (rc1, s2)" by force
    note q = close_quiet[OF c]
    have e: "ds_refused s1 (snd (handle_error srv ERR_IO msg s2))" for msg
      using q refused_errors(1) by (rule quiet_refused)
    show ?thesis
    proof (cases "rc1 < 0 \<or> rl_truncated (w_rl w)")
      case True
      with assms(2) o Some c
      have "\<exists>msg. handle_error srv ERR_IO msg s2 = (rc, t)" by (cases "rc1 < 0") (auto simp: put_finish_def)
      then obtain msg where "handle_error srv ERR_IO msg s2 = (rc, t)" by blast
      with e[of msg] show ?thesis by (simp add: ds_refused_def)
    next
      case False
      with assms(2) o Some c have "put_answer srv env (wt_name wt) bound s2 = Some (rc, t)" by (simp add: put_finish_def)
      from outs_quiet_trans[OF ds_quiet_keeps(4)[OF q] put_answer_outs[OF this]] False show ?thesis by simp
    qed
  qed
  then show "outs s t (if w_fp w = None then [DsOpen (wt_name wt) (wt_mode wt)] else [])"
    "204 \<in> statuses s t \<Longrightarrow> \<not> rl_truncated (w_rl w)"
    using outs_trans_quiet[OF oo] statuses_out[OF so] by auto
qed

text \<open>Reading and storing the body answers nothing.\<close>

lemma recv_out:
  "ss_out (snd (recv_data n s)) = ss_out s" "ss_out (snd (recv_some n s)) = ss_out s" "ss_out (snd (recv_byte s)) = ss_out s"
  by (simp_all add: recv_data_def recv_some_def recv_byte_def split_beta split: option.splits list.splits)

lemma size_line_out: "ss_out (snd (size_line n acc s)) = ss_out s"
proof (induction n arbitrary: acc s)
  case (Suc n)
  obtain r t where r: "recv_byte s = (r, t)" by force
  with recv_out(3)[of s] recv_out(3)[of t] Suc[of _ t] show ?case by (auto split: option.splits)
qed simp

lemma w_record_out: "ss_out (snd (snd (w_record env wt msg data w s))) = ss_out s"
  using writes_only_w_record[of s env wt msg data w] by (rule writes_only_keeps)

lemma text_data_out: "ss_out (snd (snd (text_data env wt msg n w s))) = ss_out s"
proof (induction n arbitrary: w s)
  case (Suc n)
  obtain r t where r: "recv_byte s = (r, t)" by force
  with recv_out(3)[of s] have t: "ss_out t = ss_out s" by simp
  show ?case
  proof (cases r)
    case (Some c)
    obtain o' rl where p: "recline_put (w_rl w) c = (o', rl)" by force
    show ?thesis
    proof (cases o')
      case None
      with Suc[of "w\<lparr>w_rl := rl\<rparr>" t] r Some p t show ?thesis by simp
    next
      case s: (Some rec)
      obtain e w' v where v: "w_record env wt ''Error writing record'' rec (w\<lparr>w_rl := rl\<rparr>) t = (e, w', v)"
        by (metis prod_cases3)
      with w_record_out[of env wt "''Error writing record''" rec "w\<lparr>w_rl := rl\<rparr>" t] have "ss_out v = ss_out t" by simp
      with Suc[of w' v] r Some p s v t show ?thesis by (cases e) simp_all
    qed
  qed (use r t in simp)
qed simp

lemma binary_data_out: "ss_out (snd (snd (binary_data env wt msg n w s))) = ss_out s"
proof (induction env wt msg n w s rule: binary_data.induct)
  case (1 env wt msg n w s)
  let ?m = "min n (wt_piece wt - length (w_buf w))"
  obtain r t where r: "recv_some ?m s = (r, t)" by force
  with recv_out(2)[of ?m s] have t: "ss_out t = ss_out s" by simp
  note simps = binary_data.simps[of env wt msg n w s]
  show ?case
  proof (cases "n = 0 \<or> r = None \<or> r = Some []")
    case True
    with r t show ?thesis by (auto simp: simps)
  next
    case False
    then obtain b bs where b: "r = Some (b # bs)" "n \<noteq> 0" by (cases r) (auto simp: neq_Nil_conv)
    let ?w = "w\<lparr>w_buf := w_buf w @ b # bs\<rparr>"
    note ih = "1.IH"[OF b(2) r[symmetric] b(1) refl refl refl]
    obtain e w' v where v: "w_record env wt ''Error writing record'' (w_buf ?w) ?w t = (e, w', v)"
      by (metis prod_cases3)
    with w_record_out[of env wt "''Error writing record''" "w_buf ?w" ?w t] have v2: "ss_out v = ss_out t" by simp
    show ?thesis
      using ih v v2 r t b by (cases e; cases "length (w_buf ?w) \<ge> wt_piece wt") (auto simp: simps Let_def)
  qed
qed

lemma final_out:
  "ss_out (snd (snd (final_record env wt w s))) = ss_out s" "ss_out (snd (snd (body_data env wt msg n w s))) = ss_out s"
  by (auto simp: final_record_def body_data_def w_record_out binary_data_out text_data_out split: option.splits prod.splits)

lemma last_chunk_out: "ss_out (snd (snd (last_chunk env wt w s))) = ss_out s"
proof -
  obtain e w' t where f: "final_record env wt w s = (e, w', t)" by (metis prod_cases3)
  obtain r u where r: "recv_data 2 t = (r, u)" by force
  from f r final_out(1)[of env wt w s] recv_out(1)[of 2 t] show ?thesis
    by (auto simp: last_chunk_def split: option.splits list.splits)
qed

lemma chunk_loop_out: "ss_out (snd (snd (chunk_loop env wt w s))) = ss_out s"
proof (induction env wt w s rule: chunk_loop.induct)
  case (1 env wt w s)
  obtain r t where r: "size_line (CHUNK_SIZE_STR - 1) [] s = (r, t)" by force
  with size_line_out[of "CHUNK_SIZE_STR - 1" "[]" s] have t: "ss_out t = ss_out s" by simp
  note simps = chunk_loop.simps[of env wt w s]
  show ?case
  proof (cases r)
    case (Some line)
    obtain e w' u where u: "body_data env wt ''Error reading chunk data'' (chunk_size env line) w t = (e, w', u)"
      by (metis prod_cases3)
    with final_out(2)[of env wt "''Error reading chunk data''" "chunk_size env line" w t] have u2: "ss_out u = ss_out t" by simp
    obtain d v where v: "recv_data 2 u = (d, v)" by force
    with recv_out(1)[of 2 u] have v2: "ss_out v = ss_out u" by simp
    have l: "ss_out (snd (snd (last_chunk env wt w t))) = ss_out t" by (rule last_chunk_out)
    have ih: "ss_out (snd (snd (chunk_loop env wt w' v))) = ss_out v"
      if "chunk_size env line \<noteq> 0" "e = None" "d = Some [x, y]" for x y
      using "1.IH" r Some that u v by (metis)
    show ?thesis
      using r Some t u u2 v v2 l ih by (auto simp: simps split: option.splits list.splits)
  qed (use r t simps in simp)
qed

lemma put_body_out: "ss_out (snd (snd (put_body env wt framing fp s))) = ss_out s"
proof -
  have "ss_out (snd (snd (length_body env wt n w s))) = ss_out s" for n w
    using final_out(2)[of env wt "''Error reading data''" n w s]
    by (auto simp: length_body_def final_out(1) split: prod.splits option.splits)
  then show ?thesis by (simp add: put_body_def Let_def chunk_loop_out)
qed

lemma put_write_stores:
  assumes "out_mode wt" "put_write srv env wt framing bound open_failed fp s = Some (rc, t)"
    "sent_body env framing (stream s) body" "\<And>s. ds_refused s (snd (open_failed s))"
  shows "stores fp (wt_cp wt) (wt_name wt) (body_lines body) s t"
proof (cases "wt_piece wt = 0 \<or> wt_content_max wt = 0 \<or> \<not> hd_alloc srv (wt_piece wt)")
  case True
  let ?v = "snd (ds_session_fclose env fp s)"
  have r: "ds_refused s (snd (handle_error srv c m ?v))" for c m
    using ds_quiet_steps(4) refused_errors(1) by (rule quiet_refused)
  from True assms(2) have "\<exists>c m. handle_error srv c m ?v = (rc, t)"
    by (cases "wt_piece wt = 0 \<or> wt_content_max wt = 0") (auto simp: put_write_def)
  then obtain c m where "handle_error srv c m ?v = (rc, t)" by blast
  with r[of c m] show ?thesis by (intro refused_stores) simp
next
  case False
  let ?m = "wt_content_max wt" and ?lines = "body_lines body"
  let ?recs = "map (stored_line ?m) ?lines" and ?w = "start_writer fp ?m"
  have m: "0 < ?m" using False by simp
  obtain e w u where b: "put_body env wt framing fp s = (e, w, u)" by (metis prod_cases3)
  with put_body_out[of env wt framing fp s] have so: "ss_out u = ss_out s" by simp
  from put_body_text[OF assms(1) m b assms(3)] obtain rl where
    st: "stretch wt ?w s ?recs rl (e, w, u)" "rl_truncated rl = (\<exists>l \<in> set ?lines. ?m < length l)" by blast
  have w0: "w_fp ?w = fp" by (simp add: start_writer_def)
  from st(1) obtain f os where os0: "outs s u os"
    "e = None \<longrightarrow> os = plan wt (w_fp ?w) f ?recs \<and> w_fp w = (if ?recs = [] then w_fp ?w else Some f) \<and> w_rl w = rl"
    "e \<noteq> None \<longrightarrow> prefix os (plan wt (w_fp ?w) f ?recs)"
    by (rule stretchE) blast
  note os = os0[unfolded w0]
  let ?all = "todo fp (stored (wt_cp wt) (wt_name wt) f ?m ?lines)"
  have all: "?all = (if fp = None \<and> ?lines = [] then [DsOpen (wt_name wt) (wt_mode wt)] else []) @ plan wt fp f ?recs"
    using plan_stored[OF assms(1) m, of fp ?lines f] by simp
  have pre: "prefix (plan wt fp f ?recs) ?all"
    using all by (cases "fp = None \<and> ?lines = []") (auto simp: plan_def)
  show ?thesis
  proof (cases e)
    case (Some msg)
    let ?v = "snd (ds_session_fclose env (w_fp w) u)"
    from assms(2) False b Some have t: "t = snd (handle_error srv ERR_IO msg ?v)" by (simp add: put_write_def)
    have "ds_refused u t" unfolding t using ds_quiet_steps(4) refused_errors(1) by (rule quiet_refused)
    then have t': "outs s t os" "204 \<notin> statuses s t"
      using outs_trans_quiet[OF os(1)] statuses_out[OF so] by (auto simp: ds_refused_def)
    show ?thesis
      by (rule storesI[OF m t'(1), where f = f]) (use t'(2) os(3) Some pre in \<open>auto intro: prefix_order.trans\<close>)
  next
    case None
    from assms(2) False b None have pf: "put_finish srv env wt bound open_failed w u = Some (rc, t)" by (simp add: put_write_def)
    note fin = put_finish_outs[OF assms(1) pf assms(4)]
    from os(2) None have w: "os = plan wt fp f ?recs" "w_fp w = (if ?lines = [] then fp else Some f)" "w_rl w = rl"
      by simp_all
    have "outs s t (os @ (if w_fp w = None then [DsOpen (wt_name wt) (wt_mode wt)] else []))"
      using os(1) fin(1) by (rule outs_trans)
    moreover have "os @ (if w_fp w = None then [DsOpen (wt_name wt) (wt_mode wt)] else []) = ?all"
      unfolding all w(1,2) by (simp add: plan_def)
    ultimately have o: "outs s t ?all" by simp
    have l: "\<forall>l \<in> set ?lines. length l \<le> ?m" if "204 \<in> statuses s t"
      using that fin(2) statuses_out[OF so, of t] w(3) st(2) by force
    show ?thesis by (rule storesI[OF m o, where f = f]) (use l in auto)
  qed
qed

section \<open>The handlers\<close>

text \<open>What a request must have passed before anything is opened for output.\<close>

definition upload_passed :: "httpd \<Rightarrow> 'd ds_env \<Rightarrow> cstr \<Rightarrow> cstr \<Rightarrow> 'd dsession \<Rightarrow> bool" where
  "upload_passed srv env dsname target s \<longleftrightarrow>
     admitted env dsname RACF_ATTR_UPDATE s \<and> (\<exists>u bound. ds_quiet s u \<and> match_holds srv env target bound u)"

text \<open>A request that got through to its body; \<open>fp\<close> is the handle of a member that was not there.\<close>

definition uploads ::
  "httpd \<Rightarrow> 'd ds_env \<Rightarrow> cstr \<Rightarrow> cstr \<Rightarrow> 'd dsession \<Rightarrow> int \<Rightarrow> 'd dsession \<Rightarrow> bool" where
  "uploads srv env dsname target s rc t \<longleftrightarrow>
     upload_passed srv env dsname target s \<and>
     (\<exists>dt e. parse_data_type (ss_env s ''HTTP_X-IBM-Data-Type'') = (True, dt, e) \<and>
        (let open_target = open_write_target env None target (if dt = DATA_TYPE_TEXT then ''w'' else ''wb'') in
         (\<exists>v u. ds_quiet s v \<and> open_target v = (None, u) \<and> ds_refused u t) \<or>
         (\<exists>pad d bound failed fp u.
            (if fp = None then ds_quiet s u else \<exists>v. ds_quiet s v \<and> open_target v = (fp, u)) \<and>
            (\<forall>s. ds_refused s (snd (failed s))) \<and>
            put_write srv env (make_target env target dt (ds_codepage env e) pad d) (body_framing s) bound failed fp u =
              Some (rc, t))))"

lemma uploadsI:
  assumes "upload_passed srv env dsname target s"
    "parse_data_type (ss_env s ''HTTP_X-IBM-Data-Type'') = (True, dt, e)"
    "fp = None \<Longrightarrow> ds_quiet s u"
    "fp \<noteq> None \<Longrightarrow> \<exists>v. ds_quiet s v \<and> open_write_target env None target (if dt = DATA_TYPE_TEXT then ''w'' else ''wb'') v = (fp, u)"
    "\<And>s. ds_refused s (snd (failed s))"
    "put_write srv env (make_target env target dt (ds_codepage env e) pad d) (body_framing s) bound failed fp u = Some (rc, t)"
  shows "uploads srv env dsname target s rc t"
  unfolding uploads_def Let_def
  by (rule conjI[OF assms(1)], rule exI[of _ dt], rule exI[of _ e], rule conjI[OF assms(2)], rule disjI2,
      rule exI[of _ pad], rule exI[of _ d], rule exI[of _ bound], rule exI[of _ failed], rule exI[of _ fp], rule exI[of _ u])
    (use assms in auto)

lemma uploads_openI:
  assumes "upload_passed srv env dsname target s"
    "parse_data_type (ss_env s ''HTTP_X-IBM-Data-Type'') = (True, dt, e)" "ds_quiet s v"
    "open_write_target env None target (if dt = DATA_TYPE_TEXT then ''w'' else ''wb'') v = (None, u)" "ds_refused u t"
  shows "uploads srv env dsname target s rc t"
  unfolding uploads_def Let_def
  by (rule conjI[OF assms(1)], rule exI[of _ dt], rule exI[of _ e], rule conjI[OF assms(2)], rule disjI1,
      rule exI[of _ v], rule exI[of _ u]) (use assms in auto)

lemma dataset_put_cases:
  assumes "datasetPutHandler srv env rd s = Some (rc, t)" "\<not> is_control_request s"
  shows "ds_refused s t \<or> (\<exists>dsname. ds_dsname s = Inr dsname \<and> uploads srv env dsname dsname s rc t)"
proof (cases "ds_dsname s")
  case (Inl m)
  with assms refused_errors(1)[of s srv ERR_INVALID_PARAM m] show ?thesis by (simp add: datasetPutHandler_def)
next
  case (Inr dsname)
  obtain ok s1 where g: "gates srv env dsname RACF_ATTR_UPDATE s = (ok, s1)" by force
  obtain valid dt e where p: "parse_data_type (ss_env s ''HTTP_X-IBM-Data-Type'') = (valid, dt, e)" by (metis prod_cases3)
  show ?thesis
  proof (cases "ds_refused s t")
    case False
    with gates_cases[OF g] assms Inr g have ok: "s1 = s" "admitted env dsname RACF_ATTR_UPDATE s" ok
      by (auto simp: datasetPutHandler_def split: if_splits)
    have r: "\<And>m. t \<noteq> snd (handle_error srv ERR_INVALID_PARAM m s)" "\<And>v. t \<noteq> snd (send_bad_encoding srv v s)"
      "\<And>n re m. n \<notin> {200, 204} \<Longrightarrow> t \<noteq> snd (service_error srv n re m s)"
      using False refused_errors by blast+
    have run: "dataset_put_checked srv env dsname dt (ds_codepage env e) (body_framing s) s = Some (rc, t)" and v: valid
      using assms Inr g ok p r(1)[of missing_length] r(2)[of "ss_env s ''HTTP_X-IBM-Data-Type''"]
        r(3)[of HTTP_STATUS_BAD_REQUEST REASON_PDS_NOT_SEQUENTIAL ERR_MSG_PDS_NOT_SEQUENTIAL]
      by (auto simp: datasetPutHandler_def Let_def HTTP_STATUS_BAD_REQUEST_def split: if_splits)
    obtain o' s2 where o: "ds_fopen env dsname ''r'' s = (o', s2)" by force
    with ds_quiet_steps(2)[of "''r''" s env dsname] have q2: "ds_quiet s s2" by simp
    have nf: "ds_refused s (snd (service_error srv HTTP_STATUS_NOT_FOUND re m s2))" for re m
      using q2 refused_errors(2) by (rule quiet_refused) (simp add: HTTP_STATUS_NOT_FOUND_def)
    from run o nf False obtain chk where chk: "o' = Some chk"
      by (cases o') (auto simp: dataset_put_checked_def, metis snd_conv)
    let ?s3 = "snd (ds_fclose env chk s2)" and ?b = "\<lambda>u. get_fb_record_count env u dsname"
    have q3: "ds_quiet s ?s3" using q2 ds_quiet_steps(3) by (rule ds_quiet_trans)
    from run o chk obtain ok2 s4 where c: "check_if_match srv env dsname (?b (us_ds ?s3)) ?s3 = Some (ok2, s4)"
      by (auto simp: dataset_put_checked_def Let_def split: option.splits)
    from ds_match_cases[OF c] quiet_refused[OF q3] run o chk c False have ok2: ok2
      by (auto simp: dataset_put_checked_def Let_def split: if_splits)
    with ds_match_cases[OF c] have q4: "ds_quiet s s4" "match_holds srv env dsname (?b (us_ds ?s3)) ?s3"
      using ds_quiet_trans[OF q3] by auto
    from run o chk c ok2
    have "put_write srv env (make_target env dsname dt (ds_codepage env e) False (ds_dcb env chk s2)) (body_framing s) ?b
        (handle_error srv ERR_IO ''Cannot open dataset for writing'') None s4 = Some (rc, t)"
      by (simp add: dataset_put_checked_def Let_def)
    moreover have "upload_passed srv env dsname dsname s" using ok(2) q3 q4(2) by (auto simp: upload_passed_def)
    ultimately have "uploads srv env dsname dsname s rc t"
      using p v q4(1) refused_errors(1) by (intro uploadsI) auto
    with Inr show ?thesis by blast
  qed simp
qed

lemma open_failure_refused: "ds_refused s (snd (send_open_failure srv env dsname member text s))"
proof -
  obtain fail u where d: "diagnose_open_failure env dsname member s = (fail, u)" by force
  then have "u = s \<or> u = do_call (Wto ListStorage) s"
    by (auto simp: diagnose_open_failure_def Let_def split: option.splits if_splits prod.splits)
  then have q: "ds_quiet s u" using ds_quiet_refl ds_quiet_steps(6) by blast
  have r: "ds_refused u (snd (send_open_failure srv env dsname member text s))"
    using d refused_errors(1) refused_errors(2)[of HTTP_STATUS_NOT_FOUND]
      ds_refused_report[of HTTP_STATUS_INTERNAL_SERVER_ERROR]
    by (auto simp: send_open_failure_def HTTP_STATUS_NOT_FOUND_def HTTP_STATUS_INTERNAL_SERVER_ERROR_def
        split: open_failure.splits)
  from q r show ?thesis by (rule quiet_refused)
qed

lemma member_put_cases:
  assumes "memberPutHandler srv env rd s = Some (rc, t)" "\<not> is_control_request s"
  shows "ds_refused s t \<or>
    (\<exists>dsname member. ds_member s = Inr (dsname, member) \<and> uploads srv env dsname (qualified_dsn dsname member) s rc t)"
proof (cases "ds_member s")
  case (Inl m)
  with assms refused_errors(1)[of s srv ERR_INVALID_PARAM m] show ?thesis by (simp add: memberPutHandler_def)
next
  case (Inr dm)
  obtain dsname member where dm: "dm = (dsname, member)" by force
  let ?target = "qualified_dsn dsname member"
  obtain ok s1 where g: "gates srv env dsname RACF_ATTR_UPDATE s = (ok, s1)" by force
  obtain valid dt e where p: "parse_data_type (ss_env s ''HTTP_X-IBM-Data-Type'') = (valid, dt, e)" by (metis prod_cases3)
  let ?failed = "send_open_failure srv env (Some dsname) None ''Cannot open dataset member for writing''"
  let ?mode = "if dt = DATA_TYPE_TEXT then ''w'' else ''wb''"
  let ?run = "\<lambda>d. put_write srv env (make_target env ?target dt (ds_codepage env e) True d) (body_framing s) (\<lambda>_. -1) ?failed"
  show ?thesis
  proof (cases "ds_refused s t")
    case False
    with gates_cases[OF g] assms Inr dm g have ok: "s1 = s" "admitted env dsname RACF_ATTR_UPDATE s" ok
      by (auto simp: memberPutHandler_def split: if_splits)
    have r: "\<And>m. t \<noteq> snd (handle_error srv ERR_INVALID_PARAM m s)" "\<And>v. t \<noteq> snd (send_bad_encoding srv v s)"
      "\<And>n re m. n \<notin> {200, 204} \<Longrightarrow> t \<noteq> snd (service_error srv n re m s)"
      using False refused_errors by blast+
    have run: "member_put_checked srv env dsname ?target dt (ds_codepage env e) (body_framing s) s = Some (rc, t)" and v: valid
      using assms Inr dm g ok p r(1)[of missing_length] r(2)[of "ss_env s ''HTTP_X-IBM-Data-Type''"]
      by (auto simp: memberPutHandler_def Let_def split: if_splits)
    have cat: "dataset_cataloged env (us_ds s) (Some dsname)"
      using run r(3)[of HTTP_STATUS_NOT_FOUND REASON_DATASET_NOT_FOUND ERR_MSG_DATASET_NOT_FOUND]
      by (auto simp: member_put_checked_def Let_def HTTP_STATUS_NOT_FOUND_def split: if_splits)
    with run obtain ok2 s2 where c: "check_if_match srv env ?target (-1) s = Some (ok2, s2)"
      by (auto simp: member_put_checked_def Let_def split: option.splits)
    with ds_match_cases[OF c] run cat False have ok2: ok2
      by (auto simp: member_put_checked_def Let_def split: if_splits)
    with ds_match_cases[OF c] have q2: "ds_quiet s s2" "match_holds srv env ?target (-1) s" by auto
    have passed: "upload_passed srv env dsname ?target s"
      using ok(2) q2(2) ds_quiet_refl[of s] by (auto simp: upload_passed_def)
    obtain o' s3 where o: "ds_fopen env ?target ''r'' s2 = (o', s3)" by force
    with ds_quiet_steps(2)[of "''r''" s2 env ?target] have q3: "ds_quiet s s3"
      by (auto intro: ds_quiet_trans[OF q2(1)])
    have up: "uploads srv env dsname ?target s rc t"
    proof (cases o')
      case (Some chk)
      from run cat c ok2 o Some have w: "?run (ds_dcb env chk s3) None (snd (ds_fclose env chk s3)) = Some (rc, t)"
        by (simp add: member_put_checked_def Let_def)
      have "ds_quiet s (snd (ds_fclose env chk s3))" using q3 ds_quiet_steps(3) by (rule ds_quiet_trans)
      with passed p v w open_failure_refused show ?thesis by (intro uploadsI) auto
    next
      case None
      obtain fp s4 where op: "open_write_target env None ?target ?mode s3 = (fp, s4)" by force
      show ?thesis
      proof (cases fp)
        case n: None
        from run cat c ok2 o None op n have t: "t = snd (?failed s4)"
          by (simp add: member_put_checked_def Let_def)
        show ?thesis
          by (rule uploads_openI[OF passed _ q3 op[unfolded n]]) (use p v t open_failure_refused in auto)
      next
        case (Some f)
        from run cat c ok2 o None op Some have "?run (ds_dcb env f s4) (Some f) s4 = Some (rc, t)"
          by (simp add: member_put_checked_def Let_def)
        with passed p v op Some q3 open_failure_refused show ?thesis by (intro uploadsI) auto
      qed
    qed
    with Inr dm show ?thesis by blast
  qed simp
qed

lemma target_text:
  "out_mode (make_target env name DATA_TYPE_TEXT cp pad d)"
  "wt_cp (make_target env name dt cp pad d) = cp" "wt_name (make_target env name dt cp pad d) = name"
  by (simp_all add: out_mode_def make_target_def Let_def)

lemma uploads_stores:
  assumes "uploads srv env dsname target s rc t"
    "parse_data_type (ss_env s ''HTTP_X-IBM-Data-Type'') = (True, DATA_TYPE_TEXT, e)"
    "sent_body env (body_framing s) (stream s) body"
  shows "stores None (ds_codepage env e) target (body_lines body) s t"
proof -
  let ?cp = "ds_codepage env e" and ?open = "open_write_target env None target ''w''"
  have "(\<exists>v u. ds_quiet s v \<and> ?open v = (None, u) \<and> ds_refused u t) \<or>
    (\<exists>pad d bound failed fp u.
       (if fp = None then ds_quiet s u else \<exists>v. ds_quiet s v \<and> ?open v = (fp, u)) \<and>
       (\<forall>s. ds_refused s (snd (failed s))) \<and>
       put_write srv env (make_target env target DATA_TYPE_TEXT ?cp pad d) (body_framing s) bound failed fp u = Some (rc, t))"
    using assms(1) unfolding uploads_def Let_def
    by (elim conjE exE) (simp only: assms(2) prod.inject, elim conjE, hypsubst, simp only: if_True simp_thms)
  then consider
      (failed) v u where "ds_quiet s v" "?open v = (None, u)" "ds_refused u t"
    | (run) pad d bound failed fp u where
        "if fp = None then ds_quiet s u else \<exists>v. ds_quiet s v \<and> ?open v = (fp, u)"
        "\<forall>s. ds_refused s (snd (failed s))"
        "put_write srv env (make_target env target DATA_TYPE_TEXT ?cp pad d) (body_framing s) bound failed fp u = Some (rc, t)"
    by blast
  then show ?thesis
  proof cases
    case failed
    have "outs v u [DsOpen target ''w'']"
      using open_target_outs(1)[of "make_target env target DATA_TYPE_TEXT ?cp True d" env None v None u for d] failed(2)
      by (simp add: out_mode_def make_target_def Let_def)
    moreover have "ss_out u = ss_out s"
      using writes_only_keeps(4)[OF writes_only_open[of v env None target "''w''"]] failed(2) ds_quiet_keeps(2)[OF failed(1)]
      by simp
    ultimately show ?thesis
      using failed(1,3) outs_quiet_trans[OF ds_quiet_keeps(4)[OF failed(1)]] refused_stores open_stores
      by metis
  next
    case run
    let ?wt = "make_target env target DATA_TYPE_TEXT ?cp pad d"
    have st: "stores fp ?cp target (body_lines body) u t" if "stream u = stream s"
      using put_write_stores[OF target_text(1) run(3)] assms(3) run(2) that by (simp add: target_text)
    show ?thesis
    proof (cases fp)
      case None
      with run(1) have q: "ds_quiet s u" by simp
      from quiet_stores[OF q] st ds_quiet_keeps(1)[OF q] None show ?thesis by simp
    next
      case (Some f)
      with run(1) obtain v where v: "ds_quiet s v" "?open v = (Some f, u)" by auto
      have w: "writes_only v u" using writes_only_open[of v env None target "''w''"] v(2) by simp
      have o: "outs v u [DsOpen target ''w'']"
        using open_target_outs(1)[OF target_text(1)[of env target ?cp pad d], of env None v "Some f" u] v(2)
        by (simp add: make_target_def Let_def)
      have "outs s u [DsOpen target ''w'']" using ds_quiet_keeps(4)[OF v(1)] o by (rule outs_quiet_trans)
      moreover have "ss_out u = ss_out s" "stream u = stream s"
        using writes_only_keeps(4)[OF w] stream_writes[OF w] ds_quiet_keeps(1,2)[OF v(1)] by simp_all
      ultimately show ?thesis using open_stores st Some by blast
    qed
  qed
qed

end
