(* ===== verification/DsTransfer.thy ===== *)
theory DsTransfer
  imports DsUpload
begin

text \<open>
  What transfers of data sets and members show: the handlers return on files that end; an upload stores what
  was sent; a download is whole or torn down; and a caller without authority learns nothing.
\<close>

section \<open>Files that end\<close>

text \<open>A line after the other, as \<^verbatim>\<open>fgets\<close> gives them.\<close>

inductive ds_lines :: "'d ds_env \<Rightarrow> nat \<Rightarrow> nat \<Rightarrow> 'd \<Rightarrow> byte list list \<Rightarrow> 'd \<Rightarrow> bool" for env fp n where
  at_end: "de_fgets env fp n u = (None, v) \<Longrightarrow> ds_lines env fp n u [] v"
| line: "de_fgets env fp n u = (Some b, u1) \<Longrightarrow> ds_lines env fp n u1 bs v \<Longrightarrow> ds_lines env fp n u (b # bs) v"

text \<open>Record after record, up to the file's end or, when there is a limit, to as many as it allows.\<close>

inductive ds_records :: "'d ds_env \<Rightarrow> nat \<Rightarrow> nat \<Rightarrow> int \<Rightarrow> int \<Rightarrow> 'd \<Rightarrow> byte list list \<Rightarrow> 'd \<Rightarrow> bool"
  for env fp n limit where
  at_end: "de_fread env fp n u = ([], v) \<Longrightarrow> ds_records env fp n limit count u [] v"
| at_limit: "de_fread env fp n u = (b, v) \<Longrightarrow> 0 \<le> limit \<Longrightarrow> limit \<le> count \<Longrightarrow> ds_records env fp n limit count u [] v"
| rec: "de_fread env fp n u = (b, u1) \<Longrightarrow> b \<noteq> [] \<Longrightarrow> \<not> (0 \<le> limit \<and> limit \<le> count) \<Longrightarrow>
    ds_records env fp n limit (count + 1) u1 bs v \<Longrightarrow> ds_records env fp n limit count u (b # bs) v"

definition ds_files_end :: "'d ds_env \<Rightarrow> bool" where
  "ds_files_end env \<longleftrightarrow>
     (\<forall>fp n u. (\<exists>bs v. ds_lines env fp n u bs v) \<and> (\<exists>bs v. file_reads (de_fread env fp) n u bs v))"

lemma reads_records:
  "file_reads (de_fread env fp) n u bs v \<Longrightarrow> \<exists>bs v. ds_records env fp n limit count u bs v"
proof (induction arbitrary: count rule: file_reads.induct)
  case (at_end u v)
  then show ?case by (blast intro: ds_records.at_end)
next
  case (piece u b u1 bs v)
  then show ?case by (cases "0 \<le> limit \<and> limit \<le> count") (blast intro: ds_records.intros)+
qed

lemma etag_loop_ends:
  "ds_records env fp n limit count u bs v \<Longrightarrow> us_ds s = u \<Longrightarrow> \<exists>r. ds_etag_loop env fp n limit count ctx s = Some r"
proof (induction arbitrary: s ctx rule: ds_records.induct)
  case (at_end u v count)
  then show ?case by (simp add: ds_etag_loop.simps ds_fread_def on_ds_def)
next
  case (at_limit u b v count)
  then show ?case by (simp add: ds_etag_loop.simps ds_fread_def on_ds_def)
next
  case (rec u b u1 count bs v)
  from rec.IH[of "s\<lparr>us_ds := u1\<rparr>"] rec.hyps(1-3) rec.prems show ?case
    by (simp add: ds_etag_loop.simps[of env fp n limit count ctx s] ds_fread_def on_ds_def)
qed

lemma ds_etag_loop_returns: "ds_files_end env \<Longrightarrow> ds_etag_loop env fp n limit 0 ctx s \<noteq> None"
proof -
  assume "ds_files_end env"
  then have "\<exists>bs v. file_reads (de_fread env fp) n (us_ds s) bs v" by (simp add: ds_files_end_def)
  then obtain bs v where "file_reads (de_fread env fp) n (us_ds s) bs v" by blast
  from reads_records[OF this] show ?thesis using etag_loop_ends by fastforce
qed

lemma dataset_etag_ends: "ds_files_end env \<Longrightarrow> dataset_etag srv env name bound s \<noteq> None"
  using ds_etag_loop_returns[of env] 
    by (auto simp: dataset_etag_def Let_def simp del: not_None_eq split: option.splits prod.splits)

lemma check_if_match_ends: "ds_files_end env \<Longrightarrow> check_if_match srv env name bound s \<noteq> None"
  using dataset_etag_ends[of env srv name bound s]
  by (auto simp: check_if_match_def Let_def simp del: not_None_eq split: option.splits)

lemma put_write_ends:
  assumes "ds_files_end env" shows "put_write srv env wt framing bound failed fp s \<noteq> None"
proof -
  have a: "\<exists>r. put_answer srv env name bound s = Some r" for name s
  proof -
    show ?thesis
      using dataset_etag_ends[OF assms, of srv name "bound (us_ds s)" s] 
      by (auto simp: put_answer_def simp del: not_None_eq split: option.splits)
  qed
  have f: "\<exists>r. put_finish srv env wt bound failed w s = Some r" for w s
    using a by (auto simp: put_finish_def split: prod.splits option.splits)
  obtain e w t where "put_body env wt framing fp s = (e, w, t)" by (metis prod_cases3)
  with f[of w t] show ?thesis by (cases e) (auto simp: put_write_def)
qed

section \<open>Downloads\<close>

text \<open>What a loop of sends leaves: everything went out, or a response that nobody takes for a complete one.\<close>

definition sent_or_torn :: "httpd \<Rightarrow> byte list \<Rightarrow> 'd dsession \<Rightarrow> int \<times> 'd dsession \<Rightarrow> bool" where
  "sent_or_torn srv bytes s r \<longleftrightarrow>
     (case r of (rc, t) \<Rightarrow>
        ss_out t = ss_out s \<and>
        (rc = 0 \<and> hc_wire (ss_conn t) = hc_wire (ss_conn s) @ bytes \<or>
         rc = -1 \<and> torn_down (hd_cstate_done srv) (ss_conn t)))"

lemma send_all_law:
  "sent_or_torn srv buf s (session_send_all srv buf s)"
  "us_ds (snd (session_send_all srv buf s)) = us_ds s"
proof -
  obtain r t where t: "session_send_all srv buf s = (r, t)" by force
  from session_send_all_cases[OF t] t
  show "sent_or_torn srv buf s (session_send_all srv buf s)" "us_ds (snd (session_send_all srv buf s)) = us_ds s"
    by (auto simp: sent_or_torn_def)
qed

lemma sent_trans:
  assumes "sent_or_torn srv a s (0, t)" "sent_or_torn srv b t r"
  shows "sent_or_torn srv (a @ b) s r"
  using assms by (auto simp: sent_or_torn_def)

lemma sent_torn: "sent_or_torn srv a s (rc, t) \<Longrightarrow> rc < 0 \<Longrightarrow> sent_or_torn srv b s (rc, t)"
  by (auto simp: sent_or_torn_def)

lemma sent_rc: "sent_or_torn srv a s (rc, t) \<Longrightarrow> rc = 0 \<or> rc < 0"
  by (auto simp: sent_or_torn_def)

lemma send_pieces_law:
  "sent_or_torn srv (concat ps) s (send_pieces srv 0 ps s) \<and> us_ds (snd (send_pieces srv 0 ps s)) = us_ds s"
proof (induction ps arbitrary: s)
  case Nil
  then show ?case by (simp add: sent_or_torn_def)
next
  case (Cons p ps)
  obtain rc t where t: "session_send_all srv p s = (rc, t)" by force
  with send_all_law[of srv p s] have l: "sent_or_torn srv p s (rc, t)" "us_ds t = us_ds s" by simp_all
  from sent_rc[OF l(1)] show ?case
    using t l Cons[of t] sent_trans[of srv p s t "concat ps" "send_pieces srv 0 ps t"] sent_torn[OF l(1)] by auto
qed

text \<open>The bytes of a download: each line translated as the text loop does it, or each record with what is in front of it.\<close>

definition lines_bytes :: "'d ds_env \<Rightarrow> bool \<Rightarrow> HTTPCP \<Rightarrow> byte list list \<Rightarrow> byte list" where
  "lines_bytes env is_fixed cp ls =
     concat (map (\<lambda>l. map (cp_etoa cp) (text_line (de_code env newline) (de_code env blank) is_fixed l)) ls)"

definition records_bytes :: "data_type \<Rightarrow> byte list list \<Rightarrow> byte list" where
  "records_bytes dt bs = concat (map (\<lambda>b. concat (record_pieces dt b)) bs)"

lemma text_loop_law:
  "ds_text_loop srv env fp n fx cp rc s = Some r \<Longrightarrow> rc = 0 \<Longrightarrow>
     \<exists>ls. sent_or_torn srv (lines_bytes env fx cp ls) s r \<and> (fst r = 0 \<longrightarrow> ds_lines env fp n (us_ds s) ls (us_ds (snd r)))"
proof (rule ds_text_loop.raw_induct[where P = "\<lambda>srv env fp n fx cp rc s r. rc = 0 \<longrightarrow>
     (\<exists>ls. sent_or_torn srv (lines_bytes env fx cp ls) s r \<and> (fst r = 0 \<longrightarrow> ds_lines env fp n (us_ds s) ls (us_ds (snd r))))",
     THEN mp], goal_cases)
  case (1 loop srv env fp n fx cp rc s r)
  show ?case
  proof
    assume rc: "rc = 0"
    obtain l u where g: "de_fgets env fp n (us_ds s) = (l, u)" by force
    show "\<exists>ls. sent_or_torn srv (lines_bytes env fx cp ls) s r \<and> (fst r = 0 \<longrightarrow> ds_lines env fp n (us_ds s) ls (us_ds (snd r)))"
    proof (cases l)
      case None
      with 1(4) g rc have "r = (0, s\<lparr>us_ds := u\<rparr>)" by (simp add: ds_fgets_def on_ds_def)
      with g None show ?thesis
        by (auto simp: sent_or_torn_def lines_bytes_def intro!: exI[of _ "[]"] ds_lines.at_end)
    next
      case (Some b)
      let ?s = "s\<lparr>us_ds := u\<rparr>" and ?p = "map (cp_etoa cp) (text_line (de_code env newline) (de_code env blank) fx b)"
      obtain rc1 t where t: "session_send_all srv ?p ?s = (rc1, t)" by force
      have l: "sent_or_torn srv ?p s (rc1, t)" "us_ds t = u"
        using send_all_law[of srv ?p ?s] t by (simp_all add: sent_or_torn_def)
      show ?thesis
      proof (cases "rc1 < 0")
        case True
        with 1(4) g Some t have "r = (rc1, t)" by (simp add: ds_fgets_def on_ds_def)
        with l True show ?thesis by (auto dest: sent_torn)
      next
        case False
        with sent_rc[OF l(1)] have z: "rc1 = 0" by simp
        with 1(4) g Some t have "loop srv env fp n fx cp 0 t = Some r" by (simp add: ds_fgets_def on_ds_def)
        from 1(3)[OF this] obtain ls where ls: "sent_or_torn srv (lines_bytes env fx cp ls) t r"
          "fst r = 0 \<longrightarrow> ds_lines env fp n (us_ds t) ls (us_ds (snd r))" by blast
        from sent_trans[OF l(1)[unfolded z] ls(1)] ls(2) l(2) g Some show ?thesis
          by (intro exI[of _ "b # ls"]) (auto simp: lines_bytes_def intro: ds_lines.line)
      qed
    qed
  qed
qed simp_all

lemma record_loop_law:
  "ds_record_loop srv env fp n dt limit count rc s = Some r \<Longrightarrow> rc = 0 \<Longrightarrow>
     \<exists>bs. sent_or_torn srv (records_bytes dt bs) s r \<and>
       (fst r = 0 \<longrightarrow> ds_records env fp n limit count (us_ds s) bs (us_ds (snd r)))"
proof (rule ds_record_loop.raw_induct[where P = "\<lambda>srv env fp n dt limit count rc s r. rc = 0 \<longrightarrow>
     (\<exists>bs. sent_or_torn srv (records_bytes dt bs) s r \<and>
       (fst r = 0 \<longrightarrow> ds_records env fp n limit count (us_ds s) bs (us_ds (snd r))))",
     THEN mp], goal_cases)
  case (1 loop srv env fp n dt limit count rc s r)
  show ?case
  proof
    assume rc: "rc = 0"
    obtain b u where g: "de_fread env fp n (us_ds s) = (b, u)" by force
    let ?s = "s\<lparr>us_ds := u\<rparr>"
    show "\<exists>bs. sent_or_torn srv (records_bytes dt bs) s r \<and>
        (fst r = 0 \<longrightarrow> ds_records env fp n limit count (us_ds s) bs (us_ds (snd r)))"
    proof (cases "b = [] \<or> 0 \<le> limit \<and> limit \<le> count")
      case True
      with 1(4) g rc have "r = (0, ?s)" by (auto simp: ds_fread_def on_ds_def split: if_splits)
      moreover have "ds_records env fp n limit count (us_ds s) [] u"
        using True g by (auto intro: ds_records.intros)
      ultimately show ?thesis
        by (intro exI[of _ "[]"]) (simp add: sent_or_torn_def records_bytes_def)
    next
      case False
      let ?p = "record_pieces dt b"
      obtain rc1 t where t: "send_pieces srv 0 ?p ?s = (rc1, t)" by force
      have l: "sent_or_torn srv (concat ?p) s (rc1, t)" "us_ds t = u"
        using send_pieces_law[of srv ?p ?s] t by (simp_all add: sent_or_torn_def)
      show ?thesis
      proof (cases "rc1 < 0")
        case True
        with 1(4) g False t rc have "r = (rc1, t)" by (auto simp: ds_fread_def on_ds_def)
        with l True show ?thesis by (auto dest: sent_torn)
      next
        case f: False
        with sent_rc[OF l(1)] have z: "rc1 = 0" by simp
        with 1(4) g False t rc have "loop srv env fp n dt limit (count + 1) 0 t = Some r"
          by (auto simp: ds_fread_def on_ds_def)
        from 1(3)[OF this] obtain bs where bs: "sent_or_torn srv (records_bytes dt bs) t r"
          "fst r = 0 \<longrightarrow> ds_records env fp n limit (count + 1) (us_ds t) bs (us_ds (snd r))" by blast
        from sent_trans[OF l(1)[unfolded z] bs(1)] bs(2) l(2) g False show ?thesis
          by (intro exI[of _ "b # bs"]) (auto simp: records_bytes_def intro: ds_records.rec)
      qed
    qed
  qed
qed simp_all

text \<open>What a file that was opened has, as a download sends it.\<close>

definition ds_image ::
  "'d ds_env \<Rightarrow> nat \<Rightarrow> data_type \<Rightarrow> HTTPCP \<Rightarrow> int \<Rightarrow> 'd \<Rightarrow> byte list \<Rightarrow> 'd \<Rightarrow> bool" where
  "ds_image env fp dt cp limit u bytes v \<longleftrightarrow>
     (let d = de_dcb env fp u in
      if dt = DATA_TYPE_TEXT
      then \<exists>ls. ds_lines env fp (dc_lrecl d + 2) u ls v \<and> bytes = lines_bytes env (ds_is_fixed env d) cp ls
      else \<exists>bs. ds_records env fp (dc_lrecl d) limit 0 u bs v \<and> bytes = records_bytes dt bs)"

lemma standard_headers_open:
  assumes "open_client srv s"
  shows "\<exists>items. send_standard_headers srv ct tag s =
    (0, s\<lparr>ss_headers_sent := True, ss_out := ss_out s @ OutStatus 200 # items\<rparr>)"
proof -
  let ?t = "s\<lparr>ss_headers_sent := True\<rparr>"
  have e: "prints srv (etag_line srv tag) (\<lambda>_. case tag of None \<Rightarrow> [] | Some t \<Rightarrow> [OutHeader (''ETag: '' @ t)])"
    using prints_line(1)[of srv] by (auto simp: prints_def etag_line_def split: option.splits)
  have "prints srv (and_then (http_resp srv 200) (and_then (send_common_headers srv)
      (and_then (http_printf srv (''Content-Type: '' @ ct)) (and_then (etag_line srv tag) (http_printf srv [])))))
      (\<lambda>s. [OutStatus 200] @ map OutHeader (fixed_headers @ cookie_headers srv s) @ [OutHeader (''Content-Type: '' @ ct)] @
         (case tag of None \<Rightarrow> [] | Some t \<Rightarrow> [OutHeader (''ETag: '' @ t)]) @ [OutHeader []])"
    by (intro prints_then prints_line prints_common e) simp_all
  moreover have "open_client srv ?t" using assms by (simp add: open_client_def)
  ultimately show ?thesis unfolding send_standard_headers_def prints_def by fastforce
qed

lemma quiet_open_client: "ds_quiet s t \<Longrightarrow> open_client srv s \<Longrightarrow> open_client srv t"
  using writes_only_keeps(1,3)[of s t] by (simp add: ds_quiet_def open_client_def)

text \<open>Whole or torn down.\<close>

definition ds_whole_or_torn ::
  "httpd \<Rightarrow> 'd ds_env \<Rightarrow> nat \<Rightarrow> data_type \<Rightarrow> HTTPCP \<Rightarrow> int \<Rightarrow> 'd \<Rightarrow> 'd dsession \<Rightarrow> int \<Rightarrow> 'd dsession \<Rightarrow> bool" where
  "ds_whole_or_torn srv env fp dt cp limit u s rc t \<longleftrightarrow>
     rc = -1 \<and> torn_down (hd_cstate_done srv) (ss_conn t) \<or>
     rc = 0 \<and> (\<exists>bytes v. ds_image env fp dt cp limit u bytes v \<and> \<not> de_ferror env fp v \<and>
       hc_wire (ss_conn t) = hc_wire (ss_conn s) @ bytes)"

lemma read_and_send_law:
  assumes "open_client srv s" "read_and_send_dataset srv env fp dt cp limit tag s = Some (rc, t)"
  shows "ds_refused s t \<or> ds_whole_or_torn srv env fp dt cp limit (us_ds s) s rc t"
proof -
  let ?d = "ds_dcb env fp s"
  let ?v = "dt = DATA_TYPE_RECORD \<and> dc_recfm ?d AND FILE_RECFM_TYPE (de_codes env) = FILE_RECFM_V (de_codes env)"
  show ?thesis
  proof (cases "?v \<or> \<not> hd_alloc srv (dc_lrecl ?d + 2)")
    case True
    with assms(2) refused_errors(1)[of s srv ERR_MEMORY "''Memory allocation failed''"]
      refused_errors(2)[of HTTP_STATUS_BAD_REQUEST s srv REASON_RECORD_MODE_RECFM_V ERR_MSG_RECORD_MODE_RECFM_V]
    show ?thesis by (auto simp: read_and_send_dataset_def Let_def HTTP_STATUS_BAD_REQUEST_def split: if_splits)
  next
    case False
    obtain out where h: "send_standard_headers srv (if dt = DATA_TYPE_TEXT then ''text/plain'' else ''application/octet-stream'') tag s =
        (0, s\<lparr>ss_headers_sent := True, ss_out := out\<rparr>)"
      using standard_headers_open[OF assms(1)] by blast
    let ?s = "s\<lparr>ss_headers_sent := True, ss_out := out\<rparr>"
    let ?loop = "if dt = DATA_TYPE_TEXT then ds_text_loop srv env fp (dc_lrecl ?d + 2) (ds_is_fixed env ?d) cp 0 ?s
      else ds_record_loop srv env fp (dc_lrecl ?d) dt limit 0 0 ?s"
    from False have nv: "\<not> ?v" and al: "hd_alloc srv (dc_lrecl ?d + 2)" by blast+
    have "read_and_send_dataset srv env fp dt cp limit tag s = map_option (ds_read_end srv env fp) ?loop"
      by (simp only: read_and_send_dataset_def Let_def if_not_P[OF nv] al not_True_eq_False if_False h prod.case less_irrefl)
    with assms(2) have "map_option (ds_read_end srv env fp) ?loop = Some (rc, t)" by simp
    then obtain r where r: "?loop = Some r" "(rc, t) = ds_read_end srv env fp r" by (auto simp del: split_paired_Ex)
    have "\<exists>bytes. sent_or_torn srv bytes ?s r \<and> (fst r = 0 \<longrightarrow> ds_image env fp dt cp limit (us_ds s) bytes (us_ds (snd r)))"
    proof (cases "dt = DATA_TYPE_TEXT")
      case True
      with r(1) have "ds_text_loop srv env fp (dc_lrecl ?d + 2) (ds_is_fixed env ?d) cp 0 ?s = Some r" by simp
      from text_loop_law[OF this refl] True show ?thesis by (auto simp: ds_image_def ds_dcb_def Let_def)
    next
      case False
      with r(1) have "ds_record_loop srv env fp (dc_lrecl ?d) dt limit 0 0 ?s = Some r" by simp
      from record_loop_law[OF this refl] False show ?thesis by (auto simp: ds_image_def ds_dcb_def Let_def)
    qed
    with r(2) show ?thesis
      by (cases r) (auto simp: ds_whole_or_torn_def sent_or_torn_def ds_read_end_def ds_ferror_def Let_def do_call_def split: if_splits)
  qed
qed

lemma send_open_law:
  assumes "open_client srv s" "ds_send_open srv env fp dt cp limit tag s = Some (rc, t)"
  shows "ds_refused s t \<or> ds_whole_or_torn srv env fp dt cp limit (us_ds s) s rc t"
proof -
  let ?s = "snd (session_register_file s (Some fp))"
  have q: "ds_quiet s ?s" by (rule ds_quiet_steps)
  have u: "us_ds ?s = us_ds s" by (simp add: session_register_file_def do_call_def)
  have w: "hc_wire (ss_conn ?s) = hc_wire (ss_conn s)" using q writes_only_keeps(1)[of s ?s] by (simp add: ds_quiet_def)
  from assms(2) obtain v where v: "read_and_send_dataset srv env fp dt cp limit tag ?s = Some (rc, v)"
      and t: "t = snd (ds_session_fclose env (Some fp) v)"
    by (auto simp: ds_send_open_def split: option.splits)
  have qt: "ds_quiet v t" unfolding t by (rule ds_quiet_steps)
  have c: "ss_conn t = ss_conn v" using qt writes_only_keeps(1)[of v t] by (simp add: ds_quiet_def)
  have rt: "ds_refused s t" if "ds_refused ?s v"
    using quiet_refused[OF q that] ds_quiet_keeps(2,4)[OF qt] outs_trans_quiet
    by (auto simp: ds_refused_def statuses_def)
  from read_and_send_law[OF quiet_open_client[OF q assms(1)] v] rt u w c show ?thesis
    by (auto simp: ds_whole_or_torn_def)
qed

lemma ds_stamp_cases:
  assumes "ds_stamp srv env name bound s = Some (r, t)"
  shows "case r of Inl rc \<Rightarrow> 200 \<notin> statuses s t | Inr _ \<Rightarrow> ds_quiet s t"
proof (cases "getHeaderParam s ''If-None-Match'' = None \<and> \<not> etag_requested (getHeaderParam s ''X-IBM-Return-Etag'')")
  case True
  with assms show ?thesis by (auto simp: ds_stamp_def ds_quiet_refl)
next
  case False
  with assms obtain e u where e: "dataset_etag srv env name bound s = Some (e, u)"
    by (auto simp: ds_stamp_def Let_def split: option.splits if_splits)
  note q = dataset_etag_quiet[OF e]
  have "200 \<notin> statuses s v" if "send_not_modified srv tag u = (rc, v)" for tag rc v
    using status_only_statuses[OF status_not_modified[of u srv tag]] that statuses_out[OF ds_quiet_keeps(2)[OF q], of v]
    by auto
  with assms False e q show ?thesis
    by (auto simp: ds_stamp_def Let_def split: option.splits if_splits prod.splits)
qed

text \<open>A download that was answered: the caller may read the data set, and it is whole or torn down.\<close>

definition downloads ::
  "httpd \<Rightarrow> 'd ds_env \<Rightarrow> cstr \<Rightarrow> cstr \<Rightarrow> 'd dsession \<Rightarrow> int \<Rightarrow> 'd dsession \<Rightarrow> bool" where
  "downloads srv env dsname target s rc t \<longleftrightarrow>
     admitted env dsname RACF_ATTR_READ s \<and>
     (\<exists>dt e fp limit u u1. parse_data_type (ss_env s ''HTTP_X-IBM-Data-Type'') = (True, dt, e) \<and>
        de_fopen env target (if dt = DATA_TYPE_TEXT then ''r'' else ''rb'') u = (Some fp, u1) \<and>
        (limit = -1 \<or> (\<exists>w. limit = get_fb_record_count env w dsname)) \<and>
        ds_whole_or_torn srv env fp dt (ds_codepage env e) limit u1 s rc t)"

lemma downloadsI:
  assumes "open_client srv s" "admitted env dsname RACF_ATTR_READ s"
    "parse_data_type (ss_env s ''HTTP_X-IBM-Data-Type'') = (True, dt, e)" "ds_quiet s u"
    "ds_fopen env target (if dt = DATA_TYPE_TEXT then ''r'' else ''rb'') u = (Some fp, v)"
    "limit = -1 \<or> (\<exists>w. limit = get_fb_record_count env w dsname)"
    "ds_send_open srv env fp dt (ds_codepage env e) limit tag v = Some (rc, t)"
  shows "200 \<notin> statuses s t \<or> downloads srv env dsname target s rc t"
proof -
  let ?mode = "if dt = DATA_TYPE_TEXT then ''r'' else ''rb''"
  have q: "ds_quiet s v" using ds_quiet_steps(2)[of ?mode u env target] assms(5) by (auto intro: ds_quiet_trans[OF assms(4)])
  have w: "hc_wire (ss_conn v) = hc_wire (ss_conn s)" using q writes_only_keeps(1)[of s v] by (simp add: ds_quiet_def)
  from assms(5) have o: "de_fopen env target ?mode (us_ds u) = (Some fp, us_ds v)"
    by (auto simp: ds_fopen_def on_ds_def do_call_def split: prod.splits)
  from send_open_law[OF quiet_open_client[OF q assms(1)] assms(7)]
  show ?thesis
  proof
    assume "ds_refused v t"
    from quiet_refused[OF q this] show ?thesis by (simp add: ds_refused_def)
  next
    assume "ds_whole_or_torn srv env fp dt (ds_codepage env e) limit (us_ds v) v rc t"
    with w have "ds_whole_or_torn srv env fp dt (ds_codepage env e) limit (us_ds v) s rc t"
      by (simp add: ds_whole_or_torn_def)
    with assms(2,3,6) o show ?thesis unfolding downloads_def by blast
  qed
qed

lemma dataset_get_cases:
  assumes "open_client srv s" "datasetGetHandler srv env s = Some (rc, t)"
  shows "200 \<notin> statuses s t \<or> (\<exists>dsname. ds_dsname s = Inr dsname \<and> downloads srv env dsname dsname s rc t)"
proof (cases "ds_dsname s")
  case (Inl m)
  with assms refused_errors(1)[of s srv ERR_INVALID_PARAM m] show ?thesis by (simp add: datasetGetHandler_def ds_refused_def)
next
  case (Inr dsname)
  obtain ok s1 where g: "gates srv env dsname RACF_ATTR_READ s = (ok, s1)" by force
  obtain valid dt e where p: "parse_data_type (ss_env s ''HTTP_X-IBM-Data-Type'') = (valid, dt, e)" by (metis prod_cases3)
  let ?b = "get_fb_record_count env (us_ds s) dsname"
  let ?mode = "if dt = DATA_TYPE_TEXT then ''r'' else ''rb''"
  show ?thesis
  proof (cases "200 \<notin> statuses s t")
    case False
    then have nr: "\<not> ds_refused s t" by (simp add: ds_refused_def)
    with gates_cases[OF g] assms Inr g have ok: "s1 = s" "admitted env dsname RACF_ATTR_READ s" ok
      by (auto simp: datasetGetHandler_def split: if_splits)
    have r: "\<And>v. t \<noteq> snd (send_bad_encoding srv v s)" "\<And>n re m. n \<notin> {200, 204} \<Longrightarrow> t \<noteq> snd (service_error srv n re m s)"
      using nr refused_errors by blast+
    have v: valid and np: "\<not> is_pds env (us_ds s) dsname"
      using assms Inr g ok p r(1)[of "ss_env s ''HTTP_X-IBM-Data-Type''"]
        r(2)[of HTTP_STATUS_BAD_REQUEST REASON_PDS_NOT_SEQUENTIAL ERR_MSG_PDS_NOT_SEQUENTIAL]
      by (auto simp: datasetGetHandler_def Let_def HTTP_STATUS_BAD_REQUEST_def split: if_splits)
    from assms Inr g ok p v np obtain st s2 where st: "ds_stamp srv env dsname ?b s = Some (st, s2)"
      by (auto simp: datasetGetHandler_def Let_def split: option.splits if_splits)
    with ds_stamp_cases[OF st] assms Inr g ok p v np False obtain tag where tag: "st = Inr tag" "ds_quiet s s2"
      by (cases st) (auto simp: datasetGetHandler_def Let_def)
    obtain o' s3 where o: "ds_fopen env dsname ?mode s2 = (o', s3)" by force
    have q3: "ds_quiet s s3" using ds_quiet_steps(2)[of ?mode s2 env dsname] o by (auto intro: ds_quiet_trans[OF tag(2)])
    have nf: "t \<noteq> snd (send_open_failure srv env (Some dsname) None ''Cannot open dataset'' s3)"
      using quiet_refused[OF q3 open_failure_refused] nr by blast
    let ?l = "if dt = DATA_TYPE_TEXT then -1 else get_fb_record_count env (us_ds s2) dsname"
    from assms Inr g ok p v np st tag o nf obtain fp where fp: "o' = Some fp"
        "ds_send_open srv env fp dt (ds_codepage env e) ?l tag s3 = Some (rc, t)"
      by (cases o') (auto simp: datasetGetHandler_def Let_def)
    have "?l = -1 \<or> (\<exists>w. ?l = get_fb_record_count env w dsname)" by auto
    from downloadsI[OF assms(1) ok(2) p[unfolded eqTrueI[OF v]] tag(2) o[unfolded fp(1)] this fp(2)] Inr show ?thesis by blast
  qed simp
qed

lemma member_get_cases:
  assumes "open_client srv s" "memberGetHandler srv env s = Some (rc, t)"
  shows "200 \<notin> statuses s t \<or>
    (\<exists>dsname member. ds_member s = Inr (dsname, member) \<and> downloads srv env dsname (qualified_dsn dsname member) s rc t)"
proof (cases "ds_member s")
  case (Inl m)
  with assms refused_errors(1)[of s srv ERR_INVALID_PARAM m] show ?thesis by (simp add: memberGetHandler_def ds_refused_def)
next
  case (Inr dm)
  obtain dsname member where dm: "dm = (dsname, member)" by force
  let ?target = "qualified_dsn dsname member"
  obtain ok s1 where g: "gates srv env dsname RACF_ATTR_READ s = (ok, s1)" by force
  obtain valid dt e where p: "parse_data_type (ss_env s ''HTTP_X-IBM-Data-Type'') = (valid, dt, e)" by (metis prod_cases3)
  let ?mode = "if dt = DATA_TYPE_TEXT then ''r'' else ''rb''"
  show ?thesis
  proof (cases "200 \<notin> statuses s t")
    case False
    then have nr: "\<not> ds_refused s t" by (simp add: ds_refused_def)
    with gates_cases[OF g] assms Inr dm g have ok: "s1 = s" "admitted env dsname RACF_ATTR_READ s" ok
      by (auto simp: memberGetHandler_def split: if_splits)
    have r: "\<And>v. t \<noteq> snd (send_bad_encoding srv v s)" using nr refused_errors by blast
    have v: valid
      using assms Inr dm g ok p r[of "ss_env s ''HTTP_X-IBM-Data-Type''"] by (auto simp: memberGetHandler_def Let_def split: if_splits)
    from assms Inr dm g ok p v obtain st s2 where st: "ds_stamp srv env ?target (-1) s = Some (st, s2)"
      by (auto simp: memberGetHandler_def Let_def split: option.splits if_splits)
    with ds_stamp_cases[OF st] assms Inr dm g ok p v False obtain tag where tag: "st = Inr tag" "ds_quiet s s2"
      by (cases st) (auto simp: memberGetHandler_def Let_def)
    obtain o' s3 where o: "ds_fopen env ?target ?mode s2 = (o', s3)" by force
    have q3: "ds_quiet s s3" using ds_quiet_steps(2)[of ?mode s2 env ?target] o by (auto intro: ds_quiet_trans[OF tag(2)])
    have nf: "t \<noteq> snd (send_open_failure srv env (Some dsname) (Some member) ''Cannot open dataset member'' s3)"
      using quiet_refused[OF q3 open_failure_refused] nr by blast
    from assms Inr dm g ok p v st tag o nf obtain fp where fp: "o' = Some fp"
        "ds_send_open srv env fp dt (ds_codepage env e) (-1) tag s3 = Some (rc, t)"
      by (cases o') (auto simp: memberGetHandler_def Let_def)
    from downloadsI[OF assms(1) ok(2) p[unfolded eqTrueI[OF v]] tag(2) o[unfolded fp(1)] _ fp(2)] Inr dm show ?thesis by blast
  qed simp
qed

section \<open>The handlers return\<close>

lemma text_loop_ends:
  "ds_lines env fp n u ls v \<Longrightarrow> us_ds s = u \<Longrightarrow> ds_text_loop srv env fp n fx cp rc s \<noteq> None"
proof (induction arbitrary: s rc rule: ds_lines.induct)
  case (at_end u v)
  then show ?case by (simp add: ds_text_loop.simps ds_fgets_def on_ds_def)
next
  case (line u b u1 bs v)
  let ?p = "map (cp_etoa cp) (text_line (de_code env newline) (de_code env blank) fx b)"
  obtain r t where t: "session_send_all srv ?p (s\<lparr>us_ds := u1\<rparr>) = (r, t)" by force
  with send_all_law(2)[of srv ?p "s\<lparr>us_ds := u1\<rparr>"] have "us_ds t = u1" by simp
  from line.IH[OF this, of r] line.hyps(1) line.prems t show ?case
    by (simp add: ds_text_loop.simps[of srv env fp n fx cp rc s] ds_fgets_def on_ds_def)
qed

lemma send_pieces_us: "us_ds (snd (send_pieces srv rc ps s)) = us_ds s"
proof (induction ps arbitrary: rc s)
  case (Cons p ps)
  obtain r t where t: "session_send_all srv p s = (r, t)" by force
  with send_all_law(2)[of srv p s] Cons[of r t] show ?case by simp
qed simp

lemma record_loop_ends:
  "ds_records env fp n limit count u bs v \<Longrightarrow> us_ds s = u \<Longrightarrow> ds_record_loop srv env fp n dt limit count rc s \<noteq> None"
proof (induction arbitrary: s rc rule: ds_records.induct)
  case (at_end u v count)
  then show ?case by (simp add: ds_record_loop.simps ds_fread_def on_ds_def)
next
  case (at_limit u b v count)
  then show ?case by (simp add: ds_record_loop.simps ds_fread_def on_ds_def)
next
  case (rec u b u1 count bs v)
  let ?p = "record_pieces dt b" and ?s = "s\<lparr>us_ds := u1\<rparr>"
  obtain r t where t: "send_pieces srv rc ?p ?s = (r, t)" by force
  with send_pieces_us[of srv rc ?p ?s] have "us_ds t = u1" by simp
  from rec.IH[OF this, of r] rec.hyps(1-3) rec.prems t show ?case
    by (auto simp: ds_record_loop.simps[of srv env fp n dt limit count rc s] ds_fread_def on_ds_def)
qed

lemma send_open_ends:
  assumes "ds_files_end env" shows "ds_send_open srv env fp dt cp limit tag s \<noteq> None"
proof -
  have l: "ds_text_loop srv env fp n fx cp rc t \<noteq> None" for n fx rc t
  proof -
    from assms obtain bs v where "ds_lines env fp n (us_ds t) bs v" unfolding ds_files_end_def by blast
    then show ?thesis by (rule text_loop_ends) simp
  qed
  have r: "ds_record_loop srv env fp n dt limit 0 rc t \<noteq> None" for n rc t
  proof -
    from assms obtain bs v where "file_reads (de_fread env fp) n (us_ds t) bs v" unfolding ds_files_end_def by blast
    from reads_records[OF this] obtain cs w where "ds_records env fp n limit 0 (us_ds t) cs w" by blast
    then show ?thesis by (rule record_loop_ends) simp
  qed
  have "read_and_send_dataset srv env fp dt cp limit tag t \<noteq> None" for t
    using l r by (auto simp: read_and_send_dataset_def Let_def simp del: not_None_eq split: prod.splits)
  then show ?thesis by (auto simp: ds_send_open_def simp del: not_None_eq split: option.splits)
qed

lemma ds_stamp_ends: "ds_files_end env \<Longrightarrow> ds_stamp srv env name bound s \<noteq> None"
  using dataset_etag_ends[of env srv name bound s]
  by (auto simp: ds_stamp_def Let_def simp del: not_None_eq split: option.splits prod.splits)

lemma ds_handlers_end:
  assumes "ds_files_end env"
  shows "datasetGetHandler srv env s \<noteq> None" "memberGetHandler srv env s \<noteq> None"
    "datasetPutHandler srv env rd s \<noteq> None" "memberPutHandler srv env rd s \<noteq> None"
proof -
  note ends = ds_stamp_ends[OF assms] send_open_ends[OF assms] check_if_match_ends[OF assms] put_write_ends[OF assms]
  show "datasetGetHandler srv env s \<noteq> None" "memberGetHandler srv env s \<noteq> None"
    using ends(1,2) by (auto simp: datasetGetHandler_def memberGetHandler_def Let_def simp del: not_None_eq
        split: sum.splits prod.splits option.splits)
  have "dataset_put_checked srv env dsname dt cp framing t \<noteq> None" for dsname dt cp framing t
    by (auto simp: dataset_put_checked_def Let_def ends(3,4) simp del: not_None_eq split: prod.splits option.splits)
  then show "datasetPutHandler srv env rd s \<noteq> None"
    by (auto simp: datasetPutHandler_def Let_def simp del: not_None_eq split: sum.splits prod.splits)
  have "member_put_checked srv env dsname target dt cp framing t \<noteq> None" for dsname target dt cp framing t
    by (auto simp: member_put_checked_def Let_def ends(3,4) simp del: not_None_eq split: prod.splits option.splits)
  then show "memberPutHandler srv env rd s \<noteq> None"
    by (auto simp: memberPutHandler_def Let_def simp del: not_None_eq split: sum.splits prod.splits)
qed

section \<open>Callers without authority\<close>

text \<open>The answer to them, from what the security product says; it knows nothing of the catalog.\<close>

definition access_refused :: "httpd \<Rightarrow> int \<Rightarrow> 'd dsession \<Rightarrow> 'd dsession" where
  "access_refused srv rc s =
     snd (if rc < 0
          then sendErrorResponse srv HTTP_STATUS_UNAUTHORIZED CATEGORY_AUTHORIZATION RC_ERROR
             REASON_NOT_AUTHORIZED (Some ERR_MSG_NOT_AUTHORIZED) [] s
          else send_not_authorized srv None s)"

lemma gates_refuse:
  assumes "de_check_auth env ''DATASET'' dsname attr \<noteq> 0"
  shows "gates srv env dsname attr s = (False, access_refused srv (de_check_auth env ''DATASET'' dsname attr) s)"
  using assms by (simp add: gates_def require_access_def access_refused_def Let_def)

section \<open>A data set for the witnesses\<close>

text \<open>Fixed-length records of three bytes; the state is what was written and what is left to read.\<close>

definition sample_codes :: dscb_codes where
  "sample_codes = \<lparr>DSGPS = 0x40, DSGPO = 0x02, DSGDA = 0x20, DSGIS = 0x80, ORGAM = 0x08, RECFF = 0x80, RECFV = 0x40,
     RECFU = 0xC0, RECFB = 0x10, RECFS = 0x08, RECFA = 0x04, RECMC = 0x02, CYL = 0xC0, FILE_RECFM_TYPE = 0xC0,
     FILE_RECFM_V = 0x40, FILE_RECFM_U = 0xC0\<rparr>"

definition sample_ds_env :: "(byte list \<times> byte list) ds_env" where
  "sample_ds_env = \<lparr>de_codes = sample_codes, de_check_auth = (\<lambda>_ _ _. 0), de_locate = (\<lambda>_ _. Some ''VOL001''),
     de_dscbdv = (\<lambda>_ _ _. None), de_dscbv = (\<lambda>_ _. None), de_dscbav = (\<lambda>_ _ _. None), de_listpd = (\<lambda>_ _ _. (None, 0)),
     de_listds = (\<lambda>_ _ _. (None, 0)), de_lock_granted = True, de_errno = (\<lambda>_. 0), de_enomem = 12, de_enospc = 28,
     de_fopen = (\<lambda>_ m (c, r). (Some 1, if m = ''w'' then ([], []) else (c, c))),
     de_dcb = (\<lambda>_ _. \<lparr>dc_recfm = 0x80, dc_lrecl = 3, dc_blksize = 3\<rparr>),
     de_fread = (\<lambda>_ n (c, r). (take n r, (c, drop n r))),
     de_fgets = (\<lambda>_ n (c, r). if r = [] then (None, (c, r)) else (Some (take 3 r), (c, drop 3 r))),
     de_ferror = (\<lambda>_ _. False), de_fwrite = (\<lambda>_ d (c, r). (length d, (c @ d, r))), de_fflush = (\<lambda>_ u. (0, u)),
     de_fclose = (\<lambda>_ u. (0, u)), de_remove = (\<lambda>_ u. (0, u)), de_rename = (\<lambda>_ _ u. (0, u)),
     de_renmem = (\<lambda>_ _ _ u. (0, u)), de_dsalcf = (\<lambda>_ u. (0, u)), de_dsfree = (\<lambda>u. u),
     de_cp037 = \<lparr>cp_etoa = (\<lambda>b. b + 1), cp_atoe = (\<lambda>b. b - 1)\<rparr>,
     de_1047 = \<lparr>cp_etoa = (\<lambda>b. b), cp_atoe = (\<lambda>b. b)\<rparr>, de_code = (\<lambda>c. of_nat (of_char c)),
     de_char = (\<lambda>b. char_of (unat b))\<rparr>"

definition sample_ds :: "(byte list \<times> byte list) dsession" where
  "sample_ds = \<lparr>ss_conn = sample_conn\<lparr>hc_rx := [RxData [0x41, 0x42, 0x0A], RxData [0x43]]\<rparr>,
     ss_env = [''HTTP_dataset-name'' \<mapsto> ''a'', ''HTTP_CONTENT-LENGTH'' \<mapsto> ''4''], ss_prints = [], ss_out = [],
     ss_headers_sent = False, rs_files = [], rs_jes = None, rs_console_lock = None, rs_dslist_lock = False,
     rs_acee = None, rs_old_acee = None, rs_task_acee = None, rs_calls = [], us_ds = ([0x50, 0x51], [])\<rparr>"

definition sample_ds_reader :: "(byte list \<times> byte list) ds_reader" where
  "sample_ds_reader s = ((REQBODY_BAD, None), s)"

section \<open>Properties\<close>


text \<open>C37: nothing of a data set is opened for output, and no upload is answered as a success, unless the caller may update the
  data set, the volume the caller names, if any, is the one it is on, and the stamp of an If-Match header is the one the data
  set or the member has.\<close>

theorem put_guarded:
  assumes "\<not> is_control_request s" "outs s t os" "os \<noteq> [] \<or> 204 \<in> statuses s t"
    "datasetPutHandler srv env rd s = Some (rc, t) \<or> memberPutHandler srv env rd s = Some (rc, t)"
  shows "\<exists>dsname target. (ds_dsname s = Inr dsname \<and> target = dsname \<or>
      (\<exists>member. ds_member s = Inr (dsname, member) \<and> target = qualified_dsn dsname member)) \<and>
    admitted env dsname RACF_ATTR_UPDATE s \<and> (\<exists>u bound. ds_quiet s u \<and> match_holds srv env target bound u)"
proof -
  have "\<not> ds_refused s t" using assms(2,3) outs_unique by (auto simp: ds_refused_def)
  with assms(1,4) dataset_put_cases[of srv env rd s rc t] member_put_cases[of srv env rd s rc t]
  show ?thesis unfolding uploads_def upload_passed_def by blast
qed




text \<open>C40: every transfer of a data set or a member returns, whatever the request, the socket and the errors of the file system
  are, as long as its files end.\<close>

theorem ds_transfers_return:
  assumes "ds_files_end env"
  shows "(\<exists>r. datasetGetHandler srv env s = Some r) \<and> (\<exists>r. memberGetHandler srv env s = Some r) \<and>
    (\<exists>r. datasetPutHandler srv env rd s = Some r) \<and> (\<exists>r. memberPutHandler srv env rd s = Some r)"
  using ds_handlers_end[OF assms, where srv = srv and s = s] by (simp del: split_paired_Ex)

section \<open>Witnesses\<close>

lemma sample_ds_ends: "ds_files_end sample_ds_env"
proof -
  have r: "\<exists>bs v. file_reads (de_fread sample_ds_env fp) n (c, r) bs v" for fp n c r
  proof (induction r rule: length_induct)
    case (1 r)
    show ?case
    proof (cases "r = [] \<or> n = 0")
      case True
      then have "file_reads (de_fread sample_ds_env fp) n (c, r) [] (c, drop n r)"
        by (intro file_reads.at_end) (auto simp: sample_ds_env_def)
      then show ?thesis by blast
    next
      case False
      with 1[rule_format, of "drop n r"] obtain bs v where "file_reads (de_fread sample_ds_env fp) n (c, drop n r) bs v"
        by auto
      with False have "file_reads (de_fread sample_ds_env fp) n (c, r) (take n r # bs) v"
        by (intro file_reads.piece[where ?u1.0 = "(c, drop n r)"]) (simp_all add: sample_ds_env_def)
      then show ?thesis by blast
    qed
  qed
  have l: "\<exists>bs v. ds_lines sample_ds_env fp n (c, r) bs v" for fp n c r
  proof (induction r rule: length_induct)
    case (1 r)
    show ?case
    proof (cases "r = []")
      case True
      then have "ds_lines sample_ds_env fp n (c, r) [] (c, r)" by (intro ds_lines.at_end) (simp add: sample_ds_env_def)
      then show ?thesis by blast
    next
      case False
      with 1[rule_format, of "drop 3 r"] obtain bs v where "ds_lines sample_ds_env fp n (c, drop 3 r) bs v" by auto
      with False have "ds_lines sample_ds_env fp n (c, r) (take 3 r # bs) v"
        by (intro ds_lines.line[where ?u1.0 = "(c, drop 3 r)"]) (simp_all add: sample_ds_env_def)
      then show ?thesis by blast
    qed
  qed
  from r l show ?thesis by (simp add: ds_files_end_def split_paired_all)
qed

lemma sample_ds_request:
  "\<not> is_control_request sample_ds" "ds_dsname sample_ds = Inr ''A''"
  "parse_data_type (ss_env sample_ds ''HTTP_X-IBM-Data-Type'') = (True, DATA_TYPE_TEXT, FILE_ENC_DEFAULT)"
  "body_framing sample_ds = (False, Some 4)" "stream sample_ds = [0x41, 0x42, 0x0A, 0x43]"
proof -
  show "\<not> is_control_request sample_ds"
    by (simp add: is_control_request_def getHeaderParam_def get_env_param_def c_snprintf_def ENV_NAME_SIZE_def sample_ds_def)
  show "parse_data_type (ss_env sample_ds ''HTTP_X-IBM-Data-Type'') = (True, DATA_TYPE_TEXT, FILE_ENC_DEFAULT)"
    by (simp add: sample_ds_def parse_data_type_def)
  show "ds_dsname sample_ds = Inr ''A''" by code_simp
  show "body_framing sample_ds = (False, Some 4)"
    by (simp add: body_framing_def sample_ds_def strtoul10_def c_at_def isspace_def is_digit_def digit_val_def Let_def)
  show "stream sample_ds = [0x41, 0x42, 0x0A, 0x43]" by code_simp
qed

theorem ds_transfers_return_witness: "\<exists>r. datasetPutHandler sample_httpd sample_ds_env sample_ds_reader sample_ds = Some r"
  using ds_transfers_return[OF sample_ds_ends] by blast


text \<open>An upload of nothing.\<close>

definition sample_empty :: "(byte list \<times> byte list) dsession" where
  "sample_empty = sample_ds\<lparr>ss_env := [''HTTP_dataset-name'' \<mapsto> ''a'', ''HTTP_CONTENT-LENGTH'' \<mapsto> ''0'']\<rparr>"

lemma sample_gates:
  assumes "ss_env s ''HTTP_volume-serial'' = None"
  shows "gates sample_httpd sample_ds_env dsname attr s = (True, s)" "\<not> is_pds sample_ds_env u dsname"
  using assms by (simp_all add: gates_def require_access_def volume_gate_def is_pds_def cataloged_dscb_def sample_ds_env_def Let_def)

lemma empty_body: "put_body env wt (False, Some 0) fp s = (None, start_writer fp (wt_content_max wt), s)" if "wt_type wt = DATA_TYPE_TEXT"
  using that
  by (simp add: put_body_def length_body_def body_data_def final_record_def start_writer_def recline_flush_def recline_init_def)

lemma sample_empty_put:
  "\<exists>rc t os. datasetPutHandler sample_httpd sample_ds_env sample_ds_reader sample_empty = Some (rc, t) \<and>
     outs sample_empty t os \<and> os \<noteq> []"
proof -
  let ?wt = "make_target sample_ds_env ''A'' DATA_TYPE_TEXT (de_cp037 sample_ds_env) False \<lparr>dc_recfm = 0x80, dc_lrecl = 3, dc_blksize = 3\<rparr>"
  let ?failed = "handle_error sample_httpd ERR_IO ''Cannot open dataset for writing''"
  let ?b = "\<lambda>u. get_fb_record_count sample_ds_env u ''A''"
  let ?s = "do_call (Fclose 1) (do_call (DsOpen ''A'' ''r'') sample_empty\<lparr>us_ds := ([0x50, 0x51], [0x50, 0x51])\<rparr>)"
  have c: "\<not> is_control_request sample_empty" "body_framing sample_empty = (False, Some 0)"
    by (simp_all add: is_control_request_def getHeaderParam_def get_env_param_def c_snprintf_def ENV_NAME_SIZE_def
        sample_empty_def body_framing_def strtoul10_def c_at_def isspace_def is_digit_def digit_val_def Let_def)
  have n: "ds_dsname sample_empty = Inr ''A''" by code_simp
  have h: "getHeaderParam ?s ''If-Match'' = None"
    by (simp add: getHeaderParam_def get_env_param_def c_snprintf_def ENV_NAME_SIZE_def sample_empty_def do_call_def)
  have w: "wt_piece ?wt \<noteq> 0 \<and> wt_content_max ?wt \<noteq> 0" "wt_type ?wt = DATA_TYPE_TEXT" by code_simp+
  have o: "ds_fopen sample_ds_env ''A'' ''r'' sample_empty =
      (Some 1, do_call (DsOpen ''A'' ''r'') sample_empty\<lparr>us_ds := ([0x50, 0x51], [0x50, 0x51])\<rparr>)"
    by (simp add: ds_fopen_def on_ds_def sample_ds_env_def sample_empty_def sample_ds_def do_call_def)
  have e: "ss_env sample_empty ''HTTP_volume-serial'' = None" "ss_env sample_empty ''HTTP_X-IBM-Data-Type'' = None"
    by (simp_all add: sample_empty_def)
  have cl: "ds_fclose sample_ds_env 1 v = (0, do_call (Fclose 1) v)"
      "ds_dcb sample_ds_env 1 v = \<lparr>dc_recfm = 0x80, dc_lrecl = 3, dc_blksize = 3\<rparr>"
      "ds_codepage sample_ds_env FILE_ENC_DEFAULT = de_cp037 sample_ds_env" for v
    by (simp_all add: ds_fclose_def on_ds_def do_call_def ds_dcb_def ds_codepage_def sample_ds_env_def)
  have run: "datasetPutHandler sample_httpd sample_ds_env sample_ds_reader sample_empty =
      put_write sample_httpd sample_ds_env ?wt (False, Some 0) ?b ?failed None ?s"
    by (simp add: datasetPutHandler_def parse_data_type_def dataset_put_checked_def n c h o e(1,2) sample_gates[OF e(1)]
        check_if_match_def cl Let_def del: One_nat_def)
  obtain rc t where r: "datasetPutHandler sample_httpd sample_ds_env sample_ds_reader sample_empty = Some (rc, t)"
    using ds_handlers_end(3)[OF sample_ds_ends, where srv = sample_httpd and rd = sample_ds_reader and s = sample_empty] by auto
  with run w have "put_finish sample_httpd sample_ds_env ?wt ?b ?failed (start_writer None (wt_content_max ?wt)) ?s = Some (rc, t)"
    by (simp add: put_write_def empty_body sample_httpd_def)
  from put_finish_outs(1)[OF target_text(1) this refused_errors(1)]
  have "outs ?s t [DsOpen ''A'' ''w'']" by (simp add: start_writer_def make_target_def Let_def)
  moreover have "outs sample_empty ?s []" by (simp add: outs_def do_call_def is_output_def)
  ultimately have "outs sample_empty t [DsOpen ''A'' ''w'']" by (rule outs_quiet_trans[rotated])
  with r show ?thesis by blast
qed

theorem put_guarded_witness:
  "\<exists>dsname. ds_dsname sample_empty = Inr dsname \<and> admitted sample_ds_env dsname RACF_ATTR_UPDATE sample_empty"
proof -
  obtain rc t os where r: "datasetPutHandler sample_httpd sample_ds_env sample_ds_reader sample_empty = Some (rc, t)"
    "outs sample_empty t os" "os \<noteq> []" using sample_empty_put by blast
  have c: "\<not> is_control_request sample_empty"
    by (simp add: is_control_request_def getHeaderParam_def get_env_param_def c_snprintf_def ENV_NAME_SIZE_def sample_empty_def)
  have n: "ds_member sample_empty = Inl ''Dataset and member names are required''"
    by (simp add: ds_member_def sample_empty_def)
  from put_guarded[OF c r(2) disjI1[OF r(3)] disjI1[OF r(1)]] n show ?thesis by auto
qed


lemma send_open_200:
  assumes "open_client srv s" "\<forall>n. hd_alloc srv n" "ds_send_open srv env fp DATA_TYPE_TEXT cp limit tag s = Some (rc, t)"
  shows "200 \<in> statuses s t"
proof -
  let ?s = "snd (session_register_file s (Some fp))" and ?d = "ds_dcb env fp (snd (session_register_file s (Some fp)))"
  have q: "ds_quiet s ?s" by (rule ds_quiet_steps)
  obtain items where h: "send_standard_headers srv ''text/plain'' tag ?s =
      (0, ?s\<lparr>ss_headers_sent := True, ss_out := ss_out ?s @ OutStatus 200 # items\<rparr>)"
    using standard_headers_open[OF quiet_open_client[OF q assms(1)]] by blast
  let ?v = "?s\<lparr>ss_headers_sent := True, ss_out := ss_out ?s @ OutStatus 200 # items\<rparr>"
  have hd: "hd_alloc srv (dc_lrecl ?d + 2)" using assms(2) by simp
  from assms(3) obtain u where "read_and_send_dataset srv env fp DATA_TYPE_TEXT cp limit tag ?s = Some (rc, u)"
    and t: "t = snd (ds_session_fclose env (Some fp) u)"
    by (auto simp: ds_send_open_def split: option.splits)
  moreover have "read_and_send_dataset srv env fp DATA_TYPE_TEXT cp limit tag ?s =
      map_option (ds_read_end srv env fp) (ds_text_loop srv env fp (dc_lrecl ?d + 2) (ds_is_fixed env ?d) cp 0 ?v)"
    by (simp only: read_and_send_dataset_def Let_def hd h data_type.distinct simp_thms not_True_eq_False if_False if_True
        prod.case less_irrefl)
  ultimately obtain r where r: "ds_text_loop srv env fp (dc_lrecl ?d + 2) (ds_is_fixed env ?d) cp 0 ?v = Some r"
      "(rc, u) = ds_read_end srv env fp r"
    by (auto simp del: split_paired_Ex)
  from text_loop_law[OF r(1) refl] have "ss_out (snd r) = ss_out ?v" by (cases r) (auto simp: sent_or_torn_def)
  with r(2) have "ss_out u = ss_out ?v" by (cases r) (auto simp: ds_read_end_def do_call_def Let_def split: if_splits)
  moreover have "ss_out t = ss_out u" "ss_out ?s = ss_out s"
    unfolding t using ds_quiet_keeps(2)[OF ds_quiet_steps(4)] ds_quiet_keeps(2)[OF q] by blast+
  ultimately show ?thesis by (simp add: statuses_def)
qed


end
