(* ===== verification/Spec2Isabelle.thy ===== *)
theory Spec2Isabelle
  imports TextSum ETag JsonBuilder RecLines SendAll ReqBody Response Router Dispatch Jwn JobReq
    JobCard JobsApi JobList Spool JclLines JclSubmit JobSubmit DsMeta IspfStat KeyStore MttSnap
    Correlate Console ConsoleApi ConsoleIssue Headers UssFiles UssTransfer UssDirs UssTree DsNames
    DsSpace DsAccess DsRead DsRename DsWrite DsPut DsUpload DsTransfer
begin

text \<open>
  Verification development for mvsMF, a z/OSMF compatible REST server for MVS 3.8j that runs as a
  CGI module of the HTTP server httpd.

  \<^bold>\<open>The program.\<close>  A request comes in through \<^verbatim>\<open>src/mvsmf.c\<close>, which registers the routes and the identity
  check and hands the request to the router (\<^verbatim>\<open>src/router.c\<close>).  The router matches the path, checks
  the identity, calls one handler under an ESTAE and cleans up behind an abend.  A handler reads
  its parameters and its body, asks RACF and the operating system, and answers with JSON or with
  the records of a file.  What handlers share is \<^verbatim>\<open>src/common.c\<close> and \<^verbatim>\<open>src/json.c\<close>.

  \<^bold>\<open>The theories.\<close>

  \<^item> Prelude: machine types, C strings as character lists without the NUL, the few functions of
    \<^verbatim>\<open>string.h\<close>, \<^verbatim>\<open>ctype.h\<close> and \<^verbatim>\<open>stdio.h\<close> the sources use, and the lemmas about them.
  \<^item> TextSum (\<^verbatim>\<open>textsum.c\<close>), ETag (\<^verbatim>\<open>etag.c\<close>): check sums of the module text and entity tags; damage and
    edits show, chunking does not matter, a precondition header holds exactly for a matching tag.
  \<^item> JsonBuilder (\<^verbatim>\<open>json.c\<close>): the builder with its buffer and a refusing allocator; documents are the text
    JSON has for them, strings decode to what was put in.
  \<^item> RecLines (\<^verbatim>\<open>reclines.c\<close>, \<^verbatim>\<open>reclimit.c\<close>): uploads framed into records.
  \<^item> Connection, SendAll (\<^verbatim>\<open>sendall.c\<close>), ReqBody (\<^verbatim>\<open>reqbody.c\<close>): the socket as a script of events, the send
    loop that sends all or tears the connection down, and the body reader, plain and chunked.
  \<^item> Response (\<^verbatim>\<open>common.c\<close>): headers, error reports and JSON answers as the list of what is printed.
  \<^item> Router, Dispatch (\<^verbatim>\<open>router.c\<close>, \<^verbatim>\<open>reqpath.c\<close>, \<^verbatim>\<open>abendmsg.c\<close>, \<^verbatim>\<open>buildkind.c\<close>, \<^verbatim>\<open>mvsmf.c\<close>): patterns and captures,
    the identity middleware, what a session tracks and what an abend releases.
  \<^item> Jwn (\<^verbatim>\<open>jwn.c\<close>, \<^verbatim>\<open>jobauth.c\<close>, \<^verbatim>\<open>authdec.c\<close>): the policy on spool data and its cache, and the gate of the
    console; JobReq (\<^verbatim>\<open>jobreq.c\<close>), JobCard (\<^verbatim>\<open>jobcard.c\<close>), JclLines (\<^verbatim>\<open>jclines.c\<close>): update requests, JOB cards
    and the growing table of cards.
  \<^item> JobsApi, JobList, Spool, JclSubmit, JobSubmit (\<^verbatim>\<open>jobsapi.c\<close>, \<^verbatim>\<open>spoolln.c\<close>, \<^verbatim>\<open>subdsn.c\<close>): the job handlers:
    cancel and purge, list and status, spool files and records, submission.
  \<^item> DsMeta (\<^verbatim>\<open>dsextent.c\<close>, \<^verbatim>\<open>blkptrk.c\<close>, \<^verbatim>\<open>listfail.c\<close>, \<^verbatim>\<open>volser.c\<close>), IspfStat (\<^verbatim>\<open>ispfstat.c\<close>): what the data set
    services read off a volume and out of a directory.
  \<^item> KeyStore (\<^verbatim>\<open>ntstore.c\<close>, \<^verbatim>\<open>mvsmfctx.c\<close>), MttSnap (\<^verbatim>\<open>mttsnap.c\<close>), Correlate, Console, ConsoleApi, ConsoleIssue
    (\<^verbatim>\<open>consauth.c\<close>, \<^verbatim>\<open>collpoll.c\<close>, \<^verbatim>\<open>consapi.c\<close>): the console service: the store of cursors as a bounded map,
    detection in the wrapping Master Trace Table, the block of a command, and the handlers.
  \<^item> Headers (\<^verbatim>\<open>datatype.c\<close>, \<^verbatim>\<open>hostparse.c\<close>, \<^verbatim>\<open>infoapi.c\<close>): the transfer mode of a request and the information
    document, which names a usable address whatever the Host header is.
  \<^item> UssFiles, UssTransfer (\<^verbatim>\<open>ussread.c\<close>, \<^verbatim>\<open>ussapi.c\<close>): GET and PUT of a UNIX file; a download is the whole file or
    torn down, an upload touches the file only when its precondition holds.  UssDirs, UssTree
    (\<^verbatim>\<open>ussapi.c\<close>): listing, creating and deleting.
  \<^item> DsNames, DsSpace (\<^verbatim>\<open>dsapi.c\<close>): names, query keys and the member pattern; what is read off the catalog and the
    VTOC, which \<open>ds_env\<close> holds as functions.  The matcher decides the textbook definition of a pattern.
  \<^item> DsAccess, DsRead, DsRename, DsWrite, DsPut (\<^verbatim>\<open>dsapi.c\<close>): the gates, stamps and preconditions; GET; the rename
    request and the deletions; the record writer and the body loops; PUT.
  \<^item> DsUpload, DsTransfer: an upload of text stores the lines of its body and touches nothing before its gates
    (\<open>outs\<close> is what was opened for output and written), a download is whole or torn down, a caller
    without authority learns nothing, and transfers return on files that end.
  \<^bold>\<open>Conventions.\<close>  A handler is a function of the session that returns its code and the session behind
  it.  A NULL pointer is \<open>None\<close>; a failing call is an \<open>option\<close>, a sum or the code the source has.
  Code that is not in the repository (httpd, libc370, RACF, JES2, the volume, the clock) is a
  parameter: a function or a record of functions, a script of events the state carries along, or,
  where the world changes under a request, a function of a tick that every look advances.  What
  reaches the operating system is recorded in \<open>rs_calls\<close>, so ordering is a statement about that list.
  Integers are words where they wrap or are stored as bytes, \<open>nat\<close> or \<open>int\<close> where the code bounds
  them.  Characters are ASCII; the translation to and from EBCDIC is a parameter.

  \<^bold>\<open>Interfaces.\<close>  What one component relies on in another is a locale, interpreted on the definitions of
  the provider: the send operations, the memo of the spool policy, the store of the console and
  others; the client's lemmas are proved inside.

  \<^bold>\<open>Loops.\<close>  Loops over data are structural recursion.  Loops with a bound in the code (100 pauses of
  a send, 200 retries of a receive, 50 tries for the correlation lock, 5 looks behind a purge, 4 DSCBs
  of a chain) carry that bound as their fuel, so it is the code's own.  Loops that read input have a
  measure on what is left of it.  The two waits of the console are \<open>partial_function\<close>s, proved
  to return on a clock that runs.

  \<^bold>\<open>Not modelled.\<close>  The creation of data sets, login, the test endpoints and the hardcopy log; the
  freeing of storage, console messages but for their kind, and the assembler of SVC calls.  A
  recursive deletion is not shown to end: it ends when the directories of the file system do.
\<close>

end
